(* ===== verification/Prelude.thy ===== *)
theory Prelude
  imports Main "HOL-Library.Word" "HOL-Library.Finite_Map" "HOL-Library.List_Lexorder"
    "HOL-Library.Char_ord" "HOL-Library.Sublist" "HOL-Library.Monad_Syntax"
begin

text \<open>
  Shared vocabulary of the development.  A Go string is a byte sequence, modelled as a
  \<open>string\<close> (a \<open>char\<close> is one byte; the linear order of HOL-Library.List_Lexorder on it is Go's
  byte-wise string comparison).  A Go \<open>map[string]T\<close> is a finite map, a slice is a list.  This
  theory collects the simplification bundles and the generic lemmas on lists that the
  component theories share.
\<close>

named_theorems go_defs "definitions unfolded together when a component's step is evaluated"
named_theorems frame_simps "fields that an operation leaves alone"

type_synonym go_map = "(string, string) fmap"

section \<open>First match in a list\<close>

text \<open>
  Many operations of the code scan a slice for the first element with a given key and then
  replace it in place, or append when there is none.
\<close>

fun upsert :: "('a \<Rightarrow> bool) \<Rightarrow> ('a \<Rightarrow> 'a) \<Rightarrow> 'a \<Rightarrow> 'a list \<Rightarrow> 'a list" where
  "upsert p f y [] = [y]"
| "upsert p f y (x # xs) = (if p x then f x # xs else x # upsert p f y xs)"

lemma upsert_hit:
  "\<lbrakk>p x; \<And>z. z \<in> set ys \<Longrightarrow> \<not> p z\<rbrakk> \<Longrightarrow> upsert p f y (ys @ x # zs) = ys @ f x # zs"
  by (induction ys) auto

lemma upsert_miss: "(\<And>z. z \<in> set xs \<Longrightarrow> \<not> p z) \<Longrightarrow> upsert p f y xs = xs @ [y]"
  by (induction xs) auto

lemma map_upsert_key:
  "\<lbrakk>\<And>x. p x \<Longrightarrow> k (f x) = k x\<rbrakk> \<Longrightarrow>
   map k (upsert p f y xs) = (if list_ex p xs then map k xs else map k xs @ [k y])"
  by (induction xs) auto

lemma upsert_id: "\<lbrakk>list_ex p xs; \<And>x. p x \<Longrightarrow> f x = x\<rbrakk> \<Longrightarrow> upsert p f y xs = xs"
  by (induction xs) auto

lemma set_upsert_subset: "set (upsert p f y xs) \<subseteq> set xs \<union> f ` set xs \<union> {y}"
  by (induction xs) auto

lemma list_ex_map_key: "list_ex (\<lambda>x. k x = v) xs \<longleftrightarrow> v \<in> set (map k xs)"
  by (induction xs) auto

lemma find_append:
  "find p (xs @ ys) = (case find p xs of None \<Rightarrow> find p ys | Some x \<Rightarrow> Some x)"
  by (induction xs) auto

lemma find_SomeD: "find p xs = Some x \<Longrightarrow> x \<in> set xs \<and> p x"
  by (induction xs) (auto split: if_splits)

lemma find_map_key: "find (\<lambda>x. p (k x)) xs = None \<longleftrightarrow> (\<forall>v \<in> set (map k xs). \<not> p v)"
  by (induction xs) auto

section \<open>Prefix-preserving growth of a list\<close>

text \<open>
  \<open>grows r xs ys\<close>: every element of \<open>xs\<close> is still in its place in \<open>ys\<close>, up to \<open>r\<close>, and
  \<open>ys\<close> may have further elements at the end.
\<close>

definition grows :: "('a \<Rightarrow> 'a \<Rightarrow> bool) \<Rightarrow> 'a list \<Rightarrow> 'a list \<Rightarrow> bool" where
  "grows r xs ys \<longleftrightarrow> length xs \<le> length ys \<and> list_all2 r xs (take (length xs) ys)"

lemma grows_refl [simp, intro]: "(\<And>x. r x x) \<Longrightarrow> grows r xs xs"
  by (simp add: grows_def list_all2_refl)

lemma grows_Nil [simp]: "grows r [] ys"
  by (simp add: grows_def)

lemma grows_Cons [simp]:
  "grows r (x # xs) ys \<longleftrightarrow> (\<exists>y zs. ys = y # zs \<and> r x y \<and> grows r xs zs)"
  by (cases ys) (auto simp: grows_def)

lemma grows_iff: "grows r xs ys \<longleftrightarrow> (\<exists>us vs. ys = us @ vs \<and> list_all2 r xs us)"
proof
  assume "grows r xs ys"
  then have "ys = take (length xs) ys @ drop (length xs) ys \<and> list_all2 r xs (take (length xs) ys)"
    by (simp add: grows_def)
  then show "\<exists>us vs. ys = us @ vs \<and> list_all2 r xs us" by blast
next
  assume "\<exists>us vs. ys = us @ vs \<and> list_all2 r xs us"
  then obtain us vs where "ys = us @ vs" "list_all2 r xs us" by blast
  moreover from this have "length us = length xs" by (simp add: list_all2_lengthD)
  ultimately show "grows r xs ys" by (simp add: grows_def)
qed

lemma grows_trans:
  assumes "grows r xs ys" "grows r ys zs" and t: "\<And>a b c. r a b \<Longrightarrow> r b c \<Longrightarrow> r a c"
  shows "grows r xs zs"
  using assms(1,2)
proof (induction xs arbitrary: ys zs)
  case Nil
  show ?case by simp
next
  case (Cons x xs)
  then obtain y ys' z zs' where *: "ys = y # ys'" "zs = z # zs'" "r x y" "r y z"
    "grows r xs ys'" "grows r ys' zs'" by auto
  then have "grows r xs zs'" using Cons.IH by blast
  with * show ?case using t by simp
qed

lemma grows_append [intro]: "(\<And>x. r x x) \<Longrightarrow> grows r xs (xs @ ys)"
  by (auto simp: grows_iff list_all2_refl)

lemma grows_map: "(\<And>x. x \<in> set xs \<Longrightarrow> r x (f x)) \<Longrightarrow> grows r xs (map f xs)"
  by (induction xs) auto

lemma grows_lengthD: "grows r xs ys \<Longrightarrow> length xs \<le> length ys"
  by (simp add: grows_def)

lemma grows_nthD: "\<lbrakk>grows r xs ys; i < length xs\<rbrakk> \<Longrightarrow> r (xs ! i) (ys ! i)"
  by (auto simp: grows_def list_all2_conv_all_nth)

lemma grows_eq_prefix: "grows (=) xs ys \<longleftrightarrow> prefix xs ys"
  by (auto simp: grows_iff prefix_def list.rel_eq)

lemma grows_mono: "\<lbrakk>grows r xs ys; \<And>a b. r a b \<Longrightarrow> s a b\<rbrakk> \<Longrightarrow> grows s xs ys"
  by (auto simp: grows_def elim: list_all2_mono)

section \<open>Distinct first-occurrence lists\<close>

text \<open>The \<open>seen\<close>-set loop that keeps the first occurrence of every element.\<close>

fun dedup_from :: "'a set \<Rightarrow> 'a list \<Rightarrow> 'a list" where
  "dedup_from seen [] = []"
| "dedup_from seen (x # xs) =
     (if x \<in> seen then dedup_from seen xs else x # dedup_from (insert x seen) xs)"

lemma set_dedup_from: "set (dedup_from seen xs) = set xs - seen"
  by (induction seen xs rule: dedup_from.induct) auto

lemma distinct_dedup_from: "distinct (dedup_from seen xs)"
  by (induction seen xs rule: dedup_from.induct) (auto simp: set_dedup_from)

lemma dedup_from_distinct: "\<lbrakk>distinct xs; set xs \<inter> seen = {}\<rbrakk> \<Longrightarrow> dedup_from seen xs = xs"
  by (induction seen xs rule: dedup_from.induct) auto

end
