(* ===== verification/Go_Strings.thy ===== *)
theory Go_Strings
  imports Prelude
begin

text \<open>
  The parts of Go's standard library the program calls on strings: package \<open>strings\<close>
  (Split, Join, Fields, TrimSpace, Contains, HasPrefix, ...), package \<open>strconv\<close> (ParseBool,
  ParseInt, FormatInt) and package \<open>path/filepath\<close> on Unix (Clean, Dir).  White space is
  Unicode white space, recognised in its UTF-8 encoding: lead bytes are never continuation
  bytes, so matching the byte sequences agrees with decoding runes.
\<close>

section \<open>Splitting and joining\<close>

fun split_on :: "char \<Rightarrow> string \<Rightarrow> string list" where
  "split_on c [] = [[]]"
| "split_on c (x # xs) =
     (if x = c then [] # split_on c xs
      else (case split_on c xs of [] \<Rightarrow> [[x]] | w # ws \<Rightarrow> (x # w) # ws))"

fun join :: "string \<Rightarrow> string list \<Rightarrow> string" where
  "join sep [] = []"
| "join sep [w] = w"
| "join sep (w # v # ws) = w @ sep @ join sep (v # ws)"

lemma split_on_not_Nil [simp]: "split_on c s \<noteq> []"
  by (induction s) (auto split: list.splits)

lemma split_on_no_sep: "c \<notin> set s \<Longrightarrow> split_on c s = [s]"
  by (induction s) auto

lemma split_on_parts: "w \<in> set (split_on c s) \<Longrightarrow> c \<notin> set w"
proof (induction s arbitrary: w)
  case Nil
  then show ?case by simp
next
  case (Cons x xs)
  then show ?case by (cases "split_on c xs") (auto split: if_splits)
qed

lemma split_on_append_sep: "split_on c (xs @ c # ys) = split_on c xs @ split_on c ys"
proof (induction xs)
  case Nil
  then show ?case by simp
next
  case (Cons x xs)
  then show ?case by (cases "split_on c xs") auto
qed

lemma join_split_on: "join [c] (split_on c s) = s"
proof (induction s)
  case Nil
  then show ?case by simp
next
  case (Cons x xs)
  obtain w ws where w: "split_on c xs = w # ws"
    by (cases "split_on c xs") auto
  with Cons have j: "join [c] (w # ws) = xs" by simp
  show ?case using j w by (cases ws) auto
qed

lemma split_on_join:
  "\<lbrakk>ws \<noteq> []; \<And>w. w \<in> set ws \<Longrightarrow> c \<notin> set w\<rbrakk> \<Longrightarrow> split_on c (join [c] ws) = ws"
proof (induction "[c]" ws rule: join.induct)
  case 1
  then show ?case by simp
next
  case (2 w)
  then show ?case by (simp add: split_on_no_sep)
next
  case (3 w v ws)
  have "split_on c (join [c] (w # v # ws)) = split_on c w @ split_on c (join [c] (v # ws))"
    using split_on_append_sep [of c w "join [c] (v # ws)"] by simp
  also have "\<dots> = [w] @ (v # ws)"
    using 3 by (simp add: split_on_no_sep)
  finally show ?case by simp
qed

section \<open>White space\<close>

text \<open>\<open>space_width s\<close>: the number of bytes of the white-space rune \<open>s\<close> starts with, or 0.\<close>

definition ascii_space :: "char \<Rightarrow> bool" where
  "ascii_space c \<longleftrightarrow> c \<in> {CHR 0x20, CHR 0x09, CHR 0x0A, CHR 0x0B, CHR 0x0C, CHR 0x0D}"

fun space_width :: "string \<Rightarrow> nat" where
  "space_width [] = 0"
| "space_width (a # s) =
     (if ascii_space a then 1
      else if a = CHR 0xC2 then
        (case s of b # _ \<Rightarrow> if b = CHR 0x85 \<or> b = CHR 0xA0 then 2 else 0 | [] \<Rightarrow> 0)
      else (case s of
          b # c # _ \<Rightarrow>
            if a = CHR 0xE1 \<and> b = CHR 0x9A \<and> c = CHR 0x80 then 3
            else if a = CHR 0xE2 \<and> b = CHR 0x80 \<and>
                    (0x80 \<le> (of_char c :: nat) \<and> (of_char c :: nat) \<le> 0x8A \<or>
                     c = CHR 0xA8 \<or> c = CHR 0xA9 \<or> c = CHR 0xAF) then 3
            else if a = CHR 0xE2 \<and> b = CHR 0x81 \<and> c = CHR 0x9F then 3
            else if a = CHR 0xE3 \<and> b = CHR 0x80 \<and> c = CHR 0x80 then 3
            else 0
        | _ \<Rightarrow> 0))"

lemma space_width_le: "space_width s \<le> length s"
  by (cases s) (auto split: list.splits)

function trim_left :: "string \<Rightarrow> string" where
  "trim_left s = (if space_width s = 0 then s else trim_left (drop (space_width s) s))"
  by pat_completeness auto
termination
proof (relation "measure length")
  fix s :: string
  assume "space_width s \<noteq> 0"
  then show "(drop (space_width s) s, s) \<in> measure length"
    by (cases s) auto
qed simp

declare trim_left.simps [simp del]

fun trim_right :: "string \<Rightarrow> string" where
  "trim_right [] = []"
| "trim_right (x # xs) = (if trim_left (x # xs) = [] then [] else x # trim_right xs)"

definition trim_space :: "string \<Rightarrow> string" where
  "trim_space s = trim_right (trim_left s)"

text \<open>\<open>strings.Fields\<close>: the maximal runs of bytes that belong to no white-space rune.\<close>

function fields_from :: "string \<Rightarrow> string \<Rightarrow> string list" where
  "fields_from acc s =
     (case s of
        [] \<Rightarrow> (if acc = [] then [] else [rev acc])
      | c # cs \<Rightarrow>
          if space_width s = 0 then fields_from (c # acc) cs
          else (if acc = [] then [] else [rev acc]) @ fields_from [] (drop (space_width s) s))"
  by pat_completeness auto
termination
  by (relation "measure (\<lambda>(acc, s). length s)") auto

declare fields_from.simps [simp del]

definition go_fields :: "string \<Rightarrow> string list" where
  "go_fields s = fields_from [] s"

lemma trim_left_Nil [simp]: "trim_left [] = []"
  by (simp add: trim_left.simps)

lemma fields_from_Nil [simp]: "fields_from acc [] = (if acc = [] then [] else [rev acc])"
  by (simp add: fields_from.simps)

lemma fields_from_Cons:
  "fields_from acc (c # cs) =
     (if space_width (c # cs) = 0 then fields_from (c # acc) cs
      else (if acc = [] then [] else [rev acc]) @
        fields_from [] (drop (space_width (c # cs)) (c # cs)))"
  by (subst fields_from.simps) simp

lemma space_width_space [simp]: "space_width (CHR '' '' # s) = 1"
  by (simp add: ascii_space_def)

text \<open>
  A byte below 128 that is not a space belongs to no white-space rune, and neither does one
  that is no lead byte of such a rune.
\<close>

definition plain_char :: "char \<Rightarrow> bool" where
  "plain_char c \<longleftrightarrow> \<not> ascii_space c \<and> c \<notin> {CHR 0xC2, CHR 0xE1, CHR 0xE2, CHR 0xE3}"

lemma space_width_plain [simp]: "plain_char c \<Longrightarrow> space_width (c # s) = 0"
  by (auto simp: plain_char_def split: list.splits)

lemma fields_from_plain:
  "list_all plain_char w \<Longrightarrow> fields_from acc (w @ s) = fields_from (rev w @ acc) s"
  by (induction w arbitrary: acc) (auto simp: fields_from_Cons simp del: space_width.simps)

text \<open>Appending \<open>" " + option\<close> to a value adds exactly the option as a last field.\<close>

lemma space_width_append_space:
  "s \<noteq> [] \<Longrightarrow> space_width (s @ CHR '' '' # t) = space_width s"
  by (cases s) (auto split: list.splits simp: ascii_space_def)

lemma fields_append_option:
  assumes "list_all plain_char w" "w \<noteq> []"
  shows "fields_from acc (s @ CHR '' '' # w) = fields_from acc s @ [w]"
proof (induction acc s rule: fields_from.induct)
  case (1 acc s)
  have w: "fields_from [] w = [w]"
    using fields_from_plain [OF assms(1), of "[]" "[]"] assms(2) by simp
  show ?case
  proof (cases s)
    case Nil
    then show ?thesis using w by (simp add: fields_from_Cons del: space_width.simps)
  next
    case (Cons c cs)
    have sw: "space_width (c # cs @ CHR '' '' # w) = space_width (c # cs)"
      using space_width_append_space [of "c # cs" w] by simp
    show ?thesis
    proof (cases "space_width (c # cs) = 0")
      case True
      with "1.IH"(1) [OF Cons] Cons sw show ?thesis
        by (simp add: fields_from_Cons del: space_width.simps)
    next
      case False
      have "drop (space_width (c # cs)) (c # cs @ CHR '' '' # w) =
            drop (space_width (c # cs)) (c # cs) @ CHR '' '' # w"
        using space_width_le [of "c # cs"] drop_append [of "space_width (c # cs)" "c # cs" "CHR '' '' # w"]
        by (simp del: space_width.simps)
      with False "1.IH"(2) [OF Cons] Cons sw show ?thesis
        by (simp add: fields_from_Cons del: space_width.simps drop_append)
    qed
  qed
qed

corollary go_fields_append_option:
  "\<lbrakk>list_all plain_char w; w \<noteq> []\<rbrakk> \<Longrightarrow> go_fields (s @ '' '' @ w) = go_fields s @ [w]"
  by (simp add: go_fields_def fields_append_option)

section \<open>Searching\<close>

definition has_prefix :: "string \<Rightarrow> string \<Rightarrow> bool" where
  "has_prefix s p \<longleftrightarrow> take (length p) s = p"

definition has_suffix :: "string \<Rightarrow> string \<Rightarrow> bool" where
  "has_suffix s p \<longleftrightarrow> length p \<le> length s \<and> drop (length s - length p) s = p"

definition trim_prefix :: "string \<Rightarrow> string \<Rightarrow> string" where
  "trim_prefix s p = (if has_prefix s p then drop (length p) s else s)"

definition trim_suffix :: "string \<Rightarrow> string \<Rightarrow> string" where
  "trim_suffix s p = (if has_suffix s p then take (length s - length p) s else s)"

fun str_contains :: "string \<Rightarrow> string \<Rightarrow> bool" where
  "str_contains [] p = (p = [])"
| "str_contains (c # s) p = (has_prefix (c # s) p \<or> str_contains s p)"

text \<open>\<open>strings.Count\<close> counts non-overlapping occurrences of a non-empty string.\<close>

function str_count :: "string \<Rightarrow> string \<Rightarrow> nat" where
  "str_count s p =
     (if s = [] \<or> p = [] then 0
      else if has_prefix s p then Suc (str_count (drop (length p) s) p)
      else str_count (tl s) p)"
  by pat_completeness auto
termination
  by (relation "measure (\<lambda>(s, p). length s)") auto

declare str_count.simps [simp del]

fun index_of :: "char \<Rightarrow> string \<Rightarrow> nat option" where
  "index_of c [] = None"
| "index_of c (x # xs) = (if x = c then Some 0 else map_option Suc (index_of c xs))"

definition last_index_of :: "char \<Rightarrow> string \<Rightarrow> nat option" where
  "last_index_of c s = map_option (\<lambda>i. length s - Suc i) (index_of c (rev s))"

definition replace_char :: "char \<Rightarrow> string \<Rightarrow> string \<Rightarrow> string" where
  "replace_char c by_s s = concat (map (\<lambda>x. if x = c then by_s else [x]) s)"

text \<open>\<open>strings.Trim(s, cutset)\<close> for an ASCII cutset.\<close>

definition trim_set :: "char set \<Rightarrow> string \<Rightarrow> string" where
  "trim_set cs s = rev (dropWhile (\<lambda>c. c \<in> cs) (rev (dropWhile (\<lambda>c. c \<in> cs) s)))"

lemma has_prefix_iff: "has_prefix s p \<longleftrightarrow> prefix p s"
proof
  assume "has_prefix s p"
  then show "prefix p s" unfolding has_prefix_def by (metis take_is_prefix)
qed (auto simp: has_prefix_def prefix_def)

lemma index_of_None: "index_of c s = None \<longleftrightarrow> c \<notin> set s"
  by (induction s) auto

lemma index_of_Some:
  "index_of c s = Some i \<Longrightarrow> i < length s \<and> s ! i = c \<and> c \<notin> set (take i s)"
  by (induction s arbitrary: i) (auto split: if_splits)

lemma split_on_index:
  "index_of c s = Some i \<Longrightarrow> split_on c s = take i s # split_on c (drop (Suc i) s)"
proof (induction s arbitrary: i)
  case Nil
  then show ?case by simp
next
  case (Cons x xs)
  then show ?case by (cases "x = c") auto
qed

section \<open>strconv\<close>

definition digit_char :: "nat \<Rightarrow> char" where
  "digit_char d = char_of (48 + d)"

definition is_digit :: "char \<Rightarrow> bool" where
  "is_digit c \<longleftrightarrow> 48 \<le> (of_char c :: nat) \<and> (of_char c :: nat) \<le> 57"

definition digit_val :: "char \<Rightarrow> nat" where
  "digit_val c = of_char c - 48"

fun show_nat :: "nat \<Rightarrow> string" where
  "show_nat n = (if n < 10 then [digit_char n] else show_nat (n div 10) @ [digit_char (n mod 10)])"

declare show_nat.simps [simp del]

definition format_int :: "int \<Rightarrow> string" where
  "format_int i = (if i < 0 then CHR ''-'' # show_nat (nat (- i)) else show_nat (nat i))"

definition parse_nat :: "string \<Rightarrow> nat option" where
  "parse_nat s = (if s = [] \<or> \<not> list_all is_digit s then None
     else Some (foldl (\<lambda>n c. 10 * n + digit_val c) 0 s))"

text \<open>\<open>strconv.ParseInt(s, 10, bits)\<close>: an optional sign, decimal digits, and the range of \<open>bits\<close>.\<close>

definition parse_int :: "nat \<Rightarrow> string \<Rightarrow> int option" where
  "parse_int bits s =
     (let (neg, ds) = (case s of
          c # cs \<Rightarrow> if c = CHR ''-'' then (True, cs) else if c = CHR ''+'' then (False, cs) else (False, s)
        | [] \<Rightarrow> (False, s))
      in case parse_nat ds of
           None \<Rightarrow> None
         | Some n \<Rightarrow>
             if neg then (if int n \<le> 2 ^ (bits - 1) then Some (- int n) else None)
             else (if int n < 2 ^ (bits - 1) then Some (int n) else None))"

definition parse_bool :: "string \<Rightarrow> bool option" where
  "parse_bool s =
     (if s \<in> {''1'', ''t'', ''T'', ''TRUE'', ''true'', ''True''} then Some True
      else if s \<in> {''0'', ''f'', ''F'', ''FALSE'', ''false'', ''False''} then Some False
      else None)"

lemma digit_char_props:
  assumes "d < 10"
  shows "is_digit (digit_char d)" "digit_val (digit_char d) = d"
proof -
  have *: "of_char (digit_char d) = 48 + d" using assms by (simp add: digit_char_def)
  then show "is_digit (digit_char d)" "digit_val (digit_char d) = d"
    using assms by (simp_all add: is_digit_def digit_val_def)
qed

lemma show_nat_digits: "list_all is_digit (show_nat n) \<and> show_nat n \<noteq> []"
proof (induction n rule: show_nat.induct)
  case (1 n)
  then show ?case by (simp add: show_nat.simps [of n] digit_char_props)
qed

lemma show_nat_value: "foldl (\<lambda>n c. 10 * n + digit_val c) 0 (show_nat n) = n"
proof (induction n rule: show_nat.induct)
  case (1 n)
  then show ?case by (simp add: show_nat.simps [of n] digit_char_props)
qed

lemma parse_show_nat [simp]: "parse_nat (show_nat n) = Some n"
  using show_nat_digits [of n] by (simp add: parse_nat_def show_nat_value)

lemma show_nat_inject [simp]: "show_nat m = show_nat n \<longleftrightarrow> m = n"
  by (metis option.inject parse_show_nat)

lemma show_nat_no_char:
  assumes "\<not> is_digit c" shows "c \<notin> set (show_nat n)"
  using show_nat_digits [of n] assms by (auto simp: list_all_iff)

lemma parse_int_format:
  assumes "- (2 ^ (bits - 1)) \<le> i" "i < 2 ^ (bits - 1)"
  shows "parse_int bits (format_int i) = Some i"
proof (cases "i < 0")
  case True
  then show ?thesis using assms by (simp add: parse_int_def format_int_def)
next
  case False
  obtain c cs where c: "show_nat (nat i) = c # cs" using show_nat_digits [of "nat i"]
    by (cases "show_nat (nat i)") auto
  have "CHR ''-'' \<notin> set (show_nat (nat i))" "CHR ''+'' \<notin> set (show_nat (nat i))"
    by (rule show_nat_no_char, simp add: is_digit_def)+
  then have "c \<noteq> CHR ''-''" "c \<noteq> CHR ''+''" using c by auto
  then show ?thesis using False assms c parse_show_nat [of "nat i"]
    by (simp add: parse_int_def format_int_def)
qed

lemma parse_int_range:
  "\<lbrakk>parse_int bits s = Some i; 0 < bits\<rbrakk> \<Longrightarrow> - (2 ^ (bits - 1)) \<le> i \<and> i < 2 ^ (bits - 1)"
proof -
  assume a: "parse_int bits s = Some i" "0 < bits"
  have p: "(0::int) < 2 ^ (bits - 1)" by simp
  have le: "- int n < 2 ^ (bits - 1) \<and> - (2 ^ (bits - 1)) \<le> int n" for n
    using p by (smt (verit) of_nat_0_le_iff)
  from a obtain n where "i = - int n \<and> int n \<le> 2 ^ (bits - 1) \<or> i = int n \<and> int n < 2 ^ (bits - 1)"
    by (auto simp: parse_int_def Let_def split: prod.splits option.splits if_splits)
  then show ?thesis using le [of n] by auto
qed

section \<open>filepath (Unix)\<close>

text \<open>
  \<open>filepath.Clean\<close>: the components of the path, without empty and \<open>.\<close> ones, each \<open>..\<close> removing
  the component before it; a rooted path drops a leading \<open>..\<close>, an empty result is \<open>.\<close>.  The
  components kept so far are held in reverse.
\<close>

fun clean_step :: "bool \<Rightarrow> string list \<Rightarrow> string \<Rightarrow> string list" where
  "clean_step rooted st w =
     (if w = [] \<or> w = ''.'' then st
      else if w = ''..'' then
        (case st of
           [] \<Rightarrow> if rooted then [] else [''..'']
         | v # vs \<Rightarrow> if v = ''..'' then ''..'' # st else vs)
      else w # st)"

definition path_clean :: "string \<Rightarrow> string" where
  "path_clean p =
     (if p = [] then ''.''
      else let rooted = (hd p = CHR ''/'');
               ws = rev (foldl (clean_step rooted) [] (split_on (CHR ''/'') p));
               body = join ''/'' ws
           in if rooted then CHR ''/'' # body else if body = [] then ''.'' else body)"

definition path_dir :: "string \<Rightarrow> string" where
  "path_dir p =
     path_clean (case last_index_of (CHR ''/'') p of None \<Rightarrow> [] | Some i \<Rightarrow> take (Suc i) p)"

lemma path_clean_not_Nil [simp]: "path_clean p \<noteq> []"
  by (simp add: path_clean_def Let_def)

lemma path_dir_not_Nil [simp]: "path_dir p \<noteq> []"
  by (simp add: path_dir_def)

lemma path_clean_samples:
  "path_clean ''/var/log/../lib//x/.'' = ''/var/lib/x''"
  "path_clean ''/../a'' = ''/a''" "path_clean ''../../a/..'' = ''../..''" "path_clean [] = ''.''"
  "path_dir ''/var/log/a.log'' = ''/var/log''" "path_dir ''a.log'' = ''.''" "path_dir ''/a'' = ''/''"
  by code_simp+

end
