(* ===== verification/Lease.thy ===== *)
theory Lease
  imports Go_Strings
begin

text \<open>
  The data of the election (\<open>apis/election/coordinator.go\<close>): the Kubernetes Lease with the fields
  the coordinator reads and writes, the reply of the protocol, and the pure helpers on them.
  Instants and durations are nanoseconds (\<open>int\<close>); the \<open>int32\<close> fields of a Lease are 32-bit words
  read as two's complement, so the epoch wraps exactly where \<open>int32(epoch(lease) + 1)\<close> does.
  A Go pointer to a Lease is a \<open>lease option\<close>.
\<close>

section \<open>Leases\<close>

record lease_spec =
  HolderIdentity :: "string option"
  LeaseDurationSeconds :: "32 word option"
  AcquireTime :: "int option"
  RenewTime :: "int option"
  LeaseTransitions :: "32 word option"

record lease =
  l_Name :: string
  l_Namespace :: string
  l_UID :: string
  l_ResourceVersion :: string
  l_Labels :: go_map
  l_Spec :: lease_spec

definition second :: int where "second = 1000000000"
definition leaseDuration :: int where "leaseDuration = 30 * second"
definition requestInterval :: int where "requestInterval = 3 * second"
definition maxCASAttempts :: nat where "maxCASAttempts = 5"
definition managedLeaseLabel :: string where "managedLeaseLabel = ''election.datakits.io/managed''"

definition holder :: "lease option \<Rightarrow> string" where
  "holder l = (case l of None \<Rightarrow> [] | Some x \<Rightarrow>
     (case HolderIdentity (l_Spec x) of None \<Rightarrow> [] | Some h \<Rightarrow> h))"

definition epoch :: "lease option \<Rightarrow> int" where
  "epoch l = (case l of None \<Rightarrow> 0 | Some x \<Rightarrow>
     (case LeaseTransitions (l_Spec x) of None \<Rightarrow> 0 | Some w \<Rightarrow> sint w))"

definition acquireLease :: "lease \<Rightarrow> string \<Rightarrow> int \<Rightarrow> lease" where
  "acquireLease l ident now = l\<lparr>l_Spec := (l_Spec l)
     \<lparr>HolderIdentity := Some ident,
      LeaseDurationSeconds := Some (word_of_int (leaseDuration div second)),
      AcquireTime := Some now,
      RenewTime := Some now,
      LeaseTransitions := Some (word_of_int (epoch (Some l) + 1))\<rparr>\<rparr>"

definition empty_spec :: lease_spec where
  "empty_spec = \<lparr>HolderIdentity = None, LeaseDurationSeconds = None, AcquireTime = None,
     RenewTime = None, LeaseTransitions = None\<rparr>"

definition newLease :: "string \<Rightarrow> string \<Rightarrow> string \<Rightarrow> int \<Rightarrow> lease" where
  "newLease ns name ident now =
     acquireLease \<lparr>l_Name = name, l_Namespace = ns, l_UID = [], l_ResourceVersion = [],
       l_Labels = fmupd managedLeaseLabel ''true'' fmempty, l_Spec = empty_spec\<rparr> ident now"

text \<open>The renewal branch of \<open>elect\<close>: only the renew time changes.\<close>

definition renewLease :: "lease \<Rightarrow> int \<Rightarrow> lease" where
  "renewLease l now = l\<lparr>l_Spec := (l_Spec l)\<lparr>RenewTime := Some now\<rparr>\<rparr>"

section \<open>The scope name\<close>

text \<open>
  \<open>leaseName\<close> hashes the length-prefixed token and namespace.  \<open>len(token)\<close> is converted to
  \<open>uint32\<close>.  SHA-256 is a parameter.
\<close>

definition be32 :: "nat \<Rightarrow> string" where
  "be32 n = (let m = n mod 2 ^ 32 in
     map char_of [m div 2 ^ 24 mod 256, m div 2 ^ 16 mod 256, m div 2 ^ 8 mod 256, m mod 256])"

definition scope_payload :: "string \<Rightarrow> string \<Rightarrow> string" where
  "scope_payload token namespace =
     be32 (length token) @ token @ be32 (length namespace) @ namespace"

definition hex_digit :: "nat \<Rightarrow> char" where
  "hex_digit d = (if d < 10 then char_of (48 + d) else char_of (87 + d))"

definition hex_encode :: "string \<Rightarrow> string" where
  "hex_encode s = concat (map (\<lambda>c. [hex_digit (of_char c div 16), hex_digit (of_char c mod 16)]) s)"

definition leaseName :: "(string \<Rightarrow> string) \<Rightarrow> string \<Rightarrow> string \<Rightarrow> string" where
  "leaseName sha256 token namespace =
     ''datakit-election-'' @ hex_encode (sha256 (scope_payload token namespace))"

section \<open>Replies\<close>

datatype status = StatusSuccess | StatusDefeat | StatusError

record result =
  r_Status :: status
  r_Namespace :: string
  r_ID :: string
  r_IncumbencyID :: string
  r_ErrorMsg :: string
  r_ErrorCode :: string
  r_Interval :: int
  r_LeaseDuration :: int
  r_Epoch :: int

definition result_of :: "status \<Rightarrow> string \<Rightarrow> string \<Rightarrow> lease option \<Rightarrow> bool \<Rightarrow> result" where
  "result_of status namespace ident l active =
     \<lparr>r_Status = status, r_Namespace = namespace, r_ID = ident,
      r_IncumbencyID = (if active then holder l else []),
      r_ErrorMsg = [], r_ErrorCode = [],
      r_Interval = requestInterval div second,
      r_LeaseDuration = (case l of None \<Rightarrow> leaseDuration div second
        | Some x \<Rightarrow> (case LeaseDurationSeconds (l_Spec x) of
            None \<Rightarrow> leaseDuration div second | Some d \<Rightarrow> sint d)),
      r_Epoch = epoch l\<rparr>"

section \<open>Facts\<close>

lemma holder_simps [simp]:
  "holder None = []"
  "holder (Some (acquireLease l ident now)) = ident"
  "holder (Some (renewLease l now)) = holder (Some l)"
  by (simp_all add: holder_def acquireLease_def renewLease_def)

lemma epoch_None [simp]: "epoch None = 0" and epoch_renew [simp]:
  "epoch (Some (renewLease l now)) = epoch (Some l)"
  by (simp_all add: epoch_def renewLease_def)

lemma renewLease_frame [simp]:
  "l_Name (renewLease l t) = l_Name l" "l_Namespace (renewLease l t) = l_Namespace l"
  "l_UID (renewLease l t) = l_UID l" "l_ResourceVersion (renewLease l t) = l_ResourceVersion l"
  "l_Labels (renewLease l t) = l_Labels l"
  "HolderIdentity (l_Spec (renewLease l t)) = HolderIdentity (l_Spec l)"
  "LeaseDurationSeconds (l_Spec (renewLease l t)) = LeaseDurationSeconds (l_Spec l)"
  "AcquireTime (l_Spec (renewLease l t)) = AcquireTime (l_Spec l)"
  "RenewTime (l_Spec (renewLease l t)) = Some t"
  "LeaseTransitions (l_Spec (renewLease l t)) = LeaseTransitions (l_Spec l)"
  by (simp_all add: renewLease_def)

lemma acquireLease_frame [simp]:
  "l_Name (acquireLease l i t) = l_Name l" "l_Namespace (acquireLease l i t) = l_Namespace l"
  "l_UID (acquireLease l i t) = l_UID l" "l_ResourceVersion (acquireLease l i t) = l_ResourceVersion l"
  "l_Labels (acquireLease l i t) = l_Labels l"
  "HolderIdentity (l_Spec (acquireLease l i t)) = Some i"
  "LeaseDurationSeconds (l_Spec (acquireLease l i t)) = Some 30"
  "AcquireTime (l_Spec (acquireLease l i t)) = Some t"
  "RenewTime (l_Spec (acquireLease l i t)) = Some t"
  by (simp_all add: acquireLease_def leaseDuration_def second_def)

lemma epoch_SomeI: "LeaseTransitions (l_Spec l) = Some w \<Longrightarrow> epoch (Some l) = sint w"
  by (simp add: epoch_def)

lemma epoch_acquire_word:
  "epoch (Some (acquireLease l ident now)) = sint (word_of_int (epoch (Some l) + 1) :: 32 word)"
  by (rule epoch_SomeI) (simp add: acquireLease_def del: of_int_add)

lemma epoch_bounds: "- (2 ^ 31) \<le> epoch l" "epoch l < 2 ^ 31"
proof -
  have "- (2 ^ 31) \<le> sint w \<and> sint w < 2 ^ 31" for w :: "32 word"
    using sint_ge [of w] sint_lt [of w] by simp
  then show "- (2 ^ 31) \<le> epoch l" "epoch l < 2 ^ 31"
    by (auto simp: epoch_def split: option.splits)
qed

lemma epoch_acquire:
  assumes "epoch (Some l) < 2 ^ 31 - 1"
  shows "epoch (Some (acquireLease l ident now)) = epoch (Some l) + 1"
  using assms epoch_bounds [of "Some l"]
  by (simp add: epoch_acquire_word int_word_sint del: of_int_add)

lemma epoch_acquire_wraps:
  "epoch (Some l) = 2 ^ 31 - 1 \<Longrightarrow> epoch (Some (acquireLease l ident now)) = - (2 ^ 31)"
  by (simp add: epoch_acquire_word int_word_sint del: of_int_add)

lemma newLease_facts [simp]:
  "l_Name (newLease ns n ident t) = n" "l_UID (newLease ns n ident t) = []"
  "holder (Some (newLease ns n ident t)) = ident" "epoch (Some (newLease ns n ident t)) = 1"
  "LeaseDurationSeconds (l_Spec (newLease ns n ident t)) = Some 30"
  "RenewTime (l_Spec (newLease ns n ident t)) = Some t"
  by (simp_all add: newLease_def empty_spec_def)
     (subst epoch_acquire, simp_all add: epoch_def)

lemma length_be32 [simp]: "length (be32 n) = 4"
  by (simp add: be32_def Let_def)

lemma be32_inject:
  assumes "be32 m = be32 n" "m < 2 ^ 32" "n < 2 ^ 32"
  shows "m = n"
proof -
  have recover: "k = 2 ^ 24 * (k div 2 ^ 24 mod 256) + 2 ^ 16 * (k div 2 ^ 16 mod 256)
      + 2 ^ 8 * (k div 2 ^ 8 mod 256) + k mod 256" if "k < 2 ^ 32" for k :: nat
  proof -
    define a b c where "a = k div 256" and "b = a div 256" and "c = b div 256"
    have "c < 256" using that by (simp add: a_def b_def c_def)
    moreover have "k div 2 ^ 8 = a" "k div 2 ^ 16 = b" "k div 2 ^ 24 = c"
      by (simp_all add: a_def b_def c_def div_mult2_eq [symmetric])
    moreover have "k = 256 * a + k mod 256" "a = 256 * b + a mod 256" "b = 256 * c + b mod 256"
      by (simp_all add: a_def b_def c_def)
    ultimately show ?thesis by simp
  qed
  have "map of_char (be32 m) = (map of_char (be32 n) :: nat list)" using assms(1) by simp
  then have "m div 2 ^ 24 mod 256 = n div 2 ^ 24 mod 256" "m div 2 ^ 16 mod 256 = n div 2 ^ 16 mod 256"
    "m div 2 ^ 8 mod 256 = n div 2 ^ 8 mod 256" "m mod 256 = n mod 256"
    using assms(2,3) by (simp_all add: be32_def Let_def)
  then show ?thesis using recover [OF assms(2)] recover [OF assms(3)] by metis
qed

text \<open>The length prefixes make the payload injective in the pair.\<close>

lemma scope_payload_inject:
  assumes "scope_payload t n = scope_payload t' n'" "length t < 2 ^ 32" "length t' < 2 ^ 32"
  shows "t = t' \<and> n = n'"
proof -
  have "be32 (length t) = be32 (length t')"
    using assms(1) by (simp add: scope_payload_def append_eq_append_conv)
  then have "length t = length t'" using assms(2,3) be32_inject by blast
  then show ?thesis using assms(1) by (simp add: scope_payload_def)
qed

lemma hex_digit_inject: "\<lbrakk>hex_digit a = hex_digit b; a < 16; b < 16\<rbrakk> \<Longrightarrow> a = b"
proof -
  assume a: "hex_digit a = hex_digit b" "a < 16" "b < 16"
  then have "(of_char (hex_digit a) :: nat) = of_char (hex_digit b)" by simp
  with a(2,3) show "a = b" by (simp add: hex_digit_def split: if_splits)
qed

lemma hex_encode_inject: "hex_encode s = hex_encode s' \<Longrightarrow> s = s'"
proof (induction s arbitrary: s')
  case Nil
  then show ?case by (cases s') (auto simp: hex_encode_def)
next
  case (Cons c cs)
  then obtain d ds where s': "s' = d # ds" by (cases s') (auto simp: hex_encode_def)
  with Cons.prems have h: "hex_digit (of_char c div 16) = hex_digit (of_char d div 16)"
    "hex_digit (of_char c mod 16) = hex_digit (of_char d mod 16)" "hex_encode cs = hex_encode ds"
    by (auto simp: hex_encode_def)
  have lt: "(of_char x :: nat) div 16 < 16" for x
    using nat_of_char_less_256 [of x] by (simp add: less_mult_imp_div_less)
  have "(of_char c :: nat) div 16 = of_char d div 16" "(of_char c :: nat) mod 16 = of_char d mod 16"
    using h(1,2) lt by (auto intro: hex_digit_inject)
  then have "(of_char c :: nat) = of_char d"
    by (metis div_mult_mod_eq)
  with Cons.IH [OF h(3)] s' show ?case by simp
qed

end
