(* ===== verification/Lease_Observation.thy ===== *)
theory Lease_Observation
  imports Lease
begin

text \<open>
  The observation table of \<open>apis/election/lease_observation.go\<close>: for every Lease name one slot
  per source, holding the version last seen there and the local monotonic instant at which
  that version was first seen.  \<open>remaining\<close> is one critical section of the table's mutex, so it
  is one function from a table to an answer and a table.
\<close>

datatype observationSource = fromCache | fromStore

record leaseObservation =
  o_resourceVersion :: string
  o_uid :: string
  o_epoch :: int
  o_observedAt :: int
  o_known :: bool

text \<open>The Go array \<open>[2]leaseObservation\<close>, indexed by the source; absent keys read as zero values.\<close>

type_synonym obs_pair = "observationSource \<Rightarrow> leaseObservation"
type_synonym obs_table = "string \<Rightarrow> obs_pair"

definition no_observation :: leaseObservation where
  "no_observation = \<lparr>o_resourceVersion = [], o_uid = [], o_epoch = 0, o_observedAt = 0, o_known = False\<rparr>"

definition empty_table :: obs_table where
  "empty_table = (\<lambda>_ _. no_observation)"

fun other_source :: "observationSource \<Rightarrow> observationSource" where
  "other_source fromCache = fromStore"
| "other_source fromStore = fromCache"

text \<open>The Lease has no holder, no renewal or no positive duration: it is expired at once.\<close>

definition malformed :: "lease option \<Rightarrow> bool" where
  "malformed l \<longleftrightarrow> holder l = [] \<or> (case l of None \<Rightarrow> True | Some x \<Rightarrow>
     RenewTime (l_Spec x) = None \<or>
     (case LeaseDurationSeconds (l_Spec x) of None \<Rightarrow> True | Some d \<Rightarrow> sint d \<le> 0))"

definition same_version :: "leaseObservation \<Rightarrow> lease \<Rightarrow> bool" where
  "same_version ob l \<longleftrightarrow> o_known ob \<and> o_uid ob = l_UID l \<and> o_resourceVersion ob = l_ResourceVersion l"

definition superseded :: "leaseObservation \<Rightarrow> lease \<Rightarrow> observationSource \<Rightarrow> bool" where
  "superseded stored l source \<longleftrightarrow> o_known stored \<and>
     (l_UID l = o_uid stored \<and> epoch (Some l) < o_epoch stored \<or>
      source = fromCache \<and> l_UID l \<noteq> o_uid stored)"

definition observe :: "lease \<Rightarrow> int \<Rightarrow> leaseObservation" where
  "observe l elapsed = \<lparr>o_resourceVersion = l_ResourceVersion l, o_uid = l_UID l,
     o_epoch = epoch (Some l), o_observedAt = elapsed, o_known = True\<rparr>"

definition lease_duration :: "lease \<Rightarrow> int" where
  "lease_duration l = (case LeaseDurationSeconds (l_Spec l) of None \<Rightarrow> 0 | Some d \<Rightarrow> sint d * second)"

definition remaining :: "obs_table \<Rightarrow> lease option \<Rightarrow> observationSource \<Rightarrow> int \<Rightarrow> int \<times> obs_table" where
  "remaining tab lo source elapsed =
     (case lo of None \<Rightarrow> (0, tab) | Some l \<Rightarrow>
        if malformed (Some l) then (0, tab)
        else let obs = tab (l_Name l) in
          if superseded (obs fromStore) l source then (0, tab)
          else let cur = obs source; oth = obs (other_source source);
                   cur' = (if same_version cur l then cur
                           else if same_version oth l then oth else observe l elapsed);
                   tab' = (if same_version cur l then tab
                           else tab(l_Name l := obs(source := cur')))
               in (max 0 (lease_duration l - (elapsed - o_observedAt cur')), tab'))"

section \<open>Properties of the table\<close>

lemma remaining_nonneg: "0 \<le> fst (remaining tab lo src e)"
  by (auto simp: remaining_def Let_def split: option.splits)

lemma remaining_malformed [simp]: "malformed lo \<Longrightarrow> remaining tab lo src e = (0, tab)"
  by (auto simp: remaining_def split: option.splits)

lemma remaining_None [simp]: "remaining tab None src e = (0, tab)"
  by (simp add: remaining_def)

lemma remaining_frame: "n \<noteq> l_Name l \<Longrightarrow> snd (remaining tab (Some l) src e) n = tab n"
  by (auto simp: remaining_def Let_def)

text \<open>The slot that \<open>remaining\<close> leaves behind describes the version it was asked about.\<close>

lemma remaining_observed:
  assumes "\<not> malformed (Some l)" "\<not> superseded (tab (l_Name l) fromStore) l src"
  shows "same_version (snd (remaining tab (Some l) src e) (l_Name l) src) l"
  using assms by (auto simp: remaining_def Let_def same_version_def observe_def)

text \<open>
  Why a well-formed Lease can be reported as expired: either a newer term (or another
  incarnation) is known from the store, or this very version was first observed at least its
  duration ago.
\<close>

lemma remaining_zeroD:
  assumes "fst (remaining tab (Some l) src e) \<le> 0" "\<not> malformed (Some l)"
  shows "superseded (tab (l_Name l) fromStore) l src \<or>
    (\<exists>s'. same_version (tab (l_Name l) s') l \<and>
       lease_duration l \<le> e - o_observedAt (tab (l_Name l) s'))"
proof (cases "superseded (tab (l_Name l) fromStore) l src")
  case False
  have "0 < lease_duration l"
    using assms(2) by (auto simp: malformed_def lease_duration_def second_def split: option.splits)
  with assms False show ?thesis
    by (auto simp: remaining_def Let_def observe_def split: if_splits)
qed simp

text \<open>A version seen for the first time gets its whole duration.\<close>

lemma remaining_fresh:
  assumes "\<not> malformed (Some l)" "\<not> superseded (tab (l_Name l) fromStore) l src"
    "\<And>s'. \<not> same_version (tab (l_Name l) s') l"
  shows "fst (remaining tab (Some l) src e) = lease_duration l"
proof -
  have "0 < lease_duration l"
    using assms(1) by (auto simp: malformed_def lease_duration_def second_def split: option.splits)
  with assms show ?thesis by (simp add: remaining_def Let_def observe_def)
qed

text \<open>
  Every known slot comes from an earlier slot of the table or is the observation of the
  Lease just asked about, at the present instant.
\<close>

lemma remaining_slots:
  assumes "o_known (snd (remaining tab lo src e) n s)"
  shows "(\<exists>s'. snd (remaining tab lo src e) n s = tab n s') \<or>
    (\<exists>l. lo = Some l \<and> n = l_Name l \<and> snd (remaining tab lo src e) n s = observe l e)"
  using assms by (auto simp: remaining_def Let_def split: option.splits if_splits)

lemma remaining_known:
  assumes "same_version (tab (l_Name l) src) l" "\<not> malformed (Some l)"
    "\<not> superseded (tab (l_Name l) fromStore) l src"
  shows "remaining tab (Some l) src e =
    (max 0 (lease_duration l - (e - o_observedAt (tab (l_Name l) src))), tab)"
  using assms by (simp add: remaining_def Let_def)

lemma remaining_value:
  assumes "\<not> malformed (Some l)" "\<not> superseded (tab (l_Name l) fromStore) l src"
  shows "fst (remaining tab (Some l) src e) = max 0 (lease_duration l -
    (e - o_observedAt (snd (remaining tab (Some l) src e) (l_Name l) src)))"
  using assms by (simp add: remaining_def Let_def)

text \<open>
  Asking about the same version again never restarts its timer: the first observation
  instant is kept, so the answer falls as local time passes.
\<close>

lemma remaining_again:
  assumes wf: "\<not> malformed (Some l)" and ns: "\<not> superseded (tab (l_Name l) fromStore) l src"
    and eq: "remaining tab (Some l) src e = (r, tab')"
    and ns': "\<not> superseded (tab' (l_Name l) fromStore) l src" and le: "e \<le> e'"
  shows "fst (remaining tab' (Some l) src e') = max 0 (r - (e' - e))"
proof -
  let ?o = "o_observedAt (tab' (l_Name l) src)"
  have "same_version (tab' (l_Name l) src) l"
    using remaining_observed [of l tab src e] wf ns eq by simp
  then have "fst (remaining tab' (Some l) src e') = max 0 (lease_duration l - (e' - ?o))"
    using remaining_known wf ns' by simp
  moreover have "r = max 0 (lease_duration l - (e - ?o))"
    using remaining_value [of l tab src e] wf ns eq by simp
  ultimately show ?thesis using le by simp
qed

text \<open>
  A lagging cache does not restart the store's timer: cache observations leave the store
  slot of every Lease alone.
\<close>

lemma remaining_cache_keeps_store:
  "snd (remaining tab lo fromCache e) n fromStore = tab n fromStore"
  by (auto simp: remaining_def Let_def split: option.splits)

text \<open>When both sources see the same version they share its first observation instant.\<close>

lemma remaining_shared:
  assumes "same_version (tab (l_Name l) (other_source src)) l"
    "\<not> same_version (tab (l_Name l) src) l"
    "\<not> malformed (Some l)" "\<not> superseded (tab (l_Name l) fromStore) l src"
  shows "fst (remaining tab (Some l) src e) =
    max 0 (lease_duration l - (e - o_observedAt (tab (l_Name l) (other_source src))))"
  using assms by (simp add: remaining_def Let_def)

text \<open>The duration of a Lease fits \<open>time.Duration\<close> (64-bit nanoseconds): no overflow.\<close>

lemma lease_duration_fits: "\<bar>lease_duration l\<bar> < 2 ^ 63"
proof -
  have "\<bar>sint w\<bar> \<le> 2 ^ 31" for w :: "32 word"
    using sint_ge [of w] sint_lt [of w] by simp
  then have "\<bar>sint w * second\<bar> \<le> 2 ^ 31 * 1000000000" for w :: "32 word"
    using mult_right_mono [of "\<bar>sint w\<bar>" "2 ^ 31" second] by (simp add: abs_mult second_def)
  then show ?thesis by (auto simp: lease_duration_def split: option.splits)
      (rule order_le_less_trans, assumption, simp)
qed

end
