(* ===== verification/Coordinator.thy ===== *)
theory Coordinator
  imports Lease_Observation
begin

text \<open>
  \<open>Coordinator.elect\<close> and its HTTP handler (\<open>apis/election/coordinator.go\<close>, \<open>handler.go\<close>).  The
  code talks to an API server, an informer cache, two clocks and mutex-protected tables while
  other requests and other replicas do the same, so a request is a program of effects: a tree
  whose nodes are the calls it makes and whose branches are the answers it can get.  One node
  is one atomic action of the code (one API call, or one critical section of a mutex).  The
  tree is finite because the code retries a bounded number of times.
\<close>

section \<open>Effect programs\<close>

datatype electionOperation = operationCampaign | operationHeartbeat | operationInformer

datatype transition = transitionFirstAcquire | transitionLeaseExpired

datatype metric =
    MRequest electionOperation status
  | MTransition transition
  | MStorageError electionOperation
  | MCASConflict electionOperation

text \<open>The classes of API errors the code distinguishes (\<open>apierrors.Is...\<close>).\<close>

datatype api_error = NotFound | AlreadyExists | Conflict | Forbidden | OtherError

type_synonym reply = "api_error + lease"

datatype 'r prog =
    Done 'r
  | CacheReady "bool \<Rightarrow> 'r prog"
  | CacheGet string "reply \<Rightarrow> 'r prog"
  | StoreGet string "reply \<Rightarrow> 'r prog"
  | StoreCreate lease "reply \<Rightarrow> 'r prog"
  | StoreUpdate lease "reply \<Rightarrow> 'r prog"
  | Remaining "lease option" observationSource "int \<Rightarrow> 'r prog"
  | Now "int \<Rightarrow> 'r prog"
| AccessReview string "api_error + bool \<Rightarrow> 'r prog"
| Count metric "'r prog"

primrec bind_prog :: "'a prog \<Rightarrow> ('a \<Rightarrow> 'b prog) \<Rightarrow> 'b prog" where
  "bind_prog (Done x) f = f x"
| "bind_prog (CacheReady k) f = CacheReady (\<lambda>a. bind_prog (k a) f)"
| "bind_prog (CacheGet n k) f = CacheGet n (\<lambda>a. bind_prog (k a) f)"
| "bind_prog (StoreGet n k) f = StoreGet n (\<lambda>a. bind_prog (k a) f)"
| "bind_prog (StoreCreate l k) f = StoreCreate l (\<lambda>a. bind_prog (k a) f)"
| "bind_prog (StoreUpdate l k) f = StoreUpdate l (\<lambda>a. bind_prog (k a) f)"
| "bind_prog (Remaining l s k) f = Remaining l s (\<lambda>a. bind_prog (k a) f)"
| "bind_prog (Now k) f = Now (\<lambda>a. bind_prog (k a) f)"
| "bind_prog (AccessReview v k) f = AccessReview v (\<lambda>a. bind_prog (k a) f)"
| "bind_prog (Count m p) f = Count m (bind_prog p f)"

section \<open>The coordinator\<close>

datatype election_error = errCacheNotReady | errStorage | errForbidden

definition storageError :: "electionOperation \<Rightarrow> api_error \<Rightarrow> election_error prog" where
  "storageError operation cause =
     Count (MStorageError operation) (Done (if cause = Forbidden then errForbidden else errStorage))"

definition fail_storage :: "electionOperation \<Rightarrow> api_error \<Rightarrow> (election_error + 'a) prog" where
  "fail_storage operation cause = bind_prog (storageError operation cause) (\<lambda>e. Done (Inl e))"

text \<open>What follows a write: the retry on a lost race, the storage error, or the success reply.\<close>

definition after_write ::
  "electionOperation \<Rightarrow> bool \<Rightarrow> string \<Rightarrow> string \<Rightarrow> (election_error + result) prog \<Rightarrow> reply
   \<Rightarrow> (election_error + result) prog" where
  "after_write operation missing namespace ident retry r =
     (case r of
        Inl e \<Rightarrow>
          if e = Conflict \<or> e = AlreadyExists \<or> e = NotFound
          then Count (MCASConflict operation) retry
          else fail_storage operation e
      | Inr updated \<Rightarrow>
          Remaining (Some updated) fromStore (\<lambda>_.
            let success = Done (Inr (result_of StatusSuccess namespace ident (Some updated) True))
            in if operation = operationCampaign
               then Count (MTransition (if missing then transitionFirstAcquire else transitionLeaseExpired))
                      success
               else success))"

text \<open>
  One iteration of the loop.  \<open>retry\<close> is the next iteration, or \<open>None\<close> in the iteration after
  the last permitted write (\<open>attempt == maxCASAttempts\<close>); a missing Lease is \<open>None\<close>.
\<close>

definition attempt_write ::
  "string \<Rightarrow> electionOperation \<Rightarrow> string \<Rightarrow> string \<Rightarrow> string \<Rightarrow> lease option
   \<Rightarrow> (election_error + result) prog \<Rightarrow> (election_error + result) prog" where
  "attempt_write lease_ns operation name namespace ident lo again =
     Now (\<lambda>now. case lo of
         None \<Rightarrow> StoreCreate (newLease lease_ns name ident now)
                   (after_write operation True namespace ident again)
       | Some l \<Rightarrow>
           if operation = operationCampaign
           then StoreUpdate (acquireLease l ident now) (after_write operation False namespace ident again)
           else StoreUpdate (renewLease l now) (after_write operation False namespace ident again))"

definition attempt_body ::
  "string \<Rightarrow> electionOperation \<Rightarrow> string \<Rightarrow> string \<Rightarrow> string \<Rightarrow> (election_error + result) prog option
   \<Rightarrow> lease option \<Rightarrow> (election_error + result) prog" where
  "attempt_body lease_ns operation name namespace ident retry lo =
     Remaining lo fromStore (\<lambda>rem.
       let active = rem > 0 in
       if operation = operationCampaign \<and> active \<or>
          operation = operationHeartbeat \<and> (\<not> active \<or> holder lo \<noteq> ident)
       then Done (Inr (result_of StatusDefeat namespace ident lo active))
       else case retry of
         None \<Rightarrow> fail_storage operation OtherError
       | Some again \<Rightarrow> attempt_write lease_ns operation name namespace ident lo again)"

definition elect_attempt ::
  "string \<Rightarrow> electionOperation \<Rightarrow> string \<Rightarrow> string \<Rightarrow> string \<Rightarrow> (election_error + result) prog option
   \<Rightarrow> (election_error + result) prog" where
  "elect_attempt lease_ns operation name namespace ident retry =
     StoreGet name (\<lambda>r. case r of
         Inl e \<Rightarrow> if e \<noteq> NotFound then fail_storage operation e
                  else attempt_body lease_ns operation name namespace ident retry None
       | Inr l \<Rightarrow> attempt_body lease_ns operation name namespace ident retry (Some l))"

primrec elect_loop ::
  "nat \<Rightarrow> string \<Rightarrow> electionOperation \<Rightarrow> string \<Rightarrow> string \<Rightarrow> string \<Rightarrow> (election_error + result) prog" where
  "elect_loop 0 lease_ns operation name namespace ident =
     elect_attempt lease_ns operation name namespace ident None"
| "elect_loop (Suc n) lease_ns operation name namespace ident =
     elect_attempt lease_ns operation name namespace ident
       (Some (elect_loop n lease_ns operation name namespace ident))"

text \<open>Only a negative reply is given from the cache; everything else goes to the store.\<close>

definition cache_probe ::
  "string \<Rightarrow> electionOperation \<Rightarrow> string \<Rightarrow> string \<Rightarrow> string \<Rightarrow> lease option
   \<Rightarrow> (election_error + result) prog" where
  "cache_probe lease_ns operation name namespace ident lo =
     Remaining lo fromCache (\<lambda>rem.
       if rem > 0 \<and> (operation = operationCampaign \<or> holder lo \<noteq> ident)
       then Done (Inr (result_of StatusDefeat namespace ident lo True))
       else elect_loop maxCASAttempts lease_ns operation name namespace ident)"

definition elect ::
  "(string \<Rightarrow> string) \<Rightarrow> string \<Rightarrow> electionOperation \<Rightarrow> string \<Rightarrow> string \<Rightarrow> string
   \<Rightarrow> (election_error + result) prog" where
  "elect sha256 lease_ns operation token namespace ident =
     CacheReady (\<lambda>ready.
       if \<not> ready then Done (Inl errCacheNotReady) else
       let name = leaseName sha256 token namespace in
       CacheGet name (\<lambda>r. case r of
           Inl e \<Rightarrow> if e \<noteq> NotFound then fail_storage operation e
                    else cache_probe lease_ns operation name namespace ident None
         | Inr l \<Rightarrow> cache_probe lease_ns operation name namespace ident (Some l)))"

section \<open>The HTTP handlers\<close>

definition errorCode :: "election_error \<Rightarrow> string" where
  "errorCode e = (case e of errForbidden \<Rightarrow> ''rbac_forbidden''
     | errCacheNotReady \<Rightarrow> ''cache_not_ready'' | errStorage \<Rightarrow> ''storage_unavailable'')"

definition election_reply ::
  "string \<Rightarrow> string \<Rightarrow> election_error + result \<Rightarrow> nat \<times> result" where
  "election_reply namespace ident r =
     (case r of
        Inr elected \<Rightarrow> (200, elected)
      | Inl e \<Rightarrow> (503, (result_of StatusError namespace ident None False)
          \<lparr>r_ErrorMsg := ''DataKit election coordinator unavailable'', r_ErrorCode := errorCode e\<rparr>))"

definition handle_election ::
  "(string \<Rightarrow> string) \<Rightarrow> string \<Rightarrow> electionOperation \<Rightarrow> string \<Rightarrow> string \<Rightarrow> string
   \<Rightarrow> (nat \<times> result) prog" where
  "handle_election sha256 lease_ns operation token namespace ident =
     (if token = [] \<or> ident = [] then
        let r = (result_of StatusError namespace ident None False)
                  \<lparr>r_ErrorMsg := ''token and id cannot be empty''\<rparr>
        in Count (MRequest operation (r_Status r)) (Done (400, r))
      else bind_prog (elect sha256 lease_ns operation token namespace ident) (\<lambda>e.
        let (status, r) = election_reply namespace ident e
        in Count (MRequest operation (r_Status r)) (Done (status, r))))"

primrec check_verbs :: "string list \<Rightarrow> election_error option prog" where
  "check_verbs [] = CacheReady (\<lambda>ready. Done (if ready then None else Some errCacheNotReady))"
| "check_verbs (verb # verbs) =
     AccessReview verb (\<lambda>review. case review of
         Inl e \<Rightarrow> bind_prog (storageError operationInformer e) (\<lambda>x. Done (Some x))
       | Inr allowed \<Rightarrow> if \<not> allowed then Done (Some errForbidden) else check_verbs verbs)"

definition checkReady :: "string \<Rightarrow> election_error option prog" where
  "checkReady lease_ns =
     (if lease_ns = [] then Done (Some errCacheNotReady)
      else check_verbs [''get'', ''list'', ''watch'', ''create'', ''update''])"

text \<open>The status reply: HTTP code, status and error code.\<close>

definition handleStatus :: "string \<Rightarrow> (nat \<times> string \<times> string) prog" where
  "handleStatus lease_ns = bind_prog (checkReady lease_ns) (\<lambda>e. Done (case e of
       Some err \<Rightarrow> (503, ''error'', errorCode err)
     | None \<Rightarrow> (200, ''ready'', [])))"

section \<open>Traces\<close>

text \<open>
  \<open>runs p tr r\<close>: answered as in the trace \<open>tr\<close>, the program \<open>p\<close> makes exactly the calls of
  \<open>tr\<close> and returns \<open>r\<close>.  Nothing is assumed about the answers.
\<close>

datatype event =
    EvReady bool
  | EvCacheGet string reply
  | EvGet string reply
  | EvCreate lease reply
  | EvUpdate lease reply
  | EvRemaining "lease option" observationSource int
  | EvNow int
  | EvReview string "api_error + bool"
  | EvCount metric

inductive runs :: "'r prog \<Rightarrow> event list \<Rightarrow> 'r \<Rightarrow> bool" where
  runs_done: "runs (Done r) [] r"
| runs_ready: "runs (k a) tr r \<Longrightarrow> runs (CacheReady k) (EvReady a # tr) r"
| runs_cache: "runs (k a) tr r \<Longrightarrow> runs (CacheGet n k) (EvCacheGet n a # tr) r"
| runs_get: "runs (k a) tr r \<Longrightarrow> runs (StoreGet n k) (EvGet n a # tr) r"
| runs_create: "runs (k a) tr r \<Longrightarrow> runs (StoreCreate l k) (EvCreate l a # tr) r"
| runs_update: "runs (k a) tr r \<Longrightarrow> runs (StoreUpdate l k) (EvUpdate l a # tr) r"
| runs_remaining: "runs (k a) tr r \<Longrightarrow> runs (Remaining lo s k) (EvRemaining lo s a # tr) r"
| runs_now: "runs (k a) tr r \<Longrightarrow> runs (Now k) (EvNow a # tr) r"
| runs_review: "runs (k a) tr r \<Longrightarrow> runs (AccessReview v k) (EvReview v a # tr) r"
| runs_count: "runs p tr r \<Longrightarrow> runs (Count m p) (EvCount m # tr) r"

code_pred runs .

inductive_simps runs_simps [simp]:
  "runs (Done r) tr x"
  "runs (CacheReady k) tr x"
  "runs (CacheGet n k) tr x"
  "runs (StoreGet n k) tr x"
  "runs (StoreCreate l k) tr x"
  "runs (StoreUpdate l k) tr x"
  "runs (Remaining lo s k) tr x"
  "runs (Now k) tr x"
  "runs (AccessReview v k) tr x"
  "runs (Count m p) tr x"

lemma runs_bindI: "\<lbrakk>runs p tr1 x; runs (f x) tr2 r\<rbrakk> \<Longrightarrow> runs (bind_prog p f) (tr1 @ tr2) r"
  by (induction p tr1 x rule: runs.induct) auto

lemma runs_bindD:
  "runs (bind_prog p f) tr r \<Longrightarrow> \<exists>tr1 tr2 x. tr = tr1 @ tr2 \<and> runs p tr1 x \<and> runs (f x) tr2 r"
proof (induction p arbitrary: tr)
  case (Done x)
  then show ?case by (intro exI [of _ "[]"] exI [of _ tr] exI [of _ x]) simp
qed (clarsimp, (drule meta_spec, drule meta_spec, drule meta_mp, rule rangeI, drule (1) meta_mp)?,
     (drule (1) meta_spec2)?, metis append_Cons)+

lemma runs_bind:
  "runs (bind_prog p f) tr r \<longleftrightarrow> (\<exists>tr1 tr2 x. tr = tr1 @ tr2 \<and> runs p tr1 x \<and> runs (f x) tr2 r)"
  using runs_bindI runs_bindD by metis

text \<open>Every program returns, whatever it is answered: there is a trace for every environment.\<close>

lemma runs_total: "\<exists>tr r. runs p tr r"
  by (induction p) (auto, blast+)

lemma runs_fail_storage [simp]:
  "runs (fail_storage op e) tr x \<longleftrightarrow>
    tr = [EvCount (MStorageError op)] \<and> x = Inl (if e = Forbidden then errForbidden else errStorage)"
  by (auto simp: fail_storage_def storageError_def)

fun is_write :: "event \<Rightarrow> bool" where
  "is_write (EvCreate _ _) = True"
| "is_write (EvUpdate _ _) = True"
| "is_write _ = False"

fun is_get :: "event \<Rightarrow> bool" where
  "is_get (EvGet _ _) = True"
| "is_get _ = False"

text \<open>An accepted write and the Lease the API returned for it.\<close>

fun accepted :: "event \<Rightarrow> lease option" where
  "accepted (EvCreate _ (Inr l)) = Some l"
| "accepted (EvUpdate _ (Inr l)) = Some l"
| "accepted _ = None"

lemmas elect_defs = elect_def cache_probe_def elect_attempt_def attempt_body_def attempt_write_def
  after_write_def Let_def

end
