(* ===== verification/Election_Traces.thy ===== *)
theory Election_Traces
  imports Coordinator
begin

text \<open>
  What a single election request does, for every behaviour of the API server, the cache and
  the clocks: facts about all traces of \<open>elect\<close>, \<open>handle\<close> and the status probe.
\<close>

section \<open>The shape of one attempt\<close>

text \<open>How the code reads a reply: \<open>IsNotFound\<close> means there is no Lease.\<close>

definition read_as :: "reply \<Rightarrow> lease option \<Rightarrow> bool" where
  "read_as g lo \<longleftrightarrow> g = Inl NotFound \<and> lo = None \<or> (\<exists>l. g = Inr l \<and> lo = Some l)"

definition refused :: "electionOperation \<Rightarrow> string \<Rightarrow> lease option \<Rightarrow> int \<Rightarrow> bool" where
  "refused operation ident lo rem \<longleftrightarrow> operation = operationCampaign \<and> rem > 0 \<or>
     operation = operationHeartbeat \<and> (\<not> rem > 0 \<or> holder lo \<noteq> ident)"

definition write_event ::
  "electionOperation \<Rightarrow> string \<Rightarrow> string \<Rightarrow> string \<Rightarrow> lease option \<Rightarrow> int \<Rightarrow> reply \<Rightarrow> event" where
  "write_event operation lease_ns name ident lo t a =
     (case lo of None \<Rightarrow> EvCreate (newLease lease_ns name ident t) a
      | Some l \<Rightarrow> EvUpdate (if operation = operationCampaign then acquireLease l ident t
                            else renewLease l t) a)"

definition lost_race :: "api_error \<Rightarrow> bool" where
  "lost_race e \<longleftrightarrow> e = Conflict \<or> e = AlreadyExists \<or> e = NotFound"

definition storage_failure :: "api_error \<Rightarrow> election_error" where
  "storage_failure e = (if e = Forbidden then errForbidden else errStorage)"

lemma is_write_event [simp]: "is_write (write_event op lns n i lo t a)"
  and is_get_write_event [simp]: "\<not> is_get (write_event op lns n i lo t a)"
  and accepted_write_event [simp]:
    "accepted (write_event op lns n i lo t a) = (case a of Inl _ \<Rightarrow> None | Inr u \<Rightarrow> Some u)"
  by (auto simp: write_event_def split: option.splits sum.splits)

lemma after_writeE:
  assumes "runs (after_write op missing ns ident again a) tr x"
  obtains
    (lost) e rest where "a = Inl e" "lost_race e" "tr = EvCount (MCASConflict op) # rest"
      "runs again rest x"
  | (failed) e where "a = Inl e" "\<not> lost_race e" "tr = [EvCount (MStorageError op)]"
      "x = Inl (storage_failure e)"
  | (won) u rem counts where "a = Inr u" "tr = EvRemaining (Some u) fromStore rem # counts"
      "counts = (if op = operationCampaign
        then [EvCount (MTransition (if missing then transitionFirstAcquire else transitionLeaseExpired))]
        else [])"
      "x = Inr (result_of StatusSuccess ns ident (Some u) True)"
proof (cases a)
  case (Inl e)
  with assms lost failed show ?thesis
    by (auto simp: after_write_def lost_race_def storage_failure_def split: if_splits)
next
  case (Inr u)
  with assms won show ?thesis
    by (auto simp: after_write_def Let_def split: if_splits)
qed

lemma attempt_bodyE:
  assumes "runs (attempt_body lns op name ns ident retry lo) tr x"
  obtains
    (defeat) rem where "tr = [EvRemaining lo fromStore rem]" "refused op ident lo rem"
      "x = Inr (result_of StatusDefeat ns ident lo (rem > 0))"
  | (exhausted) rem where "\<not> refused op ident lo rem" "retry = None"
      "tr = [EvRemaining lo fromStore rem, EvCount (MStorageError op)]" "x = Inl errStorage"
  | (wrote) rem t a again rest where "\<not> refused op ident lo rem" "retry = Some again"
      "tr = EvRemaining lo fromStore rem # EvNow t # write_event op lns name ident lo t a # rest"
      "runs (after_write op (lo = None) ns ident again a) rest x"
proof -
  from assms obtain rem tr' where tr: "tr = EvRemaining lo fromStore rem # tr'" and
    run: "runs (if refused op ident lo rem then Done (Inr (result_of StatusDefeat ns ident lo (rem > 0)))
       else case retry of None \<Rightarrow> fail_storage op OtherError
       | Some again \<Rightarrow> attempt_write lns op name ns ident lo again) tr' x"
    by (auto simp: attempt_body_def refused_def Let_def)
  show ?thesis
  proof (cases "refused op ident lo rem")
    case True
    with run tr show ?thesis by (intro defeat) auto
  next
    case False
    show ?thesis
    proof (cases retry)
      case None
      with run tr False show ?thesis by (intro exhausted) auto
    next
      case (Some again)
      with run tr False show ?thesis
        by (cases lo) (auto simp: attempt_write_def write_event_def split: if_splits
            intro!: wrote [OF _ Some])
    qed
  qed
qed

lemma attemptE:
  assumes "runs (elect_attempt lns op name ns ident retry) tr x"
  obtains
    (unreadable) e where "e \<noteq> NotFound" "tr = [EvGet name (Inl e), EvCount (MStorageError op)]"
      "x = Inl (storage_failure e)"
  | (read) g lo rest where "read_as g lo" "tr = EvGet name g # rest"
      "runs (attempt_body lns op name ns ident retry lo) rest x"
proof -
  from assms obtain g rest where tr: "tr = EvGet name g # rest" and
    run: "runs (case g of Inl e \<Rightarrow> if e \<noteq> NotFound then fail_storage op e
                  else attempt_body lns op name ns ident retry None
       | Inr l \<Rightarrow> attempt_body lns op name ns ident retry (Some l)) rest x"
    by (auto simp: elect_attempt_def)
  show ?thesis
  proof (cases g)
    case (Inl e)
    with run tr read unreadable show ?thesis
      by (cases "e = NotFound") (auto simp: read_as_def storage_failure_def)
  next
    case (Inr l)
    with run tr read show ?thesis by (auto simp: read_as_def)
  qed
qed

lemma cache_probeE:
  assumes "runs (cache_probe lns op name ns ident lo) tr x"
  obtains
    (defeat) rem where "rem > 0" "op = operationCampaign \<or> holder lo \<noteq> ident"
      "tr = [EvRemaining lo fromCache rem]" "x = Inr (result_of StatusDefeat ns ident lo True)"
  | (retry) rem rest where "\<not> (rem > 0 \<and> (op = operationCampaign \<or> holder lo \<noteq> ident))"
      "tr = EvRemaining lo fromCache rem # rest" "runs (elect_loop maxCASAttempts lns op name ns ident) rest x"
proof -
  from assms obtain rem r where r: "tr = EvRemaining lo fromCache rem # r" and
    run: "runs (if rem > 0 \<and> (op = operationCampaign \<or> holder lo \<noteq> ident)
       then Done (Inr (result_of StatusDefeat ns ident lo True))
       else elect_loop maxCASAttempts lns op name ns ident) r x"
    by (auto simp: cache_probe_def)
  show thesis
  proof (cases "rem > 0 \<and> (op = operationCampaign \<or> holder lo \<noteq> ident)")
    case True
    with run r show ?thesis by (intro defeat [of rem]) auto
  next
    case False
    with run r show ?thesis by (intro retry [of rem r]) auto
  qed
qed

lemma electE:
  assumes "runs (elect sha256 lns op token ns ident) tr x"
  obtains
    (not_ready) "tr = [EvReady False]" "x = Inl errCacheNotReady"
  | (cache_error) e where "e \<noteq> NotFound" "x = Inl (storage_failure e)"
      "tr = [EvReady True, EvCacheGet (leaseName sha256 token ns) (Inl e), EvCount (MStorageError op)]"
  | (cached_defeat) g lo rem where "read_as g lo" "rem > 0" "op = operationCampaign \<or> holder lo \<noteq> ident"
      "tr = [EvReady True, EvCacheGet (leaseName sha256 token ns) g, EvRemaining lo fromCache rem]"
      "x = Inr (result_of StatusDefeat ns ident lo True)"
  | (loop) g lo rem rest where "read_as g lo" "\<not> (rem > 0 \<and> (op = operationCampaign \<or> holder lo \<noteq> ident))"
      "tr = EvReady True # EvCacheGet (leaseName sha256 token ns) g # EvRemaining lo fromCache rem # rest"
      "runs (elect_loop maxCASAttempts lns op (leaseName sha256 token ns) ns ident) rest x"
proof -
  let ?name = "leaseName sha256 token ns"
  from assms obtain a tr' where tr: "tr = EvReady a # tr'" and
    run: "if \<not> a then tr' = [] \<and> x = Inl errCacheNotReady else
      (\<exists>g rest. tr' = EvCacheGet ?name g # rest \<and>
       runs (case g of
           Inl e \<Rightarrow> if e \<noteq> NotFound then fail_storage op e else cache_probe lns op ?name ns ident None
         | Inr l \<Rightarrow> cache_probe lns op ?name ns ident (Some l)) rest x)"
    by (auto simp: elect_def Let_def split: if_splits)
  have probe: ?thesis if a: "a" "read_as g lo" "tr' = EvCacheGet ?name g # rest"
    and run: "runs (cache_probe lns op ?name ns ident lo) rest x" for g lo rest
    using run
  proof (cases rule: cache_probeE)
    case (defeat rem)
    show ?thesis by (rule cached_defeat [OF a(2) defeat(1,2)]) (use a tr defeat(3,4) in simp_all)
  next
    case (retry rem r)
    show ?thesis by (rule loop [OF a(2) retry(1) _ retry(3)]) (use a tr retry(2) in simp)
  qed
  show ?thesis
  proof (cases a)
    case False
    with run tr not_ready show ?thesis by simp
  next
    case True
    with run obtain g rest where g: "tr' = EvCacheGet ?name g # rest"
      "runs (case g of
           Inl e \<Rightarrow> if e \<noteq> NotFound then fail_storage op e else cache_probe lns op ?name ns ident None
         | Inr l \<Rightarrow> cache_probe lns op ?name ns ident (Some l)) rest x"
      by auto
    show ?thesis
    proof (cases g)
      case (Inl e)
      then show ?thesis using g tr True cache_error [of e] probe [OF True, of g None rest]
        by (cases "e = NotFound") (simp_all add: read_as_def storage_failure_def)
    next
      case (Inr l)
      with g probe [OF True, of g "Some l" rest] show ?thesis by (simp add: read_as_def)
    qed
  qed
qed

section \<open>Every write is justified by the read before it\<close>

text \<open>
  \<open>justified operation lease_ns name ident h w\<close>: the write \<open>w\<close>, with the earlier events \<open>h\<close>
  (latest first), writes what the code may write on the strength of the GET, the expiry check
  and the clock reading just before it.
\<close>

fun justified ::
  "electionOperation \<Rightarrow> string \<Rightarrow> string \<Rightarrow> string \<Rightarrow> event list \<Rightarrow> event \<Rightarrow> bool" where
  "justified operation lease_ns name ident
     (EvNow t # EvRemaining lo fromStore rem # EvGet n g # h) (EvCreate l a) =
     (n = name \<and> g = Inl NotFound \<and> lo = None \<and> operation \<noteq> operationHeartbeat \<and> rem \<le> 0 \<and>
      l = newLease lease_ns name ident t)"
| "justified operation lease_ns name ident
     (EvNow t # EvRemaining lo fromStore rem # EvGet n g # h) (EvUpdate l a) =
     (n = name \<and> (\<exists>x. g = Inr x \<and> lo = Some x \<and>
        (operation = operationCampaign \<and> rem \<le> 0 \<and> l = acquireLease x ident t \<or>
         operation = operationHeartbeat \<and> rem > 0 \<and> holder (Some x) = ident \<and> l = renewLease x t)))"
| "justified operation lease_ns name ident h e = (\<not> is_write e)"

fun all_justified ::
  "electionOperation \<Rightarrow> string \<Rightarrow> string \<Rightarrow> string \<Rightarrow> event list \<Rightarrow> event list \<Rightarrow> bool" where
  "all_justified operation lease_ns name ident h [] = True"
| "all_justified operation lease_ns name ident h (e # es) =
     (justified operation lease_ns name ident h e \<and>
      all_justified operation lease_ns name ident (e # h) es)"

lemma justified_no_write [simp]: "\<not> is_write e \<Longrightarrow> justified op lns n i h e"
  by (cases "(op, lns, n, i, h, e)" rule: justified.cases) auto

lemma justified_write_event:
  assumes "op = operationCampaign \<or> op = operationHeartbeat" "ident \<noteq> []"
    "\<not> refused op ident lo rem" "read_as g lo"
  shows "justified op lns name ident (EvNow t # EvRemaining lo fromStore rem # EvGet name g # h)
    (write_event op lns name ident lo t a)"
  using assms by (cases lo) (auto simp: write_event_def refused_def read_as_def)

lemma loop_justified:
  assumes "op = operationCampaign \<or> op = operationHeartbeat" "ident \<noteq> []"
  shows "runs (elect_loop k lns op name ns ident) tr x \<Longrightarrow> all_justified op lns name ident h tr"
proof (induction k arbitrary: tr h)
  case 0
  then show ?case by (auto elim!: attemptE attempt_bodyE)
next
  case (Suc k)
  then show ?case using assms
    by (auto elim!: attemptE attempt_bodyE after_writeE intro!: justified_write_event split: if_splits)
qed

lemma elect_justified:
  assumes "op = operationCampaign \<or> op = operationHeartbeat" "ident \<noteq> []"
    "runs (elect sha256 lns op token ns ident) tr x"
  shows "all_justified op lns (leaseName sha256 token ns) ident [] tr"
  using assms(3) by (rule electE) (simp_all add: loop_justified [OF assms(1,2)])

section \<open>Bounded effort\<close>

definition count_events :: "(event \<Rightarrow> bool) \<Rightarrow> event list \<Rightarrow> nat" where
  "count_events p tr = length (filter p tr)"

lemma count_events_simps [simp]:
  "count_events p [] = 0"
  "count_events p (e # es) = (if p e then Suc (count_events p es) else count_events p es)"
  "count_events p (xs @ ys) = count_events p xs + count_events p ys"
  by (simp_all add: count_events_def)

lemma loop_bounds:
  "runs (elect_loop k lns op name ns ident) tr x \<Longrightarrow>
   count_events is_write tr \<le> k \<and> count_events is_get tr \<le> Suc k"
proof (induction k arbitrary: tr)
  case 0
  then show ?case by (auto elim!: attemptE attempt_bodyE)
next
  case (Suc k)
  then show ?case by (fastforce elim!: attemptE attempt_bodyE after_writeE)
qed

section \<open>A success is an accepted write\<close>

definition accepted_lease :: "event list \<Rightarrow> lease \<Rightarrow> bool" where
  "accepted_lease tr u \<longleftrightarrow> (\<exists>e \<in> set tr. accepted e = Some u)"

lemma accepted_lease_simps [simp]:
  "\<not> accepted_lease [] u"
  "accepted_lease (e # es) u \<longleftrightarrow> accepted e = Some u \<or> accepted_lease es u"
  by (auto simp: accepted_lease_def)

lemma result_of_status [simp]: "r_Status (result_of st ns ident lo act) = st"
  by (simp add: result_of_def)

lemma loop_success:
  "\<lbrakk>runs (elect_loop k lns op name ns ident) tr (Inr r); r_Status r = StatusSuccess\<rbrakk>
   \<Longrightarrow> \<exists>u. accepted_lease tr u \<and> r = result_of StatusSuccess ns ident (Some u) True"
proof (induction k arbitrary: tr)
  case 0
  then show ?case by (auto elim!: attemptE attempt_bodyE)
next
  case (Suc k)
  from Suc.prems show ?case
    by (auto elim!: attemptE attempt_bodyE after_writeE dest: Suc.IH)
qed

text \<open>A heartbeat or a campaign that got no write accepted never reports success.\<close>

lemma loop_no_accept:
  assumes "runs (elect_loop k lns op name ns ident) tr (Inr r)" "\<forall>u. \<not> accepted_lease tr u"
  shows "r_Status r = StatusDefeat"
  using assms
proof (induction k arbitrary: tr)
  case 0
  then show ?case by (auto elim!: attemptE attempt_bodyE)
next
  case (Suc k)
  from Suc.prems show ?case
    by (auto elim!: attemptE attempt_bodyE after_writeE dest: Suc.IH)
qed

section \<open>The handlers\<close>

lemma handle_runs:
  assumes "token \<noteq> []" "ident \<noteq> []"
  shows "runs (handle_election sha256 lns op token ns ident) tr out \<longleftrightarrow>
    (\<exists>tr' e. runs (elect sha256 lns op token ns ident) tr' e \<and>
       out = election_reply ns ident e \<and>
       tr = tr' @ [EvCount (MRequest op (r_Status (snd (election_reply ns ident e))))])"
proof -
  have "runs (let (status, r) = election_reply ns ident e
         in Count (MRequest op (r_Status r)) (Done (status, r))) tr2 out \<longleftrightarrow>
      out = election_reply ns ident e \<and>
      tr2 = [EvCount (MRequest op (r_Status (snd (election_reply ns ident e))))]" for e tr2
    by (cases "election_reply ns ident e") auto
  then show ?thesis using assms by (auto simp: handle_election_def runs_bind)
qed

lemma check_verbs_runs:
  "runs (check_verbs vs) tr None \<longleftrightarrow> tr = map (\<lambda>v. EvReview v (Inr True)) vs @ [EvReady True]"
proof (induction vs arbitrary: tr)
  case Nil
  then show ?case by auto
next
  case (Cons v vs)
  have "runs (case a of
         Inl e \<Rightarrow> bind_prog (storageError operationInformer e) (\<lambda>x. Done (Some x))
       | Inr allowed \<Rightarrow> if \<not> allowed then Done (Some errForbidden) else check_verbs vs) t None \<longleftrightarrow>
     a = Inr True \<and> t = map (\<lambda>v. EvReview v (Inr True)) vs @ [EvReady True]" for a t
    using Cons.IH by (cases a) (auto simp: storageError_def)
  then show ?case by auto
qed

section \<open>Properties\<close>

text \<open>C21: Every Lease write of an election request is justified by the GET, the expiry check
  and the clock reading just before it: a create only when the name was missing and the request
  is a campaign, an acquisition only of a Lease reported as expired, a renewal only of an
  unexpired Lease held by the caller, and nothing else is ever written.\<close>

theorem elect_writes_justified:
  assumes "op = operationCampaign \<or> op = operationHeartbeat" "ident \<noteq> []"
    "runs (elect sha256 lns op token ns ident) tr x"
  shows "all_justified op lns (leaseName sha256 token ns) ident [] tr"
  using assms by (rule elect_justified)

theorem elect_writes_justified_witness:
  "all_justified operationCampaign ''op'' (leaseName (\<lambda>s. s) ''t'' ''n'') ''a'' []
     [EvReady True, EvCacheGet (leaseName (\<lambda>s. s) ''t'' ''n'') (Inl NotFound),
      EvRemaining None fromCache 0, EvGet (leaseName (\<lambda>s. s) ''t'' ''n'') (Inl NotFound),
      EvRemaining None fromStore 0, EvNow 7,
      EvCreate (newLease ''op'' (leaseName (\<lambda>s. s) ''t'' ''n'') ''a'' 7) (Inl Forbidden),
      EvCount (MStorageError operationCampaign)]"
  by (rule elect_writes_justified [where x = "Inl errForbidden"])
     (auto simp: elect_defs maxCASAttempts_def eval_nat_numeral)

text \<open>C22: A reply of success is never given from the cache or after a failed write: the request
  got a write accepted by the API server, and the reply describes exactly the Lease returned
  for that write.\<close>

theorem success_is_accepted_write:
  assumes "runs (elect sha256 lns op token ns ident) tr (Inr r)" "r_Status r = StatusSuccess"
  shows "\<exists>u. accepted_lease tr u \<and> r = result_of StatusSuccess ns ident (Some u) True"
  using assms by (auto elim!: electE dest!: loop_success)

theorem success_is_accepted_witness:
  "let u = newLease ''op'' (leaseName (\<lambda>s. s) ''t'' ''n'') ''a'' 7;
       tr = [EvReady True, EvCacheGet (l_Name u) (Inl NotFound), EvRemaining None fromCache 0,
          EvGet (l_Name u) (Inl NotFound), EvRemaining None fromStore 0, EvNow 7, EvCreate u (Inr u),
          EvRemaining (Some u) fromStore 30000000000, EvCount (MTransition transitionFirstAcquire)]
   in \<exists>v. accepted_lease tr v \<and>
     result_of StatusSuccess ''n'' ''a'' (Some u) True = result_of StatusSuccess ''n'' ''a'' (Some v) True"
  unfolding Let_def
  by (rule success_is_accepted_write [of "\<lambda>s. s" "''op''" operationCampaign "''t''"])
     (auto simp: elect_defs maxCASAttempts_def eval_nat_numeral)

text \<open>C23: The compare-and-swap loop is bounded: whatever the API server answers, a request makes
  at most five writes and six authoritative reads.\<close>

theorem elect_bounded:
  assumes "runs (elect sha256 lns op token ns ident) tr x"
  shows "count_events is_write tr \<le> 5 \<and> count_events is_get tr \<le> 6"
  using assms by (rule electE) (auto dest!: loop_bounds simp: maxCASAttempts_def)

theorem elect_bounded_witness:
  "count_events is_write [EvReady False] \<le> 5 \<and> count_events is_get [EvReady False] \<le> 6"
  by (rule elect_bounded [of "\<lambda>s. s" "''op''" operationCampaign "''t''" "[]" "''a''" _
      "Inl errCacheNotReady"]) (auto simp: elect_def)

text \<open>
  What an unopposed request is answered: the cache is ready and readable and does not show another holder's live
  term, every authoritative read finds the same Lease (or none), which has expired for a campaign and is alive for a
  heartbeat, and writes are accepted as they are.
\<close>

definition accepts :: "lease \<Rightarrow> reply \<Rightarrow> bool" where
  "accepts l a \<longleftrightarrow> (\<exists>u. a = Inr u \<and> l_Spec u = l_Spec l)"

fun unopposed :: "electionOperation \<Rightarrow> string \<Rightarrow> lease option \<Rightarrow> event \<Rightarrow> bool" where
  "unopposed op ident lo (EvReady a) = a"
| "unopposed op ident lo (EvCacheGet n g) = (\<exists>l. read_as g l)"
| "unopposed op ident lo (EvGet n g) = read_as g lo"
| "unopposed op ident lo (EvRemaining l fromCache r) = (r \<le> 0 \<or> op = operationHeartbeat \<and> holder l = ident)"
| "unopposed op ident lo (EvRemaining l fromStore r) = (l = lo \<longrightarrow> (r > 0 \<longleftrightarrow> op = operationHeartbeat))"
| "unopposed op ident lo (EvCreate l a) = accepts l a"
| "unopposed op ident lo (EvUpdate l a) = accepts l a"
| "unopposed op ident lo _ = True"

lemma read_as_unique: "read_as g lo \<Longrightarrow> read_as g l \<Longrightarrow> l = lo"
  by (auto simp: read_as_def)

lemma unopposed_write: "unopposed op ident l (write_event op' lns name i lo t a) \<Longrightarrow>
    \<exists>u. a = Inr u \<and> l_Spec u = l_Spec (case lo of None \<Rightarrow> newLease lns name i t
      | Some x \<Rightarrow> if op' = operationCampaign then acquireLease x i t else renewLease x t)"
  by (auto simp: write_event_def accepts_def split: option.splits)

lemma holder_spec: "l_Spec u = l_Spec l \<Longrightarrow> holder (Some u) = holder (Some l) \<and> epoch (Some u) = epoch (Some l)"
  by (simp add: holder_def epoch_def)

lemma unopposed_loop:
  assumes "runs (elect_loop (Suc k) lns op name ns ident) tr x" "list_all (unopposed op ident lo) tr"
    and "op = operationCampaign \<or> op = operationHeartbeat \<and> lo \<noteq> None \<and> holder lo = ident"
  shows "\<exists>u t. x = Inr (result_of StatusSuccess ns ident (Some u) True) \<and> accepted_lease tr u \<and>
     count_events is_write tr = 1 \<and> count_events is_get tr = 1 \<and>
     l_Spec u = l_Spec (case lo of None \<Rightarrow> newLease lns name ident t
      | Some l \<Rightarrow> if op = operationCampaign then acquireLease l ident t else renewLease l t)"
proof -
  from assms(1) have "runs (elect_attempt lns op name ns ident (Some (elect_loop k lns op name ns ident))) tr x"
    by simp
  then show ?thesis
  proof (cases rule: attemptE)
    case (unreadable e)
    then show ?thesis using assms(2) by (simp add: read_as_def)
  next
    case (read g l rest)
    then have l: "l = lo" using assms(2) by (auto dest: read_as_unique)
    from read(3) show ?thesis
    proof (cases rule: attempt_bodyE)
      case (defeat rem)
      then have "rem > 0 \<longleftrightarrow> op = operationHeartbeat" using assms(2) read(2) l by simp
      then show ?thesis using defeat(2) assms(3) l by (auto simp: refused_def)
    next
      case (wrote rem t a again rest')
      have "unopposed op ident lo (write_event op lns name ident l t a)" using assms(2) read(2) wrote(3) by simp
      then obtain u where u: "a = Inr u" "l_Spec u = l_Spec (case lo of None \<Rightarrow> newLease lns name ident t
          | Some x \<Rightarrow> if op = operationCampaign then acquireLease x ident t else renewLease x t)"
        using unopposed_write l by blast
      from wrote(4) show ?thesis
      proof (cases rule: after_writeE)
        case (won v rem' counts)
        then show ?thesis using u read(2) wrote(3) by (intro exI [of _ u] exI [of _ t]) auto
      qed (use u in simp_all)
    qed simp
  qed
qed

text \<open>C7: availability: an unopposed request succeeds, whatever the clocks show.  A campaign for a Lease that is missing or
  has expired makes the caller its holder with the next epoch, and a heartbeat of the holder of a live Lease renews
  it in the same epoch; either takes one authoritative read and one write.\<close>

theorem unopposed_request_succeeds:
  assumes "runs (elect sha256 lns op token ns ident) tr x" "list_all (unopposed op ident lo) tr"
    and "op = operationCampaign \<or> op = operationHeartbeat \<and> lo \<noteq> None \<and> holder lo = ident"
    and "epoch lo < 2 ^ 31 - 1"
  shows "\<exists>r u. x = Inr r \<and> r_Status r = StatusSuccess \<and> r_IncumbencyID r = ident \<and>
     accepted_lease tr u \<and> holder (Some u) = ident \<and> count_events is_write tr = 1 \<and> count_events is_get tr = 1 \<and>
     r_Epoch r = (if op = operationCampaign then epoch lo + 1 else epoch lo) \<and> epoch (Some u) = r_Epoch r"
  using assms(1)
proof (cases rule: electE)
  case (cached_defeat g l rem)
  then show ?thesis using assms(2,3) by auto
next
  case (loop g l rem rest)
  have "runs (elect_loop (Suc 4) lns op (leaseName sha256 token ns) ns ident) rest x"
    using loop(4) by (simp add: maxCASAttempts_def eval_nat_numeral)
  moreover have "list_all (unopposed op ident lo) rest" using assms(2) loop(3) by simp
  ultimately obtain u t where u: "x = Inr (result_of StatusSuccess ns ident (Some u) True)" "accepted_lease rest u"
     "count_events is_write rest = 1" "count_events is_get rest = 1"
     "l_Spec u = l_Spec (case lo of None \<Rightarrow> newLease lns (leaseName sha256 token ns) ident t
      | Some l \<Rightarrow> if op = operationCampaign then acquireLease l ident t else renewLease l t)"
    using unopposed_loop assms(3) by blast
  have "holder (Some u) = ident \<and> epoch (Some u) = (if op = operationCampaign then epoch lo + 1 else epoch lo)"
    using holder_spec [OF u(5)] assms(3,4) epoch_acquire by (cases lo) (auto split: if_splits)
  then show ?thesis using u(1-4) loop(3) by (auto simp: result_of_def)
qed (use assms(2) in \<open>auto simp: read_as_def\<close>)

lemma unopposed_request_succeeds_witness:
  "let n = leaseName (\<lambda>s. s) ''t'' ''n''; u = newLease ''op'' n ''a'' 7;
       tr = [EvReady True, EvCacheGet n (Inl NotFound), EvRemaining None fromCache 0, EvGet n (Inl NotFound),
          EvRemaining None fromStore 0, EvNow 7, EvCreate u (Inr u),
          EvRemaining (Some u) fromStore 30000000000, EvCount (MTransition transitionFirstAcquire)]
   in \<exists>r v. runs (elect (\<lambda>s. s) ''op'' operationCampaign ''t'' ''n'' ''a'') tr (Inr r) \<and>
     r_Status r = StatusSuccess \<and> accepted_lease tr v \<and> r_Epoch r = 1"
proof -
  let ?n = "leaseName (\<lambda>s. s) ''t'' ''n''"
  let ?u = "newLease ''op'' ?n ''a'' 7"
  let ?tr = "[EvReady True, EvCacheGet ?n (Inl NotFound), EvRemaining None fromCache 0, EvGet ?n (Inl NotFound),
          EvRemaining None fromStore 0, EvNow 7, EvCreate ?u (Inr ?u),
          EvRemaining (Some ?u) fromStore 30000000000, EvCount (MTransition transitionFirstAcquire)]"
  let ?r = "result_of StatusSuccess ''n'' ''a'' (Some ?u) True"
  have run: "runs (elect (\<lambda>s. s) ''op'' operationCampaign ''t'' ''n'' ''a'') ?tr (Inr ?r)"
    by (auto simp: elect_defs maxCASAttempts_def eval_nat_numeral)
  have absent: "read_as (Inl NotFound) None" by (simp add: read_as_def)
  then have "\<exists>l. read_as (Inl NotFound) l" by blast
  then have quiet: "list_all (unopposed operationCampaign ''a'' None) ?tr" using absent by (simp add: accepts_def)
  from unopposed_request_succeeds [OF run quiet] have "\<exists>v. accepted_lease ?tr v \<and> r_Epoch ?r = 1" by auto
  then show ?thesis using run unfolding Let_def by (intro exI [of _ ?r]) auto
qed

end
