(* ===== verification/Election_System.thy ===== *)
theory Election_System
  imports Election_Traces
begin

text \<open>
  Many election requests, on several Operator replicas, interleaved against one API server.
  The server gives what Kubernetes documents: reads return the stored object or an error,
  a create succeeds only when the name is free, an update only when its resourceVersion is
  the stored one, every accepted write gets a fresh resourceVersion and every created object a
  fresh UID.  Everything else is adversarial: any call can fail, an accepted write can be
  reported as failed, caches lag arbitrarily, wall clocks are arbitrary, Leases can be deleted,
  replicas restart.  Local elapsed time is read somewhere between the previous action of the
  request and the present one, as \<open>c.elapsed()\<close> is evaluated before the table's mutex is taken.
\<close>

section \<open>States and steps\<close>

record thread =
  th_node :: nat
  th_op :: electionOperation
  th_name :: string
  th_ns :: string
  th_ident :: string
  th_prog :: "(election_error + result) prog"
  th_last :: int
  th_wrote :: "lease set"

record node =
  nd_tab :: obs_table
  nd_start :: int

text \<open>
  \<open>sy_versions\<close> (every version ever stored, with its write time), \<open>sy_terms\<close> (every accepted
  acquisition: UID, epoch and request) and \<open>th_wrote\<close> (the acknowledged writes of a request)
  are history: no step reads them.
\<close>

record sys =
  sy_store :: "string \<Rightarrow> lease option"
  sy_clock :: int
  sy_rv :: nat
  sy_uid :: nat
  sy_nodes :: "nat \<Rightarrow> node"
  sy_next :: nat
  sy_threads :: "nat \<Rightarrow> thread option"
  sy_versions :: "(lease \<times> int) set"
  sy_terms :: "(string \<times> int \<times> nat) list"

definition init_sys :: sys where
  "init_sys = \<lparr>sy_store = (\<lambda>_. None), sy_clock = 0, sy_rv = 1, sy_uid = 1,
     sy_nodes = (\<lambda>_. \<lparr>nd_tab = empty_table, nd_start = 0\<rparr>), sy_next = 0,
     sy_threads = (\<lambda>_. None), sy_versions = {}, sy_terms = []\<rparr>"

definition resume :: "nat \<Rightarrow> thread \<Rightarrow> (election_error + result) prog \<Rightarrow> sys \<Rightarrow> sys" where
  "resume i th p s = s\<lparr>sy_threads := (sy_threads s)(i \<mapsto> th\<lparr>th_prog := p, th_last := sy_clock s\<rparr>)\<rparr>"

text \<open>The effect of an accepted write: \<open>acquired\<close> tells an acquisition from a renewal.\<close>

definition put_lease :: "nat \<Rightarrow> lease \<Rightarrow> bool \<Rightarrow> sys \<Rightarrow> sys" where
  "put_lease i l acquired s = s\<lparr>sy_store := (sy_store s)(l_Name l \<mapsto> l), sy_rv := Suc (sy_rv s),
     sy_versions := insert (l, sy_clock s) (sy_versions s),
     sy_terms := (if acquired then (l_UID l, epoch (Some l), i) # sy_terms s else sy_terms s)\<rparr>"

definition created :: "lease \<Rightarrow> sys \<Rightarrow> lease" where
  "created l s = l\<lparr>l_UID := show_nat (sy_uid s), l_ResourceVersion := show_nat (sy_rv s)\<rparr>"

definition updated :: "lease \<Rightarrow> sys \<Rightarrow> lease" where
  "updated l s = l\<lparr>l_ResourceVersion := show_nat (sy_rv s)\<rparr>"

definition acked :: "thread \<Rightarrow> lease \<Rightarrow> reply \<Rightarrow> thread" where
  "acked th l a = (case a of Inl _ \<Rightarrow> th | Inr _ \<Rightarrow> th\<lparr>th_wrote := insert l (th_wrote th)\<rparr>)"

inductive sys_step :: "(string \<Rightarrow> string) \<Rightarrow> string \<Rightarrow> sys \<Rightarrow> sys \<Rightarrow> bool" for sha256 lease_ns where
  step_start:
    "\<lbrakk>ident \<noteq> []; op = operationCampaign \<or> op = operationHeartbeat\<rbrakk> \<Longrightarrow>
     sys_step sha256 lease_ns s (s\<lparr>sy_next := Suc (sy_next s), sy_threads := (sy_threads s)(sy_next s \<mapsto>
       \<lparr>th_node = n, th_op = op, th_name = leaseName sha256 token ns, th_ns = ns, th_ident = ident,
        th_prog = elect sha256 lease_ns op token ns ident, th_last = sy_clock s, th_wrote = {}\<rparr>)\<rparr>)"
| step_ready:
    "\<lbrakk>sy_threads s i = Some th; th_prog th = CacheReady k\<rbrakk> \<Longrightarrow>
     sys_step sha256 lease_ns s (resume i th (k a) s)"
| step_cache:
    "\<lbrakk>sy_threads s i = Some th; th_prog th = CacheGet n k;
      \<And>l. a = Inr l \<Longrightarrow> l_Name l = n \<and> (\<exists>w. (l, w) \<in> sy_versions s)\<rbrakk> \<Longrightarrow>
     sys_step sha256 lease_ns s (resume i th (k a) s)"
| step_get:
    "\<lbrakk>sy_threads s i = Some th; th_prog th = StoreGet n k;
      a = (case sy_store s n of None \<Rightarrow> Inl NotFound | Some l \<Rightarrow> Inr l) \<or> (\<exists>e. e \<noteq> NotFound \<and> a = Inl e)\<rbrakk> \<Longrightarrow>
     sys_step sha256 lease_ns s (resume i th (k a) s)"
| step_write_refused:
    "\<lbrakk>sy_threads s i = Some th; th_prog th = StoreCreate l k \<or> th_prog th = StoreUpdate l k\<rbrakk> \<Longrightarrow>
     sys_step sha256 lease_ns s (resume i th (k (Inl e)) s)"
| step_create:
    "\<lbrakk>sy_threads s i = Some th; th_prog th = StoreCreate l k; sy_store s (l_Name l) = None;
      l' = created l s; a = Inr l' \<or> a = Inl e\<rbrakk> \<Longrightarrow>
     sys_step sha256 lease_ns s (resume i (acked th l' a) (k a)
       ((put_lease i l' True s)\<lparr>sy_uid := Suc (sy_uid s)\<rparr>))"
| step_update:
    "\<lbrakk>sy_threads s i = Some th; th_prog th = StoreUpdate l k; sy_store s (l_Name l) = Some cur;
      l_ResourceVersion cur = l_ResourceVersion l; l_UID cur = l_UID l;
      l' = updated l s; a = Inr l' \<or> a = Inl e\<rbrakk> \<Longrightarrow>
     sys_step sha256 lease_ns s (resume i (acked th l' a) (k a)
       (put_lease i l' (th_op th = operationCampaign) s))"
| step_remaining:
    "\<lbrakk>sy_threads s i = Some th; th_prog th = Remaining lo src k;
      nd = sy_nodes s (th_node th); th_last th \<le> el + nd_start nd; el + nd_start nd \<le> sy_clock s;
      remaining (nd_tab nd) lo src el = (r, tab)\<rbrakk> \<Longrightarrow>
     sys_step sha256 lease_ns s (resume i th (k r)
       (s\<lparr>sy_nodes := (sy_nodes s)(th_node th := nd\<lparr>nd_tab := tab\<rparr>)\<rparr>))"
| step_now:
    "\<lbrakk>sy_threads s i = Some th; th_prog th = Now k\<rbrakk> \<Longrightarrow>
     sys_step sha256 lease_ns s (resume i th (k t) s)"
| step_count:
    "\<lbrakk>sy_threads s i = Some th; th_prog th = Count m p\<rbrakk> \<Longrightarrow>
     sys_step sha256 lease_ns s (resume i th p s)"
| step_tick: "0 \<le> d \<Longrightarrow> sys_step sha256 lease_ns s (s\<lparr>sy_clock := sy_clock s + d\<rparr>)"
| step_delete: "sys_step sha256 lease_ns s (s\<lparr>sy_store := (sy_store s)(n := None)\<rparr>)"
| step_restart:
    "sys_step sha256 lease_ns s (s\<lparr>sy_nodes := (sy_nodes s)(n := \<lparr>nd_tab = empty_table, nd_start = sy_clock s\<rparr>),
       sy_threads := (\<lambda>i. case sy_threads s i of None \<Rightarrow> None
         | Some th \<Rightarrow> if th_node th = n then None else Some th)\<rparr>)"

inductive reachable :: "(string \<Rightarrow> string) \<Rightarrow> string \<Rightarrow> sys \<Rightarrow> bool" for sha256 lease_ns where
  reach_init: "reachable sha256 lease_ns init_sys"
| reach_step: "\<lbrakk>reachable sha256 lease_ns s; sys_step sha256 lease_ns s t\<rbrakk> \<Longrightarrow> reachable sha256 lease_ns t"

section \<open>What a request may still do\<close>

text \<open>
  The knowledge a request's next actions rest on: the versions that have existed, the time of
  its last action, the versions that are aged (stored for at least their duration) or
  superseded (their UID has a later epoch), and its acknowledged writes.  All of it only grows.
\<close>

record ghost =
  gV :: "(lease \<times> int) set"
  gLast :: int
  gAged :: "lease set"
  gW :: "lease set"

definition ghost_le :: "ghost \<Rightarrow> ghost \<Rightarrow> bool" where
  "ghost_le g h \<longleftrightarrow> gV g \<subseteq> gV h \<and> gLast g \<le> gLast h \<and> gAged g \<subseteq> gAged h \<and> gW g \<subseteq> gW h"

lemma ghost_le_refl [simp]: "ghost_le g g"
  and ghost_le_trans: "ghost_le a b \<Longrightarrow> ghost_le b c \<Longrightarrow> ghost_le a c"
  by (auto simp: ghost_le_def)

definition in_hand :: "ghost \<Rightarrow> lease \<Rightarrow> bool" where
  "in_hand g l \<longleftrightarrow> (\<exists>w. (l, w) \<in> gV g \<and> w \<le> gLast g)"

definition reply_ok :: "ghost \<Rightarrow> reply \<Rightarrow> bool" where
  "reply_ok g a \<longleftrightarrow> (\<forall>l. a = Inr l \<longrightarrow> in_hand g l)"

lemma in_hand_mono: "in_hand g l \<Longrightarrow> ghost_le g h \<Longrightarrow> in_hand h l"
  by (force simp: in_hand_def ghost_le_def)

definition may_update :: "electionOperation \<Rightarrow> string \<Rightarrow> ghost \<Rightarrow> lease \<Rightarrow> bool" where
  "may_update op ident g l \<longleftrightarrow> (\<exists>x w t. (x, w) \<in> gV g \<and>
     (op = operationCampaign \<and> x \<in> gAged g \<and> l = acquireLease x ident t \<or>
      op = operationHeartbeat \<and> l = renewLease x t))"

lemma may_update_mono: "may_update op ident g l \<Longrightarrow> ghost_le g h \<Longrightarrow> may_update op ident h l"
  by (auto simp: may_update_def ghost_le_def)

lemma may_acquire: "(x, w) \<in> gV g \<Longrightarrow> x \<in> gAged g \<Longrightarrow> may_update operationCampaign i g (acquireLease x i t)"
  and may_renew: "(x, w) \<in> gV g \<Longrightarrow> may_update operationHeartbeat i g (renewLease x t)"
  by (auto simp: may_update_def)

text \<open>Everything that may still happen in the program is covered by the knowledge it has.\<close>

primrec sound ::
  "string \<Rightarrow> electionOperation \<Rightarrow> string \<Rightarrow> string \<Rightarrow> string \<Rightarrow> (election_error + result) prog \<Rightarrow> ghost \<Rightarrow> bool" where
  "sound lns op name ns ident (Done x) g =
     (\<forall>r. x = Inr r \<and> r_Status r = StatusSuccess \<longrightarrow>
        (\<exists>u \<in> gW g. r = result_of StatusSuccess ns ident (Some u) True))"
| "sound lns op name ns ident (CacheReady k) g =
     (\<forall>a h. ghost_le g h \<longrightarrow> sound lns op name ns ident (k a) h)"
| "sound lns op name ns ident (CacheGet n k) g =
     (\<forall>a h. ghost_le g h \<and> reply_ok h a \<longrightarrow> sound lns op name ns ident (k a) h)"
| "sound lns op name ns ident (StoreGet n k) g =
     (\<forall>a h. ghost_le g h \<and> reply_ok h a \<longrightarrow> sound lns op name ns ident (k a) h)"
| "sound lns op name ns ident (StoreCreate l k) g =
     (op = operationCampaign \<and> (\<exists>t. l = newLease lns name ident t) \<and>
      (\<forall>a h. ghost_le g h \<and> reply_ok h a \<and> (\<forall>u. a = Inr u \<longrightarrow> u \<in> gW h) \<longrightarrow>
         sound lns op name ns ident (k a) h))"
| "sound lns op name ns ident (StoreUpdate l k) g =
     (may_update op ident g l \<and>
      (\<forall>a h. ghost_le g h \<and> reply_ok h a \<and> (\<forall>u. a = Inr u \<longrightarrow> u \<in> gW h) \<longrightarrow>
         sound lns op name ns ident (k a) h))"
| "sound lns op name ns ident (Remaining lo src k) g =
     ((\<forall>l. lo = Some l \<longrightarrow> in_hand g l) \<and>
      (\<forall>r h. ghost_le g h \<and> (\<forall>l. lo = Some l \<and> src = fromStore \<and> r \<le> 0 \<longrightarrow> l \<in> gAged h) \<longrightarrow>
         sound lns op name ns ident (k r) h))"
| "sound lns op name ns ident (Now k) g =
     (\<forall>t h. ghost_le g h \<longrightarrow> sound lns op name ns ident (k t) h)"
| "sound lns op name ns ident (AccessReview v k) g = False"
| "sound lns op name ns ident (Count m p) g =
     (\<forall>h. ghost_le g h \<longrightarrow> sound lns op name ns ident p h)"

lemma sound_mono:
  assumes s: "sound lns op name ns ident p g" and g: "ghost_le g h"
  shows "sound lns op name ns ident p h"
proof -
  have t: "ghost_le h k \<Longrightarrow> ghost_le g k" for k using ghost_le_trans [OF g] .
  have sub: "gV g \<subseteq> gV h" "gAged g \<subseteq> gAged h" "gW g \<subseteq> gW h"
    using g by (simp_all add: ghost_le_def)
  show ?thesis
  proof (cases p)
    case (StoreUpdate l k)
    with s t may_update_mono [OF _ g] show ?thesis by simp
  next
    case (Remaining lo src k)
    with s t in_hand_mono [OF _ g] show ?thesis by simp
  next
    case (StoreCreate l k)
    with s t show ?thesis by auto
  next
    case (Done x)
    with s sub show ?thesis by (simp add: subset_eq) blast
  qed (use s t in simp_all)
qed

lemma sound_fail_storage [simp]: "sound lns op name ns ident (fail_storage op' e) g"
  by (simp add: fail_storage_def storageError_def)

lemma sound_after_write:
  assumes "\<And>h. ghost_le g h \<Longrightarrow> sound lns op name ns ident again h"
    "reply_ok g a" "\<forall>u. a = Inr u \<longrightarrow> u \<in> gW g"
  shows "sound lns op name ns ident (after_write op missing ns ident again a) g"
proof (cases a)
  case (Inl e)
  with assms(1) show ?thesis by (simp add: after_write_def)
next
  case (Inr u)
  then have "u \<in> gW g" "in_hand g u" using assms(2,3) by (auto simp: reply_ok_def)
  then show ?thesis using Inr
    by (auto simp: after_write_def Let_def ghost_le_def)
qed

lemma sound_attempt_write:
  assumes op: "op = operationCampaign \<or> op = operationHeartbeat" and id: "ident \<noteq> []"
    and again: "\<And>h. ghost_le g h \<Longrightarrow> sound lns op name ns ident again h"
    and nr: "\<not> refused op ident lo rem" and lo: "\<forall>l. lo = Some l \<longrightarrow> in_hand g l"
    and aged: "\<forall>l. lo = Some l \<and> rem \<le> 0 \<longrightarrow> l \<in> gAged g"
  shows "sound lns op name ns ident (attempt_write lns op name ns ident lo again) g"
proof -
  have after: "sound lns op name ns ident (after_write op missing ns ident again a) h"
    if "ghost_le g h" "reply_ok h a" "\<forall>u. a = Inr u \<longrightarrow> u \<in> gW h" for missing a h
    using that by (intro sound_after_write) (auto intro: again ghost_le_trans)
  show ?thesis
  proof (cases lo)
    case None
    with nr op id have "op = operationCampaign" by (auto simp: refused_def)
    with None after show ?thesis by (auto simp: attempt_write_def dest: ghost_le_trans)
  next
    case (Some l)
    then obtain w where v: "(l, w) \<in> gV g" using lo by (auto simp: in_hand_def)
    have m: "may_update op ident h (if op = operationCampaign then acquireLease l ident t else renewLease l t)"
      if "ghost_le g h" for h t
    proof -
      have "may_update op ident g (if op = operationCampaign then acquireLease l ident t else renewLease l t)"
        using v aged nr op Some by (auto simp: refused_def intro: may_acquire may_renew)
      then show ?thesis using that by (rule may_update_mono)
    qed
    show ?thesis
    proof (cases "op = operationCampaign")
      case True
      then show ?thesis using m after Some by (auto simp: attempt_write_def dest: ghost_le_trans)
    next
      case False
      then show ?thesis using m after Some by (auto simp: attempt_write_def dest: ghost_le_trans)
    qed
  qed
qed

lemma sound_attempt_body:
  assumes op: "op = operationCampaign \<or> op = operationHeartbeat" and id: "ident \<noteq> []"
    and again: "\<And>again h. retry = Some again \<Longrightarrow> ghost_le g h \<Longrightarrow> sound lns op name ns ident again h"
    and lo: "\<forall>l. lo = Some l \<longrightarrow> in_hand g l"
  shows "sound lns op name ns ident (attempt_body lns op name ns ident retry lo) g"
proof -
  have "sound lns op name ns ident (attempt_write lns op name ns ident lo again) h"
    if g: "ghost_le g h" and r: "retry = Some again" "\<not> refused op ident lo rem"
      "\<forall>l. lo = Some l \<and> rem \<le> 0 \<longrightarrow> l \<in> gAged h" for again h rem
  proof (rule sound_attempt_write [OF op id _ r(2) _ r(3)])
    show "\<forall>l. lo = Some l \<longrightarrow> in_hand h l" using lo in_hand_mono [OF _ g] by blast
    show "sound lns op name ns ident again h'" if "ghost_le h h'" for h'
      using again [OF r(1)] ghost_le_trans [OF g that] by blast
  qed
  then show ?thesis using lo
    by (auto simp: attempt_body_def refused_def Let_def split: option.splits)
qed

lemma sound_elect_loop:
  assumes "op = operationCampaign \<or> op = operationHeartbeat" "ident \<noteq> []"
  shows "sound lns op name ns ident (elect_loop k lns op name ns ident) g"
proof -
  have attempt: "sound lns op name ns ident (elect_attempt lns op name ns ident retry) g"
    if r: "\<And>again h. retry = Some again \<Longrightarrow> sound lns op name ns ident again h" for retry g
  proof -
    have "sound lns op name ns ident (attempt_body lns op name ns ident retry lo) h"
      if "\<forall>l. lo = Some l \<longrightarrow> in_hand h l" for lo h
      by (rule sound_attempt_body [OF assms _ that]) (rule r)
    then show ?thesis by (auto simp: elect_attempt_def reply_ok_def split: sum.splits)
  qed
  show ?thesis by (induction k arbitrary: g) (auto intro: attempt)
qed

lemma sound_elect:
  assumes "op = operationCampaign \<or> op = operationHeartbeat" "ident \<noteq> []"
  shows "sound lns op (leaseName sha256 token ns) ns ident (elect sha256 lns op token ns ident) g"
proof -
  let ?n = "leaseName sha256 token ns"
  have probe: "sound lns op ?n ns ident (cache_probe lns op ?n ns ident lo) h"
    if "\<forall>l. lo = Some l \<longrightarrow> in_hand h l" for lo h
    using that sound_elect_loop [OF assms] by (auto simp: cache_probe_def)
  have "sound lns op ?n ns ident (case r of
           Inl e \<Rightarrow> if e \<noteq> NotFound then fail_storage op e else cache_probe lns op ?n ns ident None
         | Inr l \<Rightarrow> cache_probe lns op ?n ns ident (Some l)) h" if "reply_ok h r" for r h
    using that by (cases r) (auto simp: reply_ok_def intro: probe)
  then show ?thesis by (simp add: elect_def Let_def)
qed

section \<open>The invariant of the reachable states\<close>

definition aged :: "sys \<Rightarrow> lease set" where
  "aged s = {l. \<exists>w. (l, w) \<in> sy_versions s \<and>
     (w + leaseDuration \<le> sy_clock s \<or>
      (\<exists>v w'. (v, w') \<in> sy_versions s \<and> l_UID v = l_UID l \<and> epoch (Some l) < epoch (Some v)))}"

definition ghost_of :: "sys \<Rightarrow> thread \<Rightarrow> ghost" where
  "ghost_of s th = \<lparr>gV = sy_versions s, gLast = th_last th, gAged = aged s, gW = th_wrote th\<rparr>"

lemma ghost_of_simps [simp]:
  "gV (ghost_of s th) = sy_versions s" "gLast (ghost_of s th) = th_last th"
  "gAged (ghost_of s th) = aged s" "gW (ghost_of s th) = th_wrote th"
  by (simp_all add: ghost_of_def)

text \<open>The stored history: unique resourceVersions and UIDs, well-formed Leases, bounded epochs.\<close>

definition version_ok :: "sys \<Rightarrow> lease \<Rightarrow> int \<Rightarrow> bool" where
  "version_ok s l w \<longleftrightarrow> w \<le> sy_clock s \<and> \<not> malformed (Some l) \<and> lease_duration l = leaseDuration \<and>
     (\<exists>k < sy_rv s. l_ResourceVersion l = show_nat k) \<and>
     (\<exists>k < sy_uid s. l_UID l = show_nat k) \<and>
     0 \<le> epoch (Some l) \<and> epoch (Some l) \<le> int (length (sy_terms s))"

definition store_ok :: "sys \<Rightarrow> bool" where
  "store_ok s \<longleftrightarrow>
     (\<forall>l w. (l, w) \<in> sy_versions s \<longrightarrow> version_ok s l w) \<and>
     (\<forall>l w l' w'. (l, w) \<in> sy_versions s \<and> (l', w') \<in> sy_versions s \<and>
        l_ResourceVersion l = l_ResourceVersion l' \<longrightarrow> l = l' \<and> w = w') \<and>
     (\<forall>l w l' w'. (l, w) \<in> sy_versions s \<and> (l', w') \<in> sy_versions s \<and>
        l_UID l = l_UID l' \<longrightarrow> l_Name l = l_Name l') \<and>
     (\<forall>n l. sy_store s n = Some l \<longrightarrow> l_Name l = n \<and> (\<exists>w. (l, w) \<in> sy_versions s) \<and>
        (\<forall>v w. (v, w) \<in> sy_versions s \<and> l_UID v = l_UID l \<longrightarrow> epoch (Some v) \<le> epoch (Some l))) \<and>
     (\<forall>u e i. (u, e, i) \<in> set (sy_terms s) \<longrightarrow>
        (\<exists>v w. (v, w) \<in> sy_versions s \<and> l_UID v = u \<and> epoch (Some v) = e)) \<and>
     distinct (map (\<lambda>(u, e, i). (u, e)) (sy_terms s))"

lemma store_okD:
  assumes "store_ok s"
  shows "(l, w) \<in> sy_versions s \<Longrightarrow> version_ok s l w"
    and "\<lbrakk>(l, w) \<in> sy_versions s; (l', w') \<in> sy_versions s; l_ResourceVersion l = l_ResourceVersion l'\<rbrakk>
      \<Longrightarrow> l = l' \<and> w = w'"
    and "\<lbrakk>(l, w) \<in> sy_versions s; (l', w') \<in> sy_versions s; l_UID l = l_UID l'\<rbrakk> \<Longrightarrow> l_Name l = l_Name l'"
    and "sy_store s n = Some l \<Longrightarrow> l_Name l = n \<and> (\<exists>w. (l, w) \<in> sy_versions s)"
    and "\<lbrakk>sy_store s n = Some l; (v, w) \<in> sy_versions s; l_UID v = l_UID l\<rbrakk> \<Longrightarrow> epoch (Some v) \<le> epoch (Some l)"
    and "(u, e, i) \<in> set (sy_terms s) \<Longrightarrow> \<exists>v w. (v, w) \<in> sy_versions s \<and> l_UID v = u \<and> epoch (Some v) = e"
    and "distinct (map (\<lambda>(u, e, i). (u, e)) (sy_terms s))"
  using assms unfolding store_ok_def by blast+

definition slot_ok :: "sys \<Rightarrow> node \<Rightarrow> leaseObservation \<Rightarrow> bool" where
  "slot_ok s nd ob \<longleftrightarrow> (\<exists>v w. (v, w) \<in> sy_versions s \<and> o_uid ob = l_UID v \<and>
     o_resourceVersion ob = l_ResourceVersion v \<and> o_epoch ob = epoch (Some v) \<and>
     w \<le> o_observedAt ob + nd_start nd)"

definition nodes_ok :: "sys \<Rightarrow> bool" where
  "nodes_ok s \<longleftrightarrow> (\<forall>n m src. o_known (nd_tab (sy_nodes s n) m src) \<longrightarrow>
     slot_ok s (sy_nodes s n) (nd_tab (sy_nodes s n) m src))"

definition thread_ok :: "string \<Rightarrow> sys \<Rightarrow> nat \<Rightarrow> thread \<Rightarrow> bool" where
  "thread_ok lns s i th \<longleftrightarrow>
     sound lns (th_op th) (th_name th) (th_ns th) (th_ident th) (th_prog th) (ghost_of s th) \<and>
     th_last th \<le> sy_clock s \<and> th_ident th \<noteq> [] \<and>
     (th_op th = operationCampaign \<or> th_op th = operationHeartbeat) \<and>
     (th_op th = operationCampaign \<longrightarrow>
        (\<forall>u \<in> th_wrote th. (l_UID u, epoch (Some u), i) \<in> set (sy_terms s)))"

definition sys_inv :: "string \<Rightarrow> sys \<Rightarrow> bool" where
  "sys_inv lns s \<longleftrightarrow> store_ok s \<and> nodes_ok s \<and>
     (\<forall>i th. sy_threads s i = Some th \<longrightarrow> thread_ok lns s i th)"

text \<open>Time and history only grow.\<close>

definition grown :: "sys \<Rightarrow> sys \<Rightarrow> bool" where
  "grown s t \<longleftrightarrow> sy_versions s \<subseteq> sy_versions t \<and> sy_clock s \<le> sy_clock t \<and>
     set (sy_terms s) \<subseteq> set (sy_terms t)"

lemma aged_grown: "grown s t \<Longrightarrow> aged s \<subseteq> aged t"
  by (fastforce simp: aged_def grown_def)

lemma thread_ok_grown:
  assumes "thread_ok lns s i th" "grown s t"
  shows "thread_ok lns t i th"
proof -
  have "ghost_le (ghost_of s th) (ghost_of t th)"
    using assms(2) aged_grown by (auto simp: ghost_le_def grown_def)
  then show ?thesis using assms sound_mono by (auto simp: thread_ok_def grown_def)
qed

lemma slot_ok_grown: "slot_ok s nd ob \<Longrightarrow> grown s t \<Longrightarrow> slot_ok t nd ob"
  by (fastforce simp: slot_ok_def grown_def)

lemma nodes_ok_grown: "nodes_ok s \<Longrightarrow> grown s t \<Longrightarrow> sy_nodes t = sy_nodes s \<Longrightarrow> nodes_ok t"
  by (auto simp: nodes_ok_def intro: slot_ok_grown)

text \<open>An expired report is right: the Lease is aged (or a later term of its UID exists).\<close>

lemma remaining_aged:
  assumes "store_ok s" "nodes_ok s" "(l, w) \<in> sy_versions s"
    "w \<le> el + nd_start (sy_nodes s n)" "el + nd_start (sy_nodes s n) \<le> sy_clock s"
    "fst (remaining (nd_tab (sy_nodes s n)) (Some l) fromStore el) \<le> 0"
  shows "l \<in> aged s"
proof -
  let ?tab = "nd_tab (sy_nodes s n)"
  have ok: "version_ok s l w" and rv: "\<And>l w l' w'. \<lbrakk>(l, w) \<in> sy_versions s; (l', w') \<in> sy_versions s;
       l_ResourceVersion l = l_ResourceVersion l'\<rbrakk> \<Longrightarrow> l = l' \<and> w = w'"
    using assms(1,3) by (auto simp: store_ok_def)
  have slot: "slot_ok s (sy_nodes s n) (?tab m src)" if "o_known (?tab m src)" for m src
    using assms(2) that by (simp add: nodes_ok_def)
  have "\<not> malformed (Some l)" using ok by (simp add: version_ok_def)
  from remaining_zeroD [OF assms(6) this] consider
      "superseded (?tab (l_Name l) fromStore) l fromStore"
    | s' where "same_version (?tab (l_Name l) s') l"
        "lease_duration l \<le> el - o_observedAt (?tab (l_Name l) s')"
    by blast
  then show ?thesis
  proof cases
    case 1
    then obtain v w' where "(v, w') \<in> sy_versions s" "l_UID v = l_UID l" "epoch (Some l) < epoch (Some v)"
      using slot [of "l_Name l" fromStore] by (auto simp: superseded_def slot_ok_def)
    with assms(3) show ?thesis by (auto simp: aged_def)
  next
    case 2
    then have "slot_ok s (sy_nodes s n) (?tab (l_Name l) s')" by (auto simp: same_version_def slot)
    then obtain v w' where "(v, w') \<in> sy_versions s" "l_ResourceVersion v = l_ResourceVersion l"
      "w' \<le> o_observedAt (?tab (l_Name l) s') + nd_start (sy_nodes s n)"
      using 2(1) by (auto simp: slot_ok_def same_version_def)
    with rv [OF this(1) assms(3) this(2)] 2(2) ok assms(3,5) show ?thesis
      by (auto simp: aged_def version_ok_def)
  qed
qed

lemma nodes_ok_remaining:
  assumes "nodes_ok s" "\<And>l. lo = Some l \<Longrightarrow> \<exists>w. (l, w) \<in> sy_versions s \<and> w \<le> el + nd_start (sy_nodes s n)"
    "remaining (nd_tab (sy_nodes s n)) lo src el = (r, tab)"
  shows "nodes_ok (s\<lparr>sy_nodes := (sy_nodes s)(n := (sy_nodes s n)\<lparr>nd_tab := tab\<rparr>)\<rparr>)"
proof -
  have tab: "tab = snd (remaining (nd_tab (sy_nodes s n)) lo src el)" using assms(3) by simp
  have "slot_ok s (sy_nodes s n) (tab m src')" if "o_known (tab m src')" for m src'
    using remaining_slots [of _ lo src el m src'] that tab assms(1,2)
    by (fastforce simp: nodes_ok_def slot_ok_def observe_def)
  then show ?thesis using assms(1) by (auto simp: nodes_ok_def slot_ok_def)
qed

text \<open>An accepted write keeps the history well-formed.\<close>

text \<open>A version with a new resource version stays unique, a UID keeps its name, and a new term is above all
  others of its UID.\<close>

lemma put_version_unique:
  assumes s: "store_ok s" and fresh: "\<And>v w. (v, w) \<in> sy_versions s \<Longrightarrow> l_ResourceVersion v \<noteq> l_ResourceVersion l"
    and mem: "(v, w) \<in> insert (l, c) (sy_versions s)" "(v', w') \<in> insert (l, c) (sy_versions s)"
    and rv: "l_ResourceVersion v = l_ResourceVersion v'"
  shows "v = v' \<and> w = w'"
proof -
  have "\<lbrakk>(v, w) \<in> sy_versions s; (v', w') \<in> sy_versions s\<rbrakk> \<Longrightarrow> v = v' \<and> w = w'"
    using s rv unfolding store_ok_def by blast
  moreover have "(v, w) \<in> sy_versions s \<Longrightarrow> (v', w') \<noteq> (l, c)"
    and "(v', w') \<in> sy_versions s \<Longrightarrow> (v, w) \<noteq> (l, c)"
    using fresh rv by force+
  ultimately show ?thesis using mem by auto
qed

lemma put_name_kept:
  assumes s: "store_ok s" and uid: "\<And>v w. \<lbrakk>(v, w) \<in> sy_versions s; l_UID v = l_UID l\<rbrakk> \<Longrightarrow> l_Name v = l_Name l"
    and mem: "(v, w) \<in> insert (l, c) (sy_versions s)" "(v', w') \<in> insert (l, c) (sy_versions s)" "l_UID v = l_UID v'"
  shows "l_Name v = l_Name v'"
proof -
  have "\<lbrakk>(v, w) \<in> sy_versions s; (v', w') \<in> sy_versions s\<rbrakk> \<Longrightarrow> l_Name v = l_Name v'"
    using s mem(3) unfolding store_ok_def by blast
  then show ?thesis using mem uid [of v w] uid [of v' w'] by fastforce
qed

lemma put_terms_distinct:
  assumes s: "store_ok s"
    and above: "\<And>v w. \<lbrakk>(v, w) \<in> sy_versions s; l_UID v = l_UID l\<rbrakk> \<Longrightarrow> epoch (Some v) < epoch (Some l)"
  shows "distinct (map (\<lambda>(u, e, i). (u, e)) ((l_UID l, epoch (Some l), i) # sy_terms s))"
proof -
  have "(l_UID l, epoch (Some l)) \<noteq> (u, e)" if m: "(u, e, j) \<in> set (sy_terms s)" for u e j
  proof
    assume eq: "(l_UID l, epoch (Some l)) = (u, e)"
    from store_okD(6) [OF s m] obtain v w
      where "(v, w) \<in> sy_versions s" "l_UID v = u" "epoch (Some v) = e" by blast
    with above [of v w] eq show False by auto
  qed
  with store_okD(7) [OF s] show ?thesis by (auto simp: image_iff)
qed

lemma store_ok_put:
  assumes s: "store_ok s"
    and t: "sy_versions t = insert (l, sy_clock s) (sy_versions s)" "sy_store t = (sy_store s)(l_Name l \<mapsto> l)"
      "sy_clock t = sy_clock s" "sy_rv t = Suc (sy_rv s)" "sy_uid s \<le> sy_uid t"
      "sy_terms t = (if acquired then (l_UID l, epoch (Some l), i) # sy_terms s else sy_terms s)"
    and l: "l_ResourceVersion l = show_nat (sy_rv s)" "\<exists>k < sy_uid t. l_UID l = show_nat k"
      "\<not> malformed (Some l)" "lease_duration l = leaseDuration"
      "0 \<le> epoch (Some l)" "epoch (Some l) \<le> int (length (sy_terms t))"
    and maxi: "\<And>v w. \<lbrakk>(v, w) \<in> sy_versions s; l_UID v = l_UID l\<rbrakk> \<Longrightarrow>
      epoch (Some v) \<le> epoch (Some l) \<and> (acquired \<longrightarrow> epoch (Some v) < epoch (Some l))"
    and uid: "\<And>v w. \<lbrakk>(v, w) \<in> sy_versions s; l_UID v = l_UID l\<rbrakk> \<Longrightarrow> l_Name v = l_Name l"
  shows "store_ok t"
proof -
  have old: "version_ok s v w" if "(v, w) \<in> sy_versions s" for v w
    using s that by (simp add: store_ok_def)
  have fresh: "l_ResourceVersion v \<noteq> l_ResourceVersion l" if "(v, w) \<in> sy_versions s" for v w
    using old [OF that] l(1) by (auto simp: version_ok_def simp: show_nat_inject)
  have "version_ok t v w" if "(v, w) \<in> sy_versions t" for v w
    using that old [of v w] l t by (auto simp: version_ok_def intro: less_SucI dest: order_less_le_trans)
  moreover have "v = v' \<and> w = w'" if "(v, w) \<in> sy_versions t" "(v', w') \<in> sy_versions t"
    "l_ResourceVersion v = l_ResourceVersion v'" for v w v' w'
    by (rule put_version_unique [OF s fresh that [unfolded t(1)]])
  moreover have "l_Name v = l_Name v'" if "(v, w) \<in> sy_versions t" "(v', w') \<in> sy_versions t"
    "l_UID v = l_UID v'" for v w v' w'
    by (rule put_name_kept [OF s uid that [unfolded t(1)]])
  moreover have "l_Name c = n \<and> (\<exists>w. (c, w) \<in> sy_versions t) \<and>
      (\<forall>v w. (v, w) \<in> sy_versions t \<and> l_UID v = l_UID c \<longrightarrow> epoch (Some v) \<le> epoch (Some c))"
    if c: "sy_store t n = Some c" for n c
  proof (cases "n = l_Name l")
    case True
    with c t maxi show ?thesis by auto
  next
    case False
    then have sc: "sy_store s n = Some c" using c t by simp
    note cur = store_okD(4) [OF s sc]
    then have "l_UID c \<noteq> l_UID l" using uid False by blast
    with cur store_okD(5) [OF s sc] t(1) show ?thesis by auto
  qed
  moreover have "\<exists>v w. (v, w) \<in> sy_versions t \<and> l_UID v = u \<and> epoch (Some v) = e"
    if "(u, e, j) \<in> set (sy_terms t)" for u e j
    using that t(1,6) store_okD(6) [OF s, of u e j] by (auto split: if_splits)
  moreover have "distinct (map (\<lambda>(u, e, i). (u, e)) (sy_terms t))"
    using put_terms_distinct [OF s, of l i] maxi store_okD(7) [OF s] t(6) by (cases acquired) simp_all
  ultimately show ?thesis unfolding store_ok_def by blast
qed

section \<open>Every step keeps the invariant\<close>

lemma grown_refl [simp]: "grown s s"
  by (simp add: grown_def)

lemma sys_inv_thread:
  assumes "sys_inv lns s" "grown s t" "store_ok t" "nodes_ok t"
    "sy_threads t = (sy_threads s)(i \<mapsto> th')" "thread_ok lns t i th'"
  shows "sys_inv lns t"
  using assms by (auto simp: sys_inv_def intro: thread_ok_grown)

lemma sys_inv_resume:
  assumes inv: "sys_inv lns s" and i: "sy_threads s i = Some th"
    and g: "grown s t" "store_ok t" "nodes_ok t" "sy_threads t = sy_threads s"
    and W: "th_wrote th \<subseteq> W"
      "\<And>u. u \<in> W \<Longrightarrow> u \<notin> th_wrote th \<Longrightarrow> th_op th = operationCampaign \<Longrightarrow>
        (l_UID u, epoch (Some u), i) \<in> set (sy_terms t)"
    and snd: "\<And>h. \<lbrakk>ghost_le (ghost_of s th) h; gV h = sy_versions t; gLast h = sy_clock t; gAged h = aged t; gW h = W\<rbrakk>
      \<Longrightarrow> sound lns (th_op th) (th_name th) (th_ns th) (th_ident th) p h"
  shows "sys_inv lns (resume i (th\<lparr>th_wrote := W\<rparr>) p t)"
proof (rule sys_inv_thread [OF inv])
  let ?t = "resume i (th\<lparr>th_wrote := W\<rparr>) p t"
  let ?th = "th\<lparr>th_wrote := W, th_prog := p, th_last := sy_clock t\<rparr>"
  have ok: "thread_ok lns s i th" using inv i by (simp add: sys_inv_def)
  have frame: "sy_versions ?t = sy_versions t" "sy_clock ?t = sy_clock t" "sy_terms ?t = sy_terms t"
    "sy_store ?t = sy_store t" "sy_nodes ?t = sy_nodes t" "sy_rv ?t = sy_rv t" "sy_uid ?t = sy_uid t"
    by (simp_all add: resume_def)
  have eqs: "store_ok ?t = store_ok t" "nodes_ok ?t = nodes_ok t" "aged ?t = aged t" "grown s ?t = grown s t"
    by (simp_all add: store_ok_def version_ok_def nodes_ok_def slot_ok_def aged_def grown_def frame)
  show "grown s ?t" "store_ok ?t" "nodes_ok ?t" using g eqs by simp_all
  show "sy_threads ?t = (sy_threads s)(i \<mapsto> ?th)" by (simp add: resume_def g(4))
  have "ghost_le (ghost_of s th) (ghost_of ?t ?th)"
    using ok g(1) aged_grown [OF g(1)] W(1)
    by (auto simp: ghost_le_def frame eqs grown_def thread_ok_def)
  then have "sound lns (th_op th) (th_name th) (th_ns th) (th_ident th) p (ghost_of ?t ?th)"
    by (rule snd) (simp_all add: frame eqs)
  then show "thread_ok lns ?t i ?th"
    using ok g(1) W(2) by (auto simp: thread_ok_def frame grown_def)
qed

lemma sys_inv_resume0:
  assumes "sys_inv lns s" "sy_threads s i = Some th"
    "grown s t" "store_ok t" "nodes_ok t" "sy_threads t = sy_threads s"
    "\<And>h. \<lbrakk>ghost_le (ghost_of s th) h; gV h = sy_versions t; gLast h = sy_clock t; gAged h = aged t\<rbrakk>
      \<Longrightarrow> sound lns (th_op th) (th_name th) (th_ns th) (th_ident th) p h"
  shows "sys_inv lns (resume i th p t)"
  using sys_inv_resume [OF assms(1-6), of "th_wrote th" p] assms(7) by simp

lemma record_frame [simp]:
  "epoch (Some (l\<lparr>l_ResourceVersion := v\<rparr>)) = epoch (Some l)"
  "epoch (Some (l\<lparr>l_UID := u\<rparr>)) = epoch (Some l)"
  "malformed (Some (l\<lparr>l_ResourceVersion := v\<rparr>)) = malformed (Some l)"
  "malformed (Some (l\<lparr>l_UID := u\<rparr>)) = malformed (Some l)"
  "lease_duration (l\<lparr>l_ResourceVersion := v\<rparr>) = lease_duration l"
  "lease_duration (l\<lparr>l_UID := u\<rparr>) = lease_duration l"
  by (simp_all add: epoch_def malformed_def holder_def lease_duration_def)

lemma acquired_wf [simp]:
  "ident \<noteq> [] \<Longrightarrow> \<not> malformed (Some (acquireLease l ident t))"
  "lease_duration (acquireLease l ident t) = leaseDuration"
  by (simp_all add: malformed_def lease_duration_def leaseDuration_def)

lemma new_wf [simp]:
  "ident \<noteq> [] \<Longrightarrow> \<not> malformed (Some (newLease ns n ident t))"
  "lease_duration (newLease ns n ident t) = leaseDuration"
  by (simp_all add: newLease_def)

lemma renewed_wf:
  "\<not> malformed (Some l) \<Longrightarrow> \<not> malformed (Some (renewLease l t))"
  "lease_duration (renewLease l t) = lease_duration l"
  by (simp_all add: malformed_def lease_duration_def split: option.splits)

lemma acked_wrote:
  "acked th l a = th\<lparr>th_wrote := (case a of Inl _ \<Rightarrow> th_wrote th | Inr _ \<Rightarrow> insert l (th_wrote th))\<rparr>"
  by (simp add: acked_def split: sum.splits)

lemma grown_put [simp]: "grown s (put_lease i l acq s)" "grown s ((put_lease i l acq s)\<lparr>sy_uid := n\<rparr>)"
  by (auto simp: grown_def put_lease_def)

lemma put_lease_frame [simp]:
  "sy_clock (put_lease i l acq s) = sy_clock s" "sy_nodes (put_lease i l acq s) = sy_nodes s"
  "sy_threads (put_lease i l acq s) = sy_threads s"
  "sy_versions (put_lease i l acq s) = insert (l, sy_clock s) (sy_versions s)"
  "sy_store (put_lease i l acq s) = (sy_store s)(l_Name l \<mapsto> l)"
  "sy_rv (put_lease i l acq s) = Suc (sy_rv s)" "sy_uid (put_lease i l acq s) = sy_uid s"
  "sy_terms (put_lease i l acq s) =
     (if acq then (l_UID l, epoch (Some l), i) # sy_terms s else sy_terms s)"
  by (simp_all add: put_lease_def)

lemma inv_create:
  assumes inv: "sys_inv lns s" and i: "sy_threads s i = Some th" and p: "th_prog th = StoreCreate l k"
    and l': "l' = created l s" and a: "a = Inr l' \<or> a = Inl e"
  shows "sys_inv lns (resume i (acked th l' a) (k a) ((put_lease i l' True s)\<lparr>sy_uid := Suc (sy_uid s)\<rparr>))"
proof -
  let ?t = "(put_lease i l' True s)\<lparr>sy_uid := Suc (sy_uid s)\<rparr>"
  have ok: "thread_ok lns s i th" and s: "store_ok s" and n: "nodes_ok s"
    using inv i by (auto simp: sys_inv_def)
  obtain t where l: "l = newLease lns (th_name th) (th_ident th) t"
    and snd: "\<And>a h. \<lbrakk>ghost_le (ghost_of s th) h; reply_ok h a; \<forall>u. a = Inr u \<longrightarrow> u \<in> gW h\<rbrakk> \<Longrightarrow>
       sound lns (th_op th) (th_name th) (th_ns th) (th_ident th) (k a) h"
    using ok p by (auto simp: thread_ok_def)
  have id: "th_ident th \<noteq> []" using ok by (simp add: thread_ok_def)
  have new: "l_UID v \<noteq> show_nat (sy_uid s)" if "(v, w) \<in> sy_versions s" for v w
    using store_okD(1) [OF s that] by (auto simp: version_ok_def show_nat_inject)
  have so: "store_ok ?t"
  proof (rule store_ok_put [OF s, where acquired = True and l = l' and i = i])
    show "\<exists>k < sy_uid (?t). l_UID l' = show_nat k" by (auto simp: l' created_def)
  qed (use id new in \<open>auto simp: l' created_def l\<close>)
  show ?thesis unfolding acked_wrote
  proof (rule sys_inv_resume [OF inv i _ so])
    show "nodes_ok ?t" using n by (rule nodes_ok_grown) simp_all
    show "sound lns (th_op th) (th_name th) (th_ns th) (th_ident th) (k a) h"
      if "ghost_le (ghost_of s th) h" "gV h = sy_versions ?t" "gLast h = sy_clock ?t"
        "gW h = (case a of Inl _ \<Rightarrow> th_wrote th | Inr _ \<Rightarrow> insert l' (th_wrote th))" for h
      using that(1) a by (rule_tac snd) (auto simp: reply_ok_def in_hand_def that)
  qed (use a in \<open>auto split: sum.splits\<close>)
qed

lemma inv_update:
  assumes inv: "sys_inv lns s" and i: "sy_threads s i = Some th" and p: "th_prog th = StoreUpdate l k"
    and cur: "sy_store s (l_Name l) = Some cur" "l_ResourceVersion cur = l_ResourceVersion l"
    and l': "l' = updated l s" and a: "a = Inr l' \<or> a = Inl e"
    and len: "length (sy_terms (put_lease i l' (th_op th = operationCampaign) s)) < 2 ^ 31"
  shows "sys_inv lns (resume i (acked th l' a) (k a) (put_lease i l' (th_op th = operationCampaign) s))"
proof -
  let ?acq = "th_op th = operationCampaign"
  let ?t = "put_lease i l' ?acq s"
  have ok: "thread_ok lns s i th" and s: "store_ok s" and n: "nodes_ok s"
    using inv i by (auto simp: sys_inv_def)
  have id: "th_ident th \<noteq> []" using ok by (simp add: thread_ok_def)
  have may: "may_update (th_op th) (th_ident th) (ghost_of s th) l"
    and snd: "\<And>a h. \<lbrakk>ghost_le (ghost_of s th) h; reply_ok h a; \<forall>u. a = Inr u \<longrightarrow> u \<in> gW h\<rbrakk> \<Longrightarrow>
       sound lns (th_op th) (th_name th) (th_ns th) (th_ident th) (k a) h"
    using ok p by (auto simp: thread_ok_def)
  from may obtain x w t where x: "(x, w) \<in> sy_versions s"
    and l: "?acq \<and> l = acquireLease x (th_ident th) t \<or> th_op th = operationHeartbeat \<and> l = renewLease x t"
    by (auto simp: may_update_def)
  from store_okD(4) [OF s cur(1)] obtain w' where "(cur, w') \<in> sy_versions s" by blast
  with x cur(2) l have "cur = x" using store_okD(2) [OF s, of cur w' x w] by auto
  with cur(1) l have x_cur: "sy_store s (l_Name x) = Some x" by auto
  note v = store_okD(1) [OF s x, unfolded version_ok_def]
  have maxi: "epoch (Some y) \<le> epoch (Some x)" if "(y, z) \<in> sy_versions s" "l_UID y = l_UID x" for y z
    using store_okD(5) [OF s x_cur that] .
  have step: "epoch (Some l') = (if ?acq then epoch (Some x) + 1 else epoch (Some x))"
    using l v len by (auto simp: l' updated_def epoch_acquire)
  have so: "store_ok ?t"
  proof (rule store_ok_put [OF s, where acquired = ?acq and l = l' and i = i])
    show "\<exists>k < sy_uid (?t). l_UID l' = show_nat k" using l v by (auto simp: l' updated_def)
    show "\<not> malformed (Some l')" using l v id by (auto simp: l' updated_def renewed_wf)
    show "lease_duration l' = leaseDuration" using l v by (auto simp: l' updated_def renewed_wf)
    show "epoch (Some y) \<le> epoch (Some l') \<and> (?acq \<longrightarrow> epoch (Some y) < epoch (Some l'))"
      if "(y, z) \<in> sy_versions s" "l_UID y = l_UID l'" for y z
    proof -
      have "l_UID y = l_UID x" using that(2) l by (auto simp: l' updated_def)
      then have "epoch (Some y) \<le> epoch (Some x)" by (rule maxi [OF that(1)])
      then show ?thesis by (simp add: step)
    qed
    show "l_Name y = l_Name l'" if "(y, z) \<in> sy_versions s" "l_UID y = l_UID l'" for y z
    proof -
      have "l_UID y = l_UID x" using that(2) l by (auto simp: l' updated_def)
      then show ?thesis using store_okD(3) [OF s that(1) x] l by (auto simp: l' updated_def)
    qed
  qed (use step v in \<open>auto simp: l' updated_def\<close>)
  show ?thesis unfolding acked_wrote
  proof (rule sys_inv_resume [OF inv i _ so])
    show "nodes_ok ?t" using n by (rule nodes_ok_grown) simp_all
    show "sound lns (th_op th) (th_name th) (th_ns th) (th_ident th) (k a) h"
      if "ghost_le (ghost_of s th) h" "gV h = sy_versions ?t" "gLast h = sy_clock ?t"
        "gW h = (case a of Inl _ \<Rightarrow> th_wrote th | Inr _ \<Rightarrow> insert l' (th_wrote th))" for h
      using that(1) a by (rule_tac snd) (auto simp: reply_ok_def in_hand_def that)
  qed (use a in \<open>auto split: sum.splits\<close>)
qed

lemma inv_remaining:
  assumes inv: "sys_inv lns s" and i: "sy_threads s i = Some th" and p: "th_prog th = Remaining lo src k"
    and el: "th_last th \<le> el + nd_start (sy_nodes s (th_node th))"
      "el + nd_start (sy_nodes s (th_node th)) \<le> sy_clock s"
    and r: "remaining (nd_tab (sy_nodes s (th_node th))) lo src el = (r, tab)"
  shows "sys_inv lns (resume i th (k r) (s\<lparr>sy_nodes := (sy_nodes s)(th_node th :=
    (sy_nodes s (th_node th))\<lparr>nd_tab := tab\<rparr>)\<rparr>))"
proof -
  let ?t = "s\<lparr>sy_nodes := (sy_nodes s)(th_node th := (sy_nodes s (th_node th))\<lparr>nd_tab := tab\<rparr>)\<rparr>"
  have ok: "thread_ok lns s i th" and s: "store_ok s" and n: "nodes_ok s"
    using inv i by (auto simp: sys_inv_def)
  have hand: "\<exists>w. (l, w) \<in> sy_versions s \<and> w \<le> el + nd_start (sy_nodes s (th_node th))" if "lo = Some l" for l
    using ok p el(1) that by (fastforce simp: thread_ok_def in_hand_def)
  have aged: "l \<in> aged s" if "lo = Some l" "src = fromStore" "r \<le> 0" for l
    using hand [OF that(1)] remaining_aged [OF s n _ _ el(2), of l] that r by auto
  have eqs: "store_ok ?t = store_ok s" "aged ?t = aged s"
    by (simp_all add: store_ok_def version_ok_def aged_def)
  show ?thesis
  proof (rule sys_inv_resume0 [OF inv i])
    show "nodes_ok ?t" using n hand r by (rule nodes_ok_remaining)
    show "store_ok ?t" using s eqs by simp
    show "sound lns (th_op th) (th_name th) (th_ns th) (th_ident th) (k r) h"
      if "ghost_le (ghost_of s th) h" "gAged h = aged ?t" for h
      using ok p that aged by (auto simp: thread_ok_def eqs)
  qed (simp_all add: grown_def)
qed

lemma store_read: "store_ok s \<Longrightarrow> sy_store s n = Some l \<Longrightarrow> \<exists>w. (l, w) \<in> sy_versions s \<and> w \<le> sy_clock s"
  using store_okD(1,4) by (fastforce simp: version_ok_def)

lemma sys_inv_local:
  assumes inv: "sys_inv lns s" and i: "sy_threads s i = Some th"
    and p: "\<And>h. \<lbrakk>sound lns (th_op th) (th_name th) (th_ns th) (th_ident th) (th_prog th) (ghost_of s th);
        ghost_le (ghost_of s th) h; gV h = sy_versions s; gLast h = sy_clock s\<rbrakk>
      \<Longrightarrow> sound lns (th_op th) (th_name th) (th_ns th) (th_ident th) p h"
  shows "sys_inv lns (resume i th p s)"
proof (rule sys_inv_resume0 [OF inv i])
  show "store_ok s" "nodes_ok s" using inv by (simp_all add: sys_inv_def)
  show "sound lns (th_op th) (th_name th) (th_ns th) (th_ident th) p h"
    if "ghost_le (ghost_of s th) h" "gV h = sy_versions s" "gLast h = sy_clock s" for h
    using p [OF _ that] inv i by (simp add: sys_inv_def thread_ok_def)
qed simp_all

lemma step_inv:
  assumes "sys_step sha256 lns s t" "sys_inv lns s" "length (sy_terms t) < 2 ^ 31"
  shows "sys_inv lns t"
  using assms
proof (cases rule: sys_step.cases)
  case (step_start ident op n token ns)
  let ?th = "\<lparr>th_node = n, th_op = op, th_name = leaseName sha256 token ns, th_ns = ns, th_ident = ident,
        th_prog = elect sha256 lns op token ns ident, th_last = sy_clock s, th_wrote = {}\<rparr>"
  have "thread_ok lns t (sy_next s) ?th"
    using step_start sound_elect [of op ident lns sha256 token ns] by (simp add: thread_ok_def)
  moreover have "store_ok t = store_ok s" "nodes_ok t = nodes_ok s"
    by (simp_all add: step_start store_ok_def version_ok_def nodes_ok_def slot_ok_def)
  ultimately show ?thesis using assms(2)
    by (intro sys_inv_thread [OF assms(2), of t "sy_next s" ?th])
       (simp_all add: step_start sys_inv_def grown_def)
next
  case (step_ready i th k a)
  show ?thesis unfolding step_ready(1)
    by (rule sys_inv_local [OF assms(2) step_ready(2)]) (simp add: step_ready(3))
next
  case (step_cache i th n k a)
  have "reply_ok h a" if "gV h = sy_versions s" "gLast h = sy_clock s" for h
    using step_cache(4) assms(2) that store_okD(1)
    by (fastforce simp: reply_ok_def in_hand_def sys_inv_def version_ok_def)
  then show ?thesis unfolding step_cache(1)
    by (intro sys_inv_local [OF assms(2) step_cache(2)]) (simp add: step_cache(3))
next
  case (step_get i th n k a)
  have "reply_ok h a" if "gV h = sy_versions s" "gLast h = sy_clock s" for h
    using step_get(4) assms(2) that store_read
    by (fastforce simp: reply_ok_def in_hand_def sys_inv_def split: option.splits)
  then show ?thesis unfolding step_get(1)
    by (intro sys_inv_local [OF assms(2) step_get(2)]) (simp add: step_get(3))
next
  case (step_write_refused i th l k e)
  show ?thesis unfolding step_write_refused(1)
    by (rule sys_inv_local [OF assms(2) step_write_refused(2)])
       (use step_write_refused(3) in \<open>auto simp: reply_ok_def\<close>)
next
  case (step_create i th l k l' a e)
  with inv_create [OF assms(2)] show ?thesis by blast
next
  case (step_update i th l k cur l' a e)
  with inv_update [OF assms(2), of i th l k cur l' a e] assms(3) show ?thesis by (simp add: resume_def)
next
  case (step_remaining i th lo src k nd el r tab)
  with inv_remaining [OF assms(2), of i th lo src k el r tab] show ?thesis by simp
next
  case (step_now i th k x)
  show ?thesis unfolding step_now(1)
    by (rule sys_inv_local [OF assms(2) step_now(2)]) (simp add: step_now(3))
next
  case (step_count i th m p)
  show ?thesis unfolding step_count(1)
    by (rule sys_inv_local [OF assms(2) step_count(2)]) (simp add: step_count(3))
next
  case (step_tick d)
  then have g: "grown s t" by (simp add: grown_def)
  moreover have "store_ok t"
    using step_tick assms(2) by (fastforce simp: sys_inv_def store_ok_def version_ok_def)
  ultimately show ?thesis using assms(2) step_tick
    by (auto simp: sys_inv_def intro: thread_ok_grown nodes_ok_grown)
next
  case (step_delete n)
  then have g: "grown s t" by (simp add: grown_def)
  moreover have "store_ok t"
    using step_delete assms(2) by (auto simp: sys_inv_def store_ok_def version_ok_def)
  ultimately show ?thesis using assms(2) step_delete
    by (auto simp: sys_inv_def intro: thread_ok_grown nodes_ok_grown)
next
  case (step_restart n)
  then have g: "grown s t" by (simp add: grown_def)
  moreover have "store_ok t" "nodes_ok t"
    using step_restart assms(2)
    by (auto simp: sys_inv_def store_ok_def version_ok_def nodes_ok_def slot_ok_def empty_table_def
        no_observation_def)
  ultimately show ?thesis using assms(2) step_restart
    by (auto simp: sys_inv_def intro: thread_ok_grown split: option.splits if_splits)
qed

lemma step_terms_grow: "sys_step sha256 lns s t \<Longrightarrow> length (sy_terms s) \<le> length (sy_terms t)"
  by (cases rule: sys_step.cases) (auto simp: resume_def)

lemma init_inv: "sys_inv lns init_sys"
  by (simp add: init_sys_def sys_inv_def store_ok_def nodes_ok_def empty_table_def no_observation_def)

lemma reachable_inv:
  "reachable sha256 lns s \<Longrightarrow> length (sy_terms s) < 2 ^ 31 \<Longrightarrow> sys_inv lns s"
proof (induction rule: reachable.induct)
  case reach_init
  show ?case by (rule init_inv)
next
  case (reach_step s t)
  then show ?case using step_terms_grow [OF reach_step.hyps(2)] step_inv [OF reach_step.hyps(2)] by simp
qed

lemma store_change:
  assumes "sys_step sha256 lns s t" "sy_store t n \<noteq> sy_store s n" "sy_store t n = Some l'"
    "sy_store s n = Some l"
  obtains i th x k where "sy_threads s i = Some th" "th_prog th = StoreUpdate x k" "l_Name x = n"
    "l_ResourceVersion l = l_ResourceVersion x" "l_UID l = l_UID x" "l' = updated x s"
  using assms by (cases rule: sys_step.cases) (auto simp: resume_def created_def updated_def split: if_splits)

lemma updated_facts [simp]:
  "holder (Some (updated x s)) = holder (Some x)" "epoch (Some (updated x s)) = epoch (Some x)"
  "l_UID (updated x s) = l_UID x" "l_Name (updated x s) = l_Name x"
  by (simp_all add: updated_def holder_def)

lemma takeover_aged:
  assumes "sys_inv lns s" "sys_step sha256 lns s t"
    "sy_store s n = Some l" "sy_store t n = Some l'"
    "holder (Some l') \<noteq> holder (Some l) \<or> epoch (Some l') \<noteq> epoch (Some l)"
  shows "\<exists>w. (l, w) \<in> sy_versions s \<and> w + leaseDuration \<le> sy_clock s"
proof -
  have s: "store_ok s" using assms(1) by (simp add: sys_inv_def)
  have "sy_store t n \<noteq> sy_store s n" using assms(3-5) by auto
  then obtain i th x k where x: "sy_threads s i = Some th" "th_prog th = StoreUpdate x k"
    "l_ResourceVersion l = l_ResourceVersion x" "l' = updated x s"
    using store_change [OF assms(2) _ assms(4,3)] by metis
  have "thread_ok lns s i th" using assms(1) x(1) by (simp add: sys_inv_def)
  then have "may_update (th_op th) (th_ident th) (ghost_of s th) x"
    using x(2) by (simp add: thread_ok_def)
  then obtain y w t' where y: "(y, w) \<in> sy_versions s" and
    alt: "y \<in> aged s \<and> x = acquireLease y (th_ident th) t' \<or> x = renewLease y t'"
    by (auto simp: may_update_def)
  from store_okD(4) [OF s assms(3)] obtain w' where w': "(l, w') \<in> sy_versions s" by blast
  have "l_ResourceVersion l = l_ResourceVersion y" using x(3) alt by auto
  then have "y = l" using store_okD(2) [OF s w' y] by simp
  then have "l \<in> aged s" using alt x(4) assms(5) by auto
  moreover have "epoch (Some v) \<le> epoch (Some l)" if "(v, z) \<in> sy_versions s" "l_UID v = l_UID l" for v z
    using store_okD(5) [OF s assms(3) that] .
  ultimately show ?thesis by (fastforce simp: aged_def)
qed

lemma campaign_term:
  assumes "sys_inv lns s" "sy_threads s i = Some th" "th_op th = operationCampaign"
    "th_prog th = Done (Inr r)" "r_Status r = StatusSuccess"
  shows "\<exists>u \<in> th_wrote th. r = result_of StatusSuccess (th_ns th) (th_ident th) (Some u) True \<and>
    (l_UID u, epoch (Some u), i) \<in> set (sy_terms s)"
proof -
  have "thread_ok lns s i th" using assms(1,2) by (simp add: sys_inv_def)
  with assms(3-5) show ?thesis by (auto simp: thread_ok_def)
qed

lemma terms_distinct:
  assumes "sys_inv lns s" "(u, e, i) \<in> set (sy_terms s)" "(u, e, j) \<in> set (sy_terms s)"
  shows "i = j"
proof -
  have "distinct (map (\<lambda>(u, e, i). (u, e)) (sy_terms s))"
    using assms(1) store_okD(7) by (auto simp: sys_inv_def)
  then have "inj_on (\<lambda>(u, e, i). (u, e)) (set (sy_terms s))" by (simp add: distinct_map)
  from inj_onD [OF this _ assms(2,3)] show ?thesis by simp
qed

section \<open>One acknowledged write per request\<close>

text \<open>A program that writes no more, and one whose first acknowledged write is its last.\<close>

primrec quiet :: "'r prog \<Rightarrow> bool" where
  "quiet (Done x) = True"
| "quiet (CacheReady k) = (\<forall>a. quiet (k a))"
| "quiet (CacheGet n k) = (\<forall>a. quiet (k a))"
| "quiet (StoreGet n k) = (\<forall>a. quiet (k a))"
| "quiet (StoreCreate l k) = False"
| "quiet (StoreUpdate l k) = False"
| "quiet (Remaining lo src k) = (\<forall>a. quiet (k a))"
| "quiet (Now k) = (\<forall>a. quiet (k a))"
| "quiet (AccessReview v k) = (\<forall>a. quiet (k a))"
| "quiet (Count m p) = quiet p"

primrec once :: "'r prog \<Rightarrow> bool" where
  "once (Done x) = True"
| "once (CacheReady k) = (\<forall>a. once (k a))"
| "once (CacheGet n k) = (\<forall>a. once (k a))"
| "once (StoreGet n k) = (\<forall>a. once (k a))"
| "once (StoreCreate l k) = ((\<forall>e. once (k (Inl e))) \<and> (\<forall>u. quiet (k (Inr u))))"
| "once (StoreUpdate l k) = ((\<forall>e. once (k (Inl e))) \<and> (\<forall>u. quiet (k (Inr u))))"
| "once (Remaining lo src k) = (\<forall>a. once (k a))"
| "once (Now k) = (\<forall>a. once (k a))"
| "once (AccessReview v k) = (\<forall>a. once (k a))"
| "once (Count m p) = once p"

lemma once_fail_storage [simp]: "once (fail_storage op e)"
  by (simp add: fail_storage_def storageError_def)

lemma once_after_write:
  "once again \<Longrightarrow> once (after_write op missing ns ident again (Inl e))"
  "quiet (after_write op missing ns ident again (Inr u))"
  by (simp_all add: after_write_def Let_def)

lemma once_attempt:
  "(\<And>again. retry = Some again \<Longrightarrow> once again) \<Longrightarrow> once (elect_attempt lns op name ns ident retry)"
  by (auto simp: elect_attempt_def attempt_body_def attempt_write_def once_after_write Let_def
      split: sum.split option.split)

lemma once_elect_loop: "once (elect_loop n lns op name ns ident)"
  by (induction n) (auto intro: once_attempt)

lemma once_elect: "once (elect sha256 lns op token ns ident)"
  by (auto simp: elect_def cache_probe_def once_elect_loop Let_def split: sum.split)

definition wrote_once :: "(lease \<times> int) set \<Rightarrow> thread \<Rightarrow> bool" where
  "wrote_once versions th \<longleftrightarrow> th_wrote th = {} \<and> once (th_prog th) \<or>
     (\<exists>u w. th_wrote th = {u} \<and> (u, w) \<in> versions \<and> quiet (th_prog th))"

lemma wrote_once_grown: "\<lbrakk>wrote_once vs th; vs \<subseteq> ws\<rbrakk> \<Longrightarrow> wrote_once ws th"
  unfolding wrote_once_def by blast

text \<open>An action that is not an acknowledged write: the program goes on to one of its branches.\<close>

lemma wrote_once_branch:
  assumes "wrote_once vs th" "once (th_prog th) \<Longrightarrow> once p" "quiet (th_prog th) \<Longrightarrow> quiet p"
  shows "wrote_once vs (th\<lparr>th_prog := p, th_last := c\<rparr>)"
  using assms by (auto simp: wrote_once_def)

lemma wrote_once_step:
  assumes "sys_step sha256 lns s t" "\<And>i th. sy_threads s i = Some th \<Longrightarrow> wrote_once (sy_versions s) th"
    "sy_threads t j = Some th'"
  shows "wrote_once (sy_versions t) th'"
  using assms(1)
proof cases
  case (step_start ident op n token ns)
  then show ?thesis using assms(2,3) by (auto simp: wrote_once_def once_elect split: if_splits)
next
  case (step_create i th l k l' a e)
  then have "th_wrote th = {}" "once (th_prog th)" using assms(2) [of i th] by (auto simp: wrote_once_def)
  then show ?thesis using step_create assms(2,3)
    by (auto simp: wrote_once_def resume_def put_lease_def acked_def split: if_splits) blast+
next
  case (step_update i th l k cur l' a e)
  then have "th_wrote th = {}" "once (th_prog th)" using assms(2) [of i th] by (auto simp: wrote_once_def)
  then show ?thesis using step_update assms(2,3)
    by (auto simp: wrote_once_def resume_def put_lease_def acked_def split: if_splits) blast+
next
  case (step_restart n)
  then show ?thesis using assms(2,3) by (auto simp: wrote_once_def split: option.splits if_splits)
qed (use assms(2,3) in \<open>auto simp: resume_def split: if_splits intro!: wrote_once_branch\<close>)

lemma reachable_wrote_once:
  "\<lbrakk>reachable sha256 lns s; sy_threads s i = Some th\<rbrakk> \<Longrightarrow> wrote_once (sy_versions s) th"
proof (induction arbitrary: i th rule: reachable.induct)
  case (reach_step s t)
  then show ?case using wrote_once_step by blast
qed (simp add: init_sys_def)

section \<open>Executable runs\<close>

text \<open>A scheduler that picks one step of \<open>sys_step\<close> at a time, to run the model on concrete schedules.\<close>

datatype choice =
    DoStart nat electionOperation string string string
  | DoReady nat bool
  | DoCache nat reply
  | DoGet nat
  | DoWrite nat
  | DoRemaining nat
  | DoNow nat int
  | DoCount nat
  | DoTick nat

fun exec :: "(string \<Rightarrow> string) \<Rightarrow> string \<Rightarrow> choice \<Rightarrow> sys \<Rightarrow> sys option" where
  "exec sha256 lns (DoStart n op token ns ident) s =
     (if ident = [] \<or> op = operationInformer then None
      else Some (s\<lparr>sy_next := Suc (sy_next s), sy_threads := (sy_threads s)(sy_next s \<mapsto>
       \<lparr>th_node = n, th_op = op, th_name = leaseName sha256 token ns, th_ns = ns, th_ident = ident,
        th_prog = elect sha256 lns op token ns ident, th_last = sy_clock s, th_wrote = {}\<rparr>)\<rparr>))"
| "exec sha256 lns (DoTick d) s = Some (s\<lparr>sy_clock := sy_clock s + int d\<rparr>)"
| "exec sha256 lns (DoReady i a) s = (case sy_threads s i of None \<Rightarrow> None | Some th \<Rightarrow>
     (case th_prog th of CacheReady k \<Rightarrow> Some (resume i th (k a) s) | _ \<Rightarrow> None))"
| "exec sha256 lns (DoCache i a) s = (case sy_threads s i of None \<Rightarrow> None | Some th \<Rightarrow>
     (case th_prog th of CacheGet n k \<Rightarrow>
        if (case a of Inl _ \<Rightarrow> True | Inr l \<Rightarrow> l_Name l = n \<and> l \<in> fst ` sy_versions s)
        then Some (resume i th (k a) s) else None | _ \<Rightarrow> None))"
| "exec sha256 lns (DoGet i) s = (case sy_threads s i of None \<Rightarrow> None | Some th \<Rightarrow>
     (case th_prog th of StoreGet n k \<Rightarrow>
        Some (resume i th (k (case sy_store s n of None \<Rightarrow> Inl NotFound | Some l \<Rightarrow> Inr l)) s) | _ \<Rightarrow> None))"
| "exec sha256 lns (DoWrite i) s = (case sy_threads s i of None \<Rightarrow> None | Some th \<Rightarrow>
     (case th_prog th of
        StoreCreate l k \<Rightarrow> (case sy_store s (l_Name l) of
            None \<Rightarrow> Some (resume i (acked th (created l s) (Inr (created l s))) (k (Inr (created l s)))
                     ((put_lease i (created l s) True s)\<lparr>sy_uid := Suc (sy_uid s)\<rparr>))
          | Some _ \<Rightarrow> Some (resume i th (k (Inl AlreadyExists)) s))
      | StoreUpdate l k \<Rightarrow> (case sy_store s (l_Name l) of
            None \<Rightarrow> Some (resume i th (k (Inl NotFound)) s)
          | Some cur \<Rightarrow>
              if l_ResourceVersion cur = l_ResourceVersion l \<and> l_UID cur = l_UID l
              then Some (resume i (acked th (updated l s) (Inr (updated l s))) (k (Inr (updated l s)))
                     (put_lease i (updated l s) (th_op th = operationCampaign) s))
              else Some (resume i th (k (Inl Conflict)) s))
      | _ \<Rightarrow> None))"
| "exec sha256 lns (DoRemaining i) s = (case sy_threads s i of None \<Rightarrow> None | Some th \<Rightarrow>
     (case th_prog th of Remaining lo src k \<Rightarrow>
        let nd = sy_nodes s (th_node th); out = remaining (nd_tab nd) lo src (sy_clock s - nd_start nd)
        in if th_last th \<le> sy_clock s
           then Some (resume i th (k (fst out)) (s\<lparr>sy_nodes := (sy_nodes s)(th_node th := nd\<lparr>nd_tab := snd out\<rparr>)\<rparr>))
           else None
      | _ \<Rightarrow> None))"
| "exec sha256 lns (DoNow i t) s = (case sy_threads s i of None \<Rightarrow> None | Some th \<Rightarrow>
     (case th_prog th of Now k \<Rightarrow> Some (resume i th (k t) s) | _ \<Rightarrow> None))"
| "exec sha256 lns (DoCount i) s = (case sy_threads s i of None \<Rightarrow> None | Some th \<Rightarrow>
     (case th_prog th of Count m p \<Rightarrow> Some (resume i th p s) | _ \<Rightarrow> None))"

lemma exec_step: "exec sha256 lns c s = Some t \<Longrightarrow> sys_step sha256 lns s t"
proof (cases c)
  case (DoStart n op token ns ident)
  moreover assume "exec sha256 lns c s = Some t"
  ultimately show ?thesis
    by (cases op) (auto intro!: step_start split: if_splits)
next
  case (DoTick d)
  moreover assume "exec sha256 lns c s = Some t"
  ultimately show ?thesis by (auto intro: step_tick)
next
  case (DoReady i a)
  moreover assume "exec sha256 lns c s = Some t"
  ultimately show ?thesis by (auto intro: step_ready split: option.splits prog.splits)
next
  case (DoCache i a)
  moreover assume "exec sha256 lns c s = Some t"
  ultimately show ?thesis
    by (auto intro!: step_cache split: option.splits prog.splits if_splits sum.splits)
next
  case (DoGet i)
  moreover assume "exec sha256 lns c s = Some t"
  ultimately show ?thesis by (auto intro: step_get split: option.splits prog.splits)
next
  case (DoWrite i)
  moreover assume "exec sha256 lns c s = Some t"
  ultimately show ?thesis
    by (auto intro: step_create step_update step_write_refused split: option.splits prog.splits if_splits)
next
  case (DoRemaining i)
  moreover assume "exec sha256 lns c s = Some t"
  ultimately show ?thesis
    by (auto simp: Let_def intro!: step_remaining [OF _ _ refl, where el = "sy_clock s - nd_start n" for n]
        split: option.splits prog.splits if_splits)
next
  case (DoNow i x)
  moreover assume "exec sha256 lns c s = Some t"
  ultimately show ?thesis by (auto intro: step_now split: option.splits prog.splits)
next
  case (DoCount i)
  moreover assume "exec sha256 lns c s = Some t"
  ultimately show ?thesis by (auto intro: step_count split: option.splits prog.splits)
qed

primrec exec_all :: "(string \<Rightarrow> string) \<Rightarrow> string \<Rightarrow> choice list \<Rightarrow> sys \<Rightarrow> sys option" where
  "exec_all sha256 lns [] s = Some s"
| "exec_all sha256 lns (c # cs) s = Option.bind (exec sha256 lns c s) (exec_all sha256 lns cs)"

lemma exec_all_reachable:
  "exec_all sha256 lns cs s = Some t \<Longrightarrow> reachable sha256 lns s \<Longrightarrow> reachable sha256 lns t"
  by (induction cs arbitrary: s) (auto simp: bind_eq_Some_conv dest!: exec_step intro: reach_step)

text \<open>
  A schedule for the examples: on one replica a campaign of \<open>a\<close> creates the Lease, 31 seconds
  later a campaign of \<open>b\<close> takes it over.
\<close>

definition first_campaign :: "choice list" where
  "first_campaign = [DoStart 0 operationCampaign ''t'' ''n'' ''a'', DoReady 0 True, DoCache 0 (Inl NotFound),
     DoRemaining 0, DoGet 0, DoRemaining 0, DoNow 0 7, DoWrite 0, DoRemaining 0, DoCount 0]"

definition second_campaign :: "choice list" where
  "second_campaign = [DoTick 31000000000, DoStart 0 operationCampaign ''t'' ''n'' ''b'', DoReady 1 True,
     DoCache 1 (Inl NotFound), DoRemaining 1, DoGet 1, DoRemaining 1, DoNow 1 9]"

lemma elect_loop_max: "elect_loop maxCASAttempts lns op n ns i =
  elect_attempt lns op n ns i (Some (elect_loop 4 lns op n ns i))"
  by (simp add: maxCASAttempts_def eval_nat_numeral)

lemmas run_defs = first_campaign_def second_campaign_def init_sys_def elect_def leaseName_def
  hex_encode_def resume_def elect_loop_max elect_attempt_def cache_probe_def attempt_body_def
  attempt_write_def put_lease_def after_write_def acked_def created_def updated_def newLease_def
  acquireLease_def empty_spec_def leaseDuration_def remaining_def malformed_def holder_def
  superseded_def same_version_def observe_def empty_table_def no_observation_def epoch_def
  lease_duration_def second_def Let_def

lemma both_campaigns:
  obtains s a b where "exec_all (\<lambda>_. []) ''op''
      (first_campaign @ second_campaign @ [DoWrite 1, DoRemaining 1, DoCount 1]) init_sys = Some s"
    "length (sy_terms s) = 2" "sy_threads s 0 = Some a" "th_op a = operationCampaign"
    "\<exists>r. th_prog a = Done (Inr r) \<and> r_Status r = StatusSuccess"
    "sy_threads s 1 = Some b" "th_op b = operationCampaign"
    "\<exists>r. th_prog b = Done (Inr r) \<and> r_Status r = StatusSuccess"
    "\<forall>u \<in> th_wrote a. \<forall>v \<in> th_wrote b. l_UID u = l_UID v"
  by (simp add: run_defs del: elect_loop.simps)

lemma before_takeover:
  obtains s l where "exec_all (\<lambda>_. []) ''op'' (first_campaign @ second_campaign) init_sys = Some s"
    "sy_store s ''datakit-election-'' = Some l" "sy_versions s = {(l, 0)}" "sy_clock s = 31000000000"
    "\<exists>t l'. exec (\<lambda>_. []) ''op'' (DoWrite 1) s = Some t \<and> length (sy_terms t) = 2 \<and>
       sy_store t ''datakit-election-'' = Some l' \<and> epoch (Some l') \<noteq> epoch (Some l)"
  by (simp add: run_defs del: elect_loop.simps)

section \<open>Properties\<close>

lemma campaign_lease:
  assumes "reachable sha256 lns s" "sys_inv lns s" "sy_threads s i = Some th" "th_op th = operationCampaign"
    "th_prog th = Done (Inr r)" "r_Status r = StatusSuccess"
  obtains u w where "th_wrote th = {u}" "(u, w) \<in> sy_versions s" "(l_UID u, epoch (Some u), i) \<in> set (sy_terms s)"
    "r = result_of StatusSuccess (th_ns th) (th_ident th) (Some u) True"
proof -
  obtain v where v: "v \<in> th_wrote th" "r = result_of StatusSuccess (th_ns th) (th_ident th) (Some v) True"
      "(l_UID v, epoch (Some v), i) \<in> set (sy_terms s)" using campaign_term [OF assms(2-6)] by blast
  then obtain u w where "th_wrote th = {u}" "(u, w) \<in> sy_versions s"
    using reachable_wrote_once [OF assms(1,3)] by (auto simp: wrote_once_def)
  then show thesis using v that by auto
qed

text \<open>C5: Fencing.  In every reachable state of any number of replicas and requests, with stale caches, lost
  replies, deletions and restarts: a campaign that replied success had exactly one write acknowledged, of a Lease
  version that was stored, its reply carries the holder and the epoch of that version, and the term of that version
  (its UID and epoch) was acquired by this campaign.  Two different campaigns that replied success therefore
  carry different epochs when the Lease versions they wrote are of the same object (the same UID), and no third
  request acquired either term.\<close>

theorem fencing_epochs_unique:
  assumes "reachable sha256 lns s" "length (sy_terms s) < 2 ^ 31"
    "sy_threads s i = Some a" "th_op a = operationCampaign" "th_prog a = Done (Inr ra)"
    "r_Status ra = StatusSuccess"
    "sy_threads s j = Some b" "th_op b = operationCampaign" "th_prog b = Done (Inr rb)"
    "r_Status rb = StatusSuccess" "i \<noteq> j"
  shows "\<exists>u v wu wv. th_wrote a = {u} \<and> (u, wu) \<in> sy_versions s \<and>
    ra = result_of StatusSuccess (th_ns a) (th_ident a) (Some u) True \<and> r_Epoch ra = epoch (Some u) \<and>
    th_wrote b = {v} \<and> (v, wv) \<in> sy_versions s \<and>
    rb = result_of StatusSuccess (th_ns b) (th_ident b) (Some v) True \<and> r_Epoch rb = epoch (Some v) \<and>
    (\<forall>k. (l_UID u, r_Epoch ra, k) \<in> set (sy_terms s) \<longleftrightarrow> k = i) \<and>
    (\<forall>k. (l_UID v, r_Epoch rb, k) \<in> set (sy_terms s) \<longleftrightarrow> k = j) \<and>
    (l_UID u = l_UID v \<longrightarrow> r_Epoch ra \<noteq> r_Epoch rb)"
proof -
  have inv: "sys_inv lns s" using assms(1,2) by (rule reachable_inv)
  obtain u wu where u: "th_wrote a = {u}" "(u, wu) \<in> sy_versions s" "(l_UID u, epoch (Some u), i) \<in> set (sy_terms s)"
    "ra = result_of StatusSuccess (th_ns a) (th_ident a) (Some u) True"
    using campaign_lease [OF assms(1) inv assms(3-6)] .
  obtain v wv where v: "th_wrote b = {v}" "(v, wv) \<in> sy_versions s" "(l_UID v, epoch (Some v), j) \<in> set (sy_terms s)"
    "rb = result_of StatusSuccess (th_ns b) (th_ident b) (Some v) True"
    using campaign_lease [OF assms(1) inv assms(7-10)] .
  have e: "r_Epoch ra = epoch (Some u)" "r_Epoch rb = epoch (Some v)"
    by (simp_all add: u(4) v(4) result_of_def)
  have "(l_UID u, r_Epoch ra, k) \<in> set (sy_terms s) \<longleftrightarrow> k = i" "(l_UID v, r_Epoch rb, k) \<in> set (sy_terms s) \<longleftrightarrow> k = j" for k
    using terms_distinct [OF inv, of _ _ k] u(3) v(3) e by metis+
  moreover have "l_UID u = l_UID v \<longrightarrow> r_Epoch ra \<noteq> r_Epoch rb"
    using terms_distinct [OF inv u(3), of j] v(3) assms(11) e by auto
  ultimately show ?thesis using u(1,2,4) v(1,2,4) e by blast
qed

text \<open>The second campaign of the example takes the Lease of the first one over: the same object, another epoch.\<close>

theorem fencing_epochs_unique_witness:
  "\<exists>s a b ra rb u v. reachable (\<lambda>_. []) ''op'' s \<and> sy_threads s 0 = Some a \<and> sy_threads s 1 = Some b \<and>
     th_prog a = Done (Inr ra) \<and> th_prog b = Done (Inr rb) \<and> th_wrote a = {u} \<and> th_wrote b = {v} \<and>
     l_UID u = l_UID v \<and> r_Epoch ra \<noteq> r_Epoch rb"
proof -
  obtain s a b where run: "exec_all (\<lambda>_. []) ''op''
      (first_campaign @ second_campaign @ [DoWrite 1, DoRemaining 1, DoCount 1]) init_sys = Some s"
    and f: "length (sy_terms s) = 2" "sy_threads s 0 = Some a" "th_op a = operationCampaign"
    "\<exists>r. th_prog a = Done (Inr r) \<and> r_Status r = StatusSuccess"
    "sy_threads s 1 = Some b" "th_op b = operationCampaign"
    "\<exists>r. th_prog b = Done (Inr r) \<and> r_Status r = StatusSuccess"
    and uid: "\<forall>u \<in> th_wrote a. \<forall>v \<in> th_wrote b. l_UID u = l_UID v"
    by (rule both_campaigns)
  from exec_all_reachable [OF run reach_init] have r: "reachable (\<lambda>_. []) ''op'' s" .
  from f(4,7) obtain ra rb where p: "th_prog a = Done (Inr ra)" "r_Status ra = StatusSuccess"
    "th_prog b = Done (Inr rb)" "r_Status rb = StatusSuccess" by blast
  have "length (sy_terms s) < 2 ^ 31" using f(1) by simp
  from fencing_epochs_unique [OF r this f(2,3) p(1,2) f(5,6) p(3,4)] obtain u v where
    "th_wrote a = {u}" "th_wrote b = {v}" "l_UID u = l_UID v \<longrightarrow> r_Epoch ra \<noteq> r_Epoch rb" by auto
  with uid r f(2,5) p(1,3) show ?thesis by blast
qed

text \<open>C6: No premature takeover.  Whenever a step of a reachable system replaces a stored Lease by
  one with another holder or another epoch, the replaced version had been in the store for at
  least the Lease duration of 30 seconds of real time, whatever the wall clocks of the replicas
  say and whatever their caches showed.\<close>

theorem no_premature_takeover:
  assumes "reachable sha256 lns s" "sys_step sha256 lns s t" "length (sy_terms t) < 2 ^ 31"
    "sy_store s n = Some l" "sy_store t n = Some l'"
    "holder (Some l') \<noteq> holder (Some l) \<or> epoch (Some l') \<noteq> epoch (Some l)"
  shows "\<exists>w. (l, w) \<in> sy_versions s \<and> w + leaseDuration \<le> sy_clock s"
proof (rule takeover_aged [OF _ assms(2,4-6)])
  show "sys_inv lns s"
    using reachable_inv [OF assms(1)] step_terms_grow [OF assms(2)] assms(3) by simp
qed

theorem no_premature_takeover_witness:
  "\<exists>s t l l'. reachable (\<lambda>_. []) ''op'' s \<and> sys_step (\<lambda>_. []) ''op'' s t \<and>
     sy_store s ''datakit-election-'' = Some l \<and> sy_store t ''datakit-election-'' = Some l' \<and>
     epoch (Some l') \<noteq> epoch (Some l) \<and> (\<exists>w. (l, w) \<in> sy_versions s \<and> w + leaseDuration \<le> sy_clock s)"
proof -
  obtain s l t l' where run: "exec_all (\<lambda>_. []) ''op'' (first_campaign @ second_campaign) init_sys = Some s"
    and f: "sy_store s ''datakit-election-'' = Some l" "exec (\<lambda>_. []) ''op'' (DoWrite 1) s = Some t"
      "length (sy_terms t) = 2" "sy_store t ''datakit-election-'' = Some l'" "epoch (Some l') \<noteq> epoch (Some l)"
    by (rule before_takeover) blast
  from exec_all_reachable [OF run reach_init] have r: "reachable (\<lambda>_. []) ''op'' s" .
  have "length (sy_terms t) < 2 ^ 31" using f(3) by simp
  from no_premature_takeover [OF r exec_step [OF f(2)] this f(1,4)] f(5)
  have "\<exists>w. (l, w) \<in> sy_versions s \<and> w + leaseDuration \<le> sy_clock s" by blast
  with r exec_step [OF f(2)] f(1,4,5) show ?thesis by blast
qed

end
