(* ===== verification/Kube_Types.thy ===== *)
theory Kube_Types
  imports Prelude
begin

text \<open>
  The part of the Kubernetes Pod API that the webhook reads and writes, as records with the Go
  structs' fields (prefixed by a letter for the struct).  A nil pointer is \<open>None\<close>.  Nil and empty
  slices are both \<open>[]\<close>, except where the code compares them with \<open>reflect.DeepEqual\<close> and the
  difference shows (\<open>Args\<close>, the resource maps).  The fields of a struct that no code of the
  operator reads or writes are carried as one JSON object (\<open>..._rest\<close>).
\<close>

section \<open>JSON values\<close>

text \<open>A \<open>resource.Quantity\<close>, with the fields of the Go struct; its JSON text is left opaque.\<close>

record quantity =
  q_value :: int
  q_scale :: int
  q_dec :: "string option"
  q_s :: string
  q_Format :: string

datatype json =
    JNull
  | JBool bool
  | JInt int
  | JStr string
  | JQuantity quantity
  | JArr "json list"
  | JObj "(string, json) fmap"

type_synonym json_fields = "(string, json) fmap"

section \<open>Environment variables\<close>

record object_field_selector =
  of_APIVersion :: string
  of_FieldPath :: string

record resource_field_selector =
  rf_ContainerName :: string
  rf_Resource :: string
  rf_Divisor :: quantity

record secret_key_selector =
  sk_Name :: string
  sk_Key :: string
  sk_Optional :: "bool option"

record env_source =
  es_FieldRef :: "object_field_selector option"
  es_ResourceFieldRef :: "resource_field_selector option"
  es_ConfigMapKeyRef :: "secret_key_selector option"
  es_SecretKeyRef :: "secret_key_selector option"

record envvar =
  ev_Name :: string
  ev_Value :: string
  ev_ValueFrom :: "env_source option"

section \<open>Volumes\<close>

record empty_dir =
  ed_Medium :: string
  ed_SizeLimit :: "quantity option"

record host_path =
  hp_Path :: string
  hp_Type :: "string option"

record downward_file =
  df_Path :: string
  df_FieldRef :: "object_field_selector option"
  df_rest :: json_fields

record downward_api =
  da_Items :: "downward_file list"
  da_DefaultMode :: "int option"

record volume =
  v_Name :: string
  v_EmptyDir :: "empty_dir option"
  v_HostPath :: "host_path option"
  v_DownwardAPI :: "downward_api option"
  v_rest :: json_fields

record volume_mount =
  vm_Name :: string
  vm_ReadOnly :: bool
  vm_MountPath :: string
  vm_SubPath :: string
  vm_SubPathExpr :: string
  vm_rest :: json_fields

section \<open>Containers\<close>

record resource_requirements =
  rr_Limits :: "(string, quantity) fmap option"
  rr_Requests :: "(string, quantity) fmap option"

record container_port =
  cp_Name :: string
  cp_HostPort :: int
  cp_ContainerPort :: int
  cp_Protocol :: string
  cp_HostIP :: string

record capabilities =
  cap_Add :: "string list"
  cap_Drop :: "string list"

record selinux_options =
  se_User :: string
  se_Role :: string
  se_Type :: string
  se_Level :: string

record windows_options =
  wo_GMSACredentialSpecName :: "string option"
  wo_GMSACredentialSpec :: "string option"
  wo_RunAsUserName :: "string option"
  wo_HostProcess :: "bool option"

record seccomp_profile =
  sp_Type :: string
  sp_LocalhostProfile :: "string option"

record security_context =
  sc_Capabilities :: "capabilities option"
  sc_Privileged :: "bool option"
  sc_SELinuxOptions :: "selinux_options option"
  sc_WindowsOptions :: "windows_options option"
  sc_RunAsUser :: "int option"
  sc_RunAsGroup :: "int option"
  sc_RunAsNonRoot :: "bool option"
  sc_ReadOnlyRootFilesystem :: "bool option"
  sc_AllowPrivilegeEscalation :: "bool option"
  sc_ProcMount :: "string option"
  sc_SeccompProfile :: "seccomp_profile option"

record container =
  c_Name :: string
  c_Image :: string
  c_Command :: "string list"
  c_Args :: "string list option"
  c_WorkingDir :: string
  c_Ports :: "container_port list"
  c_Env :: "envvar list"
  c_Resources :: resource_requirements
  c_VolumeMounts :: "volume_mount list"
  c_ImagePullPolicy :: string
  c_SecurityContext :: "security_context option"
  c_rest :: json_fields

section \<open>Pods\<close>

record pod_security_context =
  ps_RunAsUser :: "int option"
  ps_RunAsNonRoot :: "bool option"
  ps_rest :: json_fields

record pod =
  p_Name :: string
  p_GenerateName :: string
  p_Namespace :: string
  p_Labels :: go_map
  p_Annotations :: go_map
  p_Volumes :: "volume list"
  p_InitContainers :: "container list"
  p_Containers :: "container list"
  p_RestartPolicy :: string
  p_ShareProcessNamespace :: "bool option"
  p_SecurityContext :: "pod_security_context option"
  p_meta_rest :: json_fields
  p_spec_rest :: json_fields

section \<open>Zero values and literals\<close>

text \<open>Go composite literals leave the fields they do not mention at their zero values.\<close>

definition env_value :: "string \<Rightarrow> string \<Rightarrow> envvar" where
  "env_value n v = \<lparr>ev_Name = n, ev_Value = v, ev_ValueFrom = None\<rparr>"

definition env_from :: "string \<Rightarrow> env_source \<Rightarrow> envvar" where
  "env_from n s = \<lparr>ev_Name = n, ev_Value = [], ev_ValueFrom = Some s\<rparr>"

definition no_source :: env_source where
  "no_source = \<lparr>es_FieldRef = None, es_ResourceFieldRef = None, es_ConfigMapKeyRef = None, es_SecretKeyRef = None\<rparr>"

definition mount :: "string \<Rightarrow> string \<Rightarrow> volume_mount" where
  "mount n p = \<lparr>vm_Name = n, vm_ReadOnly = False, vm_MountPath = p, vm_SubPath = [], vm_SubPathExpr = [],
     vm_rest = fmempty\<rparr>"

definition empty_dir_volume :: "string \<Rightarrow> volume" where
  "empty_dir_volume n = \<lparr>v_Name = n, v_EmptyDir = Some \<lparr>ed_Medium = [], ed_SizeLimit = None\<rparr>,
     v_HostPath = None, v_DownwardAPI = None, v_rest = fmempty\<rparr>"

definition no_container :: container where
  "no_container = \<lparr>c_Name = [], c_Image = [], c_Command = [], c_Args = None, c_WorkingDir = [], c_Ports = [],
     c_Env = [], c_Resources = \<lparr>rr_Limits = None, rr_Requests = None\<rparr>, c_VolumeMounts = [],
     c_ImagePullPolicy = [], c_SecurityContext = None, c_rest = fmempty\<rparr>"

definition no_security_context :: security_context where
  "no_security_context = \<lparr>sc_Capabilities = None, sc_Privileged = None, sc_SELinuxOptions = None,
     sc_WindowsOptions = None, sc_RunAsUser = None, sc_RunAsGroup = None, sc_RunAsNonRoot = None,
     sc_ReadOnlyRootFilesystem = None, sc_AllowPrivilegeEscalation = None, sc_ProcMount = None,
     sc_SeccompProfile = None\<rparr>"

definition no_pod :: pod where
  "no_pod = \<lparr>p_Name = [], p_GenerateName = [], p_Namespace = [], p_Labels = fmempty,
     p_Annotations = fmempty, p_Volumes = [], p_InitContainers = [], p_Containers = [],
     p_RestartPolicy = [], p_ShareProcessNamespace = None, p_SecurityContext = None,
     p_meta_rest = fmempty, p_spec_rest = fmempty\<rparr>"

lemma literal_simps [simp]:
  "ev_Name (env_value n v) = n" "ev_Value (env_value n v) = v" "ev_ValueFrom (env_value n v) = None"
  "ev_Name (env_from n s) = n" "ev_ValueFrom (env_from n s) = Some s" "ev_Value (env_from n s) = []"
  "vm_Name (mount n p) = n" "vm_MountPath (mount n p) = p"
  "v_Name (empty_dir_volume n) = n" "v_EmptyDir (empty_dir_volume n) \<noteq> None"
  by (simp_all add: env_value_def env_from_def mount_def empty_dir_volume_def)

text \<open>Updates of all the containers of a Pod.\<close>

definition map_containers :: "(container \<Rightarrow> container) \<Rightarrow> pod \<Rightarrow> pod" where
  "map_containers f p = p\<lparr>p_Containers := map f (p_Containers p)\<rparr>"

lemma map_containers_frame [simp]:
  "p_Containers (map_containers f p) = map f (p_Containers p)"
  "p_Name (map_containers f p) = p_Name p" "p_GenerateName (map_containers f p) = p_GenerateName p"
  "p_Namespace (map_containers f p) = p_Namespace p" "p_Labels (map_containers f p) = p_Labels p"
  "p_Annotations (map_containers f p) = p_Annotations p" "p_Volumes (map_containers f p) = p_Volumes p"
  "p_InitContainers (map_containers f p) = p_InitContainers p"
  "p_RestartPolicy (map_containers f p) = p_RestartPolicy p"
  "p_ShareProcessNamespace (map_containers f p) = p_ShareProcessNamespace p"
  "p_SecurityContext (map_containers f p) = p_SecurityContext p"
  "p_meta_rest (map_containers f p) = p_meta_rest p" "p_spec_rest (map_containers f p) = p_spec_rest p"
  by (simp_all add: map_containers_def)

end
