(* ===== verification/Pod_Extends.thy ===== *)
theory Pod_Extends
  imports Pod_Manager
begin

text \<open>
  What the mutations of the webhook may do to a Pod.  \<open>pod_le p q\<close>: the containers of \<open>p\<close> are
  still there, in order, changed at most in their environment and by added volume mounts;
  containers, init containers, volumes and six annotations may be added; the Pod may be made one which shares
  its process namespace and always restarts; in an environment, variables may be added, and the values
  change only of the variables which the tracing libraries are configured with; nothing else differs.  This is what the JSON patches of
  \<open>apis/webhook/pod_patch.go\<close> can express.  Every helper of \<open>pkg/manager\<close> respects it.
\<close>

text \<open>The variables whose existing value the tracing injections extend.\<close>

definition merged_variables :: "string list" where
  "merged_variables = [''DD_TAGS'', ''JAVA_TOOL_OPTIONS'', ''PYTHONPATH'', ''DD_LOADER_PACKAGE_PATH'',
     ''PHP_INI_SCAN_DIR'', ''NODE_OPTIONS'']"

definition own_variable :: "envvar \<Rightarrow> bool" where
  "own_variable e \<longleftrightarrow> ev_Name e \<notin> set merged_variables"

definition env_le :: "envvar list \<Rightarrow> envvar list \<Rightarrow> bool" where
  "env_le es fs \<longleftrightarrow> (es \<noteq> [] \<longrightarrow> fs \<noteq> []) \<and> names ev_Name es \<subseteq> names ev_Name fs \<and>
     prefix (filter own_variable es) (filter own_variable fs)"

text \<open>The annotations that are written, each only where it is absent.\<close>

definition written_annotations :: "string list" where
  "written_annotations = [''datakit/logs'', ''prometheus.io/scrape'', ''prometheus.io/port'',
     ''prometheus.io/scheme'', ''prometheus.io/path'', ''prometheus.io/param_measurement'']"

definition annotations_le :: "go_map \<Rightarrow> go_map \<Rightarrow> bool" where
  "annotations_le m n \<longleftrightarrow>
     (\<forall>k. fmlookup n k = fmlookup m k \<or> fmlookup m k = None \<and> k \<in> set written_annotations)"

definition container_le :: "container \<Rightarrow> container \<Rightarrow> bool" where
  "container_le c d \<longleftrightarrow> d = c\<lparr>c_Env := c_Env d, c_VolumeMounts := c_VolumeMounts d\<rparr> \<and>
     env_le (c_Env c) (c_Env d) \<and> named_append vm_Name (c_VolumeMounts c) (c_VolumeMounts d)"

definition containers_le :: "container list \<Rightarrow> container list \<Rightarrow> bool" where
  "containers_le cs ds \<longleftrightarrow> grows container_le cs ds \<and>
     (\<forall>d \<in> set (drop (length cs) ds). c_Name d \<notin> names c_Name cs)"

definition pod_le :: "pod \<Rightarrow> pod \<Rightarrow> bool" where
  "pod_le p q \<longleftrightarrow>
     q = p\<lparr>p_Annotations := p_Annotations q, p_Volumes := p_Volumes q,
           p_InitContainers := p_InitContainers q, p_Containers := p_Containers q,
           p_RestartPolicy := p_RestartPolicy q, p_ShareProcessNamespace := p_ShareProcessNamespace q\<rparr> \<and>
     annotations_le (p_Annotations p) (p_Annotations q) \<and>
     named_append v_Name (p_Volumes p) (p_Volumes q) \<and>
     named_append c_Name (p_InitContainers p) (p_InitContainers q) \<and>
     containers_le (p_Containers p) (p_Containers q) \<and>
     (p_RestartPolicy q = p_RestartPolicy p \<and> p_ShareProcessNamespace q = p_ShareProcessNamespace p \<or>
      p_RestartPolicy q = ''Always'' \<and> p_ShareProcessNamespace q = Some True)"

section \<open>Reflexivity and transitivity\<close>

lemma env_le_refl [simp]: "env_le es es"
  and env_le_trans: "env_le a b \<Longrightarrow> env_le b c \<Longrightarrow> env_le a c"
  by (auto simp: env_le_def intro: prefix_order.trans)

lemma annotations_le_refl [simp]: "annotations_le m m"
  and annotations_le_trans: "annotations_le a b \<Longrightarrow> annotations_le b c \<Longrightarrow> annotations_le a c"
  unfolding annotations_le_def by (simp, metis)

lemma annotations_le_dom: "annotations_le m n \<Longrightarrow> fmdom m |\<subseteq>| fmdom n"
  unfolding annotations_le_def by (metis fmdom_notD fmdom_notI fsubsetI option.distinct(1))

lemma annotations_le_add:
  "\<lbrakk>annotations_le m n; fmlookup m k = None; k \<in> set written_annotations\<rbrakk> \<Longrightarrow> annotations_le m (fmupd k v n)"
  by (simp add: annotations_le_def)

lemma container_le_refl [simp]: "container_le c c"
  by (simp add: container_le_def)

lemma container_le_trans: "container_le a b \<Longrightarrow> container_le b c \<Longrightarrow> container_le a c"
  unfolding container_le_def by (cases a, cases b, cases c) (auto intro: env_le_trans named_append_trans)

lemma container_le_name: "container_le c d \<Longrightarrow> c_Name d = c_Name c"
  unfolding container_le_def by (cases c, cases d) auto

lemma grows_names: "grows container_le cs ds \<Longrightarrow> names c_Name cs \<subseteq> names c_Name ds"
  by (induction cs arbitrary: ds) (auto dest!: container_le_name, blast)

lemma containers_le_refl [simp]: "containers_le cs cs"
  by (simp add: containers_le_def)

lemma containers_le_trans:
  assumes "containers_le a b" "containers_le b c"
  shows "containers_le a c"
proof -
  have g: "grows container_le a c"
    using assms container_le_trans unfolding containers_le_def by (metis grows_trans)
  have len: "length a \<le> length b" "length b \<le> length c"
    using assms by (auto simp: containers_le_def dest: grows_lengthD)
  have "c_Name (c ! i) \<notin> names c_Name a" if i: "length a \<le> i" "i < length c" for i
  proof (cases "i < length b")
    case True
    have "container_le (b ! i) (c ! i)" using assms(2) True by (auto simp: containers_le_def dest: grows_nthD)
    then have "c_Name (c ! i) = c_Name (b ! i)" by (rule container_le_name)
    moreover have "b ! i \<in> set (drop (length a) b)"
      using i(1) True by (force simp: in_set_conv_nth intro: exI [of _ "i - length a"])
    ultimately show ?thesis using assms(1) by (auto simp: containers_le_def)
  next
    case False
    then have "c ! i \<in> set (drop (length b) c)"
      using i(2) by (force simp: in_set_conv_nth intro: exI [of _ "i - length b"])
    then have "c_Name (c ! i) \<notin> names c_Name b" using assms(2) by (auto simp: containers_le_def)
    moreover have "names c_Name a \<subseteq> names c_Name b" using assms(1) by (auto simp: containers_le_def dest: grows_names)
    ultimately show ?thesis by blast
  qed
  then have "\<forall>d \<in> set (drop (length a) c). c_Name d \<notin> names c_Name a"
    by (auto simp: in_set_conv_nth)
  with g show ?thesis by (simp add: containers_le_def)
qed

lemma pod_le_refl [simp]: "pod_le p p"
  by (simp add: pod_le_def)

lemma pod_le_trans:
  assumes "pod_le p q" "pod_le q r"
  shows "pod_le p r"
proof -
  have "r = p\<lparr>p_Annotations := p_Annotations r, p_Volumes := p_Volumes r,
           p_InitContainers := p_InitContainers r, p_Containers := p_Containers r,
           p_RestartPolicy := p_RestartPolicy r, p_ShareProcessNamespace := p_ShareProcessNamespace r\<rparr>"
    using assms unfolding pod_le_def by (cases p, cases q, cases r) auto
  moreover have "named_append v_Name (p_Volumes p) (p_Volumes r)"
    "named_append c_Name (p_InitContainers p) (p_InitContainers r)"
    "containers_le (p_Containers p) (p_Containers r)"
    using assms unfolding pod_le_def by (blast intro: named_append_trans containers_le_trans)+
  moreover have "annotations_le (p_Annotations p) (p_Annotations r)"
    using assms unfolding pod_le_def by (blast intro: annotations_le_trans)
  moreover have "p_RestartPolicy r = p_RestartPolicy p \<and> p_ShareProcessNamespace r = p_ShareProcessNamespace p \<or>
      p_RestartPolicy r = ''Always'' \<and> p_ShareProcessNamespace r = Some True"
    using assms unfolding pod_le_def by auto
  ultimately show ?thesis unfolding pod_le_def by blast
qed

section \<open>The helpers respect it\<close>

lemma containers_le_map: "(\<And>c. c \<in> set cs \<Longrightarrow> container_le c (f c)) \<Longrightarrow> containers_le cs (map f cs)"
  by (simp add: containers_le_def grows_map)

lemma containers_le_add: "containers_le cs (add_container c cs)"
proof (cases "c_Name c \<in> names c_Name cs")
  case True
  then show ?thesis by (simp add: ctr.add_present)
next
  case False
  then show ?thesis by (auto simp: ctr.add_absent containers_le_def)
qed

lemma pod_le_map_containers:
  "(\<And>c. c \<in> set (p_Containers p) \<Longrightarrow> container_le c (f c)) \<Longrightarrow> pod_le p (map_containers f p)"
  by (simp add: pod_le_def map_containers_def containers_le_map)

lemma container_le_mount: "container_le c (AddVolumeMountToContainer m c)"
  by (simp add: container_le_def AddVolumeMountToContainer_def mnt.add_append)

lemma container_le_env: "env_le (c_Env c) es \<Longrightarrow> container_le c (c\<lparr>c_Env := es\<rparr>)"
  by (simp add: container_le_def)

lemma env_le_update:
  assumes "\<And>f e. r = Some f \<Longrightarrow> ev_Name e = ev_Name i \<Longrightarrow>
      ev_Name (f e i) = ev_Name e \<and> (f e i = e \<or> ev_Name i \<in> set merged_variables)"
  shows "env_le es (AddOrUpdateEnvVar es i r)"
proof -
  have "names ev_Name es \<subseteq> names ev_Name (AddOrUpdateEnvVar es i r)"
    using assms by (induction es) (auto split: option.splits)
  moreover have "prefix (filter own_variable es) (filter own_variable (AddOrUpdateEnvVar es i r))"
    using assms by (induction es) (fastforce simp: own_variable_def split: option.splits)+
  ultimately show ?thesis by (simp add: env_le_def)
qed

lemma env_le_keep: "env_le es (AddOrUpdateEnvVar es i (Some KeepExistingEnvVar))"
  by (rule env_le_update) (simp add: KeepExistingEnvVar_def)

lemma env_le_keep_all: "env_le es (AddOrUpdateEnvVars es is (Some KeepExistingEnvVar))"
  by (induction "is" arbitrary: es) (auto intro: env_le_trans env_le_keep)

lemma pod_le_AddContainer: "pod_le p (AddContainer c p)"
  by (simp add: pod_le_def AddContainer_def containers_le_add)

lemma pod_le_AddInitContainer: "pod_le p (AddInitContainer c p)"
  by (simp add: pod_le_def AddInitContainer_def ctr.add_append)

lemma pod_le_AddVolume: "pod_le p (AddVolume v p)"
  by (simp add: pod_le_def AddVolume_def vol.add_append)

lemma pod_le_AddVolumeMount: "pod_le p (AddVolumeMount m p)"
  unfolding AddVolumeMount_def by (rule pod_le_map_containers) (rule container_le_mount)

lemma pod_le_annotations: "annotations_le (p_Annotations p) m \<Longrightarrow> pod_le p (p\<lparr>p_Annotations := m\<rparr>)"
  by (simp add: pod_le_def)

lemma pod_le_spec: "pod_le p (p\<lparr>p_ShareProcessNamespace := Some True, p_RestartPolicy := ''Always''\<rparr>)"
  by (simp add: pod_le_def)

lemma pod_le_fold: "(\<And>x q. pod_le q (f x q)) \<Longrightarrow> pod_le p (fold f xs p)"
  by (induction xs arbitrary: p) (auto intro: pod_le_trans)

section \<open>The contract of an injection\<close>

text \<open>
  A mutation of the webhook takes the request namespace and the Pod; it returns whether it changed
  the Pod, and the Pod, or \<open>None\<close> when it panics.
\<close>

type_synonym injection = "string \<Rightarrow> pod \<Rightarrow> (bool \<times> pod) option"

locale pod_mutation =
  fixes inject :: injection
  assumes extends: "inject ns p = Some (changed, q) \<Longrightarrow> pod_le p q"
    and reports: "inject ns p = Some (changed, q) \<Longrightarrow> changed \<longleftrightarrow> p \<noteq> q"
begin

lemma keeps_containers:
  "inject ns p = Some (changed, q) \<Longrightarrow> names c_Name (p_Containers p) \<subseteq> names c_Name (p_Containers q)"
  using extends by (fastforce simp: pod_le_def containers_le_def dest: grows_names)

lemma unchanged: "inject ns p = Some (False, q) \<Longrightarrow> q = p"
  using reports by blast

end

lemmas pod_le_intros = pod_le_AddContainer pod_le_AddInitContainer pod_le_AddVolume
  pod_le_AddVolumeMount pod_le_annotations pod_le_spec pod_le_refl

section \<open>Well-formed Pods\<close>

text \<open>
  What the API server checks of names: containers, init containers and volumes have distinct names,
  and every mount names a volume of the Pod.  The code adds some mounts before their volume, so
  \<open>wf_with pending\<close> allows mounts of the \<open>pending\<close> volumes too.
\<close>

definition mounts_in :: "string set \<Rightarrow> container \<Rightarrow> bool" where
  "mounts_in vs c \<longleftrightarrow> names vm_Name (c_VolumeMounts c) \<subseteq> vs"

definition wf_with :: "string set \<Rightarrow> pod \<Rightarrow> bool" where
  "wf_with pending p \<longleftrightarrow>
     distinct (map v_Name (p_Volumes p)) \<and> distinct (map c_Name (p_InitContainers p)) \<and>
     distinct (map c_Name (p_Containers p)) \<and>
     list_all (mounts_in (names v_Name (p_Volumes p) \<union> pending)) (p_InitContainers p @ p_Containers p)"

definition wf_pod :: "pod \<Rightarrow> bool" where
  "wf_pod p \<longleftrightarrow> wf_with {} p"

lemma mounts_in_mono: "mounts_in vs c \<Longrightarrow> vs \<subseteq> ws \<Longrightarrow> mounts_in ws c"
  by (auto simp: mounts_in_def)

lemma wf_with_mono: "wf_with vs p \<Longrightarrow> vs \<subseteq> ws \<Longrightarrow> wf_with ws p"
  unfolding wf_with_def list_all_iff by (metis mounts_in_mono sup.mono order_refl)

lemma wf_pending: "wf_pod p \<Longrightarrow> wf_with vs p"
  unfolding wf_pod_def by (erule wf_with_mono) simp

lemma add_container_all: "list_all P cs \<Longrightarrow> P c \<Longrightarrow> list_all P (add_container c cs)"
  by (induction cs) auto

lemma wf_AddContainer:
  "wf_with vs p \<Longrightarrow> mounts_in (names v_Name (p_Volumes p) \<union> vs) c \<Longrightarrow> wf_with vs (AddContainer c p)"
  by (simp add: wf_with_def AddContainer_def ctr.distinct_add add_container_all)

lemma wf_AddInitContainer:
  "wf_with vs p \<Longrightarrow> mounts_in (names v_Name (p_Volumes p) \<union> vs) c \<Longrightarrow> wf_with vs (AddInitContainer c p)"
  by (simp add: wf_with_def AddInitContainer_def ctr.distinct_add add_container_all)

lemma wf_AddVolume: "wf_with (insert (v_Name v) vs) p \<Longrightarrow> wf_with vs (AddVolume v p)"
  by (simp add: wf_with_def AddVolume_def vol.distinct_add vol.names_add)

lemma AddVolume_names [simp]: "names v_Name (p_Volumes (AddVolume v p)) = insert (v_Name v) (names v_Name (p_Volumes p))"
  by (simp add: AddVolume_def vol.names_add)

lemma wf_map_containers:
  assumes "wf_with vs p"
    and "\<And>c. c \<in> set (p_Containers p) \<Longrightarrow> c_Name (f c) = c_Name c"
    and "\<And>c. c \<in> set (p_Containers p) \<Longrightarrow> mounts_in (names v_Name (p_Volumes p) \<union> vs) c \<Longrightarrow>
           mounts_in (names v_Name (p_Volumes p) \<union> vs) (f c)"
  shows "wf_with vs (map_containers f p)"
proof -
  have "map c_Name (map f (p_Containers p)) = map c_Name (p_Containers p)" using assms(2) by simp
  then show ?thesis using assms(1,3) by (auto simp: wf_with_def list_all_iff simp del: map_map)
qed

lemma mounts_in_add:
  "mounts_in vs c \<Longrightarrow> vm_Name m \<in> vs \<Longrightarrow> mounts_in vs (AddVolumeMountToContainer m c)"
  by (simp add: mounts_in_def AddVolumeMountToContainer_def mnt.names_add)

lemma wf_AddVolumeMount:
  "wf_with vs p \<Longrightarrow> vm_Name m \<in> names v_Name (p_Volumes p) \<union> vs \<Longrightarrow> wf_with vs (AddVolumeMount m p)"
  unfolding AddVolumeMount_def
  by (rule wf_map_containers) (simp_all add: mounts_in_def AddVolumeMountToContainer_def mnt.names_add)

lemma wf_env: "wf_with vs p \<Longrightarrow> wf_with vs (map_containers (\<lambda>c. c\<lparr>c_Env := f c\<rparr>) p)"
  by (rule wf_map_containers) (auto simp: mounts_in_def)

lemma wf_fields [simp]:
  "wf_with vs (p\<lparr>p_Annotations := a\<rparr>) = wf_with vs p"
  "wf_with vs (p\<lparr>p_RestartPolicy := r\<rparr>) = wf_with vs p"
  "wf_with vs (p\<lparr>p_ShareProcessNamespace := s\<rparr>) = wf_with vs p"
  by (simp_all add: wf_with_def)

lemma mounts_in_literal [simp]:
  "mounts_in vs c \<Longrightarrow> mounts_in vs (c\<lparr>c_Env := e\<rparr>)"
  by (simp add: mounts_in_def)

text \<open>A mutation that also keeps Pods well formed.\<close>

locale safe_mutation = pod_mutation +
  assumes keeps_wf: "wf_pod p \<Longrightarrow> inject ns p = Some (changed, q) \<Longrightarrow> wf_pod q"

end
