(* ===== verification/Env_Builder.thy ===== *)
theory Env_Builder
  imports Go_Strings Pod_Extends
begin

text \<open>
  \<open>pkg/envbuilder\<close>: environment variables from configuration values.  A value of the form
  \<open>{fieldRef:...}\<close>, \<open>{resourceFieldRef:...}\<close> or \<open>{secretKeyRef:name.key}\<close> becomes a reference, any
  other value is literal.  The regular expressions of the code are anchored and are written out
  as predicates and decompositions of the string.
\<close>

section \<open>Validation (\<open>validation.go\<close>)\<close>

definition is_lower :: "char \<Rightarrow> bool" where
  "is_lower c \<longleftrightarrow> 97 \<le> (of_char c :: nat) \<and> (of_char c :: nat) \<le> 122"

definition is_upper :: "char \<Rightarrow> bool" where
  "is_upper c \<longleftrightarrow> 65 \<le> (of_char c :: nat) \<and> (of_char c :: nat) \<le> 90"

definition qname_char :: "char \<Rightarrow> bool" where
  "qname_char c \<longleftrightarrow> is_lower c \<or> is_upper c \<or> is_digit c"

definition qname_ext_char :: "char \<Rightarrow> bool" where
  "qname_ext_char c \<longleftrightarrow> qname_char c \<or> c = CHR ''-'' \<or> c = CHR ''_'' \<or> c = CHR ''.''"

text \<open>\<open>^([A-Za-z0-9][-A-Za-z0-9_.]*)?[A-Za-z0-9]$\<close>\<close>

definition qualifiedNameRegexp :: "string \<Rightarrow> bool" where
  "qualifiedNameRegexp s \<longleftrightarrow> s \<noteq> [] \<and> qname_char (hd s) \<and> qname_char (last s) \<and> list_all qname_ext_char s"

text \<open>\<open>[a-z0-9]([-a-z0-9]*[a-z0-9])?\<close>, and labels of this form separated by dots.\<close>

definition dns1123_label :: "string \<Rightarrow> bool" where
  "dns1123_label s \<longleftrightarrow> s \<noteq> [] \<and> (is_lower (hd s) \<or> is_digit (hd s)) \<and> (is_lower (last s) \<or> is_digit (last s)) \<and>
     list_all (\<lambda>c. is_lower c \<or> is_digit c \<or> c = CHR ''-'') s"

definition IsDNS1123Subdomain :: "string \<Rightarrow> bool" where
  "IsDNS1123Subdomain s \<longleftrightarrow> length s \<le> 253 \<and> list_all dns1123_label (split_on (CHR ''.'') s)"

definition valid_qname :: "string \<Rightarrow> bool" where
  "valid_qname n \<longleftrightarrow> length n \<noteq> 0 \<and> length n \<le> 63 \<and> qualifiedNameRegexp n"

definition IsQualifiedName :: "string \<Rightarrow> bool" where
  "IsQualifiedName v = (case split_on (CHR ''/'') v of
     [name] \<Rightarrow> valid_qname name
   | [pfx, name] \<Rightarrow> pfx \<noteq> [] \<and> IsDNS1123Subdomain pfx \<and> valid_qname name
   | _ \<Rightarrow> False)"

text \<open>\<open>validation.IsConfigMapKey\<close> of \<open>k8s.io/apimachinery\<close>: no problem is reported.\<close>

definition config_map_key :: "string \<Rightarrow> bool" where
  "config_map_key k \<longleftrightarrow> length k \<le> 253 \<and> k \<noteq> [] \<and> list_all qname_ext_char k \<and>
     k \<noteq> ''.'' \<and> \<not> has_prefix k ''..''"

section \<open>References (\<open>valuefrom.go\<close>)\<close>

definition fieldRef_keys :: "(string \<times> string) list" where
  "fieldRef_keys = [
     (''{fieldRef:metadata.name}'', ''metadata.name''),
     (''{fieldRef:metadata.namespace}'', ''metadata.namespace''),
     (''{fieldRef:metadata.uid}'', ''metadata.uid''),
     (''{fieldRef:spec.serviceAccountName}'', ''spec.serviceAccountName''),
     (''{fieldRef:spec.nodeName}'', ''spec.nodeName''),
     (''{fieldRef:status.hostIP}'', ''status.hostIP''),
     (''{fieldRef:status.hostIPs}'', ''status.hostIPs''),
     (''{fieldRef:status.podIP}'', ''status.podIP'')]"

text \<open>The submatch of \<open>^pre([^']+)post$\<close> for a fixed prefix and suffix.\<close>

definition between :: "string \<Rightarrow> string \<Rightarrow> string \<Rightarrow> string option" where
  "between pre post s =
     (if has_prefix s pre \<and> has_suffix s post \<and> length pre + length post < length s
      then let mid = take (length s - length pre - length post) (drop (length pre) s)
           in if CHR 0x27 \<in> set mid then None else Some mid
      else None)"

definition label_pre :: string where "label_pre = ''{fieldRef:metadata.labels['' @ [CHR 0x27]"
definition annotation_pre :: string where "annotation_pre = ''{fieldRef:metadata.annotations['' @ [CHR 0x27]"
definition subscript_post :: string where "subscript_post = [CHR 0x27] @ '']}''"

definition label_path :: "string \<Rightarrow> string" where
  "label_path k = ''metadata.labels['' @ [CHR 0x27] @ k @ [CHR 0x27] @ '']''"

definition annotation_path :: "string \<Rightarrow> string" where
  "annotation_path k = ''metadata.annotations['' @ [CHR 0x27] @ k @ [CHR 0x27] @ '']''"

text \<open>
  The two entries of the table with a regular expression have the empty string as their key,
  so an empty value meets the comparison \<open>v.key == s\<close> of the first of them.
\<close>

definition convertFieldRefPath :: "string \<Rightarrow> string" where
  "convertFieldRefPath s =
     (case map_of fieldRef_keys s of Some p \<Rightarrow> p | None \<Rightarrow>
       if s = [] then label_path [] else
       (case between label_pre subscript_post s of
          Some k \<Rightarrow> if IsQualifiedName k then label_path k else []
        | None \<Rightarrow>
          (case between annotation_pre subscript_post s of
             Some k \<Rightarrow> if IsQualifiedName k then annotation_path k else []
           | None \<Rightarrow> [])))"

definition resourceFieldRef_keys :: "(string \<times> string) list" where
  "resourceFieldRef_keys = [
     (''{resourceFieldRef:limits.cpu}'', ''limits.cpu''),
     (''{resourceFieldRef:limits.memory}'', ''limits.memory''),
     (''{resourceFieldRef:requests.cpu}'', ''requests.cpu''),
     (''{resourceFieldRef:requests.memory}'', ''requests.memory'')]"

definition convertResourceFieldRefPath :: "string \<Rightarrow> string" where
  "convertResourceFieldRefPath s = (case map_of resourceFieldRef_keys s of Some p \<Rightarrow> p | None \<Rightarrow> [])"

text \<open>\<open>^\{secretKeyRef:([^.]+)\.([-._A-Za-z0-9]+)\}$\<close>: the name ends at the first dot.\<close>

definition secret_pre :: string where "secret_pre = ''{secretKeyRef:''"

definition secretKeyRef_match :: "string \<Rightarrow> (string \<times> string) option" where
  "secretKeyRef_match s =
     (if has_prefix s secret_pre \<and> has_suffix s ''}'' \<and> length secret_pre < length s
      then let mid = butlast (drop (length secret_pre) s) in
        (case index_of (CHR ''.'') mid of None \<Rightarrow> None
         | Some i \<Rightarrow>
             let name = take i mid; key = drop (Suc i) mid
             in if name \<noteq> [] \<and> key \<noteq> [] \<and> list_all qname_ext_char key then Some (name, key) else None)
      else None)"

definition convertSecretKeyRef :: "string \<Rightarrow> (string \<times> string) option" where
  "convertSecretKeyRef s = (case secretKeyRef_match s of None \<Rightarrow> None
     | Some (name, key) \<Rightarrow> if IsDNS1123Subdomain name \<and> config_map_key key then Some (name, key) else None)"

text \<open>The values of \<open>resource.MustParse("1m")\<close> and \<open>resource.MustParse("1Mi")\<close>, and the zero Quantity.\<close>

definition one_milli :: quantity where
  "one_milli = \<lparr>q_value = 1, q_scale = - 3, q_dec = None, q_s = ''1m'', q_Format = ''DecimalSI''\<rparr>"

definition one_mebi :: quantity where
  "one_mebi = \<lparr>q_value = 1048576, q_scale = 0, q_dec = None, q_s = ''1Mi'', q_Format = ''BinarySI''\<rparr>"

definition zero_quantity :: quantity where
  "zero_quantity = \<lparr>q_value = 0, q_scale = 0, q_dec = None, q_s = [], q_Format = []\<rparr>"

definition newEnvVarSource :: "string \<Rightarrow> env_source option" where
  "newEnvVarSource v =
     (let fieldPath = convertFieldRefPath v; resourcePath = convertResourceFieldRefPath v in
      if fieldPath \<noteq> [] then
        Some (no_source\<lparr>es_FieldRef := Some \<lparr>of_APIVersion = [], of_FieldPath = fieldPath\<rparr>\<rparr>)
      else if resourcePath \<noteq> [] then
        (let divisor = (if str_contains resourcePath ''cpu'' then one_milli
                        else if str_contains resourcePath ''memory'' then one_mebi else zero_quantity)
         in Some (no_source\<lparr>es_ResourceFieldRef :=
              Some \<lparr>rf_ContainerName = [], rf_Resource = resourcePath, rf_Divisor = divisor\<rparr>\<rparr>))
      else (case convertSecretKeyRef v of
          Some (name, key) \<Rightarrow>
            Some (no_source\<lparr>es_SecretKeyRef := Some \<lparr>sk_Name = name, sk_Key = key, sk_Optional = None\<rparr>\<rparr>)
        | None \<Rightarrow> None))"

section \<open>Building (\<open>builder.go\<close>)\<close>

definition BuildEnv :: "bool \<Rightarrow> string \<times> string \<Rightarrow> envvar" where
  "BuildEnv useFieldRef kv =
     (if \<not> useFieldRef then env_value (fst kv) (snd kv)
      else case newEnvVarSource (snd kv) of
          Some src \<Rightarrow> env_from (fst kv) src
        | None \<Rightarrow> env_value (fst kv) (snd kv))"

definition BuildEnvs :: "(string \<times> string) list \<Rightarrow> bool \<Rightarrow> envvar list" where
  "BuildEnvs envs useFieldRef = map (BuildEnv useFieldRef) envs"

definition has_resource :: "(string, quantity) fmap option \<Rightarrow> string \<Rightarrow> bool" where
  "has_resource m k = (case m of None \<Rightarrow> False | Some q \<Rightarrow> fmlookup q k \<noteq> None)"

definition hasResourceInContainer :: "string \<Rightarrow> container \<Rightarrow> bool" where
  "hasResourceInContainer path c =
     (if rr_Limits (c_Resources c) = None \<and> rr_Requests (c_Resources c) = None then False
      else if path = ''limits.cpu'' then has_resource (rr_Limits (c_Resources c)) ''cpu''
      else if path = ''limits.memory'' then has_resource (rr_Limits (c_Resources c)) ''memory''
      else if path = ''requests.cpu'' then has_resource (rr_Requests (c_Resources c)) ''cpu''
      else if path = ''requests.memory'' then has_resource (rr_Requests (c_Resources c)) ''memory''
      else False)"

definition resource_ref :: "envvar \<Rightarrow> resource_field_selector option" where
  "resource_ref e = Option.bind (ev_ValueFrom e) es_ResourceFieldRef"

definition set_container_name :: "string \<Rightarrow> envvar \<Rightarrow> envvar" where
  "set_container_name n e = e\<lparr>ev_ValueFrom := map_option (\<lambda>s. s\<lparr>es_ResourceFieldRef :=
     map_option (\<lambda>r. r\<lparr>rf_ContainerName := n\<rparr>) (es_ResourceFieldRef s)\<rparr>) (ev_ValueFrom e)\<rparr>"

definition FilterAndSetResourceFieldRefEnvVars :: "envvar list \<Rightarrow> pod \<Rightarrow> envvar list" where
  "FilterAndSetResourceFieldRefEnvVars envs p =
     (case p_Containers p of [] \<Rightarrow> envs
      | c # _ \<Rightarrow> concat (map (\<lambda>e. case resource_ref e of
            None \<Rightarrow> [e]
          | Some r \<Rightarrow> if hasResourceInContainer (rf_Resource r) c then [set_container_name (c_Name c) e] else [])
          envs))"

section \<open>Facts\<close>

lemma BuildEnv_name [simp]: "ev_Name (BuildEnv b kv) = fst kv"
  by (simp add: BuildEnv_def split: option.splits)

text \<open>A variable is a literal or a reference, never both.\<close>

lemma BuildEnv_exclusive: "ev_Value (BuildEnv b kv) = [] \<or> ev_ValueFrom (BuildEnv b kv) = None"
  by (simp add: BuildEnv_def split: option.splits)

definition source_count :: "env_source \<Rightarrow> nat" where
  "source_count s = (if es_FieldRef s = None then 0 else 1) + (if es_ResourceFieldRef s = None then 0 else 1) +
     (if es_ConfigMapKeyRef s = None then 0 else 1) + (if es_SecretKeyRef s = None then 0 else 1)"

text \<open>A reference names exactly one source, which is what the API server requires.\<close>

lemma newEnvVarSource_one: "newEnvVarSource v = Some s \<Longrightarrow> source_count s = 1"
  by (auto simp: newEnvVarSource_def source_count_def no_source_def Let_def split: if_splits option.splits)

lemma between_parts:
  assumes "between pre post s = Some k"
  shows "s = pre @ k @ post \<and> k \<noteq> [] \<and> CHR 0x27 \<notin> set k"
proof -
  from assms have a: "take (length pre) s = pre" "drop (length s - length post) s = post"
    "length pre + length post < length s" "k = take (length s - length pre - length post) (drop (length pre) s)"
    "CHR 0x27 \<notin> set k"
    by (auto simp: between_def has_prefix_def has_suffix_def Let_def split: if_splits)
  have "s = take (length pre) s @ drop (length pre) s" by simp
  also have "drop (length pre) s = k @ drop (length s - length pre - length post) (drop (length pre) s)"
    unfolding a(4) by (rule append_take_drop_id [symmetric])
  also have "drop (length s - length pre - length post) (drop (length pre) s) = post"
    using a(2,3) by simp
  finally have "s = pre @ k @ post" using a(1) by simp
  moreover have "k \<noteq> []" using a(3,4) by simp
  ultimately show ?thesis using a(5) by blast
qed

lemma between_complete:
  "\<lbrakk>k \<noteq> []; CHR 0x27 \<notin> set k\<rbrakk> \<Longrightarrow> between pre post (pre @ k @ post) = Some k"
  by (simp add: between_def has_prefix_def has_suffix_def Let_def)

text \<open>
  The secret reference round trip: a well-formed name and key are recovered from the value
  that spells them.
\<close>

lemma index_of_append: "c \<notin> set xs \<Longrightarrow> index_of c (xs @ c # ys) = Some (length xs)"
  by (induction xs) auto

lemma secretKeyRef_complete:
  assumes "IsDNS1123Subdomain name" "CHR ''.'' \<notin> set name" "config_map_key key"
  shows "convertSecretKeyRef (secret_pre @ name @ ''.'' @ key @ ''}'') = Some (name, key)"
proof -
  have n: "name \<noteq> []" "CHR ''.'' \<notin> set name"
    using assms(1,2) by (auto simp: IsDNS1123Subdomain_def split_on_no_sep dns1123_label_def)
  have k: "key \<noteq> []" "list_all qname_ext_char key" using assms(3) by (auto simp: config_map_key_def)
  have "butlast (name @ ''.'' @ key @ ''}'') = name @ ''.'' @ key"
    by (simp add: butlast_append)
  then have "secretKeyRef_match (secret_pre @ name @ ''.'' @ key @ ''}'') = Some (name, key)"
    using n k by (simp add: secretKeyRef_match_def has_prefix_def has_suffix_def index_of_append Let_def)
  then show ?thesis using assms(1,3) by (simp add: convertSecretKeyRef_def)
qed

lemma secretKeyRef_sound:
  assumes "convertSecretKeyRef s = Some (name, key)"
  shows "s = secret_pre @ name @ ''.'' @ key @ ''}'' \<and> IsDNS1123Subdomain name \<and> CHR ''.'' \<notin> set name \<and>
    config_map_key key"
proof -
  from assms have m: "secretKeyRef_match s = Some (name, key)" "IsDNS1123Subdomain name" "config_map_key key"
    by (auto simp: convertSecretKeyRef_def split: option.splits if_splits)
  let ?mid = "butlast (drop (length secret_pre) s)"
  from m(1) obtain i where i: "has_prefix s secret_pre" "has_suffix s ''}''" "length secret_pre < length s"
    "index_of (CHR ''.'') ?mid = Some i" "name = take i ?mid" "key = drop (Suc i) ?mid"
    by (auto simp: secretKeyRef_match_def Let_def split: if_splits option.splits)
  have mid: "?mid = name @ ''.'' @ key" and nd: "CHR ''.'' \<notin> set name"
    using index_of_Some [OF i(4)] i(5,6) id_take_nth_drop [of i ?mid] by auto
  have ne: "drop (length secret_pre) s \<noteq> []" using i(3) by simp
  have "drop (length secret_pre) s = ?mid @ [last s]"
    using append_butlast_last_id [OF ne] i(3) by (simp add: last_drop)
  moreover have "last s = CHR ''}''"
  proof -
    have "s = take (length s - 1) s @ ''}''"
      using i(2) append_take_drop_id [of "length s - 1" s] by (simp add: has_suffix_def)
    then show ?thesis by (metis last_snoc)
  qed
  ultimately have "s = secret_pre @ name @ ''.'' @ key @ ''}''"
    using i(1) mid append_take_drop_id [of "length secret_pre" s] by (simp add: has_prefix_def)
  with nd m show ?thesis by blast
qed

text \<open>Filtering keeps the names in order, and every reference that stays is to the first container.\<close>

lemma resource_ref_set [simp]: "resource_ref (set_container_name n e) =
    map_option (\<lambda>r. r\<lparr>rf_ContainerName := n\<rparr>) (resource_ref e)"
  by (cases "ev_ValueFrom e") (auto simp: resource_ref_def set_container_name_def)

lemma set_container_name_frame [simp]:
  "ev_Name (set_container_name n e) = ev_Name e" "ev_Value (set_container_name n e) = ev_Value e"
  by (simp_all add: set_container_name_def)

lemma filter_refs:
  assumes "e \<in> set (FilterAndSetResourceFieldRefEnvVars envs p)" "resource_ref e = Some r"
    "p_Containers p = c # cs"
  shows "rf_ContainerName r = c_Name c \<and> hasResourceInContainer (rf_Resource r) c"
proof -
  from assms(1,3) obtain e0 where "e \<in> set (case resource_ref e0 of None \<Rightarrow> [e0]
      | Some r \<Rightarrow> if hasResourceInContainer (rf_Resource r) c then [set_container_name (c_Name c) e0] else [])"
    by (auto simp: FilterAndSetResourceFieldRefEnvVars_def)
  with assms(2) show ?thesis by (cases "resource_ref e0") (auto split: if_splits)
qed

lemma filter_names: "names ev_Name (FilterAndSetResourceFieldRefEnvVars envs p) \<subseteq> names ev_Name envs"
  by (auto simp: FilterAndSetResourceFieldRefEnvVars_def names_def split: list.splits option.splits if_splits)

lemma filter_plain:
  "(\<And>e. e \<in> set envs \<Longrightarrow> resource_ref e = None) \<Longrightarrow> FilterAndSetResourceFieldRefEnvVars envs p = envs"
  by (cases "p_Containers p"; induction envs) (auto simp: FilterAndSetResourceFieldRefEnvVars_def)

text \<open>An empty value is not kept: it meets the empty key of the first entry with an expression.\<close>

lemma empty_value_becomes_reference: "ev_ValueFrom (BuildEnv True (key, [])) \<noteq> None"
proof -
  have "newEnvVarSource [] \<noteq> None" by code_simp
  then show ?thesis by (auto simp: BuildEnv_def env_from_def)
qed

lemma fieldRef_keys_spelled: "map_of fieldRef_keys v = Some p \<Longrightarrow> v = ''{fieldRef:'' @ p @ ''}'' \<and> p \<noteq> []"
proof -
  assume "map_of fieldRef_keys v = Some p"
  then have "(v, p) \<in> set fieldRef_keys" by (rule map_of_SomeD)
  moreover have "list_all (\<lambda>(k, p). k = ''{fieldRef:'' @ p @ ''}'' \<and> p \<noteq> []) fieldRef_keys" by (simp add: fieldRef_keys_def)
  ultimately show ?thesis by (auto simp: list_all_iff)
qed

section \<open>The language of references\<close>

definition field_source :: "string \<Rightarrow> env_source" where
  "field_source path = no_source\<lparr>es_FieldRef := Some \<lparr>of_APIVersion = [], of_FieldPath = path\<rparr>\<rparr>"

definition resource_source :: "string \<Rightarrow> quantity \<Rightarrow> env_source" where
  "resource_source path divisor =
     no_source\<lparr>es_ResourceFieldRef := Some \<lparr>rf_ContainerName = [], rf_Resource = path, rf_Divisor = divisor\<rparr>\<rparr>"

definition secret_source :: "string \<Rightarrow> string \<Rightarrow> env_source" where
  "secret_source name key = no_source\<lparr>es_SecretKeyRef := Some \<lparr>sk_Name = name, sk_Key = key, sk_Optional = None\<rparr>\<rparr>"

text \<open>The values that are references, and what they refer to: the specification of the builder.  The last rule is
  the empty value, which meets the entries of the code's table that have no key.\<close>

inductive env_reference :: "string \<Rightarrow> env_source \<Rightarrow> bool" where
  ref_field: "path \<in> {''metadata.name'', ''metadata.namespace'', ''metadata.uid'', ''spec.serviceAccountName'',
      ''spec.nodeName'', ''status.hostIP'', ''status.hostIPs'', ''status.podIP''} \<Longrightarrow>
    env_reference (''{fieldRef:'' @ path @ ''}'') (field_source path)"
| ref_label: "\<lbrakk>IsQualifiedName k; CHR 0x27 \<notin> set k\<rbrakk> \<Longrightarrow>
    env_reference (''{fieldRef:'' @ label_path k @ ''}'') (field_source (label_path k))"
| ref_annotation: "\<lbrakk>IsQualifiedName k; CHR 0x27 \<notin> set k\<rbrakk> \<Longrightarrow>
    env_reference (''{fieldRef:'' @ annotation_path k @ ''}'') (field_source (annotation_path k))"
| ref_cpu: "path \<in> {''limits.cpu'', ''requests.cpu''} \<Longrightarrow>
    env_reference (''{resourceFieldRef:'' @ path @ ''}'') (resource_source path one_milli)"
| ref_memory: "path \<in> {''limits.memory'', ''requests.memory''} \<Longrightarrow>
    env_reference (''{resourceFieldRef:'' @ path @ ''}'') (resource_source path one_mebi)"
| ref_secret: "\<lbrakk>IsDNS1123Subdomain name; CHR ''.'' \<notin> set name; config_map_key key\<rbrakk> \<Longrightarrow>
    env_reference (''{secretKeyRef:'' @ name @ ''.'' @ key @ ''}'') (secret_source name key)"
| ref_empty: "env_reference [] (field_source (label_path []))"

lemma paths_nonempty [simp]: "label_path k \<noteq> []" "annotation_path k \<noteq> []"
  by (simp_all add: label_path_def annotation_path_def)

lemma qualified_nonempty: "IsQualifiedName k \<Longrightarrow> k \<noteq> []"
  by (auto simp: IsQualifiedName_def valid_qname_def)

lemma field_found: "\<lbrakk>convertFieldRefPath v = path; path \<noteq> []\<rbrakk> \<Longrightarrow> newEnvVarSource v = Some (field_source path)"
  by (auto simp: newEnvVarSource_def field_source_def Let_def)

lemma convert_label:
  "\<lbrakk>IsQualifiedName k; CHR 0x27 \<notin> set k\<rbrakk> \<Longrightarrow> convertFieldRefPath (''{fieldRef:'' @ label_path k @ ''}'') = label_path k"
  using between_complete [of k label_pre subscript_post] qualified_nonempty [of k]
  by (simp add: convertFieldRefPath_def fieldRef_keys_def label_path_def label_pre_def subscript_post_def)

lemma convert_annotation:
  assumes "IsQualifiedName k" "CHR 0x27 \<notin> set k"
  shows "convertFieldRefPath (''{fieldRef:'' @ annotation_path k @ ''}'') = annotation_path k"
proof -
  have "between label_pre subscript_post (annotation_pre @ k @ subscript_post) = None"
    by (simp add: between_def has_prefix_def label_pre_def annotation_pre_def)
  then show ?thesis
    using between_complete [of k annotation_pre subscript_post] qualified_nonempty [of k] assms
    by (simp add: convertFieldRefPath_def fieldRef_keys_def annotation_path_def annotation_pre_def subscript_post_def)
qed

lemma secret_no_path:
  "convertFieldRefPath (secret_pre @ t) = []" "convertResourceFieldRefPath (secret_pre @ t) = []"
  by (simp_all add: convertFieldRefPath_def convertResourceFieldRefPath_def fieldRef_keys_def resourceFieldRef_keys_def
      secret_pre_def between_def has_prefix_def label_pre_def annotation_pre_def)

lemma reference_built: "env_reference v s \<Longrightarrow> newEnvVarSource v = Some s"
proof (induction rule: env_reference.induct)
  case (ref_field path)
  then have "convertFieldRefPath (''{fieldRef:'' @ path @ ''}'') = path \<and> path \<noteq> []"
    by (auto simp: convertFieldRefPath_def fieldRef_keys_def)
  then show ?case using field_found by blast
next
  case (ref_label k)
  then show ?case using field_found convert_label by simp
next
  case (ref_annotation k)
  then show ?case using field_found convert_annotation by simp
next
  case (ref_cpu path)
  have "newEnvVarSource ''{resourceFieldRef:limits.cpu}'' = Some (resource_source ''limits.cpu'' one_milli)"
    "newEnvVarSource ''{resourceFieldRef:requests.cpu}'' = Some (resource_source ''requests.cpu'' one_milli)"
    by code_simp+
  then show ?case using ref_cpu by auto
next
  case (ref_memory path)
  have "newEnvVarSource ''{resourceFieldRef:limits.memory}'' = Some (resource_source ''limits.memory'' one_mebi)"
    "newEnvVarSource ''{resourceFieldRef:requests.memory}'' = Some (resource_source ''requests.memory'' one_mebi)"
    by code_simp+
  then show ?case using ref_memory by auto
next
  case (ref_secret name key)
  then show ?case
    using secretKeyRef_complete [of name key] secret_no_path [of "name @ ''.'' @ key @ ''}''"]
    by (simp add: newEnvVarSource_def secret_source_def secret_pre_def Let_def)
next
  case ref_empty
  have "convertFieldRefPath [] = label_path []" by (simp add: convertFieldRefPath_def fieldRef_keys_def)
  then show ?case using field_found by simp
qed

lemma field_path_reference:
  assumes "convertFieldRefPath v = path" "path \<noteq> []"
  shows "env_reference v (field_source path)"
proof (cases "map_of fieldRef_keys v")
  case (Some p)
  then have "path = p" using assms(1) by (simp add: convertFieldRefPath_def)
  moreover have "p \<in> snd ` set fieldRef_keys" using map_of_SomeD [OF Some] by force
  ultimately show ?thesis using fieldRef_keys_spelled [OF Some] ref_field [of path] by (auto simp: fieldRef_keys_def)
next
  case None
  then consider (empty) "v = []" "path = label_path []"
    | (label) k where "between label_pre subscript_post v = Some k" "IsQualifiedName k" "path = label_path k"
    | (annotation) k where "between annotation_pre subscript_post v = Some k" "IsQualifiedName k" "path = annotation_path k"
    using assms by (auto simp: convertFieldRefPath_def split: option.splits if_splits)
  then show ?thesis
  proof cases
    case label
    then show ?thesis using between_parts [OF label(1)] ref_label [of k]
      by (simp add: label_pre_def subscript_post_def label_path_def)
  next
    case annotation
    then show ?thesis using between_parts [OF annotation(1)] ref_annotation [of k]
      by (simp add: annotation_pre_def subscript_post_def annotation_path_def)
  qed (simp add: ref_empty)
qed

lemma built_reference:
  assumes "newEnvVarSource v = Some s"
  shows "env_reference v s"
proof -
  consider (fld) "convertFieldRefPath v \<noteq> []" | (res) p where "convertFieldRefPath v = []" "map_of resourceFieldRef_keys v = Some p"
    | (sec) n k where "convertFieldRefPath v = []" "convertResourceFieldRefPath v = []" "convertSecretKeyRef v = Some (n, k)"
    using assms by (auto simp: newEnvVarSource_def convertResourceFieldRefPath_def Let_def split: if_splits option.splits)
  then show ?thesis
  proof cases
    case fld
    then show ?thesis using assms field_found [OF refl fld] field_path_reference [OF refl fld] by simp
  next
    case res
    then have "(v, p) \<in> set resourceFieldRef_keys" using map_of_SomeD by force
    then have "v = ''{resourceFieldRef:'' @ p @ ''}''"
        "p \<in> {''limits.cpu'', ''requests.cpu''} \<or> p \<in> {''limits.memory'', ''requests.memory''}"
      by (auto simp: resourceFieldRef_keys_def)
    then have "\<exists>t. env_reference v t" using ref_cpu ref_memory by blast
    then show ?thesis using assms reference_built by fastforce
  next
    case sec
    then have "s = secret_source n k" using assms by (simp add: newEnvVarSource_def secret_source_def)
    then show ?thesis using secretKeyRef_sound [OF sec(3)] ref_secret [of n k] by (simp add: secret_pre_def)
  qed
qed

lemma env_kinds:
  "env_from key t = env_from key s \<longleftrightarrow> t = s" "env_from key t \<noteq> env_value key v" "env_value key v \<noteq> env_from key t"
  by (simp_all add: env_value_def env_from_def)

section \<open>Properties\<close>

text \<open>C16: a configured environment entry keeps its name.  With references enabled its value becomes a reference exactly
  when it is one of the spellings of \<open>env_reference\<close>, to the source spelled there: eight fields of the Pod, a label or
  an annotation with a qualified name, four resources with their divisors, and the key of a secret, each in braces after
  the kind of the reference, and the empty value, which is taken for a label with an empty name.  Any other value, and
  every value when references are disabled, stays the literal.\<close>

theorem environment_references_spelled:
  "(BuildEnv True (key, v) = env_from key s \<longleftrightarrow> env_reference v s) \<and>
   (BuildEnv True (key, v) = env_value key v \<longleftrightarrow> \<not> (\<exists>t. env_reference v t)) \<and>
   BuildEnv False (key, v) = env_value key v"
proof -
  have reference: "env_reference v t \<longleftrightarrow> newEnvVarSource v = Some t" for t
    using built_reference reference_built by blast
  have "BuildEnv True (key, v) = (case newEnvVarSource v of Some t \<Rightarrow> env_from key t | None \<Rightarrow> env_value key v)"
    "BuildEnv False (key, v) = env_value key v"
    by (simp_all add: BuildEnv_def split: option.split)
  then show ?thesis by (cases "newEnvVarSource v") (auto simp: reference env_kinds)
qed

end
