(* ===== verification/Labels.thy ===== *)
theory Labels
  imports Env_Builder
begin

text \<open>
  \<open>pkg/labels\<close>: label sets, requirements, selectors, and the lexer and parser of selector strings.
  The package extends the Kubernetes one: the equality operators match glob patterns.  The glob
  library is a parameter (\<open>glob_compile\<close>: a matcher, or \<open>None\<close> for an invalid pattern).  Reading
  past the scanned items would panic; the parser's results have a value for that.
\<close>

section \<open>Label sets (\<open>labels.go\<close>)\<close>

definition Has :: "go_map \<Rightarrow> string \<Rightarrow> bool" where
  "Has ls k \<longleftrightarrow> fmlookup ls k \<noteq> None"

definition Get :: "go_map \<Rightarrow> string \<Rightarrow> string" where
  "Get ls k = (case fmlookup ls k of None \<Rightarrow> [] | Some v \<Rightarrow> v)"

definition map_keys :: "go_map \<Rightarrow> string list" where
  "map_keys m = sorted_list_of_fset (fmdom m)"

definition Set_String :: "go_map \<Rightarrow> string" where
  "Set_String ls = join '','' (sort (map (\<lambda>k. k @ ''='' @ Get ls k) (map_keys ls)))"

definition FormatLabels :: "go_map \<Rightarrow> string" where
  "FormatLabels ls = (let l = Set_String ls in if l = [] then ''<none>'' else l)"

definition Conflicts :: "go_map \<Rightarrow> go_map \<Rightarrow> bool" where
  "Conflicts labels1 labels2 =
     (let (small, big) = (if fcard (fmdom labels2) < fcard (fmdom labels1) then (labels2, labels1)
                          else (labels1, labels2))
      in list_ex (\<lambda>k. case fmlookup big k of None \<Rightarrow> False | Some v \<Rightarrow> v \<noteq> Get small k) (map_keys small))"

definition Merge :: "go_map \<Rightarrow> go_map \<Rightarrow> go_map" where
  "Merge labels1 labels2 = labels1 ++\<^sub>f labels2"

definition Equals_Set :: "go_map \<Rightarrow> go_map \<Rightarrow> bool" where
  "Equals_Set labels1 labels2 =
     (if fcard (fmdom labels1) \<noteq> fcard (fmdom labels2) then False
      else list_all (\<lambda>k. fmlookup labels2 k = Some (Get labels1 k)) (map_keys labels1))"

section \<open>Requirements\<close>

datatype operator = OpIn | OpNotIn | OpEquals | OpDoubleEquals | OpNotEquals | OpExists | OpDoesNotExist
  | OpGreaterThan | OpLessThan

record requirement =
  r_key :: string
  r_operator :: operator
  r_strValues :: "string list"
  r_globMatcher :: "(string \<Rightarrow> bool) option"

text \<open>\<open>validation.IsValidLabelValue\<close> of \<open>k8s.io/apimachinery\<close>; its \<open>IsQualifiedName\<close> is the one above.\<close>

definition valid_label_value :: "string \<Rightarrow> bool" where
  "valid_label_value v \<longleftrightarrow> length v \<le> 63 \<and> (v = [] \<or> qualifiedNameRegexp v)"

definition equality_op :: "operator \<Rightarrow> bool" where
  "equality_op op \<longleftrightarrow> op = OpEquals \<or> op = OpDoubleEquals \<or> op = OpNotEquals"

definition arity_ok :: "operator \<Rightarrow> string list \<Rightarrow> bool" where
  "arity_ok op vals = (case op of
       OpIn \<Rightarrow> vals \<noteq> [] | OpNotIn \<Rightarrow> vals \<noteq> []
     | OpEquals \<Rightarrow> length vals = 1 | OpDoubleEquals \<Rightarrow> length vals = 1 | OpNotEquals \<Rightarrow> length vals = 1
     | OpExists \<Rightarrow> vals = [] | OpDoesNotExist \<Rightarrow> vals = []
     | OpGreaterThan \<Rightarrow> length vals = 1 \<and> list_all (\<lambda>v. parse_int 64 v \<noteq> None) vals
     | OpLessThan \<Rightarrow> length vals = 1 \<and> list_all (\<lambda>v. parse_int 64 v \<noteq> None) vals)"

definition NewRequirement ::
  "(string \<Rightarrow> (string \<Rightarrow> bool) option) \<Rightarrow> string \<Rightarrow> operator \<Rightarrow> string list \<Rightarrow> requirement option" where
  "NewRequirement glob_compile key op vals =
     (if \<not> IsQualifiedName key \<or> \<not> arity_ok op vals then None
      else if equality_op op then
        (case glob_compile (hd vals) of
           None \<Rightarrow> None
         | Some g \<Rightarrow> Some \<lparr>r_key = key, r_operator = op, r_strValues = vals, r_globMatcher = Some g\<rparr>)
      else if list_all valid_label_value vals
      then Some \<lparr>r_key = key, r_operator = op, r_strValues = vals, r_globMatcher = None\<rparr>
      else None)"

definition hasValue :: "requirement \<Rightarrow> string \<Rightarrow> bool" where
  "hasValue r v \<longleftrightarrow> list_ex (\<lambda>x. x = v) (r_strValues r)"

definition matchGlob :: "requirement \<Rightarrow> string \<Rightarrow> bool" where
  "matchGlob r v = (case r_globMatcher r of None \<Rightarrow> False | Some g \<Rightarrow> g v)"

definition matches_int :: "requirement \<Rightarrow> string \<Rightarrow> bool" where
  "matches_int r v =
     (case parse_int 64 v of None \<Rightarrow> False | Some lsValue \<Rightarrow>
        (case r_strValues r of
           [x] \<Rightarrow> (case parse_int 64 x of None \<Rightarrow> False | Some rValue \<Rightarrow>
              r_operator r = OpGreaterThan \<and> lsValue > rValue \<or> r_operator r = OpLessThan \<and> lsValue < rValue)
         | _ \<Rightarrow> False))"

definition Requirement_Matches :: "requirement \<Rightarrow> go_map \<Rightarrow> bool" where
  "Requirement_Matches r ls =
     (case r_operator r of
        OpIn \<Rightarrow> if \<not> Has ls (r_key r) then False else hasValue r (Get ls (r_key r))
      | OpEquals \<Rightarrow> if \<not> Has ls (r_key r) then False else matchGlob r (Get ls (r_key r))
      | OpDoubleEquals \<Rightarrow> if \<not> Has ls (r_key r) then False else matchGlob r (Get ls (r_key r))
      | OpNotIn \<Rightarrow> if \<not> Has ls (r_key r) then True else \<not> hasValue r (Get ls (r_key r))
      | OpNotEquals \<Rightarrow> if \<not> Has ls (r_key r) then True else \<not> matchGlob r (Get ls (r_key r))
      | OpExists \<Rightarrow> Has ls (r_key r)
      | OpDoesNotExist \<Rightarrow> \<not> Has ls (r_key r)
      | OpGreaterThan \<Rightarrow> if \<not> Has ls (r_key r) then False else matches_int r (Get ls (r_key r))
      | OpLessThan \<Rightarrow> if \<not> Has ls (r_key r) then False else matches_int r (Get ls (r_key r)))"

definition op_text :: "operator \<Rightarrow> string" where
  "op_text op = (case op of OpEquals \<Rightarrow> ''='' | OpDoubleEquals \<Rightarrow> ''=='' | OpNotEquals \<Rightarrow> ''!=''
     | OpIn \<Rightarrow> '' in '' | OpNotIn \<Rightarrow> '' notin '' | OpGreaterThan \<Rightarrow> ''>'' | OpLessThan \<Rightarrow> ''<''
     | OpExists \<Rightarrow> [] | OpDoesNotExist \<Rightarrow> [])"

definition values_text :: "string list \<Rightarrow> string" where
  "values_text vs = (if length vs = 1 then hd vs else join '','' (sort vs))"

definition Requirement_String :: "requirement \<Rightarrow> string" where
  "Requirement_String r =
     (if r_operator r = OpDoesNotExist then ''!'' else []) @ r_key r @
     (if r_operator r = OpExists \<or> r_operator r = OpDoesNotExist then []
      else op_text (r_operator r) @
        (if r_operator r = OpIn \<or> r_operator r = OpNotIn
         then ''('' @ values_text (r_strValues r) @ '')'' else values_text (r_strValues r)))"

definition Requirement_Equal :: "requirement \<Rightarrow> requirement \<Rightarrow> bool" where
  "Requirement_Equal r x \<longleftrightarrow>
     r_key r = r_key x \<and> r_operator r = r_operator x \<and> r_strValues r = r_strValues x"

section \<open>Selectors\<close>

text \<open>\<open>internalSelector\<close>.  \<open>sort.Sort(ByKey)\<close> is the stable sort by key: Go's sort is an insertion sort up to
  twelve elements and leaves a sorted slice as it is.  Of a longer selector it may put requirements with
  the same key in another order; matching does not depend on the order (\<open>selector_Matches_set\<close>).\<close>

type_synonym selector = "requirement list"

definition sort_by_key :: "requirement list \<Rightarrow> selector" where
  "sort_by_key rs = sort_key r_key rs"

definition selector_Add :: "selector \<Rightarrow> requirement list \<Rightarrow> selector" where
  "selector_Add s reqs = sort_by_key (s @ reqs)"

definition selector_Empty :: "selector \<Rightarrow> bool" where
  "selector_Empty s \<longleftrightarrow> length s = 0"

definition selector_Matches :: "selector \<Rightarrow> go_map \<Rightarrow> bool" where
  "selector_Matches s ls \<longleftrightarrow> list_all (\<lambda>r. Requirement_Matches r ls) s"

definition selector_String :: "selector \<Rightarrow> string" where
  "selector_String s = join '','' (map Requirement_String s)"

definition RequiresExactMatch :: "selector \<Rightarrow> string \<Rightarrow> string option" where
  "RequiresExactMatch s label =
     (case find (\<lambda>r. r_key r = label) s of None \<Rightarrow> None
      | Some r \<Rightarrow> if (r_operator r = OpEquals \<or> r_operator r = OpDoubleEquals \<or> r_operator r = OpIn)
                    \<and> length (r_strValues r) = 1 then Some (hd (r_strValues r)) else None)"

definition SelectorFromValidatedSet :: "go_map \<Rightarrow> selector" where
  "SelectorFromValidatedSet ls =
     (if fmdom ls = {||} then []
      else sort_by_key (map (\<lambda>k. \<lparr>r_key = k, r_operator = OpEquals, r_strValues = [Get ls k], r_globMatcher = None\<rparr>)
             (map_keys ls)))"

definition SelectorFromSet :: "go_map \<Rightarrow> selector" where
  "SelectorFromSet ls = SelectorFromValidatedSet ls"

fun option_all :: "'a option list \<Rightarrow> 'a list option" where
  "option_all [] = Some []"
| "option_all (x # xs) = (case x of None \<Rightarrow> None | Some a \<Rightarrow> map_option ((#) a) (option_all xs))"

definition ValidatedSelectorFromSet ::
  "(string \<Rightarrow> (string \<Rightarrow> bool) option) \<Rightarrow> go_map \<Rightarrow> selector option" where
  "ValidatedSelectorFromSet glob_compile ls =
     (if fmdom ls = {||} then Some []
      else map_option sort_by_key
        (option_all (map (\<lambda>k. NewRequirement glob_compile k OpEquals [Get ls k]) (map_keys ls))))"

definition AsSelector :: "go_map \<Rightarrow> selector" where
  "AsSelector ls = SelectorFromSet ls"

definition AsValidatedSelector :: "(string \<Rightarrow> (string \<Rightarrow> bool) option) \<Rightarrow> go_map \<Rightarrow> selector option" where
  "AsValidatedSelector glob_compile ls = ValidatedSelectorFromSet glob_compile ls"

definition AsSelectorPreValidated :: "go_map \<Rightarrow> selector" where
  "AsSelectorPreValidated ls = SelectorFromValidatedSet ls"

text \<open>\<open>ConvertSelectorToLabelsMap\<close>: \<open>None\<close> is an error.\<close>

fun convert_pairs :: "string list \<Rightarrow> go_map \<Rightarrow> go_map option" where
  "convert_pairs [] m = Some m"
| "convert_pairs (label # ls) m =
     (case split_on (CHR ''='') label of
        [k, v] \<Rightarrow>
          (let key = trim_space k; val = trim_space v in
           if \<not> IsQualifiedName key \<or> \<not> valid_label_value val then None
           else convert_pairs ls (fmupd key val m))
      | _ \<Rightarrow> None)"

definition ConvertSelectorToLabelsMap :: "string \<Rightarrow> go_map option" where
  "ConvertSelectorToLabelsMap s =
     (if s = [] then Some fmempty else convert_pairs (split_on (CHR '','') s) fmempty)"

section \<open>The Selector interface\<close>

text \<open>Its two implementations, \<open>internalSelector\<close> and \<open>nothingSelector\<close>; a method is a case
  distinction on the implementation.  The result \<open>None\<close> of \<open>sel_Requirements\<close> is the pair
  \<open>(nil, false)\<close>.  Selectors are values here; \<open>Labels_Store\<close> shows that sharing in memory makes no difference.\<close>

datatype any_selector = InternalSelector selector | NothingSelector

definition sel_Matches :: "any_selector \<Rightarrow> go_map \<Rightarrow> bool" where
  "sel_Matches s ls = (case s of InternalSelector rs \<Rightarrow> selector_Matches rs ls | NothingSelector \<Rightarrow> False)"

definition sel_Empty :: "any_selector \<Rightarrow> bool" where
  "sel_Empty s = (case s of InternalSelector rs \<Rightarrow> selector_Empty rs | NothingSelector \<Rightarrow> False)"

definition sel_String :: "any_selector \<Rightarrow> string" where
  "sel_String s = (case s of InternalSelector rs \<Rightarrow> selector_String rs | NothingSelector \<Rightarrow> [])"

definition sel_Add :: "any_selector \<Rightarrow> requirement list \<Rightarrow> any_selector" where
  "sel_Add s reqs = (case s of InternalSelector rs \<Rightarrow> InternalSelector (selector_Add rs reqs)
     | NothingSelector \<Rightarrow> NothingSelector)"

definition sel_Requirements :: "any_selector \<Rightarrow> requirement list option" where
  "sel_Requirements s = (case s of InternalSelector rs \<Rightarrow> Some rs | NothingSelector \<Rightarrow> None)"

definition sel_RequiresExactMatch :: "any_selector \<Rightarrow> string \<Rightarrow> string option" where
  "sel_RequiresExactMatch s label =
     (case s of InternalSelector rs \<Rightarrow> RequiresExactMatch rs label | NothingSelector \<Rightarrow> None)"

definition Everything :: any_selector where "Everything = InternalSelector []"
definition Nothing :: any_selector where "Nothing = NothingSelector"
definition NewSelector :: any_selector where "NewSelector = InternalSelector []"

text \<open>\<open>Values\<close>: a \<open>sets.String\<close>.\<close>

definition Requirement_Values :: "requirement \<Rightarrow> string set" where
  "Requirement_Values r = set (r_strValues r)"

text \<open>What the clients of the interface rely on.\<close>

locale selector_interface =
  fixes matches :: "'s \<Rightarrow> go_map \<Rightarrow> bool"
    and add :: "'s \<Rightarrow> requirement list \<Rightarrow> 's"
    and everything :: 's and nothing :: 's
  assumes matches_everything: "matches everything ls"
    and matches_nothing: "\<not> matches nothing ls"
    and matches_add: "matches (add s rs) ls \<longleftrightarrow> matches s ls \<and> list_all (\<lambda>r. Requirement_Matches r ls) rs"
begin

lemma add_narrows: "matches (add s rs) ls \<Longrightarrow> matches s ls"
  by (simp add: matches_add)

lemma add_order: "matches (add (add s rs) qs) ls \<longleftrightarrow> matches (add (add s qs) rs) ls"
  by (auto simp: matches_add)

lemma add_append: "matches (add (add s rs) qs) ls \<longleftrightarrow> matches (add s (rs @ qs)) ls"
  by (auto simp: matches_add)

lemma from_everything: "matches (add everything rs) ls \<longleftrightarrow> list_all (\<lambda>r. Requirement_Matches r ls) rs"
  by (simp add: matches_add matches_everything)

lemma from_nothing: "\<not> matches (add nothing rs) ls"
  by (simp add: matches_add matches_nothing)

end

lemma selector_Matches_set: "set rs = set qs \<Longrightarrow> selector_Matches rs ls = selector_Matches qs ls"
  by (simp add: selector_Matches_def list_all_iff)

interpretation sel: selector_interface sel_Matches sel_Add Everything Nothing
proof
  show "sel_Matches Everything ls" for ls
    by (simp add: Everything_def sel_Matches_def selector_Matches_def)
  show "\<not> sel_Matches Nothing ls" for ls by (simp add: Nothing_def sel_Matches_def)
  show "sel_Matches (sel_Add s rs) ls \<longleftrightarrow> sel_Matches s ls \<and> list_all (\<lambda>r. Requirement_Matches r ls) rs"
    for s rs ls
    by (cases s) (simp_all add: sel_Matches_def sel_Add_def selector_Matches_def selector_Add_def
        sort_by_key_def list_all_iff, blast)
qed

end
