(* ===== verification/Labels_Parser.thy ===== *)
theory Labels_Parser
  imports Labels
begin

text \<open>
  The lexer and the recursive-descent parser of \<open>pkg/labels/selector.go\<close>.  The lexer state is the
  rest of the string; \<open>read\<close> gives the NUL byte at its end, and treats a NUL in the string the
  same way except that it moves past it.  The parser state is the rest of the scanned items.
\<close>

section \<open>Lexer\<close>

datatype token = ErrorToken | EndOfStringToken | ClosedParToken | CommaToken | DoesNotExistToken
  | DoubleEqualsToken | EqualsToken | GreaterThanToken | IdentifierToken | InToken | LessThanToken
  | NotEqualsToken | NotInToken | OpenParToken

type_synonym item = "token \<times> string"

definition string2token :: "(string \<times> token) list" where
  "string2token = [('')'', ClosedParToken), ('','', CommaToken), (''!'', DoesNotExistToken),
     (''=='', DoubleEqualsToken), (''='', EqualsToken), (''>'', GreaterThanToken), (''in'', InToken),
     (''<'', LessThanToken), (''!='', NotEqualsToken), (''notin'', NotInToken), (''('', OpenParToken)]"

definition NUL :: char where "NUL = CHR 0x00"

definition isWhitespace :: "char \<Rightarrow> bool" where
  "isWhitespace c \<longleftrightarrow> c = CHR 0x20 \<or> c = CHR 0x09 \<or> c = CHR 0x0D \<or> c = CHR 0x0A"

definition isSpecialSymbol :: "char \<Rightarrow> bool" where
  "isSpecialSymbol c \<longleftrightarrow> c \<in> set ''=!(),><''"

fun scan_id :: "string \<Rightarrow> string \<Rightarrow> string \<times> string" where
  "scan_id buffer [] = (rev buffer, [])"
| "scan_id buffer (c # s) =
     (if c = NUL then (rev buffer, s)
      else if isSpecialSymbol c \<or> isWhitespace c then (rev buffer, c # s)
      else scan_id (c # buffer) s)"

definition scanIDOrKeyword :: "string \<Rightarrow> item \<times> string" where
  "scanIDOrKeyword s = (let (lit, rest) = scan_id [] s in
     ((case map_of string2token lit of Some t \<Rightarrow> t | None \<Rightarrow> IdentifierToken, lit), rest))"

fun scan_special :: "string \<Rightarrow> item option \<Rightarrow> string \<Rightarrow> item option \<times> string" where
  "scan_special buffer found [] = (found, [])"
| "scan_special buffer found (c # s) =
     (if c = NUL then (found, s)
      else if isSpecialSymbol c then
        (let buffer' = buffer @ [c] in
         case map_of string2token buffer' of
           Some t \<Rightarrow> scan_special buffer' (Some (t, buffer')) s
         | None \<Rightarrow> if found \<noteq> None then (found, c # s) else scan_special buffer' found s)
      else (found, c # s))"

definition scanSpecialSymbol :: "string \<Rightarrow> item \<times> string" where
  "scanSpecialSymbol s = (case scan_special [] None s of
     (None, rest) \<Rightarrow> ((ErrorToken, ''error expected: keyword found''), rest)
   | (Some it, rest) \<Rightarrow> (it, rest))"

definition skipWhiteSpaces :: "string \<Rightarrow> string" where
  "skipWhiteSpaces s = dropWhile isWhitespace s"

definition Lex :: "string \<Rightarrow> item \<times> string" where
  "Lex s = (case skipWhiteSpaces s of
     [] \<Rightarrow> ((EndOfStringToken, []), [])
   | c # cs \<Rightarrow> if c = NUL then ((EndOfStringToken, []), cs)
              else if isSpecialSymbol c then scanSpecialSymbol (c # cs)
              else scanIDOrKeyword (c # cs))"

lemma scan_id_length: "length (snd (scan_id b s)) \<le> length s"
  by (induction b s rule: scan_id.induct) auto

lemma scan_special_length: "length (snd (scan_special b l s)) \<le> length s"
  by (induction b l s rule: scan_special.induct) (auto simp: Let_def intro: le_SucI split: option.splits)

lemma special_first: "isSpecialSymbol c \<Longrightarrow> map_of string2token [c] \<noteq> None"
  by (auto simp: isSpecialSymbol_def string2token_def)

lemma NUL_not_special [simp]: "\<not> isSpecialSymbol NUL"
  by (simp add: isSpecialSymbol_def NUL_def)

lemma Lex_shorter:
  assumes "Lex s = ((t, l), rest)" "t \<noteq> EndOfStringToken"
  shows "length rest < length s"
proof -
  obtain c cs where c: "skipWhiteSpaces s = c # cs" and n: "c \<noteq> NUL"
    using assms by (auto simp: Lex_def split: list.splits if_splits)
  have "length (c # cs) \<le> length s" using c length_dropWhile_le [of isWhitespace s]
    by (simp add: skipWhiteSpaces_def)
  moreover have "\<not> isWhitespace c"
    using c hd_dropWhile [of isWhitespace s] by (simp add: skipWhiteSpaces_def)
  moreover have "length rest \<le> length cs"
  proof (cases "isSpecialSymbol c")
    case True
    then obtain t' where "map_of string2token [c] = Some t'" using special_first by fastforce
    then show ?thesis using assms(1) c n True scan_special_length [of "[c]" "Some (t', [c])" cs]
      by (auto simp: Lex_def scanSpecialSymbol_def Let_def split: option.splits prod.splits)
  next
    case False
    then show ?thesis using assms(1) c n \<open>\<not> isWhitespace c\<close> scan_id_length [of "[c]" cs]
      by (auto simp: Lex_def scanIDOrKeyword_def Let_def split: prod.splits)
  qed
  ultimately show ?thesis by simp
qed

function scan :: "string \<Rightarrow> item list" where
  "scan s = (case Lex s of ((t, l), rest) \<Rightarrow>
     if t = EndOfStringToken then [(t, l)] else (t, l) # scan rest)"
  by pat_completeness auto
termination
  by (relation "measure length") (auto dest: Lex_shorter [OF sym])

declare scan.simps [simp del]

section \<open>Parser\<close>

text \<open>Reading past the scanned items is an index panic.\<close>

datatype 'a presult = PPanic | PErr | POk 'a "item list"

datatype parser_context = KeyAndOperator | Values

definition in_context :: "parser_context \<Rightarrow> item \<Rightarrow> item" where
  "in_context ctx it = (case it of (t, l) \<Rightarrow>
     (if ctx = Values \<and> (t = InToken \<or> t = NotInToken) then IdentifierToken else t, l))"

definition lookahead :: "parser_context \<Rightarrow> item list \<Rightarrow> item presult" where
  "lookahead ctx ts = (case ts of [] \<Rightarrow> PPanic | it # _ \<Rightarrow> POk (in_context ctx it) ts)"

definition consume :: "parser_context \<Rightarrow> item list \<Rightarrow> item presult" where
  "consume ctx ts = (case ts of [] \<Rightarrow> PPanic | it # rest \<Rightarrow> POk (in_context ctx it) rest)"

definition pbind :: "'a presult \<Rightarrow> ('a \<Rightarrow> item list \<Rightarrow> 'b presult) \<Rightarrow> 'b presult" where
  "pbind r f = (case r of PPanic \<Rightarrow> PPanic | PErr \<Rightarrow> PErr | POk a ts \<Rightarrow> f a ts)"

lemma pbind_cong [fundef_cong]:
  "\<lbrakk>r = r'; \<And>a ts. r' = POk a ts \<Longrightarrow> f a ts = g a ts\<rbrakk> \<Longrightarrow> pbind r f = pbind r' g"
  by (simp add: pbind_def split: presult.splits)

lemma pbind_simps [simp]:
  "pbind PPanic f = PPanic" "pbind PErr f = PErr" "pbind (POk a ts) f = f a ts"
  by (simp_all add: pbind_def)

lemma pbind_POk: "pbind r f = POk b us \<longleftrightarrow> (\<exists>a ts. r = POk a ts \<and> f a ts = POk b us)"
  by (cases r) auto

lemma consume_shorter: "consume ctx ts = POk a us \<Longrightarrow> ts = (hd ts) # us \<and> a = in_context ctx (hd ts)"
  by (auto simp: consume_def split: list.splits)

lemma lookahead_same: "lookahead ctx ts = POk a us \<Longrightarrow> us = ts \<and> ts \<noteq> [] \<and> a = in_context ctx (hd ts)"
  by (auto simp: lookahead_def split: list.splits)

text \<open>\<open>sets.String\<close>: \<open>set_list\<close> is its sorted \<open>List()\<close>.\<close>

definition set_list :: "string list \<Rightarrow> string list" where
  "set_list xs = sort (remdups xs)"

text \<open>\<open>parseIdentifiersList\<close>, the values collected so far first.\<close>

fun parseIdentifiersList :: "string list \<Rightarrow> item list \<Rightarrow> string list presult" where
  "parseIdentifiersList s [] = PPanic"
| "parseIdentifiersList s (it # ts) =
     (let (tok, lit) = in_context Values it in
      if tok = IdentifierToken then
        (case ts of [] \<Rightarrow> PPanic | it2 # _ \<Rightarrow>
           if fst (in_context Values it2) = CommaToken then parseIdentifiersList (lit # s) ts
           else if fst (in_context Values it2) = ClosedParToken then POk (lit # s) ts
           else PErr)
      else if tok = CommaToken then
        (let s1 = (if s = [] then [[]] else s) in
         case ts of [] \<Rightarrow> PPanic | it2 # ts2 \<Rightarrow>
           if fst (in_context Values it2) = ClosedParToken then POk ([] # s1) ts
           else if fst (in_context Values it2) = CommaToken then parseIdentifiersList ([] # s1) ts2
           else parseIdentifiersList s1 ts)
      else PErr)"

definition parseValues :: "item list \<Rightarrow> string list presult" where
  "parseValues ts =
     pbind (consume Values ts) (\<lambda>(tok, lit) ts1.
       if tok \<noteq> OpenParToken then PErr
       else pbind (lookahead Values ts1) (\<lambda>(tok2, lit2) ts2.
         if tok2 = IdentifierToken \<or> tok2 = CommaToken then
           pbind (parseIdentifiersList [] ts2) (\<lambda>s ts3.
             pbind (consume Values ts3) (\<lambda>(tok3, _) ts4.
               if tok3 \<noteq> ClosedParToken then PErr else POk s ts4))
         else if tok2 = ClosedParToken then pbind (consume Values ts2) (\<lambda>_ ts3. POk [[]] ts3)
         else PErr))"

definition parseExactValue :: "item list \<Rightarrow> string list presult" where
  "parseExactValue ts =
     pbind (lookahead Values ts) (\<lambda>(tok, _) ts1.
       if tok = EndOfStringToken \<or> tok = CommaToken then POk [[]] ts1
       else pbind (consume Values ts1) (\<lambda>(tok2, lit) ts2.
         if tok2 = IdentifierToken then POk [lit] ts2 else PErr))"

definition parseOperator :: "item list \<Rightarrow> operator presult" where
  "parseOperator ts =
     pbind (consume KeyAndOperator ts) (\<lambda>(tok, lit) ts1. case tok of
         InToken \<Rightarrow> POk OpIn ts1
       | EqualsToken \<Rightarrow> POk OpEquals ts1
       | DoubleEqualsToken \<Rightarrow> POk OpDoubleEquals ts1
       | GreaterThanToken \<Rightarrow> POk OpGreaterThan ts1
       | LessThanToken \<Rightarrow> POk OpLessThan ts1
       | NotInToken \<Rightarrow> POk OpNotIn ts1
       | NotEqualsToken \<Rightarrow> POk OpNotEquals ts1
       | _ \<Rightarrow> PErr)"

text \<open>The operator is \<open>None\<close> when it is still to be parsed.\<close>

definition parseKeyAndInferOperator :: "item list \<Rightarrow> (string \<times> operator option) presult" where
  "parseKeyAndInferOperator ts =
     pbind (consume Values ts) (\<lambda>(tok, lit) ts1.
       let key_of = (\<lambda>absent (tok, lit) ts2.
             if tok \<noteq> IdentifierToken then PErr
             else if \<not> IsQualifiedName lit then PErr
             else pbind (lookahead Values ts2) (\<lambda>(t, _) ts3.
               POk (lit, if absent then Some OpDoesNotExist
                         else if t = EndOfStringToken \<or> t = CommaToken then Some OpExists else None) ts3))
       in if tok = DoesNotExistToken then pbind (consume Values ts1) (key_of True)
          else key_of False (tok, lit) ts1)"

definition parseRequirement ::
  "(string \<Rightarrow> (string \<Rightarrow> bool) option) \<Rightarrow> item list \<Rightarrow> requirement presult" where
  "parseRequirement glob_compile ts =
     pbind (parseKeyAndInferOperator ts) (\<lambda>(key, inferred) ts1.
       case inferred of
         Some op \<Rightarrow> (case NewRequirement glob_compile key op [] of None \<Rightarrow> PErr | Some r \<Rightarrow> POk r ts1)
       | None \<Rightarrow>
           pbind (parseOperator ts1) (\<lambda>op ts2.
             pbind (if op = OpIn \<or> op = OpNotIn then parseValues ts2 else parseExactValue ts2) (\<lambda>vals ts3.
               case NewRequirement glob_compile key op (set_list vals) of
                 None \<Rightarrow> PErr | Some r \<Rightarrow> POk r ts3)))"

text \<open>The items always end with the end-of-string token, and only they do.\<close>

definition good :: "item list \<Rightarrow> bool" where
  "good ts \<longleftrightarrow> ts \<noteq> [] \<and> fst (last ts) = EndOfStringToken \<and>
     (\<forall>it \<in> set (butlast ts). fst it \<noteq> EndOfStringToken)"

lemma good_Nil [simp]: "\<not> good []"
  by (simp add: good_def)

lemma good_Cons: "good (it # ts) \<longleftrightarrow> (if ts = [] then fst it = EndOfStringToken
    else fst it \<noteq> EndOfStringToken \<and> good ts)"
  by (auto simp: good_def)

lemma good_tl: "good (it # ts) \<Longrightarrow> fst it \<noteq> EndOfStringToken \<Longrightarrow> good ts"
  by (auto simp: good_Cons split: if_splits)

lemma context_eos [simp]: "fst (in_context c it) = EndOfStringToken \<longleftrightarrow> fst it = EndOfStringToken"
  by (auto simp: in_context_def split: prod.splits)

lemma scan_good: "good (scan s)"
proof (induction s rule: scan.induct)
  case (1 s)
  obtain t l rest where l: "Lex s = ((t, l), rest)" by (metis prod.collapse)
  show ?case
  proof (cases "t = EndOfStringToken")
    case True
    then show ?thesis using l by (subst scan.simps) (simp add: good_def)
  next
    case False
    have "scan rest \<noteq> []" by (subst scan.simps) (simp split: prod.splits)
    then show ?thesis using l False 1 [OF l [symmetric] refl False]
      by (subst scan.simps) (simp add: good_Cons)
  qed
qed

text \<open>\<open>safe n r\<close>: no panic, and a result leaves good items, fewer than \<open>n\<close>.\<close>

definition safe :: "nat \<Rightarrow> 'a presult \<Rightarrow> bool" where
  "safe n r \<longleftrightarrow> (case r of PPanic \<Rightarrow> False | PErr \<Rightarrow> True | POk a ts \<Rightarrow> good ts \<and> length ts < n)"

lemma safe_simps [simp]:
  "\<not> safe n PPanic" "safe n PErr" "safe n (POk a ts) \<longleftrightarrow> good ts \<and> length ts < n"
  by (simp_all add: safe_def)

lemma safe_less: "safe m r \<Longrightarrow> m \<le> n \<Longrightarrow> safe n r"
  by (auto simp: safe_def split: presult.splits)

lemma good_next: "\<lbrakk>good (it # us); in_context c it = (tok, lit); tok \<noteq> EndOfStringToken\<rbrakk> \<Longrightarrow> good us"
  using context_eos [of c it] by (auto intro: good_tl)

lemma good_cases:
  assumes "good ts"
  obtains it us tok lit where "ts = it # us" "in_context c it = (tok, lit)" "tok = EndOfStringToken"
  | it us tok lit where "ts = it # us" "in_context c it = (tok, lit)" "tok \<noteq> EndOfStringToken" "good us"
  using assms by (cases ts) (auto, metis good_next surj_pair)

lemma good_drop: "good (it # it2 # us) \<Longrightarrow> good (it2 # us)"
  by (simp add: good_Cons)

lemma identifiers_step:
  assumes "in_context Values it = (tok, lit)"
  shows "parseIdentifiersList s (it # it2 # ts2) =
     (if tok = IdentifierToken then
        (if fst (in_context Values it2) = CommaToken then parseIdentifiersList (lit # s) (it2 # ts2)
         else if fst (in_context Values it2) = ClosedParToken then POk (lit # s) (it2 # ts2) else PErr)
      else if tok = CommaToken then
        (if fst (in_context Values it2) = ClosedParToken
         then POk ([] # (if s = [] then [[]] else s)) (it2 # ts2)
         else if fst (in_context Values it2) = CommaToken
         then parseIdentifiersList ([] # (if s = [] then [[]] else s)) ts2
         else parseIdentifiersList (if s = [] then [[]] else s) (it2 # ts2))
      else PErr)"
  by (subst parseIdentifiersList.simps(2)) (simp only: assms Let_def prod.case list.case)

declare parseIdentifiersList.simps(2) [simp del]

lemma safe_identifiers: "good ts \<Longrightarrow> safe (length ts) (parseIdentifiersList s ts)"
proof (induction s ts rule: parseIdentifiersList.induct)
  case (1 s)
  then show ?case by simp
next
  case IH: (2 s it ts)
  obtain tok lit where it: "in_context Values it = (tok, lit)" by (cases "in_context Values it")
  show ?case
  proof (cases ts)
    case Nil
    then have "tok = EndOfStringToken" using IH(4) it context_eos [of Values it] by (simp add: good_Cons)
    then show ?thesis using Nil it by (simp add: parseIdentifiersList.simps(2))
  next
    case (Cons it2 ts2)
    have g: "good ts" using IH(4) Cons by (simp add: good_drop)
    let ?s1 = "if s = [] then [[]] else s"
    have r1: "safe (Suc (length ts)) (parseIdentifiersList (lit # s) ts)"
      if "tok = IdentifierToken" "fst (in_context Values it2) = CommaToken"
      using safe_less [OF IH(1) [OF refl _ that(1) Cons that(2) g, of lit]] by (simp add: Cons it)
    have r3: "safe (Suc (length ts)) (parseIdentifiersList ?s1 ts)"
      if "tok = CommaToken" "fst (in_context Values it2) \<noteq> ClosedParToken"
         "fst (in_context Values it2) \<noteq> CommaToken"
      using safe_less [OF IH(3) [OF refl _ _ that(1) refl Cons that(2,3) g, of lit]] that(1)
      by (simp add: Cons it)
    have r2: "safe (Suc (length ts)) (parseIdentifiersList ([] # ?s1) ts2)"
      if c: "tok = CommaToken" "fst (in_context Values it2) = CommaToken"
    proof -
      have "fst it2 \<noteq> EndOfStringToken" using c(2) context_eos [of Values it2] by simp
      then have "good ts2" using g Cons good_tl by blast
      then show ?thesis using safe_less [OF IH(2) [OF refl _ _ c(1) refl Cons _ c(2), of lit]] c by (simp add: Cons it)
    qed
    show ?thesis using g r1 r2 r3 by (simp add: Cons identifiers_step [OF it, of s it2 ts2])
  qed
qed

lemma safe_values: "good ts \<Longrightarrow> safe (length ts) (parseValues ts)"
proof -
  assume ts: "good ts"
  obtain it us tok lit where it: "ts = it # us" "in_context Values it = (tok, lit)"
    using ts by (metis good_Nil list.exhaust surj_pair)
  show ?thesis
  proof (cases "tok = OpenParToken")
    case True
    have us: "good us" using good_next ts it True by blast
    obtain it2 us2 tok2 lit2 where it2: "us = it2 # us2" "in_context Values it2 = (tok2, lit2)"
      using us by (metis good_Nil list.exhaust surj_pair)
    have us2: "tok2 \<noteq> EndOfStringToken \<Longrightarrow> good us2" using good_next us it2 by blast
    show ?thesis
    proof (cases "parseIdentifiersList [] us")
      case PPanic
      then show ?thesis using safe_identifiers [OF us, of "[]"] by simp
    next
      case PErr
      then show ?thesis using it it2 True us2 by (simp add: parseValues_def consume_def lookahead_def)
    next
      case (POk vs ts3)
      then have g3: "good ts3" "length ts3 < length us"
        using safe_identifiers [OF us, of "[]"] by simp_all
      obtain it3 us3 tok3 lit3 where it3: "ts3 = it3 # us3" "in_context Values it3 = (tok3, lit3)"
        using g3(1) by (metis good_Nil list.exhaust surj_pair)
      have us3: "tok3 \<noteq> EndOfStringToken \<Longrightarrow> good us3" using good_next g3(1) it3 by blast
      show ?thesis using it it2 it3 us2 us3 True POk g3
        by (auto simp: parseValues_def consume_def lookahead_def)
    qed
  qed (use it in \<open>simp add: parseValues_def consume_def\<close>)
qed

lemma safe_exact: "good ts \<Longrightarrow> safe (Suc (length ts)) (parseExactValue ts)"
  by (cases rule: good_cases [where c = Values and ts = ts])
     (auto simp: parseExactValue_def consume_def lookahead_def)

lemma safe_operator: "good ts \<Longrightarrow> safe (length ts) (parseOperator ts)"
  by (cases rule: good_cases [where c = KeyAndOperator and ts = ts])
     (auto simp: parseOperator_def consume_def split: token.splits)

lemma safe_key: "good ts \<Longrightarrow> safe (length ts) (parseKeyAndInferOperator ts)"
proof -
  assume ts: "good ts"
  obtain it us tok lit where it: "ts = it # us" "in_context Values it = (tok, lit)"
    using ts by (metis good_Nil list.exhaust surj_pair)
  show ?thesis
  proof (cases "tok = EndOfStringToken")
    case True
    then show ?thesis using it by (simp add: parseKeyAndInferOperator_def consume_def)
  next
    case False
    have us: "good us" using good_next ts it False by blast
    obtain it2 us2 tok2 lit2 where it2: "us = it2 # us2" "in_context Values it2 = (tok2, lit2)"
      using us by (metis good_Nil list.exhaust surj_pair)
    have us2: "tok2 \<noteq> EndOfStringToken \<Longrightarrow> good us2" using good_next us it2 by blast
    show ?thesis
    proof (cases "tok2 = EndOfStringToken")
      case True
      then show ?thesis using it it2 us
        by (auto simp: parseKeyAndInferOperator_def consume_def lookahead_def)
    next
      case False
      obtain it3 us3 tok3 lit3 where it3: "us2 = it3 # us3" "in_context Values it3 = (tok3, lit3)"
        using us2 [OF False] by (metis good_Nil list.exhaust surj_pair)
      show ?thesis using it it2 it3 us us2 [OF False]
        by (auto simp: parseKeyAndInferOperator_def consume_def lookahead_def)
    qed
  qed
qed

lemma safe_requirement: "good ts \<Longrightarrow> safe (length ts) (parseRequirement g ts)"
proof -
  assume ts: "good ts"
  show ?thesis
  proof (cases "parseKeyAndInferOperator ts")
    case (POk ki ts1)
    obtain key inferred where ki: "ki = (key, inferred)" by (cases ki)
    have g1: "good ts1" "length ts1 < length ts" using safe_key [OF ts] POk by simp_all
    show ?thesis
    proof (cases inferred)
      case None
      show ?thesis
      proof (cases "parseOperator ts1")
        case op: (POk op ts2)
        have g2: "good ts2" "length ts2 < length ts1" using safe_operator [OF g1(1)] op by simp_all
        have "safe (Suc (length ts2)) (if op = OpIn \<or> op = OpNotIn then parseValues ts2 else parseExactValue ts2)"
          using safe_values [OF g2(1)] safe_exact [OF g2(1)] by (auto intro: safe_less)
        then show ?thesis using POk ki None op g1 g2
          by (cases "if op = OpIn \<or> op = OpNotIn then parseValues ts2 else parseExactValue ts2")
             (auto simp: parseRequirement_def split: option.splits)
      qed (use safe_operator [OF g1(1)] POk ki None in \<open>auto simp: parseRequirement_def\<close>)
    qed (use POk ki g1 in \<open>auto simp: parseRequirement_def split: option.splits\<close>)
  qed (use safe_key [OF ts] in \<open>auto simp: parseRequirement_def\<close>)
qed

section \<open>The parse loop\<close>

lemma identifiers_length: "parseIdentifiersList s ts = POk vs us \<Longrightarrow> length us \<le> length ts"
proof (induction s ts rule: parseIdentifiersList.induct)
  case (2 s it ts)
  obtain tok lit where it: "in_context Values it = (tok, lit)" by (cases "in_context Values it")
  show ?case
  proof (cases ts)
    case Nil
    then show ?thesis using 2(4) it
      by (simp add: parseIdentifiersList.simps(2) Let_def split: if_split_asm)
  next
    case (Cons it2 ts2)
    have IH: "length us \<le> length ts" if "parseIdentifiersList (lit # s) ts = POk vs us"
        "tok = IdentifierToken" "fst (in_context Values it2) = CommaToken"
      using 2(1) [OF refl _ that(2) Cons that(3), of lit] that(1) it by simp
    have IH2: "length us \<le> length ts2"
      if "parseIdentifiersList ([] # (if s = [] then [[]] else s)) ts2 = POk vs us"
        "tok = CommaToken" "fst (in_context Values it2) = CommaToken"
      using 2(2) [OF refl _ _ that(2) refl Cons _ that(3), of lit] that it by simp
    have IH3: "length us \<le> length ts"
      if "parseIdentifiersList (if s = [] then [[]] else s) ts = POk vs us"
        "tok = CommaToken" "fst (in_context Values it2) \<noteq> ClosedParToken"
        "fst (in_context Values it2) \<noteq> CommaToken"
      using 2(3) [OF refl _ _ that(2) refl Cons that(3,4), of lit] that it by simp
    show ?thesis using 2(4) IH IH2 IH3 unfolding Cons
      by (auto simp: identifiers_step [OF it, of s it2 ts2] split: if_split_asm)
  qed
qed simp

lemma consume_length: "consume c ts = POk a us \<Longrightarrow> length ts = Suc (length us)"
  by (auto simp: consume_def split: list.splits)

lemma lookahead_length: "lookahead c ts = POk a us \<Longrightarrow> length us = length ts"
  by (auto simp: lookahead_def split: list.splits)

lemmas parser_lengths = identifiers_length consume_length lookahead_length

lemma values_length: "parseValues ts = POk vs us \<Longrightarrow> length us \<le> length ts"
  by (auto simp: parseValues_def pbind_POk split: prod.splits if_splits dest!: parser_lengths)

lemma exact_length: "parseExactValue ts = POk vs us \<Longrightarrow> length us \<le> length ts"
  by (auto simp: parseExactValue_def pbind_POk split: prod.splits if_splits dest!: parser_lengths)

lemma operator_length: "parseOperator ts = POk vs us \<Longrightarrow> length us \<le> length ts"
  proof -
  assume *: "parseOperator ts = POk vs us"
  then obtain it us1 where c: "consume KeyAndOperator ts = POk it us1"
    by (auto simp: parseOperator_def pbind_POk)
  then have "us = us1" using * by (cases it; cases "fst it") (auto simp: parseOperator_def)
  then show ?thesis using consume_length [OF c] by simp
qed

lemma key_length: "parseKeyAndInferOperator ts = POk vs us \<Longrightarrow> length us \<le> length ts"
  by (auto simp: parseKeyAndInferOperator_def pbind_POk Let_def split: prod.splits if_splits
      dest!: parser_lengths)

lemma requirement_length: "parseRequirement g ts = POk r us \<Longrightarrow> length us \<le> length ts"
  by (auto simp: parseRequirement_def pbind_POk split: prod.splits if_splits option.splits
      dest!: values_length exact_length operator_length key_length)

function parse_loop ::
  "(string \<Rightarrow> (string \<Rightarrow> bool) option) \<Rightarrow> requirement list \<Rightarrow> item list \<Rightarrow> requirement list presult" where
  "parse_loop g requirements ts =
     pbind (lookahead Values ts) (\<lambda>it0 ts1.
       if fst it0 = IdentifierToken \<or> fst it0 = DoesNotExistToken then
         pbind (parseRequirement g ts1) (\<lambda>r ts2.
           pbind (consume Values ts2) (\<lambda>it ts3.
             if fst it = EndOfStringToken then POk (requirements @ [r]) ts3
             else if fst it = CommaToken then
               pbind (lookahead Values ts3) (\<lambda>it2 ts4.
                 if fst it2 \<noteq> IdentifierToken \<and> fst it2 \<noteq> DoesNotExistToken then PErr
                 else parse_loop g (requirements @ [r]) ts4)
             else PErr))
       else if fst it0 = EndOfStringToken then POk requirements ts1
       else PErr)"
  by pat_completeness auto
termination
  by (relation "measure (\<lambda>(_, _, ts). length ts)")
    (auto dest!: requirement_length consume_length lookahead_length)

declare parse_loop.simps [simp del]

definition Parse :: "(string \<Rightarrow> (string \<Rightarrow> bool) option) \<Rightarrow> string \<Rightarrow> selector presult" where
  "Parse g selector = pbind (parse_loop g [] (scan selector)) (\<lambda>items ts. POk (sort_by_key items) ts)"

text \<open>\<open>ParseToRequirements\<close> is \<open>parse\<close> under its other return type.\<close>

definition ParseToRequirements ::
  "(string \<Rightarrow> (string \<Rightarrow> bool) option) \<Rightarrow> string \<Rightarrow> requirement list presult" where
  "ParseToRequirements g selector = Parse g selector"

lemma parse_loop_safe: "good ts \<Longrightarrow> parse_loop g rs ts \<noteq> PPanic"
proof (induction g rs ts rule: parse_loop.induct)
  case (1 g rs ts)
  obtain it us tok lit where it: "ts = it # us" "in_context Values it = (tok, lit)"
    using 1(2) by (metis good_Nil list.exhaust surj_pair)
  have look: "lookahead Values ts = POk (tok, lit) ts" using it by (simp add: lookahead_def)
  show ?case
  proof (cases "tok = IdentifierToken \<or> tok = DoesNotExistToken")
    case True
    show ?thesis
    proof (cases "parseRequirement g ts")
      case (POk r ts2)
      then have g2: "good ts2" using safe_requirement [OF 1(2), of g] by simp
      obtain it2 us2 t l where it2: "ts2 = it2 # us2" "in_context Values it2 = (t, l)"
        using g2 by (metis good_Nil list.exhaust surj_pair)
      have cons: "consume Values ts2 = POk (t, l) us2" using it2 by (simp add: consume_def)
      show ?thesis
      proof (cases "t = CommaToken")
        case comma: True
        have "good us2" using good_next g2 it2 comma by blast
        then obtain it3 us3 t2 l2 where it3: "us2 = it3 # us3" "in_context Values it3 = (t2, l2)"
          by (metis good_Nil list.exhaust surj_pair)
        have look2: "lookahead Values us2 = POk (t2, l2) us2" using it3 by (simp add: lookahead_def)
        show ?thesis
          using 1(1) [OF look _ POk cons _ _ look2 _ \<open>good us2\<close>] True comma
          by (subst parse_loop.simps) (simp add: look POk cons look2)
      qed (subst parse_loop.simps, use True in \<open>simp add: look POk cons\<close>)
    qed (subst parse_loop.simps, use True safe_requirement [OF 1(2), of g] in \<open>simp add: look\<close>)+
  qed (subst parse_loop.simps, simp add: look)
qed

lemma Parse_cases: "Parse g s = PErr \<or> (\<exists>sel ts. Parse g s = POk sel ts)"
proof -
  have "parse_loop g [] (scan s) \<noteq> PPanic" using parse_loop_safe [OF scan_good] .
  then show ?thesis by (cases "parse_loop g [] (scan s)") (simp_all add: Parse_def)
qed

text \<open>The requirements of a parsed selector all come from \<open>NewRequirement\<close>.\<close>

definition built :: "(string \<Rightarrow> (string \<Rightarrow> bool) option) \<Rightarrow> requirement \<Rightarrow> bool" where
  "built g r \<longleftrightarrow> NewRequirement g (r_key r) (r_operator r) (r_strValues r) = Some r"

lemma NewRequirement_built: "NewRequirement g key op vs = Some r \<Longrightarrow> built g r"
  by (auto simp: built_def NewRequirement_def split: if_splits option.splits)

lemma requirement_built: "parseRequirement g ts = POk r us \<Longrightarrow> built g r"
  by (auto simp: parseRequirement_def pbind_POk split: prod.splits if_splits option.splits
      intro: NewRequirement_built)

lemma parse_loop_built:
  "parse_loop g rs ts = POk sel us \<Longrightarrow> \<forall>r \<in> set rs. built g r \<Longrightarrow> \<forall>r \<in> set sel. built g r"
proof (induction g rs ts arbitrary: sel us rule: parse_loop.induct)
  case (1 g rs ts)
  from 1(2) obtain it ts1 where look: "lookahead Values ts = POk it ts1"
    by (subst (asm) parse_loop.simps) (auto simp: pbind_POk)
  show ?case
  proof (cases "fst it = IdentifierToken \<or> fst it = DoesNotExistToken")
    case True
    then obtain r ts2 t ts3 where r: "parseRequirement g ts1 = POk r ts2"
        and c: "consume Values ts2 = POk t ts3"
        and rest: "(if fst t = EndOfStringToken then POk (rs @ [r]) ts3
             else if fst t = CommaToken then
               pbind (lookahead Values ts3) (\<lambda>it2 ts4.
                 if fst it2 \<noteq> IdentifierToken \<and> fst it2 \<noteq> DoesNotExistToken then PErr
                 else parse_loop g (rs @ [r]) ts4)
             else PErr) = POk sel us"
      using 1(2) look by (subst (asm) parse_loop.simps) (auto simp: pbind_POk)
    have b: "\<forall>x \<in> set (rs @ [r]). built g x" using requirement_built [OF r] 1(3) by auto
    show ?thesis
    proof (cases "fst t = CommaToken")
      case comma: True
      then obtain t2 ts4 where l: "lookahead Values ts3 = POk t2 ts4"
          and t2: "\<not> (fst t2 \<noteq> IdentifierToken \<and> fst t2 \<noteq> DoesNotExistToken)"
          and p: "parse_loop g (rs @ [r]) ts4 = POk sel us"
        using rest by (auto simp: pbind_POk split: if_splits)
      show ?thesis by (rule 1(1) [OF look True r c _ comma l t2 p b]) (use comma in simp)
    next
      case False
      then show ?thesis using rest b by (auto split: if_splits)
    qed
  next
    case False
    then show ?thesis using 1(2,3) look by (subst (asm) parse_loop.simps) (auto split: if_splits)
  qed
qed

lemma Parse_built: "Parse g s = POk sel us \<Longrightarrow> r \<in> set sel \<Longrightarrow> built g r"
  using parse_loop_built [of g "[]" "scan s"]
  by (auto simp: Parse_def pbind_POk sort_by_key_def)

section \<open>What a selector means\<close>

text \<open>The documented meaning of a requirement on a label set; the glob of an equality is compiled
  from its only value.\<close>

definition holds :: "(string \<Rightarrow> (string \<Rightarrow> bool) option) \<Rightarrow> requirement \<Rightarrow> go_map \<Rightarrow> bool" where
  "holds g r ls =
     (let v = fmlookup ls (r_key r); vs = r_strValues r;
          globs = (\<lambda>x. case g (hd vs) of None \<Rightarrow> False | Some m \<Rightarrow> m x);
          number = (\<lambda>cmp x. case (parse_int 64 x, parse_int 64 (hd vs)) of
              (Some a, Some b) \<Rightarrow> cmp a (b::int) | _ \<Rightarrow> False)
      in case r_operator r of
           OpIn \<Rightarrow> (case v of None \<Rightarrow> False | Some x \<Rightarrow> x \<in> set vs)
         | OpNotIn \<Rightarrow> (case v of None \<Rightarrow> True | Some x \<Rightarrow> x \<notin> set vs)
         | OpEquals \<Rightarrow> (case v of None \<Rightarrow> False | Some x \<Rightarrow> globs x)
         | OpDoubleEquals \<Rightarrow> (case v of None \<Rightarrow> False | Some x \<Rightarrow> globs x)
         | OpNotEquals \<Rightarrow> (case v of None \<Rightarrow> True | Some x \<Rightarrow> \<not> globs x)
         | OpExists \<Rightarrow> v \<noteq> None
         | OpDoesNotExist \<Rightarrow> v = None
         | OpGreaterThan \<Rightarrow> (case v of None \<Rightarrow> False | Some x \<Rightarrow> number (>) x)
         | OpLessThan \<Rightarrow> (case v of None \<Rightarrow> False | Some x \<Rightarrow> number (<) x))"

lemma built_arity: "built g r \<Longrightarrow> arity_ok (r_operator r) (r_strValues r)"
  by (auto simp: built_def NewRequirement_def split: if_splits)

lemma built_glob: "built g r \<Longrightarrow> equality_op (r_operator r) \<Longrightarrow>
  \<exists>m. g (hd (r_strValues r)) = Some m \<and> r_globMatcher r = Some m"
  unfolding built_def NewRequirement_def
  by (cases r; cases "g (hd (r_strValues r))") (auto split: if_split_asm)

lemma list_ex_eq: "list_ex (\<lambda>x. x = v) vs \<longleftrightarrow> v \<in> set vs"
  by (auto simp: list_ex_iff)

lemma Requirement_holds:
  assumes "built g r"
  shows "Requirement_Matches r ls \<longleftrightarrow> holds g r ls"
proof (cases "fmlookup ls (r_key r)")
  case None
  then show ?thesis
    by (cases "r_operator r") (simp_all add: Requirement_Matches_def holds_def Has_def Let_def)
next
  case (Some v)
  note arity = built_arity [OF assms] and glob = built_glob [OF assms]
  show ?thesis
  proof (cases "equality_op (r_operator r)")
    case True
    then obtain m where m: "r_globMatcher r = Some m" "g (hd (r_strValues r)) = Some m"
      using glob [OF True] by blast
    show ?thesis using True Some m
      by (cases "r_operator r")
        (simp_all add: Requirement_Matches_def holds_def Has_def Get_def Let_def matchGlob_def equality_op_def)
  next
    case False
    then show ?thesis using Some arity
      by (cases "r_operator r")
        (auto simp: Requirement_Matches_def holds_def Has_def Get_def Let_def hasValue_def list_ex_eq
          equality_op_def arity_ok_def matches_int_def length_Suc_conv split: option.splits)
  qed
qed

fun p_ok :: "'a presult \<Rightarrow> bool" where
  "p_ok (POk a ts) = True" | "p_ok PErr = False" | "p_ok PPanic = False"

fun p_value :: "'a list presult \<Rightarrow> 'a list" where
  "p_value (POk a ts) = a" | "p_value PErr = []" | "p_value PPanic = []"

definition example_glob :: "string \<Rightarrow> (string \<Rightarrow> bool) option" where
  "example_glob p = Some (\<lambda>v. v = p)"

section \<open>Properties\<close>

text \<open>C17: parsing a selector always ends, and no input makes the parser read past the scanned items:
  the result is an error or a selector, never an index panic.\<close>

theorem Parse_total: "Parse g s = PErr \<or> (\<exists>sel ts. Parse g s = POk sel ts)"
proof -
  have "parse_loop g [] (scan s) \<noteq> PPanic" using parse_loop_safe [OF scan_good] .
  then show ?thesis by (cases "parse_loop g [] (scan s)") (simp_all add: Parse_def)
qed

text \<open>C18: a parsed selector selects exactly the label sets that meet the documented meaning of every one of
  its requirements.\<close>

theorem selector_semantics:
  assumes "Parse g s = POk sel ts"
  shows "selector_Matches sel ls \<longleftrightarrow> (\<forall>r \<in> set sel. holds g r ls)"
  using Requirement_holds [OF Parse_built [OF assms]]
  by (simp add: selector_Matches_def list_all_iff)

lemma selector_semantics_witness:
  "p_ok (Parse example_glob ''app in (b,a),!tier'') \<and>
   selector_Matches (p_value (Parse example_glob ''app in (b,a),!tier'')) (fmupd ''app'' ''a'' fmempty)"
proof -
  let ?p = "Parse example_glob ''app in (b,a),!tier''"
  have ok: "p_ok ?p" by code_simp
  then obtain sel ts where p: "?p = POk sel ts" by (cases ?p) simp_all
  have "list_all (\<lambda>r. holds example_glob r (fmupd ''app'' ''a'' fmempty)) (p_value ?p)" by code_simp
  then show ?thesis using ok selector_semantics [OF p] p by (simp add: list_all_iff)
qed

text \<open>A selector made from a set of labels selects nothing at all unless the set is empty, because its
  requirements carry no glob matcher.\<close>

theorem SelectorFromSet_matches_nothing:
  assumes "fmlookup ls k = Some v"
  shows "\<not> selector_Matches (SelectorFromSet ls) m"
proof -
  let ?req = "\<lambda>k. \<lparr>r_key = k, r_operator = OpEquals, r_strValues = [Get ls k], r_globMatcher = None\<rparr>"
  have k: "k |\<in>| fmdom ls" using assms by (rule fmdomI)
  then have "?req k \<in> set (SelectorFromSet ls)"
    by (auto simp: SelectorFromSet_def SelectorFromValidatedSet_def sort_by_key_def map_keys_def
        sorted_list_of_fset.rep_eq)
  moreover have "\<not> Requirement_Matches (?req k) m"
    by (simp add: Requirement_Matches_def matchGlob_def)
  ultimately show ?thesis by (auto simp: selector_Matches_def list_all_iff)
qed

lemma SelectorFromSet_matches_nothing_witness:
  "\<not> selector_Matches (SelectorFromSet (fmupd ''app'' ''web'' fmempty)) (fmupd ''app'' ''web'' fmempty)"
  using SelectorFromSet_matches_nothing [of "fmupd ''app'' ''web'' fmempty" "''app''" "''web''"] by simp

end
