(* ===== verification/Labels_Roundtrip.thy ===== *)
theory Labels_Roundtrip
  imports Labels_Parser
begin

text \<open>
  Printing and parsing selectors (\<open>String\<close> and \<open>Parse\<close> of \<open>pkg/labels/selector.go\<close>): the text of a
  parsed selector parses to the same selector.  The first part follows the lexer through a printed
  text, the second the parser through the resulting items, the third shows that parsing only yields
  selectors whose texts can be read back.
\<close>

section \<open>Identifiers\<close>

definition plain_char :: "char \<Rightarrow> bool" where
  "plain_char c \<longleftrightarrow> c \<noteq> NUL \<and> \<not> isSpecialSymbol c \<and> \<not> isWhitespace c"

definition ident :: "string \<Rightarrow> bool" where
  "ident w \<longleftrightarrow> w \<noteq> [] \<and> list_all plain_char w"

text \<open>Where an identifier ends.\<close>

definition stops :: "string \<Rightarrow> bool" where
  "stops s \<longleftrightarrow> (case s of [] \<Rightarrow> True | c # _ \<Rightarrow> c \<noteq> NUL \<and> (isSpecialSymbol c \<or> isWhitespace c))"

lemma stops_simps [simp]: "stops []" "stops (c # s) \<longleftrightarrow> c \<noteq> NUL \<and> (isSpecialSymbol c \<or> isWhitespace c)"
  by (simp_all add: stops_def)

lemma scan_id_plain: "\<lbrakk>list_all plain_char w; stops rest\<rbrakk> \<Longrightarrow> scan_id b (w @ rest) = (rev b @ w, rest)"
proof (induction w arbitrary: b)
  case Nil
  then show ?case by (cases rest) auto
qed (simp add: plain_char_def)

definition word_token :: "string \<Rightarrow> token" where
  "word_token w = (case map_of string2token w of Some t \<Rightarrow> t | None \<Rightarrow> IdentifierToken)"

lemma word_token_cases:
  assumes "ident w"
  shows "word_token w \<in> {IdentifierToken, InToken, NotInToken}"
proof (cases "map_of string2token w")
  case (Some t)
  then have "(w, t) \<in> set string2token" by (rule map_of_SomeD)
  then have "t = InToken \<or> t = NotInToken" using assms
    by (auto simp: string2token_def ident_def plain_char_def isSpecialSymbol_def)
  then show ?thesis using Some by (auto simp: word_token_def)
qed (simp add: word_token_def)

lemma word_token_Values: "ident w \<Longrightarrow> in_context Values (word_token w, w) = (IdentifierToken, w)"
  using word_token_cases [of w] by (auto simp: in_context_def)

lemma scan_word:
  assumes "ident w" "stops rest"
  shows "scan (w @ rest) = (word_token w, w) # scan rest"
proof -
  obtain c cs where w: "w = c # cs" using assms(1) by (cases w) (auto simp: ident_def)
  have c: "plain_char c" using assms(1) by (simp add: w ident_def)
  have id: "scan_id [] (w @ rest) = (w, rest)" using scan_id_plain [of w rest "[]"] assms by (simp add: ident_def)
  have "skipWhiteSpaces (w @ rest) = w @ rest" using c by (simp add: skipWhiteSpaces_def w plain_char_def)
  then have "Lex (w @ rest) = scanIDOrKeyword (w @ rest)" using c by (simp add: Lex_def w plain_char_def)
  also have "\<dots> = ((word_token w, w), rest)"
    by (simp add: scanIDOrKeyword_def id word_token_def split: option.splits)
  finally have lex: "Lex (w @ rest) = ((word_token w, w), rest)" .
  have "word_token w \<noteq> EndOfStringToken" using word_token_cases [OF assms(1)] by auto
  then show ?thesis by (subst scan.simps) (simp add: lex)
qed

section \<open>Symbols\<close>

text \<open>A symbol is read as such when the text behind it does not make it longer.\<close>

definition symbol_ends :: "string \<Rightarrow> string \<Rightarrow> bool" where
  "symbol_ends mark rest \<longleftrightarrow> (case rest of [] \<Rightarrow> True
     | c # _ \<Rightarrow> c \<noteq> NUL \<and> (isSpecialSymbol c \<longrightarrow> map_of string2token (mark @ [c]) = None))"

lemma scan_special_ends:
  "symbol_ends mark rest \<Longrightarrow> scan_special mark (Some it) rest = (Some it, rest)"
  by (cases rest) (auto simp: symbol_ends_def Let_def)

lemma not_white_special: "isSpecialSymbol c \<Longrightarrow> \<not> isWhitespace c \<and> c \<noteq> NUL"
  by (auto simp: isSpecialSymbol_def isWhitespace_def NUL_def)

lemma scan_symbol1:
  assumes "isSpecialSymbol c" "map_of string2token [c] = Some t" "symbol_ends [c] rest" "t \<noteq> EndOfStringToken"
  shows "scan (c # rest) = (t, [c]) # scan rest"
proof -
  have "skipWhiteSpaces (c # rest) = c # rest" using not_white_special [OF assms(1)] by (simp add: skipWhiteSpaces_def)
  then have "Lex (c # rest) = scanSpecialSymbol (c # rest)" using assms(1) not_white_special by (simp add: Lex_def)
  also have "\<dots> = ((t, [c]), rest)"
    using assms not_white_special [OF assms(1)] scan_special_ends [OF assms(3)] by (simp add: scanSpecialSymbol_def Let_def)
  finally show ?thesis using assms(4) by (subst scan.simps) simp
qed

lemma scan_symbol2:
  assumes "isSpecialSymbol c" "isSpecialSymbol d" "map_of string2token [c] = Some t0"
    "map_of string2token [c, d] = Some t" "symbol_ends [c, d] rest" "t \<noteq> EndOfStringToken"
  shows "scan (c # d # rest) = (t, [c, d]) # scan rest"
proof -
  have "skipWhiteSpaces (c # d # rest) = c # d # rest"
    using not_white_special [OF assms(1)] by (simp add: skipWhiteSpaces_def)
  then have "Lex (c # d # rest) = scanSpecialSymbol (c # d # rest)" using assms(1) not_white_special by (simp add: Lex_def)
  also have "\<dots> = ((t, [c, d]), rest)"
    using assms not_white_special [OF assms(1)] not_white_special [OF assms(2)] scan_special_ends [OF assms(5)]
    by (simp add: scanSpecialSymbol_def Let_def)
  finally show ?thesis using assms(6) by (subst scan.simps) simp
qed

lemma scan_space: "scan (CHR '' '' # s) = scan s"
proof -
  have "Lex (CHR '' '' # s) = Lex s" by (simp add: Lex_def skipWhiteSpaces_def isWhitespace_def)
  then show ?thesis by (subst (1 2) scan.simps) simp
qed

lemma scan_end: "scan [] = [(EndOfStringToken, [])]"
  by (subst scan.simps) (simp add: Lex_def skipWhiteSpaces_def)

section \<open>The items of a printed requirement\<close>

definition word_items :: "string \<Rightarrow> item list" where
  "word_items w = (if w = [] then [] else [(word_token w, w)])"

fun list_items :: "string list \<Rightarrow> item list" where
  "list_items [] = []"
| "list_items [w] = word_items w"
| "list_items (w # v # ws) = word_items w @ (CommaToken, '','') # list_items (v # ws)"

definition value_ok :: "string \<Rightarrow> bool" where
  "value_ok w \<longleftrightarrow> w = [] \<or> ident w"

lemma scan_value:
  "\<lbrakk>value_ok w; stops rest\<rbrakk> \<Longrightarrow> scan (w @ rest) = word_items w @ scan rest"
  by (auto simp: value_ok_def word_items_def scan_word)

text \<open>A list of values: only the first may be empty, and two empty values do not meet.\<close>

lemma scan_values:
  assumes "list_all value_ok ws" "list_all (\<lambda>w. w \<noteq> []) (tl ws)" "rest = CHR '')'' # after"
  shows "scan (join '','' ws @ rest) = list_items ws @ scan rest"
  using assms
proof (induction ws rule: induct_list012)
  case 1
  then show ?case by simp
next
  case (2 w)
  then show ?case by (simp add: scan_value isSpecialSymbol_def NUL_def)
next
  case (3 w v ws)
  have v: "ident v" using "3.prems" by (auto simp: value_ok_def)
  obtain c cs where "v = c # cs" "plain_char c" using v by (cases v) (auto simp: ident_def)
  then obtain us where vs: "join '','' (v # ws) @ rest = c # us" "plain_char c" by (cases ws) auto
  have "symbol_ends '','' (join '','' (v # ws) @ rest)"
    unfolding vs(1) using vs(2) by (simp add: symbol_ends_def plain_char_def)
  then have "scan ('','' @ join '','' (v # ws) @ rest) = (CommaToken, '','') # scan (join '','' (v # ws) @ rest)"
    using scan_symbol1 [of "CHR '',''" CommaToken] by (simp add: isSpecialSymbol_def string2token_def)
  moreover have "scan (w @ '','' @ join '','' (v # ws) @ rest) = word_items w @ scan ('','' @ join '','' (v # ws) @ rest)"
    using "3.prems"(1) by (intro scan_value) (simp_all add: isSpecialSymbol_def NUL_def)
  ultimately show ?case using 3 by simp
qed

text \<open>A printable requirement: its key is a word, and its values are words (or empty), as many as its operator
  takes, sorted and distinct.\<close>

definition printable :: "requirement \<Rightarrow> bool" where
  "printable r \<longleftrightarrow> ident (r_key r) \<and> list_all value_ok (r_strValues r) \<and> sorted (r_strValues r) \<and>
     distinct (r_strValues r) \<and> arity_ok (r_operator r) (r_strValues r)"

definition op_item :: "operator \<Rightarrow> item list" where
  "op_item op = (case op of OpEquals \<Rightarrow> [(EqualsToken, ''='')] | OpDoubleEquals \<Rightarrow> [(DoubleEqualsToken, ''=='')]
     | OpNotEquals \<Rightarrow> [(NotEqualsToken, ''!='')] | OpIn \<Rightarrow> [(InToken, ''in'')] | OpNotIn \<Rightarrow> [(NotInToken, ''notin'')]
     | OpGreaterThan \<Rightarrow> [(GreaterThanToken, ''>'')] | OpLessThan \<Rightarrow> [(LessThanToken, ''<'')]
     | OpExists \<Rightarrow> [] | OpDoesNotExist \<Rightarrow> [])"

definition requirement_items :: "requirement \<Rightarrow> item list" where
  "requirement_items r =
     (if r_operator r = OpDoesNotExist then [(DoesNotExistToken, ''!'')] else []) @
     (word_token (r_key r), r_key r) # op_item (r_operator r) @
     (if r_operator r = OpIn \<or> r_operator r = OpNotIn
      then (OpenParToken, ''('') # list_items (r_strValues r) @ [(ClosedParToken, '')'')]
      else if r_operator r = OpExists \<or> r_operator r = OpDoesNotExist then []
      else list_items (r_strValues r))"

lemma symbols: "isSpecialSymbol (CHR ''='')" "isSpecialSymbol (CHR ''!'')" "isSpecialSymbol (CHR ''('')"
  "isSpecialSymbol (CHR '')'')" "isSpecialSymbol (CHR '','')" "isSpecialSymbol (CHR ''>'')" "isSpecialSymbol (CHR ''<'')"
  by (simp_all add: isSpecialSymbol_def)

lemma not_NUL: "CHR ''='' \<noteq> NUL" "CHR ''!'' \<noteq> NUL" "CHR ''('' \<noteq> NUL" "CHR '')'' \<noteq> NUL" "CHR '','' \<noteq> NUL"
  "CHR ''>'' \<noteq> NUL" "CHR ''<'' \<noteq> NUL" "CHR '' '' \<noteq> NUL"
  by (simp_all add: NUL_def)

text \<open>What may follow a requirement: the end, or a comma.\<close>

definition follows :: "string \<Rightarrow> bool" where
  "follows rest \<longleftrightarrow> rest = [] \<or> hd rest = CHR '',''"

lemma follows_stops: "follows rest \<Longrightarrow> stops rest"
  by (cases rest) (auto simp: follows_def symbols not_NUL)

lemma follows_ends:
  "\<lbrakk>follows rest; map_of string2token (mark @ '','') = None\<rbrakk> \<Longrightarrow> symbol_ends mark rest"
  by (cases rest) (auto simp: follows_def symbol_ends_def not_NUL)

lemma value_ends:
  assumes "value_ok v" "follows rest" "map_of string2token (mark @ '','') = None"
  shows "symbol_ends mark (v @ rest)"
proof (cases v)
  case Nil
  then show ?thesis using assms follows_ends by simp
next
  case (Cons c cs)
  then have "plain_char c" using assms(1) by (simp add: value_ok_def ident_def)
  then show ?thesis by (simp add: Cons symbol_ends_def plain_char_def)
qed

lemma values_sorted: "sorted vs \<Longrightarrow> values_text vs = join '','' vs"
  by (cases "length vs = 1") (auto simp: values_text_def sorted_sort_id length_Suc_conv)

lemma nonempty_tl: "\<lbrakk>sorted vs; distinct vs\<rbrakk> \<Longrightarrow> list_all (\<lambda>w. w \<noteq> []) (tl (vs :: string list))"
proof (cases vs)
  case (Cons v ws)
  assume "sorted vs" "distinct vs"
  then have "\<forall>w \<in> set ws. v \<le> w \<and> v \<noteq> w" by (auto simp: Cons)
  then have "\<forall>w \<in> set ws. w \<noteq> []" by auto
  then show ?thesis by (simp add: Cons list_all_iff)
qed simp

lemma scan_paren_values:
  assumes "list_all value_ok vs" "list_all (\<lambda>w. w \<noteq> []) (tl vs)" "follows rest" "vs \<noteq> []"
  shows "scan (''('' @ join '','' vs @ '')'' @ rest) =
    (OpenParToken, ''('') # list_items vs @ (ClosedParToken, '')'') # scan rest"
proof -
  have e: "symbol_ends '')'' rest" using assms(3) by (intro follows_ends) (simp_all add: string2token_def)
  have c: "scan ('')'' @ rest) = (ClosedParToken, '')'') # scan rest"
    using scan_symbol1 [OF symbols(4) _ e, of ClosedParToken] by (simp add: string2token_def)
  have v: "scan (join '','' vs @ '')'' @ rest) = list_items vs @ scan ('')'' @ rest)"
    using assms(1,2) by (intro scan_values [of _ _ rest]) simp_all
  have "\<exists>c us. join '','' vs @ '')'' @ rest = c # us \<and> (plain_char c \<or> c = CHR '','' \<or> c = CHR '')'')"
  proof (cases vs)
    case (Cons w ws)
    show ?thesis
    proof (cases w)
      case Nil
      then show ?thesis using Cons by (cases ws) auto
    next
      case w: (Cons c cs)
      then have "plain_char c" using assms(1) Cons by (auto simp: value_ok_def ident_def)
      then show ?thesis using Cons w by (cases ws) auto
    qed
  qed (use assms(4) in simp)
  then have "symbol_ends ''('' (join '','' vs @ '')'' @ rest)"
    by (auto simp: symbol_ends_def plain_char_def string2token_def not_NUL)
  then have "scan (''('' @ join '','' vs @ '')'' @ rest) = (OpenParToken, ''('') # scan (join '','' vs @ '')'' @ rest)"
    using scan_symbol1 [OF symbols(3), of OpenParToken] by (simp add: string2token_def)
  then show ?thesis using v c by simp
qed

lemma scan_operator_value:
  assumes "value_ok v" "follows rest" "op \<in> {OpEquals, OpDoubleEquals, OpNotEquals, OpGreaterThan, OpLessThan}"
  shows "scan (op_text op @ v @ rest) = op_item op @ word_items v @ scan rest"
proof -
  have v: "scan (v @ rest) = word_items v @ scan rest" using assms(1,2) follows_stops by (intro scan_value)
  note ends = value_ends [OF assms(1,2)]
  from assms(3) show ?thesis
    using scan_symbol1 [OF symbols(1) _ ends, of EqualsToken] scan_symbol1 [OF symbols(6) _ ends, of GreaterThanToken]
      scan_symbol1 [OF symbols(7) _ ends, of LessThanToken]
      scan_symbol2 [OF symbols(1,1) _ _ ends, of EqualsToken DoubleEqualsToken]
      scan_symbol2 [OF symbols(2,1) _ _ ends, of DoesNotExistToken NotEqualsToken]
    by (auto simp: op_text_def op_item_def string2token_def v)
qed

lemma ident_in: "ident ''in''" "ident ''notin''" "word_token ''in'' = InToken" "word_token ''notin'' = NotInToken"
  by (simp_all add: ident_def plain_char_def NUL_def isSpecialSymbol_def isWhitespace_def word_token_def string2token_def)

lemma scan_requirement:
  assumes "printable r" "follows rest"
  shows "scan (Requirement_String r @ rest) = requirement_items r @ scan rest"
proof -
  have k: "ident (r_key r)" and vs: "list_all value_ok (r_strValues r)" "sorted (r_strValues r)"
      "distinct (r_strValues r)" and arity: "arity_ok (r_operator r) (r_strValues r)"
    using assms(1) by (simp_all add: printable_def)
  obtain c cs where kc: "r_key r = c # cs" "plain_char c" using k by (cases "r_key r") (auto simp: ident_def)
  consider (exists) "r_operator r = OpExists" | (absent) "r_operator r = OpDoesNotExist"
    | (among) "r_operator r = OpIn \<or> r_operator r = OpNotIn"
    | (exact) "r_operator r \<in> {OpEquals, OpDoubleEquals, OpNotEquals, OpGreaterThan, OpLessThan}"
    by (cases "r_operator r") auto
  then show ?thesis
  proof cases
    case exists
    then show ?thesis using scan_word [OF k follows_stops [OF assms(2)]]
      by (simp add: Requirement_String_def requirement_items_def op_item_def)
  next
    case absent
    have "symbol_ends ''!'' (r_key r @ rest)" using kc by (simp add: symbol_ends_def plain_char_def)
    then have "scan (''!'' @ r_key r @ rest) = (DoesNotExistToken, ''!'') # scan (r_key r @ rest)"
      using scan_symbol1 [OF symbols(2), of DoesNotExistToken] by (simp add: string2token_def)
    then show ?thesis using absent scan_word [OF k follows_stops [OF assms(2)]]
      by (simp add: Requirement_String_def requirement_items_def op_item_def)
  next
    case among
    have ne: "r_strValues r \<noteq> []" using arity among by (auto simp: arity_ok_def)
    let ?w = "if r_operator r = OpIn then ''in'' else ''notin''"
    let ?text = "''('' @ join '','' (r_strValues r) @ '')'' @ rest"
    have "scan (r_key r @ '' '' @ ?w @ '' '' @ ?text) = (word_token (r_key r), r_key r) # scan ('' '' @ ?w @ '' '' @ ?text)"
      using k by (intro scan_word) (simp_all add: isWhitespace_def NUL_def)
    moreover have "scan ('' '' @ ?w @ '' '' @ ?text) = (word_token ?w, ?w) # scan ('' '' @ ?text)"
      using ident_in by (simp add: scan_space scan_word isWhitespace_def NUL_def)
    moreover have "scan ('' '' @ ?text) = (OpenParToken, ''('') # list_items (r_strValues r) @ (ClosedParToken, '')'') # scan rest"
      using scan_paren_values [OF vs(1) nonempty_tl [OF vs(2,3)] assms(2) ne] by (simp add: scan_space)
    ultimately show ?thesis using among ident_in
      by (auto simp: Requirement_String_def requirement_items_def op_item_def op_text_def values_sorted [OF vs(2)])
  next
    case exact
    then obtain v where v: "r_strValues r = [v]" using arity by (auto simp: arity_ok_def length_Suc_conv)
    have "stops (op_text (r_operator r) @ v @ rest)" using exact by (auto simp: op_text_def symbols not_NUL)
    then have "scan (r_key r @ op_text (r_operator r) @ v @ rest) =
        (word_token (r_key r), r_key r) # scan (op_text (r_operator r) @ v @ rest)" using k by (rule scan_word [rotated])
    moreover have "scan (op_text (r_operator r) @ v @ rest) = op_item (r_operator r) @ word_items v @ scan rest"
      using vs(1) v exact assms(2) by (intro scan_operator_value) simp_all
    ultimately show ?thesis using exact v
      by (auto simp: Requirement_String_def requirement_items_def values_text_def)
  qed
qed

section \<open>Parsing the items\<close>

lemma list_items_first:
  "v \<noteq> [] \<Longrightarrow> \<exists>its. list_items (v # ws) = (word_token v, v) # its"
  by (cases ws) (auto simp: word_items_def)

lemma comma_Values: "in_context Values (CommaToken, l) = (CommaToken, l)"
  and closed_Values: "in_context Values (ClosedParToken, l) = (ClosedParToken, l)"
  by (simp_all add: in_context_def)

lemma identifiers_words:
  "\<lbrakk>list_all ident ws; ws \<noteq> []\<rbrakk> \<Longrightarrow>
   \<exists>s'. parseIdentifiersList s (list_items ws @ (ClosedParToken, cl) # ts) = POk s' ((ClosedParToken, cl) # ts) \<and>
     set s' = set s \<union> set ws"
proof (induction ws arbitrary: s rule: induct_list012)
  case (2 w)
  then have w: "ident w" by simp
  then have "list_items [w] = [(word_token w, w)]" by (simp add: word_items_def ident_def)
  then show ?case
    by (intro exI [of _ "w # s"]) (simp add: identifiers_step [OF word_token_Values [OF w]] closed_Values)
next
  case (3 w v ws)
  have w: "ident w" and v: "ident v" using "3.prems" by simp_all
  obtain its where its: "list_items (v # ws) = (word_token v, v) # its"
    using list_items_first [of v ws] v by (auto simp: ident_def)
  let ?rest = "list_items (v # ws) @ (ClosedParToken, cl) # ts"
  have "parseIdentifiersList s (list_items (w # v # ws) @ (ClosedParToken, cl) # ts) =
      parseIdentifiersList (w # s) ((CommaToken, '','') # ?rest)"
    using w by (simp add: word_items_def ident_def identifiers_step [OF word_token_Values [OF w]] comma_Values)
  also have "\<dots> = parseIdentifiersList (w # s) ?rest"
    using word_token_Values [OF v] by (simp add: its identifiers_step [OF comma_Values])
  finally show ?case using "3.IH"(2) [of "w # s"] "3.prems" by auto
qed simp

lemma identifiers_values:
  assumes "list_all value_ok ws" "list_all (\<lambda>w. w \<noteq> []) (tl ws)" "ws \<noteq> []" "ws \<noteq> [[]]"
  shows "\<exists>s'. parseIdentifiersList [] (list_items ws @ (ClosedParToken, cl) # ts) = POk s' ((ClosedParToken, cl) # ts) \<and>
     set s' = set ws"
proof (cases "hd ws = []")
  case False
  then have "list_all ident ws" using assms(1-3) by (cases ws) (auto simp: value_ok_def list_all_iff)
  then show ?thesis using identifiers_words [of ws "[]"] assms(3) by simp
next
  case True
  then obtain v vs where ws: "ws = [] # v # vs" using assms(3,4) by (cases ws; cases "tl ws") auto
  have v: "ident v" "list_all ident (v # vs)" using assms(1,2) by (auto simp: ws value_ok_def list_all_iff)
  obtain its where its: "list_items (v # vs) = (word_token v, v) # its"
    using list_items_first [of v vs] v(1) by (auto simp: ident_def)
  have "parseIdentifiersList [] (list_items ws @ (ClosedParToken, cl) # ts) =
      parseIdentifiersList [[]] (list_items (v # vs) @ (ClosedParToken, cl) # ts)"
    using word_token_Values [OF v(1)] by (simp add: ws word_items_def its identifiers_step [OF comma_Values])
  then show ?thesis using identifiers_words [OF v(2), of "[[]]"] by (simp add: ws insert_commute)
qed

lemma parseValues_items:
  assumes "list_all value_ok ws" "list_all (\<lambda>w. w \<noteq> []) (tl ws)" "ws \<noteq> []"
  shows "\<exists>s'. parseValues ((OpenParToken, ''('') # list_items ws @ (ClosedParToken, '')'') # ts) = POk s' ts \<and> set s' = set ws"
proof (cases "ws = [[]]")
  case True
  then show ?thesis by (simp add: parseValues_def consume_def lookahead_def in_context_def word_items_def)
next
  case False
  obtain s' where s': "parseIdentifiersList [] (list_items ws @ (ClosedParToken, '')'') # ts) =
      POk s' ((ClosedParToken, '')'') # ts)" "set s' = set ws"
    using identifiers_values [OF assms False] by blast
  have first: "\<exists>it its. list_items ws = it # its \<and> (fst (in_context Values it) = IdentifierToken \<or>
      fst (in_context Values it) = CommaToken)"
  proof (cases "hd ws = []")
    case True
    then obtain v vs where "ws = [] # v # vs" using assms(3) False by (cases ws; cases "tl ws") auto
    then show ?thesis by (simp add: word_items_def comma_Values)
  next
    case ne: False
    then obtain w vs where w: "ws = w # vs" "w \<noteq> []" using assms(3) by (cases ws) auto
    then have "ident w" using assms(1) by (simp add: value_ok_def)
    then show ?thesis using list_items_first [OF w(2), of vs] word_token_Values w(1) by auto
  qed
  then obtain it its where it: "list_items ws = it # its" "fst (in_context Values it) = IdentifierToken \<or>
      fst (in_context Values it) = CommaToken" by blast
  obtain tok lit where t: "in_context Values it = (tok, lit)" by (cases "in_context Values it")
  have o: "consume Values ((OpenParToken, l) # x) = POk (OpenParToken, l) x"
    and c: "consume Values ((ClosedParToken, l) # x) = POk (ClosedParToken, l) x" for l x
    by (simp_all add: consume_def in_context_def)
  have "lookahead Values (it # x) = POk (tok, lit) (it # x)" for x by (simp add: lookahead_def t)
  then show ?thesis using s' it(2) t unfolding it(1) by (auto simp: parseValues_def o c)
qed

definition delimiter :: "item list \<Rightarrow> bool" where
  "delimiter ts \<longleftrightarrow> ts \<noteq> [] \<and> (fst (hd ts) = EndOfStringToken \<or> fst (hd ts) = CommaToken)"

lemma delimiter_Values: "delimiter ts \<Longrightarrow> \<exists>t l us. ts = (t, l) # us \<and> (t = EndOfStringToken \<or> t = CommaToken) \<and>
    in_context Values (t, l) = (t, l)"
  by (cases ts) (auto simp: delimiter_def in_context_def)

lemma set_list_values:
  "\<lbrakk>set s = set vs; sorted vs; distinct vs\<rbrakk> \<Longrightarrow> set_list s = vs"
  unfolding set_list_def by (intro sorted_distinct_set_unique) simp_all

lemma parseExactValue_items:
  assumes "value_ok v" "delimiter ts"
  shows "parseExactValue (word_items v @ ts) = POk [v] ts"
proof (cases "v = []")
  case True
  then show ?thesis using delimiter_Values [OF assms(2)]
    by (auto simp: parseExactValue_def word_items_def lookahead_def)
next
  case False
  then have "ident v" using assms(1) by (simp add: value_ok_def)
  then show ?thesis using False word_token_Values
    by (simp add: parseExactValue_def word_items_def lookahead_def consume_def)
qed

lemma parseRequirement_items:
  assumes "printable r" "built g r" "delimiter ts"
  shows "parseRequirement g (requirement_items r @ ts) = POk r ts"
proof -
  have k: "ident (r_key r)" and vs: "list_all value_ok (r_strValues r)" "sorted (r_strValues r)"
      "distinct (r_strValues r)" and arity: "arity_ok (r_operator r) (r_strValues r)"
    using assms(1) by (simp_all add: printable_def)
  have new: "NewRequirement g (r_key r) (r_operator r) (r_strValues r) = Some r" using assms(2) by (simp add: built_def)
  then have q: "IsQualifiedName (r_key r)" by (auto simp: NewRequirement_def split: if_splits)
  obtain t l us where ts: "ts = (t, l) # us" "t = EndOfStringToken \<or> t = CommaToken" "in_context Values (t, l) = (t, l)"
    using delimiter_Values [OF assms(3)] by blast
  note kv = word_token_Values [OF k]
  have vals: "set_list (r_strValues r) = r_strValues r" using vs by (intro set_list_values) auto
  consider (exists) "r_operator r = OpExists" | (absent) "r_operator r = OpDoesNotExist"
    | (among) "r_operator r = OpIn \<or> r_operator r = OpNotIn"
    | (exact) "r_operator r \<in> {OpEquals, OpDoubleEquals, OpNotEquals, OpGreaterThan, OpLessThan}"
    by (cases "r_operator r") auto
  then show ?thesis
  proof cases
    case exists
    then have "r_strValues r = []" using arity by (simp add: arity_ok_def)
    then show ?thesis using exists new q ts kv
      by (auto simp: parseRequirement_def parseKeyAndInferOperator_def requirement_items_def op_item_def consume_def
          lookahead_def)
  next
    case absent
    then have "r_strValues r = []" using arity by (simp add: arity_ok_def)
    moreover have "in_context Values (DoesNotExistToken, ''!'') = (DoesNotExistToken, ''!'')" by (simp add: in_context_def)
    ultimately show ?thesis using absent new q ts kv
      by (auto simp: parseRequirement_def parseKeyAndInferOperator_def requirement_items_def op_item_def consume_def
          lookahead_def)
  next
    case among
    then have ne: "r_strValues r \<noteq> []" using arity by (auto simp: arity_ok_def)
    obtain s' where s': "parseValues ((OpenParToken, ''('') # list_items (r_strValues r) @ (ClosedParToken, '')'') # ts) = POk s' ts"
        "set s' = set (r_strValues r)"
      using parseValues_items [OF vs(1) nonempty_tl [OF vs(2,3)] ne] by blast
    have "set_list s' = r_strValues r" using s'(2) vs(2,3) by (rule set_list_values)
    then show ?thesis using among new q kv s'(1)
      by (auto simp: parseRequirement_def parseKeyAndInferOperator_def requirement_items_def op_item_def consume_def
          lookahead_def parseOperator_def in_context_def)
  next
    case exact
    then obtain v where v: "r_strValues r = [v]" using arity by (auto simp: arity_ok_def length_Suc_conv)
    have "parseExactValue (word_items v @ ts) = POk [v] ts"
      using vs(1) v assms(3) by (intro parseExactValue_items) simp_all
    then show ?thesis using exact new q kv v vals
      by (auto simp: parseRequirement_def parseKeyAndInferOperator_def requirement_items_def op_item_def consume_def
          lookahead_def parseOperator_def in_context_def)
  qed
qed

section \<open>A printed selector\<close>

fun selector_items :: "selector \<Rightarrow> item list" where
  "selector_items [] = [(EndOfStringToken, [])]"
| "selector_items [r] = requirement_items r @ [(EndOfStringToken, [])]"
| "selector_items (r # q # rs) = requirement_items r @ (CommaToken, '','') # selector_items (q # rs)"

lemma requirement_text_first:
  assumes "printable r"
  obtains c cs where "Requirement_String r = c # cs" "plain_char c \<or> c = CHR ''!''"
proof -
  obtain a k where k: "r_key r = a # k" "plain_char a" using assms by (cases "r_key r") (auto simp: printable_def ident_def)
  show thesis
  proof (cases "r_operator r = OpDoesNotExist")
    case True
    then show thesis using that [of "CHR ''!''"] by (simp add: Requirement_String_def)
  next
    case False
    then show thesis using that [of a] k by (auto simp: Requirement_String_def split: if_splits)
  qed
qed

lemma scan_selector: "list_all printable sel \<Longrightarrow> scan (selector_String sel) = selector_items sel"
proof (induction sel rule: induct_list012)
  case 1
  then show ?case by (simp add: selector_String_def scan_end)
next
  case (2 r)
  then show ?case using scan_requirement [of r "[]"] by (simp add: selector_String_def follows_def scan_end)
next
  case (3 r q rs)
  obtain c cs where q: "Requirement_String q = c # cs" "plain_char c \<or> c = CHR ''!''"
    using requirement_text_first [of q] "3.prems" by auto
  obtain us where us: "selector_String (q # rs) = c # us" using q(1) by (cases rs) (auto simp: selector_String_def)
  have str: "selector_String (r # q # rs) = Requirement_String r @ '','' @ selector_String (q # rs)"
    by (simp add: selector_String_def)
  have "symbol_ends '','' (selector_String (q # rs))"
    unfolding us using q(2) by (auto simp: symbol_ends_def plain_char_def not_NUL [symmetric] not_NUL string2token_def)
  then have "scan ('','' @ selector_String (q # rs)) = (CommaToken, '','') # scan (selector_String (q # rs))"
    using scan_symbol1 [OF symbols(5), of CommaToken] by (simp add: string2token_def)
  moreover have "scan (Requirement_String r @ '','' @ selector_String (q # rs)) =
      requirement_items r @ scan ('','' @ selector_String (q # rs))"
    using "3.prems" by (intro scan_requirement) (simp_all add: follows_def)
  ultimately show ?case using "3.IH"(2) "3.prems" by (simp add: str)
qed

lemma requirement_items_first:
  assumes "printable r"
  obtains it its where "requirement_items r = it # its"
    "fst (in_context Values it) = IdentifierToken \<or> fst (in_context Values it) = DoesNotExistToken"
proof -
  have "ident (r_key r)" using assms by (simp add: printable_def)
  then show thesis using that word_token_Values [of "r_key r"]
    by (cases "r_operator r = OpDoesNotExist") (auto simp: requirement_items_def in_context_def)
qed

lemma parse_loop_step:
  assumes "printable r" "built g r" "delimiter ts"
  shows "parse_loop g rs (requirement_items r @ ts) =
     (if fst (hd ts) = EndOfStringToken then POk (rs @ [r]) (tl ts)
      else pbind (lookahead Values (tl ts)) (\<lambda>it2 ts4.
        if fst it2 \<noteq> IdentifierToken \<and> fst it2 \<noteq> DoesNotExistToken then PErr else parse_loop g (rs @ [r]) ts4))"
proof -
  obtain it its where it: "requirement_items r = it # its"
      "fst (in_context Values it) = IdentifierToken \<or> fst (in_context Values it) = DoesNotExistToken"
    using requirement_items_first [OF assms(1)] .
  obtain t l us where ts: "ts = (t, l) # us" "t = EndOfStringToken \<or> t = CommaToken" "in_context Values (t, l) = (t, l)"
    using delimiter_Values [OF assms(3)] by blast
  have look: "lookahead Values (requirement_items r @ ts) = POk (in_context Values it) (requirement_items r @ ts)"
    by (simp add: lookahead_def it(1))
  have eat: "consume Values ts = POk (t, l) us" by (simp add: consume_def ts)
  have hd: "fst (hd ts) = t" "tl ts = us" by (simp_all add: ts(1))
  show ?thesis using it(2) ts(2)
    by (subst parse_loop.simps) (auto simp: look eat hd parseRequirement_items [OF assms])
qed

lemma parse_loop_items:
  "\<lbrakk>list_all printable sel; list_all (built g) sel\<rbrakk> \<Longrightarrow>
   \<exists>us. parse_loop g rs (selector_items sel) = POk (rs @ sel) us"
proof (induction sel arbitrary: rs rule: induct_list012)
  case 1
  then show ?case by (subst parse_loop.simps) (simp add: lookahead_def in_context_def)
next
  case (2 r)
  then show ?case using parse_loop_step [of r g "[(EndOfStringToken, [])]" rs] by (simp add: delimiter_def)
next
  case (3 r q rs')
  obtain it its where it: "requirement_items q = it # its"
      "fst (in_context Values it) = IdentifierToken \<or> fst (in_context Values it) = DoesNotExistToken"
    using requirement_items_first [of q] "3.prems"(1) by (metis list.pred_inject(2))
  obtain us where us: "selector_items (q # rs') = it # us" using it(1) by (cases rs') auto
  have "parse_loop g rs (selector_items (r # q # rs')) = parse_loop g (rs @ [r]) (selector_items (q # rs'))"
    using parse_loop_step [of r g "(CommaToken, '','') # selector_items (q # rs')" rs] "3.prems" it(2)
    by (auto simp: delimiter_def lookahead_def us)
  then show ?case using "3.IH"(2) [of "rs @ [r]"] "3.prems" by simp
qed

lemma Parse_String:
  assumes "list_all printable sel" "list_all (built g) sel" "sort_by_key sel = sel"
  shows "\<exists>us. Parse g (selector_String sel) = POk sel us"
  using parse_loop_items [OF assms(1,2), of "[]"] assms(3) by (auto simp: Parse_def scan_selector [OF assms(1)])

section \<open>Parsed selectors are printable\<close>

definition lexed :: "item list \<Rightarrow> bool" where
  "lexed ts \<longleftrightarrow> list_all (\<lambda>(t, l). t \<in> {IdentifierToken, InToken, NotInToken} \<longrightarrow> ident l) ts"

lemma scan_id_chars: "list_all plain_char b \<Longrightarrow> list_all plain_char (fst (scan_id b s))"
proof (induction b s rule: scan_id.induct)
  case (2 b c s)
  then show ?case by (cases "c = NUL"; cases "isSpecialSymbol c \<or> isWhitespace c") (simp_all add: plain_char_def)
qed simp

lemma scan_id_nonempty: "b \<noteq> [] \<Longrightarrow> fst (scan_id b s) \<noteq> []"
  by (induction b s rule: scan_id.induct) auto

lemma special_symbols_tokens: "(b, t) \<in> set string2token \<Longrightarrow> list_all isSpecialSymbol b \<Longrightarrow>
    t \<notin> {IdentifierToken, InToken, NotInToken}"
proof -
  assume *: "(b, t) \<in> set string2token" "list_all isSpecialSymbol b"
  have "list_all (\<lambda>(b, t). list_all isSpecialSymbol b \<longrightarrow> t \<notin> {IdentifierToken, InToken, NotInToken}) string2token"
    by code_simp
  then show ?thesis using * by (auto simp: list_all_iff)
qed

lemma scan_special_tokens:
  "\<lbrakk>\<And>t l. found = Some (t, l) \<Longrightarrow> t \<notin> {IdentifierToken, InToken, NotInToken}; list_all isSpecialSymbol b;
    fst (scan_special b found s) = Some (t, l)\<rbrakk> \<Longrightarrow> t \<notin> {IdentifierToken, InToken, NotInToken}"
proof (induction s arbitrary: b found)
  case (Cons c s)
  show ?case
  proof (cases "c \<noteq> NUL \<and> isSpecialSymbol c")
    case c: True
    then have b: "list_all isSpecialSymbol (b @ [c])" using Cons.prems(2) by simp
    show ?thesis
    proof (cases "map_of string2token (b @ [c])")
      case None
      show ?thesis
      proof (cases "found = None")
        case True
        have "fst (scan_special (b @ [c]) None s) = Some (t, l)" using Cons.prems(3) c None True by (simp add: Let_def)
        then show ?thesis by (rule Cons.IH [OF _ b, rotated]) simp
      next
        case False
        then have "found = Some (t, l)" using Cons.prems(3) c None by (simp add: Let_def)
        then show ?thesis by (rule Cons.prems(1))
      qed
    next
      case (Some t')
      have "fst (scan_special (b @ [c]) (Some (t', b @ [c])) s) = Some (t, l)"
        using Cons.prems(3) c Some by (simp add: Let_def)
      then show ?thesis
        by (rule Cons.IH [OF _ b, rotated]) (use special_symbols_tokens [OF map_of_SomeD [OF Some] b] in simp)
    qed
  next
    case False
    then have "scan_special b found (c # s) = (found, if c = NUL then s else c # s)" by auto
    then have "found = Some (t, l)" using Cons.prems(3) by (simp only: fst_conv)
    then show ?thesis by (rule Cons.prems(1))
  qed
qed simp

lemma Lex_lexed:
  assumes "Lex s = ((t, l), rest)" "t \<in> {IdentifierToken, InToken, NotInToken}"
  shows "ident l"
proof -
  obtain c cs where c: "skipWhiteSpaces s = c # cs" "c \<noteq> NUL"
    using assms by (auto simp: Lex_def split: list.splits if_splits)
  have w: "\<not> isWhitespace c" using c hd_dropWhile [of isWhitespace s] by (simp add: skipWhiteSpaces_def)
  show ?thesis
  proof (cases "isSpecialSymbol c")
    case True
    then have "scanSpecialSymbol (c # cs) = ((t, l), rest)" using assms(1) c by (simp add: Lex_def)
    then have "fst (scan_special [] None (c # cs)) = Some (t, l) \<or> t = ErrorToken"
      unfolding scanSpecialSymbol_def by (cases "scan_special [] None (c # cs)") (auto simp del: scan_special.simps split: option.splits)
    then show ?thesis using assms(2) scan_special_tokens [of None "[]" "c # cs" t l] by auto
  next
    case False
    then have "scanIDOrKeyword (c # cs) = ((t, l), rest)" using assms(1) c by (simp add: Lex_def)
    then have "l = fst (scan_id [] (c # cs))"
      unfolding scanIDOrKeyword_def by (cases "scan_id [] (c # cs)") (auto simp del: scan_id.simps)
    also have "\<dots> = fst (scan_id [c] cs)" using c(2) w False by simp
    finally have l: "l = fst (scan_id [c] cs)" .
    have "list_all plain_char [c]" using c(2) w False by (simp add: plain_char_def)
    then show ?thesis unfolding l ident_def using scan_id_chars scan_id_nonempty by blast
  qed
qed

lemma scan_lexed: "lexed (scan s)"
proof (induction s rule: scan.induct)
  case (1 s)
  obtain t l rest where l: "Lex s = ((t, l), rest)" by (metis prod.collapse)
  show ?case
  proof (cases "t = EndOfStringToken")
    case True
    then show ?thesis using l by (subst scan.simps) (simp add: lexed_def)
  next
    case False
    then show ?thesis using l 1 [OF l [symmetric] refl False] Lex_lexed [OF l]
      by (subst scan.simps) (auto simp: lexed_def)
  qed
qed

lemma lexed_Cons: "lexed (it # ts) \<longleftrightarrow> (fst it \<in> {IdentifierToken, InToken, NotInToken} \<longrightarrow> ident (snd it)) \<and> lexed ts"
  by (cases it) (simp add: lexed_def)

lemma consume_lexed:
  "\<lbrakk>consume c ts = POk it us; lexed ts\<rbrakk> \<Longrightarrow> lexed us \<and> (fst it = IdentifierToken \<longrightarrow> ident (snd it))"
  by (cases ts) (auto simp: consume_def in_context_def lexed_Cons split: if_splits)

lemma lookahead_lexed: "\<lbrakk>lookahead c ts = POk it us; lexed ts\<rbrakk> \<Longrightarrow> lexed us"
  using lookahead_same by blast

lemma context_ident: "\<lbrakk>in_context Values it = (IdentifierToken, l); lexed (it # ts)\<rbrakk> \<Longrightarrow> ident l"
  by (cases it) (auto simp: in_context_def lexed_Cons split: if_splits)

lemma identifiers_lexed:
  "\<lbrakk>parseIdentifiersList s ts = POk vs us; lexed ts; list_all value_ok s\<rbrakk> \<Longrightarrow> lexed us \<and> list_all value_ok vs"
proof (induction s ts rule: parseIdentifiersList.induct)
  case IH: (2 s it ts)
  obtain tok lit where it: "in_context Values it = (tok, lit)" by (cases "in_context Values it")
  have l: "lexed ts" using IH(5) by (simp add: lexed_Cons)
  show ?case
  proof (cases ts)
    case Nil
    then show ?thesis using IH(4) it by (auto simp: parseIdentifiersList.simps(2) split: if_splits)
  next
    case (Cons it2 ts2)
    have l2: "lexed ts2" using l Cons by (simp add: lexed_Cons)
    let ?s1 = "if s = [] then [[]] else s"
    have nil: "value_ok []" by (simp add: value_ok_def)
    have s1: "list_all value_ok ?s1" using IH(6) nil by simp
    note step = IH(4) [unfolded Cons identifiers_step [OF it, of s it2 ts2]]
    consider (id) "tok = IdentifierToken" | (comma) "tok = CommaToken" using step by (auto split: if_splits)
    then show ?thesis
    proof cases
      case id
      then have lit: "value_ok lit" using context_ident [of it lit ts] it IH(5) by (simp add: value_ok_def)
      show ?thesis
      proof (cases "fst (in_context Values it2) = CommaToken")
        case True
        then have "parseIdentifiersList (lit # s) ts = POk vs us" using step id Cons by simp
        then show ?thesis using IH(1) [OF refl it [symmetric] id Cons True] l lit IH(6) Cons by simp
      next
        case False
        then show ?thesis using step id l lit IH(6) Cons by (auto split: if_splits)
      qed
    next
      case comma
      then have ni: "tok \<noteq> IdentifierToken" by simp
      consider (close) "fst (in_context Values it2) = ClosedParToken" | (again) "fst (in_context Values it2) = CommaToken"
        | (other) "fst (in_context Values it2) \<noteq> ClosedParToken" "fst (in_context Values it2) \<noteq> CommaToken" by blast
      then show ?thesis
      proof cases
        case close
        then show ?thesis using step comma l s1 nil Cons by auto
      next
        case again
        then have nc: "fst (in_context Values it2) \<noteq> ClosedParToken" by simp
        have "parseIdentifiersList ([] # ?s1) ts2 = POk vs us" using step comma again by simp
        then show ?thesis using IH(2) [OF refl it [symmetric] ni comma refl Cons nc again] l2 s1 nil by simp
      next
        case other
        have "parseIdentifiersList ?s1 ts = POk vs us" using step comma other Cons by simp
        then show ?thesis using IH(3) [OF refl it [symmetric] ni comma refl Cons other] l s1 Cons by simp
      qed
    qed
  qed
qed simp

lemma values_lexed: "\<lbrakk>parseValues ts = POk vs us; lexed ts\<rbrakk> \<Longrightarrow> lexed us \<and> list_all value_ok vs"
  unfolding parseValues_def
  by (auto simp: pbind_POk value_ok_def split: prod.splits if_splits dest!: consume_lexed lookahead_lexed identifiers_lexed)

lemma exact_lexed: "\<lbrakk>parseExactValue ts = POk vs us; lexed ts\<rbrakk> \<Longrightarrow> lexed us \<and> list_all value_ok vs"
  unfolding parseExactValue_def
  by (auto simp: pbind_POk value_ok_def split: prod.splits if_splits dest!: consume_lexed lookahead_lexed)

lemma operator_lexed: "\<lbrakk>parseOperator ts = POk op us; lexed ts\<rbrakk> \<Longrightarrow> lexed us"
proof -
  assume ts: "parseOperator ts = POk op us" "lexed ts"
  then obtain tok lit ts1 where c: "consume KeyAndOperator ts = POk (tok, lit) ts1"
    by (auto simp: parseOperator_def pbind_POk)
  then have "us = ts1" using ts(1) by (cases tok) (simp_all add: parseOperator_def)
  then show ?thesis using consume_lexed [OF c ts(2)] by simp
qed

lemma key_lexed: "\<lbrakk>parseKeyAndInferOperator ts = POk (key, inferred) us; lexed ts\<rbrakk> \<Longrightarrow> lexed us \<and> ident key"
  unfolding parseKeyAndInferOperator_def
  by (auto simp: pbind_POk Let_def split: prod.splits if_splits dest!: consume_lexed lookahead_lexed)

lemma arguments_lexed:
  "\<lbrakk>(if b then parseValues ts else parseExactValue ts) = POk vs us; lexed ts\<rbrakk> \<Longrightarrow> lexed us \<and> list_all value_ok vs"
  using values_lexed exact_lexed by (cases b) simp_all

lemma set_list_printable: "list_all value_ok vs \<Longrightarrow> list_all value_ok (set_list vs) \<and> sorted (set_list vs) \<and> distinct (set_list vs)"
  by (simp add: set_list_def list_all_iff)

lemma NewRequirement_fields:
  "NewRequirement g key op vs = Some r \<Longrightarrow> r_key r = key \<and> r_operator r = op \<and> r_strValues r = vs"
  by (auto simp: NewRequirement_def split: if_splits option.splits)

lemma new_printable:
  assumes "NewRequirement g key op vs = Some r" "ident key" "list_all value_ok vs" "sorted vs" "distinct vs"
  shows "printable r"
  using assms NewRequirement_fields [OF assms(1)] built_arity [OF NewRequirement_built [OF assms(1)]]
  by (simp add: printable_def)

lemma requirement_lexed:
  assumes "parseRequirement g ts = POk r us" "lexed ts"
  shows "lexed us \<and> printable r"
proof -
  obtain key inferred ts1 where k: "parseKeyAndInferOperator ts = POk (key, inferred) ts1"
    using assms(1) by (auto simp: parseRequirement_def pbind_POk)
  have key: "lexed ts1" "ident key" using key_lexed [OF k assms(2)] by simp_all
  show ?thesis
  proof (cases inferred)
    case (Some op)
    then have "NewRequirement g key op [] = Some r" "us = ts1"
      using assms(1) k by (auto simp: parseRequirement_def split: option.splits)
    then show ?thesis using key new_printable by simp
  next
    case None
    then obtain op ts2 vs where o: "parseOperator ts1 = POk op ts2"
        and v: "(if op = OpIn \<or> op = OpNotIn then parseValues ts2 else parseExactValue ts2) = POk vs us"
        and r: "NewRequirement g key op (set_list vs) = Some r"
      using assms(1) k by (auto simp: parseRequirement_def pbind_POk split: option.splits)
    have "lexed us" "list_all value_ok vs" using arguments_lexed [OF v operator_lexed [OF o key(1)]] by simp_all
    then show ?thesis using new_printable [OF r key(2)] set_list_printable by blast
  qed
qed

lemma parse_loop_printable:
  "\<lbrakk>parse_loop g rs ts = POk sel us; lexed ts; \<forall>r \<in> set rs. printable r\<rbrakk> \<Longrightarrow> \<forall>r \<in> set sel. printable r"
proof (induction g rs ts arbitrary: sel us rule: parse_loop.induct)
  case (1 g rs ts)
  from "1.prems"(1) obtain it ts1 where look: "lookahead Values ts = POk it ts1"
    by (subst (asm) parse_loop.simps) (auto simp: pbind_POk)
  have l1: "lexed ts1" using lookahead_lexed [OF look "1.prems"(2)] .
  show ?case
  proof (cases "fst it = IdentifierToken \<or> fst it = DoesNotExistToken")
    case True
    then obtain r ts2 t ts3 where r: "parseRequirement g ts1 = POk r ts2"
        and c: "consume Values ts2 = POk t ts3"
        and rest: "(if fst t = EndOfStringToken then POk (rs @ [r]) ts3
          else if fst t = CommaToken then pbind (lookahead Values ts3) (\<lambda>it2 ts4.
            if fst it2 \<noteq> IdentifierToken \<and> fst it2 \<noteq> DoesNotExistToken then PErr
            else parse_loop g (rs @ [r]) ts4) else PErr) = POk sel us"
      using "1.prems"(1) look by (subst (asm) parse_loop.simps) (auto simp: pbind_POk)
    have b: "\<forall>x \<in> set (rs @ [r]). printable x" and l3: "lexed ts3"
      using requirement_lexed [OF r l1] consume_lexed [OF c] "1.prems"(3) by auto
    show ?thesis
    proof (cases "fst t = CommaToken")
      case comma: True
      then obtain t2 ts4 where l: "lookahead Values ts3 = POk t2 ts4"
          and t2: "\<not> (fst t2 \<noteq> IdentifierToken \<and> fst t2 \<noteq> DoesNotExistToken)"
          and p: "parse_loop g (rs @ [r]) ts4 = POk sel us"
        using rest by (auto simp: pbind_POk split: if_splits)
      show ?thesis by (rule "1.IH" [OF look True r c _ comma l t2 p lookahead_lexed [OF l l3] b]) (use comma in simp)
    next
      case False
      then show ?thesis using rest b by (auto split: if_splits)
    qed
  next
    case False
    then show ?thesis using "1.prems"(1,3) look by (subst (asm) parse_loop.simps) (auto split: if_splits)
  qed
qed

lemma Parse_printable: "Parse g s = POk sel us \<Longrightarrow> \<forall>r \<in> set sel. printable r"
  using parse_loop_printable [OF _ scan_lexed, of g "[]" s] by (auto simp: Parse_def pbind_POk sort_by_key_def)

text \<open>A selector which was parsed can be printed and parsed again: the second parse succeeds, and
  gives the same requirements in the same order, whatever glob compiler is in use.\<close>

theorem selector_text_roundtrip:
  assumes "Parse g s = POk sel us"
  shows "\<exists>vs. Parse g (selector_String sel) = POk sel vs"
proof (rule Parse_String)
  show "list_all printable sel" using Parse_printable [OF assms] by (simp add: list_all_iff)
  show "list_all (built g) sel" using Parse_built [OF assms] by (simp add: list_all_iff)
  show "sort_by_key sel = sel" using assms by (auto simp: Parse_def pbind_POk sort_by_key_def sort_key_id_if_sorted)
qed

lemma selector_text_roundtrip_witness:
  "\<exists>sel vs. Parse example_glob '' tier notin (b,,a) , app ,!old'' = POk sel vs \<and>
     (\<exists>ws. Parse example_glob (selector_String sel) = POk sel ws)"
proof -
  have "p_ok (Parse example_glob '' tier notin (b,,a) , app ,!old'')" by code_simp
  then obtain sel vs where p: "Parse example_glob '' tier notin (b,,a) , app ,!old'' = POk sel vs"
    by (cases "Parse example_glob '' tier notin (b,,a) , app ,!old''") simp_all
  then show ?thesis using selector_text_roundtrip [OF p] by blast
qed

end
