(* ===== verification/Labels_Sorting.thy ===== *)
theory Labels_Sorting
  imports Labels_Roundtrip "HOL-Library.Multiset"
begin

text \<open>
  Selectors under an unspecified sort: \<open>sort.Sort\<close>, as \<open>pkg/labels/selector.go\<close> uses it, promises a
  permutation whose keys ascend and nothing about the order of requirements with the same key.  \<open>Labels\<close>
  and \<open>Labels_Parser\<close> use the stable sort; here the sort is a parameter with the documented contract, and
  what the operations return is shown not to depend on it beyond that order.
\<close>

section \<open>The operations that sort, with the sort as a parameter\<close>

definition Parse_with ::
  "(requirement list \<Rightarrow> selector) \<Rightarrow> (string \<Rightarrow> (string \<Rightarrow> bool) option) \<Rightarrow> string \<Rightarrow> selector presult" where
  "Parse_with srt g selector = pbind (parse_loop g [] (scan selector)) (\<lambda>items ts. POk (srt items) ts)"

definition Add_with :: "(requirement list \<Rightarrow> selector) \<Rightarrow> selector \<Rightarrow> requirement list \<Rightarrow> selector" where
  "Add_with srt s reqs = srt (s @ reqs)"

lemma stable_instances: "Parse_with sort_by_key = Parse" "Add_with sort_by_key = selector_Add"
  by (simp_all add: fun_eq_iff Parse_with_def Parse_def Add_with_def selector_Add_def)

section \<open>The contract of the sort\<close>

locale key_sort =
  fixes srt :: "requirement list \<Rightarrow> selector"
  assumes permutes: "\<And>rs. mset (srt rs) = mset rs"
    and ascends: "\<And>rs. sorted (map r_key (srt rs))"
begin

lemma same_set [simp]: "set (srt rs) = set rs"
  by (rule mset_eq_setD [OF permutes])

lemma keys: "map r_key (srt rs) = sort (map r_key rs)"
  by (rule properties_for_sort [symmetric]) (simp_all add: permutes ascends)

lemma Matches [simp]: "selector_Matches (srt rs) m \<longleftrightarrow> selector_Matches rs m"
  by (simp add: selector_Matches_def list_all_iff)

text \<open>Requirements with different keys leave the sort no choice.\<close>

lemma unique:
  assumes "distinct (map r_key rs)" "mset ys = mset rs" "sorted (map r_key ys)"
  shows "srt rs = ys"
proof (rule map_inj_on)
  show "map r_key (srt rs) = map r_key ys"
    using assms(2,3) properties_for_sort [of "map r_key ys" "map r_key rs"] by (simp add: keys)
  show "inj_on r_key (set (srt rs) \<union> set ys)"
    using assms(1) mset_eq_setD [OF assms(2)] by (simp add: distinct_map)
qed

lemma distinct_stable: "distinct (map r_key rs) \<Longrightarrow> srt rs = sort_by_key rs"
  by (rule unique) (simp_all add: sort_by_key_def)

lemma Add_Matches: "selector_Matches (Add_with srt s reqs) m \<longleftrightarrow> selector_Matches (selector_Add s reqs) m"
  by (simp add: Add_with_def selector_Add_def sort_by_key_def) (simp add: selector_Matches_def list_all_iff)

lemma Parse_items:
  assumes "Parse_with srt g s = POk sel us"
  obtains items where "parse_loop g [] (scan s) = POk items us" "sel = srt items" "Parse g s = POk (sort_by_key items) us"
  using assms by (auto simp: Parse_with_def Parse_def pbind_POk)

lemma Parse_stable:
  assumes "Parse_with srt g s = POk sel us"
  shows "\<exists>sel0. Parse g s = POk sel0 us \<and> mset sel0 = mset sel \<and> (\<forall>m. selector_Matches sel0 m \<longleftrightarrow> selector_Matches sel m)"
proof -
  obtain items where "sel = srt items" "Parse g s = POk (sort_by_key items) us" using Parse_items [OF assms] .
  then show ?thesis
    by (simp add: sort_by_key_def permutes) (simp add: selector_Matches_def list_all_iff)
qed

lemma roundtrip:
  assumes "Parse_with srt g s = POk sel us"
  shows "\<exists>vs. Parse_with srt g (selector_String sel) = POk (srt sel) vs"
proof -
  obtain sel0 where p: "Parse g s = POk sel0 us" "mset sel0 = mset sel" using Parse_stable [OF assms] by blast
  have "list_all printable sel" "list_all (built g) sel"
    using Parse_printable [OF p(1)] Parse_built [OF p(1)] mset_eq_setD [OF p(2)] by (simp_all add: list_all_iff)
  then show ?thesis
    using parse_loop_items [of sel g "[]"] by (auto simp: Parse_with_def scan_selector)
qed

lemma resorted:
  assumes "sorted (map r_key sel)"
  shows "map r_key (srt sel) = map r_key sel" "distinct (map r_key sel) \<Longrightarrow> srt sel = sel"
  using assms unique by (simp_all add: keys sorted_sort_id)

lemma Parse_sorted: "Parse_with srt g s = POk sel us \<Longrightarrow> sorted (map r_key sel)"
  by (elim Parse_items) (simp add: ascends)

end

interpretation stable: key_sort sort_by_key
  by unfold_locales (simp_all add: sort_by_key_def)

section \<open>The selector of a label set\<close>

text \<open>The loop of \<open>SelectorFromValidatedSet\<close> visits the labels in an unspecified order; \<open>ks\<close> is that
  order.  The sort then leaves one result.\<close>

definition SelectorFromSet_with :: "(requirement list \<Rightarrow> selector) \<Rightarrow> string list \<Rightarrow> go_map \<Rightarrow> selector" where
  "SelectorFromSet_with srt ks ls =
     (if fmdom ls = {||} then []
      else srt (map (\<lambda>k. \<lparr>r_key = k, r_operator = OpEquals, r_strValues = [Get ls k], r_globMatcher = None\<rparr>) ks))"

lemma SelectorFromSet_deterministic:
  assumes "key_sort srt" "distinct ks" "set ks = fset (fmdom ls)"
  shows "SelectorFromSet_with srt ks ls = SelectorFromSet ls"
proof -
  let ?req = "\<lambda>k. \<lparr>r_key = k, r_operator = OpEquals, r_strValues = [Get ls k], r_globMatcher = None\<rparr>"
  have "mset ks = mset (map_keys ls)"
    using assms(2,3) by (subst set_eq_iff_mset_eq_distinct [symmetric])
      (simp_all add: map_keys_def sorted_list_of_fset.rep_eq)
  then have "mset (map ?req ks) = mset (map ?req (map_keys ls))" by simp
  then have "mset (sort_by_key (map ?req (map_keys ls))) = mset (map ?req ks)" by (simp add: sort_by_key_def)
  moreover have "distinct (map r_key (map ?req ks))" using assms(2) by (simp add: comp_def)
  ultimately have "srt (map ?req ks) = sort_by_key (map ?req (map_keys ls))"
    using key_sort.unique [OF assms(1)] stable.ascends by blast
  then show ?thesis by (simp add: SelectorFromSet_with_def SelectorFromSet_def SelectorFromValidatedSet_def)
qed

section \<open>The text of a selector, whatever the sort\<close>

text \<open>C19: A selector which was parsed can be printed and parsed again, whatever the sort does with
  requirements of the same key (\<open>sort.Sort\<close> is not stable), and whatever the glob compiler.  The second parse
  succeeds with the same requirements under the same keys in the same places, hence with the same selector
  when the keys differ, and with one that matches the same labels in any case; and both agree with the
  stable sort of the model on what is parsed and on what matches.\<close>

theorem selector_text_roundtrip_any_sort:
  assumes "\<And>rs. mset (srt rs) = mset rs" "\<And>rs. sorted (map r_key (srt rs))"
    and "Parse_with srt g s = POk sel us"
  shows "\<exists>sel' vs sel0. Parse_with srt g (selector_String sel) = POk sel' vs \<and> mset sel' = mset sel \<and>
           map r_key sel' = map r_key sel \<and> (distinct (map r_key sel) \<longrightarrow> sel' = sel) \<and>
           Parse g s = POk sel0 us \<and> mset sel0 = mset sel \<and>
           (\<forall>m. selector_Matches sel' m = selector_Matches sel m \<and> selector_Matches sel0 m = selector_Matches sel m)"
proof -
  have k: "key_sort srt" using assms(1,2) by (rule key_sort.intro)
  show ?thesis
    using key_sort.roundtrip [OF k assms(3)] key_sort.Parse_stable [OF k assms(3)]
      key_sort.resorted [OF k key_sort.Parse_sorted [OF k assms(3)]] key_sort.Matches [OF k] assms(1)
    by blast
qed

lemma selector_text_roundtrip_any_sort_witness:
  "\<exists>sel vs sel' ws sel0. Parse_with sort_by_key example_glob '' tier notin (b,,a) , app ,!old'' = POk sel vs \<and>
     Parse_with sort_by_key example_glob (selector_String sel) = POk sel' ws \<and> mset sel' = mset sel \<and>
     Parse example_glob '' tier notin (b,,a) , app ,!old'' = POk sel0 vs"
proof -
  have "p_ok (Parse example_glob '' tier notin (b,,a) , app ,!old'')" by code_simp
  then obtain sel vs where p: "Parse_with sort_by_key example_glob '' tier notin (b,,a) , app ,!old'' = POk sel vs"
    by (cases "Parse example_glob '' tier notin (b,,a) , app ,!old''") (simp_all add: stable_instances)
  show ?thesis using p selector_text_roundtrip_any_sort [OF stable.permutes stable.ascends p] by blast
qed

end
