(* ===== verification/Config.thy ===== *)
theory Config
  imports Kube_Types Labels_Parser
begin

text \<open>
  The operator's configuration (package \<open>config\<close>): selectors, injection rules and their set-up,
  the conversion of the deprecated configuration, the resource strings and the image pull policy.
  Regular expressions (\<open>regexp.Compile\<close>), globs, \<open>resource.ParseQuantity\<close> and the JSON decoding
  of the configuration text are parameters.  An embedded Go struct is the parent of the record, so that the
  code shared by all rules is polymorphic in the record extension, as \<open>injectRule\<close> is in the
  source.  A nil rule pointer is \<open>None\<close>.
\<close>

section \<open>Resources and pull policy\<close>

record resource_quota =
  rq_CPU :: string
  rq_Memory :: string

record resource_config =
  rc_Requests :: resource_quota
  rc_Limits :: resource_quota

definition defaultResourceRequirements :: resource_config where
  "defaultResourceRequirements =
     \<lparr>rc_Requests = \<lparr>rq_CPU = ''100m'', rq_Memory = ''64Mi''\<rparr>,
      rc_Limits = \<lparr>rq_CPU = ''500m'', rq_Memory = ''512Mi''\<rparr>\<rparr>"

definition resources_Nil :: "resource_config \<Rightarrow> bool" where
  "resources_Nil r \<longleftrightarrow> rq_CPU (rc_Requests r) = [] \<and> rq_Memory (rc_Requests r) = [] \<and>
     rq_CPU (rc_Limits r) = [] \<and> rq_Memory (rc_Limits r) = []"

text \<open>True when \<open>Verify\<close> returns no error.\<close>

definition resources_Verify :: "(string \<Rightarrow> quantity option) \<Rightarrow> resource_config \<Rightarrow> bool" where
  "resources_Verify parse_quantity r =
     (if rq_CPU (rc_Requests r) \<noteq> [] \<and> parse_quantity (rq_CPU (rc_Requests r)) = None then False
      else if rq_Memory (rc_Requests r) \<noteq> [] \<and> parse_quantity (rq_Memory (rc_Requests r)) = None then False
      else if rq_CPU (rc_Limits r) \<noteq> [] \<and> parse_quantity (rq_CPU (rc_Limits r)) = None then False
      else if rq_Memory (rc_Limits r) \<noteq> [] \<and> parse_quantity (rq_Memory (rc_Limits r)) = None then False
      else True)"

definition PullPolicy_Value :: "string \<Rightarrow> string" where
  "PullPolicy_Value p =
     (if p = ''Always'' \<or> p = ''IfNotPresent'' \<or> p = ''Never'' then p else ''Always'')"

text \<open>\<open>UnmarshalJSON\<close> never fails: a value that is not a JSON string keeps its raw text.\<close>

definition PullPolicy_UnmarshalJSON :: "(string \<Rightarrow> string option) \<Rightarrow> string \<Rightarrow> string" where
  "PullPolicy_UnmarshalJSON json_string data =
     (case json_string data of None \<Rightarrow> data | Some value \<Rightarrow> value)"

section \<open>Selectors of a rule\<close>

record selector_config =
  s_Namespaces :: "string list"
  s_Labels :: "string list"
  s_namespaceSelectors :: "(string \<Rightarrow> bool) list"
  s_labelSelectors :: "selector list"

definition replaceAsteriskWithDotAsterisk :: "string \<Rightarrow> string" where
  "replaceAsteriskWithDotAsterisk s = (if s = ''*'' then ''.*'' else s)"

fun namespace_selectors :: "(string \<Rightarrow> (string \<Rightarrow> bool) option) \<Rightarrow> string list \<Rightarrow> (string \<Rightarrow> bool) list" where
  "namespace_selectors compile [] = []"
| "namespace_selectors compile (namespaceSelector # rest) =
     (if trim_space namespaceSelector = [] then namespace_selectors compile rest
      else case compile (replaceAsteriskWithDotAsterisk namespaceSelector) of
             None \<Rightarrow> namespace_selectors compile rest
           | Some re \<Rightarrow> re # namespace_selectors compile rest)"

fun label_selectors :: "(string \<Rightarrow> (string \<Rightarrow> bool) option) \<Rightarrow> string list \<Rightarrow> selector list" where
  "label_selectors glob [] = []"
| "label_selectors glob (labelSelector # rest) =
     (case Parse glob labelSelector of
        POk p _ \<Rightarrow> if selector_Empty p then label_selectors glob rest else p # label_selectors glob rest
      | _ \<Rightarrow> label_selectors glob rest)"

definition selector_setup ::
  "(string \<Rightarrow> (string \<Rightarrow> bool) option) \<Rightarrow> (string \<Rightarrow> (string \<Rightarrow> bool) option) \<Rightarrow>
   'a selector_config_scheme \<Rightarrow> 'a selector_config_scheme" where
  "selector_setup compile glob s =
     s\<lparr>s_namespaceSelectors := namespace_selectors compile (s_Namespaces s),
       s_labelSelectors := label_selectors glob (s_Labels s)\<rparr>"

definition matchNamespace :: "'a selector_config_scheme \<Rightarrow> string \<Rightarrow> bool" where
  "matchNamespace s ns \<longleftrightarrow> list_ex (\<lambda>re. re ns) (s_namespaceSelectors s)"

definition matchLabels :: "'a selector_config_scheme \<Rightarrow> go_map \<Rightarrow> bool" where
  "matchLabels s m \<longleftrightarrow> list_ex (\<lambda>se. selector_Matches se m) (s_labelSelectors s)"

section \<open>Injection rules\<close>

record inject_rule = selector_config +
  ir_Name :: string
  ir_Image :: string
  ir_ImagePullPolicy :: string
  ir_Environments :: "(json \<times> json) list option"
  ir_Resources :: resource_config
  ir_Envs :: "(string \<times> string) list"

record ddtrace_rule = inject_rule +
  dd_CheckAnnotation :: bool
  dd_Language :: string
  dd_PHPLoaderFlavor :: string

record otel_rule = inject_rule +
  ot_CheckAnnotation :: bool
  ot_Language :: string

record logfwd_rule = inject_rule +
  lf_CheckAnnotation :: bool
  lf_LogConfigs :: string
  lf_LogVolumePaths :: "string list"

record flameshot_rule = inject_rule +
  fl_Processes :: string
  fl_EnablePrometheusAnnotations :: bool

record profiler_rule = inject_rule +
  pr_CheckAnnotation :: bool
  pr_Language :: string
  pr_Images :: "(string, string) fmap"

record mutate_rule = selector_config +
  mu_Config :: string

fun string_entries :: "(json \<times> json) list \<Rightarrow> (string \<times> string) list" where
  "string_entries [] = []"
| "string_entries ((JStr key, JStr value) # rest) = (key, value) # string_entries rest"
| "string_entries (_ # rest) = string_entries rest"

definition setupEnvs :: "'a inject_rule_scheme \<Rightarrow> 'a inject_rule_scheme" where
  "setupEnvs r = r\<lparr>ir_Envs := ir_Envs r @ string_entries (case ir_Environments r of None \<Rightarrow> [] | Some e \<Rightarrow> e)\<rparr>"

definition setupInjectRule ::
  "(string \<Rightarrow> (string \<Rightarrow> bool) option) \<Rightarrow> (string \<Rightarrow> (string \<Rightarrow> bool) option) \<Rightarrow>
   (string \<Rightarrow> quantity option) \<Rightarrow> 'a inject_rule_scheme \<Rightarrow> 'a inject_rule_scheme" where
  "setupInjectRule compile glob parse_quantity rule =
     (let rule1 = (if resources_Nil (ir_Resources rule)
                   then rule\<lparr>ir_Resources := defaultResourceRequirements\<rparr>
                   else if \<not> resources_Verify parse_quantity (ir_Resources rule)
                   then rule\<lparr>ir_Resources := defaultResourceRequirements\<rparr> else rule)
      in setupEnvs (selector_setup compile glob rule1))"

definition setupInjectRules ::
  "(string \<Rightarrow> (string \<Rightarrow> bool) option) \<Rightarrow> (string \<Rightarrow> (string \<Rightarrow> bool) option) \<Rightarrow>
   (string \<Rightarrow> quantity option) \<Rightarrow> 'a inject_rule_scheme option list \<Rightarrow> 'a inject_rule_scheme option list" where
  "setupInjectRules compile glob parse_quantity rs =
     map (map_option (setupInjectRule compile glob parse_quantity)) rs"

definition injectRuleMatches :: "'a inject_rule_scheme \<Rightarrow> string \<Rightarrow> go_map \<Rightarrow> bool" where
  "injectRuleMatches rule ns labels =
     (if s_Namespaces rule = [] \<and> s_Labels rule = [] then False
      else if s_Namespaces rule \<noteq> [] \<and> s_namespaceSelectors rule = [] then False
      else if s_Labels rule \<noteq> [] \<and> s_labelSelectors rule = [] then False
      else (if s_namespaceSelectors rule \<noteq> [] then matchNamespace rule ns else True) \<and>
           (if s_labelSelectors rule \<noteq> [] then matchLabels rule labels else True))"

fun matchInjectRule ::
  "'a inject_rule_scheme option list \<Rightarrow> string \<Rightarrow> go_map \<Rightarrow> 'a inject_rule_scheme option" where
  "matchInjectRule [] ns labels = None"
| "matchInjectRule (None # rs) ns labels = matchInjectRule rs ns labels"
| "matchInjectRule (Some rule # rs) ns labels =
     (if injectRuleMatches rule ns labels then Some rule else matchInjectRule rs ns labels)"

fun matchAllInjectRules ::
  "'a inject_rule_scheme option list \<Rightarrow> string \<Rightarrow> go_map \<Rightarrow> 'a inject_rule_scheme list" where
  "matchAllInjectRules [] ns labels = []"
| "matchAllInjectRules (None # rs) ns labels = matchAllInjectRules rs ns labels"
| "matchAllInjectRules (Some rule # rs) ns labels =
     (if injectRuleMatches rule ns labels then rule # matchAllInjectRules rs ns labels
      else matchAllInjectRules rs ns labels)"

definition MutateRules_Setup ::
  "(string \<Rightarrow> (string \<Rightarrow> bool) option) \<Rightarrow> (string \<Rightarrow> (string \<Rightarrow> bool) option) \<Rightarrow>
   mutate_rule option list \<Rightarrow> mutate_rule option list" where
  "MutateRules_Setup compile glob rs = map (map_option (selector_setup compile glob)) rs"

fun MutateRules_Matches :: "mutate_rule option list \<Rightarrow> string \<Rightarrow> go_map \<Rightarrow> mutate_rule option" where
  "MutateRules_Matches [] ns labels = None"
| "MutateRules_Matches (None # rs) ns labels = MutateRules_Matches rs ns labels"
| "MutateRules_Matches (Some rule # rs) ns labels =
     (if matchNamespace rule ns \<and> matchLabels rule labels then Some rule
      else MutateRules_Matches rs ns labels)"

section \<open>The deprecated configuration\<close>

definition DeprecatedDDTraceJavaImageKey :: string where
  "DeprecatedDDTraceJavaImageKey = ''java_agent_image''"

definition DeprecatedLogfwdImageKey :: string where
  "DeprecatedLogfwdImageKey = ''logfwd_image''"

record deprecated_rule =
  dp_EnabledNamespaces :: "(string \<times> string) list"
  dp_EnabledLabelSelectors :: "(string \<times> string) list"
  dp_Images :: "(string, string) fmap"
  dp_Environments :: "(json \<times> json) list option"
  dp_Resources :: resource_config

record deprecated_config =
  dc_DDTrace :: deprecated_rule
  dc_Logfwd :: deprecated_rule
  dc_Profiler :: deprecated_rule

definition convertDeprecatedInjectRule :: "deprecated_rule \<Rightarrow> string \<Rightarrow> inject_rule option" where
  "convertDeprecatedInjectRule deprecated imageKey =
     (let namespaces = filter (\<lambda>n. n \<noteq> []) (map fst (dp_EnabledNamespaces deprecated));
          labels = filter (\<lambda>l. l \<noteq> []) (map fst (dp_EnabledLabelSelectors deprecated));
          image = Get (dp_Images deprecated) imageKey;
          rule = \<lparr>s_Namespaces = namespaces, s_Labels = labels, s_namespaceSelectors = [], s_labelSelectors = [],
                   ir_Name = ''Used InjectV1 Config'', ir_Image = image, ir_ImagePullPolicy = [],
                   ir_Environments = dp_Environments deprecated, ir_Resources = dp_Resources deprecated,
                   ir_Envs = []\<rparr>
      in if namespaces = [] \<and> labels = [] \<and> (image \<noteq> [] \<or> dp_Environments deprecated \<noteq> None)
         then Some (rule\<lparr>s_Namespaces := [''.*''], s_Labels := []\<rparr>)
         else if namespaces = [] \<and> labels = [] then None
         else Some rule)"

definition convertDeprecatedToDDTraceRules :: "deprecated_rule \<Rightarrow> ddtrace_rule option list" where
  "convertDeprecatedToDDTraceRules deprecated =
     (case convertDeprecatedInjectRule deprecated DeprecatedDDTraceJavaImageKey of
        None \<Rightarrow> []
      | Some rule \<Rightarrow> [Some (inject_rule.extend rule
          (ddtrace_rule.fields True ''java'' []))])"

definition convertDeprecatedToLogfwdRules :: "deprecated_rule \<Rightarrow> logfwd_rule option list" where
  "convertDeprecatedToLogfwdRules deprecated =
     (case convertDeprecatedInjectRule deprecated DeprecatedLogfwdImageKey of
        None \<Rightarrow> []
      | Some rule \<Rightarrow> [Some (inject_rule.extend rule (logfwd_rule.fields True [] []))])"

definition convertDeprecatedToProfilerRules :: "deprecated_rule \<Rightarrow> profiler_rule option list" where
  "convertDeprecatedToProfilerRules deprecated =
     (case convertDeprecatedInjectRule deprecated [] of
        None \<Rightarrow> []
      | Some rule \<Rightarrow> [Some (inject_rule.extend rule
          (profiler_rule.fields True [] (dp_Images deprecated)))])"

section \<open>The whole configuration\<close>

record admission_inject =
  ai_DDTraces :: "ddtrace_rule option list"
  ai_OTels :: "otel_rule option list"
  ai_Logfwds :: "logfwd_rule option list"
  ai_Flameshots :: "flameshot_rule option list"
  ai_Profilers :: "profiler_rule option list"

definition convertDeprecatedToAdmissionInject :: "deprecated_config \<Rightarrow> admission_inject" where
  "convertDeprecatedToAdmissionInject cfg =
     \<lparr>ai_DDTraces = convertDeprecatedToDDTraceRules (dc_DDTrace cfg), ai_OTels = [],
      ai_Logfwds = convertDeprecatedToLogfwdRules (dc_Logfwd cfg), ai_Flameshots = [],
      ai_Profilers = convertDeprecatedToProfilerRules (dc_Profiler cfg)\<rparr>"

record configuration =
  cf_ServerListen :: string
  cf_LogLevel :: string
  cf_AdmissionInject :: admission_inject
  cf_AdmissionMutate :: "mutate_rule option list"
  cf_Deprecated :: deprecated_config

definition no_deprecated_rule :: deprecated_rule where
  "no_deprecated_rule = \<lparr>dp_EnabledNamespaces = [], dp_EnabledLabelSelectors = [], dp_Images = fmempty,
     dp_Environments = None,
     dp_Resources = \<lparr>rc_Requests = \<lparr>rq_CPU = [], rq_Memory = []\<rparr>, rc_Limits = \<lparr>rq_CPU = [], rq_Memory = []\<rparr>\<rparr>\<rparr>"

definition initDefaultConfiguration :: configuration where
  "initDefaultConfiguration =
     \<lparr>cf_ServerListen = '':9543'', cf_LogLevel = ''info'',
      cf_AdmissionInject = \<lparr>ai_DDTraces = [], ai_OTels = [], ai_Logfwds = [], ai_Flameshots = [], ai_Profilers = []\<rparr>,
      cf_AdmissionMutate = [],
      cf_Deprecated = \<lparr>dc_DDTrace = no_deprecated_rule, dc_Logfwd = no_deprecated_rule,
        dc_Profiler = no_deprecated_rule\<rparr>\<rparr>"

definition isValidDeprecatedRule :: "deprecated_rule \<Rightarrow> bool" where
  "isValidDeprecatedRule rule \<longleftrightarrow>
     fmdom (dp_Images rule) \<noteq> {||} \<or> (case dp_Environments rule of None \<Rightarrow> False | Some e \<Rightarrow> e \<noteq> [])"

definition hasValidDeprecatedConfig :: "configuration \<Rightarrow> bool" where
  "hasValidDeprecatedConfig c \<longleftrightarrow>
     isValidDeprecatedRule (dc_DDTrace (cf_Deprecated c)) \<or>
     isValidDeprecatedRule (dc_Logfwd (cf_Deprecated c)) \<or>
     isValidDeprecatedRule (dc_Profiler (cf_Deprecated c))"

definition AdmissionInject_Setup ::
  "(string \<Rightarrow> (string \<Rightarrow> bool) option) \<Rightarrow> (string \<Rightarrow> (string \<Rightarrow> bool) option) \<Rightarrow>
   (string \<Rightarrow> quantity option) \<Rightarrow> admission_inject \<Rightarrow> admission_inject" where
  "AdmissionInject_Setup compile glob parse_quantity c =
     \<lparr>ai_DDTraces = setupInjectRules compile glob parse_quantity (ai_DDTraces c),
      ai_OTels = setupInjectRules compile glob parse_quantity (ai_OTels c),
      ai_Logfwds = setupInjectRules compile glob parse_quantity (ai_Logfwds c),
      ai_Flameshots = setupInjectRules compile glob parse_quantity (ai_Flameshots c),
      ai_Profilers = setupInjectRules compile glob parse_quantity (ai_Profilers c)\<rparr>"

definition take_deprecated :: "configuration \<Rightarrow> admission_inject" where
  "take_deprecated c =
     (let converted = convertDeprecatedToAdmissionInject (cf_Deprecated c);
          a0 = cf_AdmissionInject c;
          a1 = (if isValidDeprecatedRule (dc_DDTrace (cf_Deprecated c))
                then a0\<lparr>ai_DDTraces := ai_DDTraces converted\<rparr> else a0);
          a2 = (if isValidDeprecatedRule (dc_Logfwd (cf_Deprecated c))
                then a1\<lparr>ai_Logfwds := ai_Logfwds converted\<rparr> else a1)
      in if isValidDeprecatedRule (dc_Profiler (cf_Deprecated c))
         then a2\<lparr>ai_Profilers := ai_Profilers converted\<rparr> else a2)"

text \<open>\<open>Setup\<close> has no failing branch: all its callees return nil.\<close>

definition Configuration_Setup ::
  "(string \<Rightarrow> (string \<Rightarrow> bool) option) \<Rightarrow> (string \<Rightarrow> (string \<Rightarrow> bool) option) \<Rightarrow>
   (string \<Rightarrow> quantity option) \<Rightarrow> configuration \<Rightarrow> configuration" where
  "Configuration_Setup compile glob parse_quantity c =
     (let c1 = (if hasValidDeprecatedConfig c then c\<lparr>cf_AdmissionInject := take_deprecated c\<rparr> else c)
      in c1\<lparr>cf_AdmissionInject := AdmissionInject_Setup compile glob parse_quantity (cf_AdmissionInject c1),
            cf_AdmissionMutate := MutateRules_Setup compile glob (cf_AdmissionMutate c1)\<rparr>)"

definition parseConfig ::
  "(string \<Rightarrow> configuration \<Rightarrow> configuration option) \<Rightarrow> (configuration \<Rightarrow> configuration) \<Rightarrow>
   string \<Rightarrow> configuration \<Rightarrow> configuration option" where
  "parseConfig unmarshal setup cfgStr c =
     (if cfgStr \<noteq> [] then map_option setup (unmarshal cfgStr c) else Some (setup c))"

text \<open>\<open>getenv\<close> gives the empty string for an unset variable; \<open>read_file\<close> is \<open>os.ReadFile\<close>.\<close>

definition LoadConfigWithEnv ::
  "(string \<Rightarrow> configuration \<Rightarrow> configuration option) \<Rightarrow> (configuration \<Rightarrow> configuration) \<Rightarrow>
   (string \<Rightarrow> string) \<Rightarrow> (string \<Rightarrow> string option) \<Rightarrow> configuration \<Rightarrow> configuration option" where
  "LoadConfigWithEnv unmarshal setup getenv read_file cfg =
     (if getenv ''ENV_CONFIG_FILE'' \<noteq> [] then
        (case read_file (getenv ''ENV_CONFIG_FILE'') of None \<Rightarrow> None
         | Some b \<Rightarrow> parseConfig unmarshal setup b cfg)
      else parseConfig unmarshal setup (getenv ''ENV_JSON_CONFIG'') cfg)"

section \<open>Lemmas\<close>

lemma setup_keeps [simp]:
  "s_Namespaces (setupInjectRule compile glob pq r) = s_Namespaces r"
  "s_Labels (setupInjectRule compile glob pq r) = s_Labels r"
  "s_namespaceSelectors (setupInjectRule compile glob pq r) = namespace_selectors compile (s_Namespaces r)"
  "s_labelSelectors (setupInjectRule compile glob pq r) = label_selectors glob (s_Labels r)"
  by (simp_all add: setupInjectRule_def setupEnvs_def selector_setup_def Let_def)

lemma matchAll_filter:
  "matchAllInjectRules rs ns labels = filter (\<lambda>r. injectRuleMatches r ns labels) (List.map_filter (\<lambda>r. r) rs)"
  by (induction rs ns labels rule: matchAllInjectRules.induct) (simp_all add: List.map_filter_def)

lemma match_hd:
  "matchInjectRule rs ns labels =
     (case matchAllInjectRules rs ns labels of [] \<Rightarrow> None | r # _ \<Rightarrow> Some r)"
  by (induction rs ns labels rule: matchInjectRule.induct) simp_all

lemma match_sound: "matchInjectRule rs ns labels = Some r \<Longrightarrow> Some r \<in> set rs \<and> injectRuleMatches r ns labels"
  by (induction rs ns labels rule: matchInjectRule.induct) (auto split: if_splits)

lemma matchAll_sound: "r \<in> set (matchAllInjectRules rs ns labels) \<Longrightarrow> Some r \<in> set rs"
  by (induction rs ns labels rule: matchAllInjectRules.induct) (auto split: if_splits)

text \<open>Resources that \<open>setContainerResources\<close> can parse.\<close>

definition resources_ok :: "(string \<Rightarrow> quantity option) \<Rightarrow> resource_config \<Rightarrow> bool" where
  "resources_ok parse_quantity r \<longleftrightarrow> \<not> resources_Nil r \<and> resources_Verify parse_quantity r"

lemma setup_resources_ok:
  assumes "resources_Verify pq defaultResourceRequirements"
  shows "resources_ok pq (ir_Resources (setupInjectRule compile glob pq r))"
  using assms
  by (simp add: setupInjectRule_def setupEnvs_def selector_setup_def Let_def resources_ok_def
      resources_Nil_def defaultResourceRequirements_def)

section \<open>Properties\<close>

text \<open>What a rule selects, said from its configuration text alone: no selectors select nothing;
  blank, ill-formed and empty entries are ignored; several entries of one kind are alternatives; both
  kinds must be met when both are given.\<close>

definition namespace_selected :: "(string \<Rightarrow> (string \<Rightarrow> bool) option) \<Rightarrow> string list \<Rightarrow> string \<Rightarrow> bool" where
  "namespace_selected compile entries ns \<longleftrightarrow>
     (\<exists>e \<in> set entries. trim_space e \<noteq> [] \<and>
        (case compile (if e = ''*'' then ''.*'' else e) of None \<Rightarrow> False | Some re \<Rightarrow> re ns))"

definition labels_selected :: "(string \<Rightarrow> (string \<Rightarrow> bool) option) \<Rightarrow> string list \<Rightarrow> go_map \<Rightarrow> bool" where
  "labels_selected glob entries m \<longleftrightarrow>
     (\<exists>e \<in> set entries. case Parse glob e of
        POk p _ \<Rightarrow> p \<noteq> [] \<and> (\<forall>r \<in> set p. holds glob r m) | _ \<Rightarrow> False)"

lemma matchNamespace_spec:
  "list_ex (\<lambda>re. re ns) (namespace_selectors compile es) \<longleftrightarrow> namespace_selected compile es ns"
  by (induction compile es rule: namespace_selectors.induct)
    (auto simp: namespace_selected_def replaceAsteriskWithDotAsterisk_def split: option.splits)

lemma Parse_matches: "Parse g s = POk sel ts \<Longrightarrow> selector_Matches sel ls \<longleftrightarrow> (\<forall>r \<in> set sel. holds g r ls)"
  using Requirement_holds [OF Parse_built [of g s]] by (simp add: selector_Matches_def list_all_iff)

lemma matchLabels_spec:
  "list_ex (\<lambda>se. selector_Matches se m) (label_selectors glob es) \<longleftrightarrow> labels_selected glob es m"
proof (induction es)
  case Nil
  then show ?case by (simp add: labels_selected_def)
next
  case (Cons e es)
  then show ?case
    by (cases "Parse glob e")
      (auto simp: labels_selected_def selector_Empty_def Parse_matches)
qed

definition rule_selects ::
  "(string \<Rightarrow> (string \<Rightarrow> bool) option) \<Rightarrow> (string \<Rightarrow> (string \<Rightarrow> bool) option) \<Rightarrow>
   string list \<Rightarrow> string list \<Rightarrow> string \<Rightarrow> go_map \<Rightarrow> bool" where
  "rule_selects compile glob namespaces labels ns m \<longleftrightarrow>
     (case (namespaces, labels) of
        ([], []) \<Rightarrow> False
      | (_, []) \<Rightarrow> namespace_selected compile namespaces ns
      | ([], _) \<Rightarrow> labels_selected glob labels m
      | _ \<Rightarrow> namespace_selected compile namespaces ns \<and> labels_selected glob labels m)"

text \<open>C14: after set-up, an injection rule matches a Pod exactly when its configured namespace and label
  entries select the Pod's namespace and labels: a rule without selectors, or whose entries of a kind are all
  unusable, matches nothing.\<close>

theorem injectRuleMatches_spec:
  "injectRuleMatches (setupInjectRule compile glob pq r) ns m =
     rule_selects compile glob (s_Namespaces r) (s_Labels r) ns m"
proof -
  let ?n = "namespace_selectors compile (s_Namespaces r)" and ?l = "label_selectors glob (s_Labels r)"
  have n: "?n = [] \<Longrightarrow> \<not> namespace_selected compile (s_Namespaces r) ns"
    using matchNamespace_spec [of ns compile "s_Namespaces r"] by auto
  have l: "?l = [] \<Longrightarrow> \<not> labels_selected glob (s_Labels r) m"
    using matchLabels_spec [of m glob "s_Labels r"] by auto
  show ?thesis
    using n l
    by (cases "s_Namespaces r"; cases "s_Labels r")
      (simp_all add: injectRuleMatches_def rule_selects_def matchNamespace_def matchLabels_def
        matchNamespace_spec matchLabels_spec del: namespace_selectors.simps(2) label_selectors.simps(2))
qed

text \<open>A log-collection rule selects a Pod exactly when both its namespace entries and its label
  entries select it, and the first such rule is the one used.\<close>

theorem MutateRules_Matches_spec:
  "MutateRules_Matches (MutateRules_Setup compile glob rs) ns m =
     map_option (selector_setup compile glob)
       (find (\<lambda>r. namespace_selected compile (s_Namespaces r) ns \<and> labels_selected glob (s_Labels r) m)
         (List.map_filter (\<lambda>r. r) rs))"
proof (induction rs)
  case Nil
  then show ?case by (simp add: MutateRules_Setup_def List.map_filter_def)
next
  case (Cons r rs)
  then show ?case
    by (cases r) (simp_all add: MutateRules_Setup_def List.map_filter_def matchNamespace_def
        matchLabels_def selector_setup_def matchNamespace_spec matchLabels_spec)
qed

definition rules_resources_ok ::
  "(string \<Rightarrow> quantity option) \<Rightarrow> 'a inject_rule_scheme option list \<Rightarrow> bool" where
  "rules_resources_ok pq rs \<longleftrightarrow>
     list_all (\<lambda>r. case r of None \<Rightarrow> True | Some x \<Rightarrow> resources_ok pq (ir_Resources x)) rs"

lemma rules_setup_ok:
  "resources_Verify pq defaultResourceRequirements \<Longrightarrow>
   rules_resources_ok pq (setupInjectRules compile glob pq rs)"
  by (auto simp: rules_resources_ok_def setupInjectRules_def list_all_iff setup_resources_ok
      split: option.splits)

lemma matched_resources_ok:
  "\<lbrakk>rules_resources_ok pq rs; Some r \<in> set rs\<rbrakk> \<Longrightarrow> resources_Verify pq (ir_Resources r)"
  by (auto simp: rules_resources_ok_def list_all_iff resources_ok_def)

definition inject_resources_ok :: "(string \<Rightarrow> quantity option) \<Rightarrow> admission_inject \<Rightarrow> bool" where
  "inject_resources_ok pq c \<longleftrightarrow>
     rules_resources_ok pq (ai_DDTraces c) \<and> rules_resources_ok pq (ai_OTels c) \<and>
     rules_resources_ok pq (ai_Logfwds c) \<and> rules_resources_ok pq (ai_Flameshots c) \<and>
     rules_resources_ok pq (ai_Profilers c)"

lemma setup_inject_resources_ok:
  "resources_Verify pq defaultResourceRequirements \<Longrightarrow>
   inject_resources_ok pq (cf_AdmissionInject (Configuration_Setup compile glob pq c))"
  by (simp add: inject_resources_ok_def Configuration_Setup_def AdmissionInject_Setup_def
      rules_setup_ok Let_def)

text \<open>Loading a configuration, whatever its text, leaves every injection rule of every kind with
  resource strings that all parse: a rule without resources or with an ill-formed one gets the defaults.\<close>

theorem loaded_resources_parse:
  assumes "resources_Verify pq defaultResourceRequirements"
    and "parseConfig unmarshal (Configuration_Setup compile glob pq) cfgStr c = Some c'"
  shows "inject_resources_ok pq (cf_AdmissionInject c')"
proof -
  obtain c0 where "c' = Configuration_Setup compile glob pq c0"
    using assms(2) by (auto simp: parseConfig_def split: if_splits)
  then show ?thesis using setup_inject_resources_ok [OF assms(1)] by simp
qed

definition example_quantity :: "string \<Rightarrow> quantity option" where
  "example_quantity s = (if s \<in> set [''100m'', ''500m'', ''64Mi'', ''512Mi'']
     then Some \<lparr>q_value = 1, q_scale = 0, q_dec = None, q_s = s, q_Format = ''DecimalSI''\<rparr> else None)"

lemma loaded_resources_parse_witness:
  "inject_resources_ok example_quantity
     (cf_AdmissionInject (Configuration_Setup example_glob example_glob example_quantity initDefaultConfiguration))"
proof (rule loaded_resources_parse)
  show "resources_Verify example_quantity defaultResourceRequirements" by code_simp
  show "parseConfig (\<lambda>_ _. None) (Configuration_Setup example_glob example_glob example_quantity) []
      initDefaultConfiguration =
    Some (Configuration_Setup example_glob example_glob example_quantity initDefaultConfiguration)"
    by (simp add: parseConfig_def)
qed

text \<open>The deprecated configuration takes precedence section by section: \<open>ddtraces\<close>, \<open>logfwds\<close> and
  \<open>profilers\<close> are replaced by the converted rule exactly when their own deprecated section has
  images or environments, and the two newer kinds are never touched.\<close>

theorem deprecated_precedence:
  "cf_AdmissionInject (Configuration_Setup compile glob pq c) =
     AdmissionInject_Setup compile glob pq
       (let d = cf_Deprecated c; a = cf_AdmissionInject c in
        \<lparr>ai_DDTraces = if isValidDeprecatedRule (dc_DDTrace d)
            then convertDeprecatedToDDTraceRules (dc_DDTrace d) else ai_DDTraces a,
         ai_OTels = ai_OTels a,
         ai_Logfwds = if isValidDeprecatedRule (dc_Logfwd d)
            then convertDeprecatedToLogfwdRules (dc_Logfwd d) else ai_Logfwds a,
         ai_Flameshots = ai_Flameshots a,
         ai_Profilers = if isValidDeprecatedRule (dc_Profiler d)
            then convertDeprecatedToProfilerRules (dc_Profiler d) else ai_Profilers a\<rparr>)"
  by (cases "cf_AdmissionInject c")
    (simp add: Configuration_Setup_def hasValidDeprecatedConfig_def take_deprecated_def Let_def
      convertDeprecatedToAdmissionInject_def)

text \<open>A deprecated profiler section with images but without selectors and environments replaces the
  configured profilers by nothing, although its images make it valid: the conversion looks its image
  up under the empty key.\<close>

theorem deprecated_profiler_images_dropped:
  assumes "fmdom (dp_Images d) \<noteq> {||}" "Get (dp_Images d) [] = []"
    and "dp_EnabledNamespaces d = []" "dp_EnabledLabelSelectors d = []" "dp_Environments d = None"
    and "dc_Profiler (cf_Deprecated c) = d"
  shows "ai_Profilers (cf_AdmissionInject (Configuration_Setup compile glob pq c)) = []"
  using assms
  by (simp add: Configuration_Setup_def hasValidDeprecatedConfig_def take_deprecated_def Let_def
      convertDeprecatedToAdmissionInject_def isValidDeprecatedRule_def AdmissionInject_Setup_def
      convertDeprecatedToProfilerRules_def convertDeprecatedInjectRule_def setupInjectRules_def)

definition example_deprecated :: configuration where
  "example_deprecated = initDefaultConfiguration\<lparr>cf_Deprecated :=
     \<lparr>dc_DDTrace = no_deprecated_rule, dc_Logfwd = no_deprecated_rule,
      dc_Profiler = no_deprecated_rule\<lparr>dp_Images := fmupd ''java_profiler_image'' ''profiler:1'' fmempty\<rparr>\<rparr>\<rparr>"

lemma deprecated_profiler_images_dropped_witness:
  "ai_Profilers (cf_AdmissionInject
     (Configuration_Setup example_glob example_glob example_quantity example_deprecated)) = []"
  by (rule deprecated_profiler_images_dropped
      [of "dc_Profiler (cf_Deprecated example_deprecated)"])
    (simp_all add: example_deprecated_def no_deprecated_rule_def Get_def)

end
