(* ===== verification/Config_Log.thy ===== *)
theory Config_Log
  imports Config
begin

text \<open>
  What setting up the configuration tells the operator of the cluster: the log entries of
  \<open>config/selector.go\<close>, \<open>config/rules.go\<close> and \<open>config/config.go\<close>.  \<open>Config\<close> has the values; here every
  step returns its value and the entries it writes, in order.  The values are those of \<open>Config\<close>, and the
  entries that call a rule disabled are shown to be accurate.
\<close>

section \<open>Entries\<close>

datatype selector_kind = NamespaceEntry | LabelEntry

text \<open>The text of an error is left out of the entries that quote one.\<close>

datatype log_entry =
    InvalidSelector string nat string selector_kind nat string string
  | RuleDisabled string nat string string
  | InvalidResources nat
  | UnexpectedKey json
  | UnexpectedValue json
  | DeprecatedDetected
  | ConversionPolicy
  | Converted string

section \<open>Selectors\<close>

fun namespace_loop ::
  "(string \<Rightarrow> (string \<Rightarrow> bool) option) \<Rightarrow> string \<Rightarrow> nat \<Rightarrow> string \<Rightarrow> nat \<Rightarrow> string list \<Rightarrow>
   (string \<Rightarrow> bool) list \<times> log_entry list" where
  "namespace_loop compile ruleset ruleIndex ruleName i [] = ([], [])"
| "namespace_loop compile ruleset ruleIndex ruleName i (namespaceSelector # rest) =
     (case namespace_loop compile ruleset ruleIndex ruleName (Suc i) rest of (res, ws) \<Rightarrow>
        if trim_space namespaceSelector = []
        then (res, InvalidSelector ruleset ruleIndex ruleName NamespaceEntry i namespaceSelector ''blank'' # ws)
        else case compile (replaceAsteriskWithDotAsterisk namespaceSelector) of
               None \<Rightarrow> (res, InvalidSelector ruleset ruleIndex ruleName NamespaceEntry i namespaceSelector
                               ''compile_error'' # ws)
             | Some re \<Rightarrow> (re # res, ws))"

fun label_loop ::
  "(string \<Rightarrow> (string \<Rightarrow> bool) option) \<Rightarrow> string \<Rightarrow> nat \<Rightarrow> string \<Rightarrow> nat \<Rightarrow> string list \<Rightarrow>
   selector list \<times> log_entry list" where
  "label_loop glob ruleset ruleIndex ruleName i [] = ([], [])"
| "label_loop glob ruleset ruleIndex ruleName i (labelSelector # rest) =
     (case label_loop glob ruleset ruleIndex ruleName (Suc i) rest of (sels, ws) \<Rightarrow>
        case Parse glob labelSelector of
          POk p _ \<Rightarrow>
            if selector_Empty p
            then (sels, InvalidSelector ruleset ruleIndex ruleName LabelEntry i labelSelector
                          (if trim_space labelSelector = [] then ''blank'' else ''empty'') # ws)
            else (p # sels, ws)
        | _ \<Rightarrow> (sels, InvalidSelector ruleset ruleIndex ruleName LabelEntry i labelSelector ''parse_error'' # ws))"

definition selector_setup_log ::
  "(string \<Rightarrow> (string \<Rightarrow> bool) option) \<Rightarrow> (string \<Rightarrow> (string \<Rightarrow> bool) option) \<Rightarrow> string \<Rightarrow> nat \<Rightarrow> string \<Rightarrow>
   'a selector_config_scheme \<Rightarrow> 'a selector_config_scheme \<times> log_entry list" where
  "selector_setup_log compile glob ruleset ruleIndex ruleName s =
     (case namespace_loop compile ruleset ruleIndex ruleName 0 (s_Namespaces s) of (res, ws1) \<Rightarrow>
      case label_loop glob ruleset ruleIndex ruleName 0 (s_Labels s) of (sels, ws2) \<Rightarrow>
        (s\<lparr>s_namespaceSelectors := res, s_labelSelectors := sels\<rparr>,
         ws1 @ ws2 @
         (if s_Namespaces s \<noteq> [] \<and> res = []
          then [RuleDisabled ruleset ruleIndex ruleName ''no_valid_namespace_selectors''] else []) @
         (if s_Labels s \<noteq> [] \<and> sels = []
          then [RuleDisabled ruleset ruleIndex ruleName ''no_valid_label_selectors''] else [])))"

definition Selector_Setup ::
  "(string \<Rightarrow> (string \<Rightarrow> bool) option) \<Rightarrow> (string \<Rightarrow> (string \<Rightarrow> bool) option) \<Rightarrow>
   selector_config \<Rightarrow> selector_config \<times> log_entry list" where
  "Selector_Setup compile glob s = selector_setup_log compile glob ''selector'' 0 [] s"

section \<open>Injection rules\<close>

fun envs_log :: "(json \<times> json) list \<Rightarrow> log_entry list" where
  "envs_log [] = []"
| "envs_log ((JStr key, JStr v) # rest) = envs_log rest"
| "envs_log ((JStr key, v) # rest) = UnexpectedValue v # envs_log rest"
| "envs_log ((k, v) # rest) = UnexpectedKey k # envs_log rest"

definition setupInjectRule_log ::
  "(string \<Rightarrow> (string \<Rightarrow> bool) option) \<Rightarrow> (string \<Rightarrow> (string \<Rightarrow> bool) option) \<Rightarrow> (string \<Rightarrow> quantity option) \<Rightarrow>
   string \<Rightarrow> nat \<Rightarrow> 'a inject_rule_scheme \<Rightarrow> 'a inject_rule_scheme \<times> log_entry list" where
  "setupInjectRule_log compile glob parse_quantity ruleset idx rule =
     (let (rule1, ws1) =
            (if resources_Nil (ir_Resources rule)
             then (rule\<lparr>ir_Resources := defaultResourceRequirements\<rparr>, [])
             else if \<not> resources_Verify parse_quantity (ir_Resources rule)
             then (rule\<lparr>ir_Resources := defaultResourceRequirements\<rparr>, [InvalidResources idx])
             else (rule, []));
          (rule2, ws2) = selector_setup_log compile glob ruleset idx (ir_Name rule1) rule1;
          ws3 = (if s_Namespaces rule2 = [] \<and> s_Labels rule2 = []
                 then [RuleDisabled ruleset idx (ir_Name rule2) ''no_selectors''] else [])
      in (setupEnvs rule2,
          ws1 @ ws2 @ ws3 @ envs_log (case ir_Environments rule2 of None \<Rightarrow> [] | Some e \<Rightarrow> e)))"

fun setupInjectRules_log ::
  "(string \<Rightarrow> (string \<Rightarrow> bool) option) \<Rightarrow> (string \<Rightarrow> (string \<Rightarrow> bool) option) \<Rightarrow> (string \<Rightarrow> quantity option) \<Rightarrow>
   string \<Rightarrow> nat \<Rightarrow> 'a inject_rule_scheme option list \<Rightarrow> 'a inject_rule_scheme option list \<times> log_entry list" where
  "setupInjectRules_log compile glob parse_quantity ruleset idx [] = ([], [])"
| "setupInjectRules_log compile glob parse_quantity ruleset idx (r # rs) =
     (case (case r of
              None \<Rightarrow> (None, [RuleDisabled ruleset idx [] ''null_rule''])
            | Some rule \<Rightarrow> map_prod Some id (setupInjectRule_log compile glob parse_quantity ruleset idx rule))
      of (r1, ws1) \<Rightarrow>
      case setupInjectRules_log compile glob parse_quantity ruleset (Suc idx) rs of (rs1, ws2) \<Rightarrow>
        (r1 # rs1, ws1 @ ws2))"

definition DDTraceRules_Setup where
  "DDTraceRules_Setup compile glob parse_quantity (rs :: ddtrace_rule option list) =
     setupInjectRules_log compile glob parse_quantity ''ddtraces'' 0 rs"

definition OTelRules_Setup where
  "OTelRules_Setup compile glob parse_quantity (rs :: otel_rule option list) =
     setupInjectRules_log compile glob parse_quantity ''otels'' 0 rs"

definition LogfwdRules_Setup where
  "LogfwdRules_Setup compile glob parse_quantity (rs :: logfwd_rule option list) =
     setupInjectRules_log compile glob parse_quantity ''logfwds'' 0 rs"

definition FlameshotRules_Setup where
  "FlameshotRules_Setup compile glob parse_quantity (rs :: flameshot_rule option list) =
     setupInjectRules_log compile glob parse_quantity ''flameshots'' 0 rs"

definition ProfilerRules_Setup where
  "ProfilerRules_Setup compile glob parse_quantity (rs :: profiler_rule option list) =
     setupInjectRules_log compile glob parse_quantity ''profilers'' 0 rs"

section \<open>Log-collection rules\<close>

fun MutateRules_Setup_log ::
  "(string \<Rightarrow> (string \<Rightarrow> bool) option) \<Rightarrow> (string \<Rightarrow> (string \<Rightarrow> bool) option) \<Rightarrow> nat \<Rightarrow>
   mutate_rule option list \<Rightarrow> mutate_rule option list \<times> log_entry list" where
  "MutateRules_Setup_log compile glob idx [] = ([], [])"
| "MutateRules_Setup_log compile glob idx (r # rs) =
     (case (case r of
              None \<Rightarrow> (None, [RuleDisabled ''loggings'' idx [] ''null_rule''])
            | Some rule \<Rightarrow>
                (case selector_setup_log compile glob ''loggings'' idx [] rule of (rule1, ws) \<Rightarrow>
                  (Some rule1,
                   ws @
                   (if s_Namespaces rule1 = [] then [RuleDisabled ''loggings'' idx [] ''no_namespace_selectors''] else []) @
                   (if s_Labels rule1 = [] then [RuleDisabled ''loggings'' idx [] ''no_label_selectors''] else []))))
      of (r1, ws1) \<Rightarrow>
      case MutateRules_Setup_log compile glob (Suc idx) rs of (rs1, ws2) \<Rightarrow> (r1 # rs1, ws1 @ ws2))"

section \<open>The whole configuration\<close>

definition AdmissionInject_Setup_log ::
  "(string \<Rightarrow> (string \<Rightarrow> bool) option) \<Rightarrow> (string \<Rightarrow> (string \<Rightarrow> bool) option) \<Rightarrow> (string \<Rightarrow> quantity option) \<Rightarrow>
   admission_inject \<Rightarrow> admission_inject \<times> log_entry list" where
  "AdmissionInject_Setup_log compile glob parse_quantity c =
     (let (dds, ws1) = DDTraceRules_Setup compile glob parse_quantity (ai_DDTraces c);
          (ots, ws2) = OTelRules_Setup compile glob parse_quantity (ai_OTels c);
          (lfs, ws3) = LogfwdRules_Setup compile glob parse_quantity (ai_Logfwds c);
          (fls, ws4) = FlameshotRules_Setup compile glob parse_quantity (ai_Flameshots c);
          (prs, ws5) = ProfilerRules_Setup compile glob parse_quantity (ai_Profilers c)
      in (\<lparr>ai_DDTraces = dds, ai_OTels = ots, ai_Logfwds = lfs, ai_Flameshots = fls, ai_Profilers = prs\<rparr>,
          ws1 @ ws2 @ ws3 @ ws4 @ ws5))"

definition deprecated_log :: "configuration \<Rightarrow> log_entry list" where
  "deprecated_log c =
     (if hasValidDeprecatedConfig c
      then [DeprecatedDetected, ConversionPolicy] @
           (if isValidDeprecatedRule (dc_DDTrace (cf_Deprecated c)) then [Converted ''ddtraces''] else []) @
           (if isValidDeprecatedRule (dc_Logfwd (cf_Deprecated c)) then [Converted ''logfwds''] else []) @
           (if isValidDeprecatedRule (dc_Profiler (cf_Deprecated c)) then [Converted ''profilers''] else [])
      else [])"

definition Configuration_Setup_log ::
  "(string \<Rightarrow> (string \<Rightarrow> bool) option) \<Rightarrow> (string \<Rightarrow> (string \<Rightarrow> bool) option) \<Rightarrow> (string \<Rightarrow> quantity option) \<Rightarrow>
   configuration \<Rightarrow> configuration \<times> log_entry list" where
  "Configuration_Setup_log compile glob parse_quantity c =
     (let c1 = (if hasValidDeprecatedConfig c then c\<lparr>cf_AdmissionInject := take_deprecated c\<rparr> else c);
          (inject, ws1) = AdmissionInject_Setup_log compile glob parse_quantity (cf_AdmissionInject c1);
          (mutate, ws2) = MutateRules_Setup_log compile glob 0 (cf_AdmissionMutate c1)
      in (c1\<lparr>cf_AdmissionInject := inject, cf_AdmissionMutate := mutate\<rparr>, deprecated_log c @ ws1 @ ws2))"

section \<open>The values are those of the set-up\<close>

lemma namespace_loop_value [simp]:
  "fst (namespace_loop compile ruleset ri rn i es) = namespace_selectors compile es"
  by (induction compile ruleset ri rn i es rule: namespace_loop.induct) (auto split: prod.splits option.splits)

lemma label_loop_value [simp]: "fst (label_loop glob ruleset ri rn i es) = label_selectors glob es"
  by (induction glob ruleset ri rn i es rule: label_loop.induct) (auto split: prod.splits presult.splits)

lemma selector_setup_log_value [simp]:
  "fst (selector_setup_log compile glob ruleset ri rn s) = selector_setup compile glob s"
  using namespace_loop_value [of compile ruleset ri rn 0 "s_Namespaces s"] label_loop_value [of glob ruleset ri rn 0 "s_Labels s"]
  by (simp add: selector_setup_log_def selector_setup_def case_prod_beta)

lemma setupInjectRule_log_value [simp]:
  "fst (setupInjectRule_log compile glob pq ruleset idx r) = setupInjectRule compile glob pq r"
  by (simp add: setupInjectRule_log_def setupInjectRule_def Let_def case_prod_beta)

lemma setupInjectRules_log_value [simp]:
  "fst (setupInjectRules_log compile glob pq ruleset idx rs) = setupInjectRules compile glob pq rs"
proof (induction rs arbitrary: idx)
  case (Cons r rs)
  then show ?case by (cases r) (simp_all add: setupInjectRules_def case_prod_beta)
qed (simp add: setupInjectRules_def)

lemma MutateRules_Setup_log_value [simp]:
  "fst (MutateRules_Setup_log compile glob idx rs) = MutateRules_Setup compile glob rs"
proof (induction rs arbitrary: idx)
  case (Cons r rs)
  then show ?case by (cases r) (simp_all add: MutateRules_Setup_def case_prod_beta)
qed (simp add: MutateRules_Setup_def)

lemmas ruleset_setups = DDTraceRules_Setup_def OTelRules_Setup_def LogfwdRules_Setup_def FlameshotRules_Setup_def
  ProfilerRules_Setup_def

lemma Configuration_Setup_log_value:
  "fst (Configuration_Setup_log compile glob pq c) = Configuration_Setup compile glob pq c"
  by (simp add: Configuration_Setup_log_def Configuration_Setup_def AdmissionInject_Setup_log_def
      AdmissionInject_Setup_def ruleset_setups Let_def case_prod_beta)

section \<open>Which rules are reported as disabled\<close>

definition reported :: "log_entry list \<Rightarrow> string \<Rightarrow> nat \<Rightarrow> bool" where
  "reported ws ruleset i \<longleftrightarrow>
     list_ex (\<lambda>w. case w of RuleDisabled rs j name reason \<Rightarrow> rs = ruleset \<and> j = i | _ \<Rightarrow> False) ws"

lemma reported_simps [simp]:
  "\<not> reported [] ruleset i"
  "reported (ws @ vs) ruleset i \<longleftrightarrow> reported ws ruleset i \<or> reported vs ruleset i"
  "reported (RuleDisabled rs j name reason # ws) ruleset i \<longleftrightarrow> rs = ruleset \<and> j = i \<or> reported ws ruleset i"
  "reported (InvalidSelector rs j name k n v r # ws) ruleset i \<longleftrightarrow> reported ws ruleset i"
  "reported (InvalidResources j # ws) ruleset i \<longleftrightarrow> reported ws ruleset i"
  "reported (UnexpectedKey x # ws) ruleset i \<longleftrightarrow> reported ws ruleset i"
  "reported (UnexpectedValue x # ws) ruleset i \<longleftrightarrow> reported ws ruleset i"
  "reported (DeprecatedDetected # ws) ruleset i \<longleftrightarrow> reported ws ruleset i"
  "reported (ConversionPolicy # ws) ruleset i \<longleftrightarrow> reported ws ruleset i"
  "reported (Converted y # ws) ruleset i \<longleftrightarrow> reported ws ruleset i"
  by (simp_all add: reported_def)

lemma loops_report_nothing [simp]:
  "\<not> reported (snd (namespace_loop compile rs j name k es)) ruleset i"
  "\<not> reported (snd (label_loop glob rs j name k ls)) ruleset i"
  "\<not> reported (envs_log envs) ruleset i"
  "\<not> reported (deprecated_log c) ruleset i"
proof -
  show "\<not> reported (snd (namespace_loop compile rs j name k es)) ruleset i"
    by (induction compile rs j name k es rule: namespace_loop.induct) (auto split: prod.splits option.splits)
  show "\<not> reported (snd (label_loop glob rs j name k ls)) ruleset i"
    by (induction glob rs j name k ls rule: label_loop.induct) (auto split: prod.splits presult.splits)
  show "\<not> reported (envs_log envs) ruleset i" by (induction envs rule: envs_log.induct) simp_all
qed (simp add: deprecated_log_def)

text \<open>A kind of entries of which none is usable.\<close>

definition unusable :: "'a selector_config_scheme \<Rightarrow> bool" where
  "unusable r \<longleftrightarrow> s_Namespaces r \<noteq> [] \<and> s_namespaceSelectors r = [] \<or> s_Labels r \<noteq> [] \<and> s_labelSelectors r = []"

lemma selector_setup_reported [simp]:
  "reported (snd (selector_setup_log compile glob rs j name s)) ruleset i \<longleftrightarrow>
     rs = ruleset \<and> j = i \<and> unusable (selector_setup compile glob s)"
  using namespace_loop_value [of compile rs j name 0 "s_Namespaces s"] label_loop_value [of glob rs j name 0 "s_Labels s"]
    loops_report_nothing(1,2) [of _ rs j name 0 _ ruleset i]
  by (auto simp: selector_setup_log_def selector_setup_def unusable_def case_prod_beta)

lemma selector_setup_frame [simp]:
  "s_Namespaces (selector_setup compile glob r) = s_Namespaces r" "s_Labels (selector_setup compile glob r) = s_Labels r"
  by (simp_all add: selector_setup_def)

lemma setupInjectRule_reported:
  "reported (snd (setupInjectRule_log compile glob pq rs j r)) ruleset i \<longleftrightarrow> rs = ruleset \<and> j = i \<and>
     (let q = setupInjectRule compile glob pq r in unusable q \<or> s_Namespaces q = [] \<and> s_Labels q = [])"
  by (auto simp: setupInjectRule_log_def setupInjectRule_def setupEnvs_def selector_setup_def unusable_def Let_def
      case_prod_beta split: if_splits)

lemma setupInjectRules_reported:
  "reported (snd (setupInjectRules_log compile glob pq rs k rules)) ruleset i \<longleftrightarrow>
     rs = ruleset \<and> k \<le> i \<and> i < k + length rules \<and>
     (case setupInjectRules compile glob pq rules ! (i - k) of None \<Rightarrow> True
      | Some q \<Rightarrow> unusable q \<or> s_Namespaces q = [] \<and> s_Labels q = [])"
proof (induction rules arbitrary: k)
  case (Cons r rules)
  have "i = k \<or> i < k \<or> (\<exists>n. i = Suc (k + n))" by (metis less_imp_Suc_add linorder_cases)
  then show ?case
    using Cons [of "Suc k"]
    by (cases r) (auto simp: setupInjectRules_def setupInjectRule_reported Let_def case_prod_beta)
qed simp

lemma MutateRules_reported:
  "reported (snd (MutateRules_Setup_log compile glob k rules)) ruleset i \<longleftrightarrow>
     ruleset = ''loggings'' \<and> k \<le> i \<and> i < k + length rules \<and>
     (case MutateRules_Setup compile glob rules ! (i - k) of None \<Rightarrow> True
      | Some q \<Rightarrow> unusable q \<or> s_Namespaces q = [] \<or> s_Labels q = [])"
proof (induction rules arbitrary: k)
  case (Cons r rules)
  have "i = k \<or> i < k \<or> (\<exists>n. i = Suc (k + n))" by (metis less_imp_Suc_add linorder_cases)
  then show ?case
    using Cons [of "Suc k"]
    by (cases r) (auto simp: MutateRules_Setup_def case_prod_beta)
qed simp

section \<open>The reports are accurate\<close>

text \<open>Every compiled selector of a rule accepts something.\<close>

definition selectable :: "'a selector_config_scheme \<Rightarrow> bool" where
  "selectable r \<longleftrightarrow> (\<forall>re \<in> set (s_namespaceSelectors r). \<exists>ns. re ns) \<and>
     (\<forall>sel \<in> set (s_labelSelectors r). \<exists>m. selector_Matches sel m)"

text \<open>A null rule is reported; a rule which is reported matches no Pod; a rule which is not reported matches
  some Pod, unless one of its selectors is contradictory.\<close>

definition accurate ::
  "('a selector_config_scheme \<Rightarrow> string \<Rightarrow> go_map \<Rightarrow> bool) \<Rightarrow> log_entry list \<Rightarrow> string \<Rightarrow>
   'a selector_config_scheme option list \<Rightarrow> bool" where
  "accurate matches ws ruleset rs \<longleftrightarrow> (\<forall>i < length rs.
     (case rs ! i of
        None \<Rightarrow> reported ws ruleset i
      | Some r \<Rightarrow> if reported ws ruleset i then \<forall>ns m. \<not> matches r ns m
                   else selectable r \<longrightarrow> (\<exists>ns m. matches r ns m)))"

lemma accurateI:
  assumes "\<And>i. i < length rs \<Longrightarrow> reported ws ruleset i \<longleftrightarrow> (case rs ! i of None \<Rightarrow> True | Some r \<Rightarrow> dead r)"
    and "\<And>r ns m. dead r \<Longrightarrow> \<not> matches r ns m" "\<And>r. \<lbrakk>\<not> dead r; selectable r\<rbrakk> \<Longrightarrow> \<exists>ns m. matches r ns m"
  shows "accurate matches ws ruleset rs"
  unfolding accurate_def
proof (intro allI impI)
  fix i assume "i < length rs"
  then show "case rs ! i of None \<Rightarrow> reported ws ruleset i
      | Some r \<Rightarrow> if reported ws ruleset i then \<forall>ns m. \<not> matches r ns m
                   else selectable r \<longrightarrow> (\<exists>ns m. matches r ns m)"
    using assms by (cases "rs ! i") simp_all
qed

lemma some_namespace:
  "\<lbrakk>selectable r; s_namespaceSelectors r \<noteq> []\<rbrakk> \<Longrightarrow> \<exists>ns. matchNamespace r ns"
  by (cases "s_namespaceSelectors r") (auto simp: selectable_def matchNamespace_def)

lemma some_labels: "\<lbrakk>selectable r; s_labelSelectors r \<noteq> []\<rbrakk> \<Longrightarrow> \<exists>m. matchLabels r m"
  by (cases "s_labelSelectors r") (auto simp: selectable_def matchLabels_def)

lemma setup_fresh_selectors:
  "s_Namespaces (setupInjectRule compile glob pq r) = [] \<Longrightarrow> s_namespaceSelectors (setupInjectRule compile glob pq r) = []"
  "s_Labels (setupInjectRule compile glob pq r) = [] \<Longrightarrow> s_labelSelectors (setupInjectRule compile glob pq r) = []"
  by simp_all

lemma inject_rules_accurate:
  assumes "\<And>i. reported ws ruleset i \<longleftrightarrow> reported (snd (setupInjectRules_log compile glob pq ruleset 0 rs)) ruleset i"
  shows "accurate injectRuleMatches ws ruleset (setupInjectRules compile glob pq rs)"
proof (rule accurateI [where dead = "\<lambda>q. unusable q \<or> s_Namespaces q = [] \<and> s_Labels q = []"])
  fix i assume "i < length (setupInjectRules compile glob pq rs)"
  then show "reported ws ruleset i \<longleftrightarrow> (case setupInjectRules compile glob pq rs ! i of None \<Rightarrow> True
      | Some r \<Rightarrow> unusable r \<or> s_Namespaces r = [] \<and> s_Labels r = [])"
    by (simp add: assms setupInjectRules_reported) (simp add: setupInjectRules_def)
next
  fix r :: "'a inject_rule_scheme" and ns m
  assume "unusable r \<or> s_Namespaces r = [] \<and> s_Labels r = []"
  then show "\<not> injectRuleMatches r ns m" by (auto simp: injectRuleMatches_def unusable_def)
next
  fix r :: "'a inject_rule_scheme"
  assume live: "\<not> (unusable r \<or> s_Namespaces r = [] \<and> s_Labels r = [])" and sat: "selectable r"
  obtain ns where "s_namespaceSelectors r \<noteq> [] \<longrightarrow> matchNamespace r ns" using some_namespace [OF sat] by blast
  moreover obtain m where "s_labelSelectors r \<noteq> [] \<longrightarrow> matchLabels r m" using some_labels [OF sat] by blast
  ultimately show "\<exists>ns m. injectRuleMatches r ns m"
    using live by (intro exI [of _ ns] exI [of _ m]) (auto simp: injectRuleMatches_def unusable_def)
qed

lemma mutate_rules_accurate:
  assumes "\<And>i. reported ws ''loggings'' i \<longleftrightarrow> reported (snd (MutateRules_Setup_log compile glob 0 rs)) ''loggings'' i"
  shows "accurate (\<lambda>r ns m. matchNamespace r ns \<and> matchLabels r m) ws ''loggings'' (MutateRules_Setup compile glob rs)"
proof (rule accurateI [where dead = "\<lambda>q. s_namespaceSelectors q = [] \<or> s_labelSelectors q = []"])
  fix i assume "i < length (MutateRules_Setup compile glob rs)"
  then have i: "i < length rs" by (simp add: MutateRules_Setup_def)
  then show "reported ws ''loggings'' i \<longleftrightarrow> (case MutateRules_Setup compile glob rs ! i of None \<Rightarrow> True
      | Some r \<Rightarrow> s_namespaceSelectors r = [] \<or> s_labelSelectors r = [])"
    by (cases "rs ! i") (auto simp: assms MutateRules_reported MutateRules_Setup_def unusable_def selector_setup_def)
next
  fix r :: mutate_rule and ns m
  assume "s_namespaceSelectors r = [] \<or> s_labelSelectors r = []"
  then show "\<not> (matchNamespace r ns \<and> matchLabels r m)" by (auto simp: matchNamespace_def matchLabels_def)
next
  fix r :: mutate_rule
  assume "\<not> (s_namespaceSelectors r = [] \<or> s_labelSelectors r = [])" "selectable r"
  then show "\<exists>ns m. matchNamespace r ns \<and> matchLabels r m" using some_namespace some_labels by blast
qed

text \<open>C36: The log of the set-up is accurate.  Whatever the configuration, deprecated sections included, the set-up
  which logs computes the configuration in use, and for every one of the six rule lists a rule is logged as
  disabled exactly when it can match no Pod: a rule that is logged matches nothing, and one that is not
  matches some Pod, unless one of its own selectors accepts nothing.\<close>

theorem disabled_rules_reported:
  "case Configuration_Setup_log compile glob pq c of (c', ws) \<Rightarrow>
     c' = Configuration_Setup compile glob pq c \<and>
     accurate injectRuleMatches ws ''ddtraces'' (ai_DDTraces (cf_AdmissionInject c')) \<and>
     accurate injectRuleMatches ws ''otels'' (ai_OTels (cf_AdmissionInject c')) \<and>
     accurate injectRuleMatches ws ''logfwds'' (ai_Logfwds (cf_AdmissionInject c')) \<and>
     accurate injectRuleMatches ws ''flameshots'' (ai_Flameshots (cf_AdmissionInject c')) \<and>
     accurate injectRuleMatches ws ''profilers'' (ai_Profilers (cf_AdmissionInject c')) \<and>
     accurate (\<lambda>r ns m. matchNamespace r ns \<and> matchLabels r m) ws ''loggings'' (cf_AdmissionMutate c')"
proof -
  let ?c1 = "if hasValidDeprecatedConfig c then c\<lparr>cf_AdmissionInject := take_deprecated c\<rparr> else c"
  let ?in = "cf_AdmissionInject ?c1"
  let ?ws = "snd (Configuration_Setup_log compile glob pq c)"
  have ws: "?ws = deprecated_log c @ snd (setupInjectRules_log compile glob pq ''ddtraces'' 0 (ai_DDTraces ?in)) @
      snd (setupInjectRules_log compile glob pq ''otels'' 0 (ai_OTels ?in)) @
      snd (setupInjectRules_log compile glob pq ''logfwds'' 0 (ai_Logfwds ?in)) @
      snd (setupInjectRules_log compile glob pq ''flameshots'' 0 (ai_Flameshots ?in)) @
      snd (setupInjectRules_log compile glob pq ''profilers'' 0 (ai_Profilers ?in)) @
      snd (MutateRules_Setup_log compile glob 0 (cf_AdmissionMutate ?c1))"
    by (simp add: Configuration_Setup_log_def AdmissionInject_Setup_log_def ruleset_setups Let_def case_prod_beta)
  have c': "cf_AdmissionInject (Configuration_Setup compile glob pq c) = AdmissionInject_Setup compile glob pq ?in"
    "cf_AdmissionMutate (Configuration_Setup compile glob pq c) = MutateRules_Setup compile glob (cf_AdmissionMutate ?c1)"
    by (simp_all add: Configuration_Setup_def Let_def)
  have "accurate injectRuleMatches ?ws ''ddtraces'' (setupInjectRules compile glob pq (ai_DDTraces ?in))"
    "accurate injectRuleMatches ?ws ''otels'' (setupInjectRules compile glob pq (ai_OTels ?in))"
    "accurate injectRuleMatches ?ws ''logfwds'' (setupInjectRules compile glob pq (ai_Logfwds ?in))"
    "accurate injectRuleMatches ?ws ''flameshots'' (setupInjectRules compile glob pq (ai_Flameshots ?in))"
    "accurate injectRuleMatches ?ws ''profilers'' (setupInjectRules compile glob pq (ai_Profilers ?in))"
    "accurate (\<lambda>r ns m. matchNamespace r ns \<and> matchLabels r m) ?ws ''loggings''
       (MutateRules_Setup compile glob (cf_AdmissionMutate ?c1))"
    by (rule inject_rules_accurate mutate_rules_accurate; simp add: ws setupInjectRules_reported MutateRules_reported)+
  then show ?thesis
    using Configuration_Setup_log_value [of compile glob pq c]
    by (simp add: case_prod_beta c' AdmissionInject_Setup_def)
qed

end
