(* ===== verification/Injector_Utils.thy ===== *)
theory Injector_Utils
  imports Config Pod_Extends Env_Builder
begin

text \<open>
  The helpers shared by the injectors (\<open>apis/webhook/injector/utils.go\<close>).  \<open>None\<close> is a panic: a
  slice bound out of range, or \<open>resource.MustParse\<close> of an ill-formed quantity.
\<close>

section \<open>Slices, annotations, key-value lists\<close>

definition DeleteSlice :: "'a list \<Rightarrow> nat \<Rightarrow> nat \<Rightarrow> 'a list option" where
  "DeleteSlice s i j = (if i \<le> j \<and> j \<le> length s then Some (take i s @ drop j s) else None)"

definition CheckAnnotationIsTrue :: "go_map \<Rightarrow> string \<Rightarrow> bool" where
  "CheckAnnotationIsTrue annotations key =
     (case fmlookup annotations key of
        None \<Rightarrow> True
      | Some str \<Rightarrow> (case parse_bool str of None \<Rightarrow> True | Some b \<Rightarrow> b))"

definition unique :: "string list \<Rightarrow> string list" where
  "unique xs = dedup_from {} xs"

definition kv_pairs :: "string \<Rightarrow> string list list" where
  "kv_pairs s = filter (\<lambda>kv. length kv = 2) (map (split_on (CHR '':'')) (split_on (CHR '','') s))"

definition kv_add :: "string list \<Rightarrow> string list list \<Rightarrow> string list list" where
  "kv_add kv origin = (if list_ex (\<lambda>o'. hd o' = hd kv) origin then origin else origin @ [kv])"

definition appendKVPairs :: "string \<Rightarrow> string \<Rightarrow> string" where
  "appendKVPairs origin neww =
     join '','' (map (join '':'') (fold kv_add (kv_pairs neww) (kv_pairs origin)))"

section \<open>Images and paths\<close>

definition image_split :: "string \<Rightarrow> string \<times> string" where
  "image_split img = (case index_of (CHR ''/'') img of
       None \<Rightarrow> ([], img)
     | Some i \<Rightarrow>
         if \<not> (\<exists>c \<in> set (take i img). c = CHR ''.'' \<or> c = CHR '':'') \<and> take i img \<noteq> ''localhost''
         then ([], img) else (take i img, drop (Suc i) img))"

definition ParseImage :: "string \<Rightarrow> string \<times> string \<times> string" where
  "ParseImage img =
     (let (domain, remainder) = image_split img;
          (name0, version) = (case last_index_of (CHR '':'') remainder of
              Some i \<Rightarrow> (take i remainder, drop (Suc i) remainder)
            | None \<Rightarrow> (remainder, ''unknown''));
          imageName = (if domain \<noteq> [] then domain @ ''/'' @ name0 else name0)
      in (imageName, last (split_on (CHR ''/'') imageName), version))"

definition getMountPath :: "string \<Rightarrow> string" where
  "getMountPath path =
     (if CHR ''*'' \<in> set path then
        (if hd (split_on (CHR ''*'') path) \<noteq> []
         then path_clean (path_dir (hd (split_on (CHR ''*'') path))) else ''.'')
      else path_clean path)"

definition getMountPaths :: "string list \<Rightarrow> string list" where
  "getMountPaths paths = filter (\<lambda>s. s \<noteq> []) (map getMountPath paths)"

definition replaceImageVersion :: "string \<Rightarrow> string \<Rightarrow> string" where
  "replaceImageVersion img imageVersion =
     (if imageVersion = [] then img else fst (ParseImage img) @ '':'' @ imageVersion)"

section \<open>Resources\<close>

definition MustParse :: "(string \<Rightarrow> quantity option) \<Rightarrow> string \<Rightarrow> string \<Rightarrow>
    (string, quantity) fmap \<Rightarrow> (string, quantity) fmap option" where
  "MustParse parse_quantity key s m =
     (if s = [] then Some m else map_option (\<lambda>q. fmupd key q m) (parse_quantity s))"

definition setContainerResources ::
  "(string \<Rightarrow> quantity option) \<Rightarrow> string \<Rightarrow> string \<Rightarrow> string \<Rightarrow> string \<Rightarrow> container \<Rightarrow> container option" where
  "setContainerResources pq cpuRequest memoryRequest cpuLimit memoryLimit c =
     do {
       r1 \<leftarrow> MustParse pq ''cpu'' cpuRequest fmempty;
       r2 \<leftarrow> MustParse pq ''memory'' memoryRequest r1;
       l1 \<leftarrow> MustParse pq ''cpu'' cpuLimit fmempty;
       l2 \<leftarrow> MustParse pq ''memory'' memoryLimit l1;
       Some (c\<lparr>c_Resources := \<lparr>rr_Limits = Some l2, rr_Requests = Some r2\<rparr>\<rparr>)
     }"

text \<open>The call every injector makes with the resources of its rule.\<close>

definition with_resources ::
  "(string \<Rightarrow> quantity option) \<Rightarrow> resource_config \<Rightarrow> container \<Rightarrow> container option" where
  "with_resources pq r c =
     setContainerResources pq (rq_CPU (rc_Requests r)) (rq_Memory (rc_Requests r))
       (rq_CPU (rc_Limits r)) (rq_Memory (rc_Limits r)) c"

section \<open>Facts\<close>

lemma with_resources_total:
  "resources_Verify pq r \<Longrightarrow> \<exists>c'. with_resources pq r c = Some c'"
  by (auto simp: with_resources_def setContainerResources_def MustParse_def resources_Verify_def
      split: if_splits)

lemma with_resources_None: "with_resources pq r c = None \<Longrightarrow> \<not> resources_Verify pq r"
  using with_resources_total [of pq r c] by auto

lemma with_resources_frame:
  assumes "with_resources pq r c = Some c'"
  shows "c_Name c' = c_Name c" "c_Env c' = c_Env c" "c_VolumeMounts c' = c_VolumeMounts c"
    "c_Image c' = c_Image c" "c_SecurityContext c' = c_SecurityContext c" "c_Command c' = c_Command c"
  using assms by (auto simp: with_resources_def setContainerResources_def split: Option.bind_splits)

lemma unique_distinct: "distinct (unique xs)" and unique_set: "set (unique xs) = set xs"
  by (simp_all add: unique_def distinct_dedup_from set_dedup_from)

lemma getMountPath_nonempty [simp]: "getMountPath p \<noteq> []"
  by (simp add: getMountPath_def)

lemma getMountPaths_all: "getMountPaths ps = map getMountPath ps"
  by (simp add: getMountPaths_def filter_True)

subsection \<open>Merging of key-value lists\<close>

interpretation kv: named_items hd kv_add
  by unfold_locales (auto simp: kv_add_def names_iff_ex)

definition kv_plain :: "string list \<Rightarrow> bool" where
  "kv_plain kv \<longleftrightarrow> length kv = 2 \<and> (\<forall>w \<in> set kv. CHR '':'' \<notin> set w \<and> CHR '','' \<notin> set w)"

lemma split_on_subset: "w \<in> set (split_on c s) \<Longrightarrow> set w \<subseteq> set s"
proof (induction s arbitrary: w)
  case Nil
  then show ?case by simp
next
  case (Cons x xs)
  then show ?case by (cases "split_on c xs") (fastforce split: if_splits)+
qed

lemma kv_pairs_plain: "kv \<in> set (kv_pairs s) \<Longrightarrow> kv_plain kv"
proof -
  assume "kv \<in> set (kv_pairs s)"
  then obtain w where w: "w \<in> set (split_on (CHR '','') s)" "kv = split_on (CHR '':'') w" "length kv = 2"
    by (auto simp: kv_pairs_def)
  then show ?thesis
    using split_on_parts [of _ "CHR '':''" w] split_on_parts [OF w(1)] split_on_subset [of _ "CHR '':''" w]
    by (auto simp: kv_plain_def)
qed

lemma kv_add_plain:
  "\<lbrakk>\<And>kv. kv \<in> set ns \<Longrightarrow> kv_plain kv; \<And>kv. kv \<in> set os \<Longrightarrow> kv_plain kv; kv \<in> set (fold kv_add ns os)\<rbrakk>
   \<Longrightarrow> kv_plain kv"
proof (induction ns arbitrary: os)
  case Nil
  then show ?case by simp
next
  case (Cons n ns)
  show ?case
  proof (rule Cons.IH [of "kv_add n os"])
    show "\<And>kv. kv \<in> set ns \<Longrightarrow> kv_plain kv" using Cons.prems(1) by simp
    show "\<And>kv. kv \<in> set (kv_add n os) \<Longrightarrow> kv_plain kv"
      using Cons.prems(1,2) by (auto simp: kv_add_def split: if_splits)
    show "kv \<in> set (fold kv_add ns (kv_add n os))" using Cons.prems(3) by simp
  qed
qed

lemma join_chars: "set (join s ws) \<subseteq> set s \<union> \<Union> (set ` set ws)"
  by (induction s ws rule: join.induct) auto

lemma kv_pairs_print:
  assumes "\<And>kv. kv \<in> set kvs \<Longrightarrow> kv_plain kv"
  shows "kv_pairs (join '','' (map (join '':'') kvs)) = kvs"
proof (cases "kvs = []")
  case True
  then show ?thesis by (simp add: kv_pairs_def)
next
  case False
  have c: "CHR '','' \<notin> set w" if "w \<in> set (map (join '':'') kvs)" for w
    using that assms join_chars [of "'':''"] by (fastforce simp: kv_plain_def)
  have s: "split_on (CHR '':'') (join '':'' kv) = kv" if "kv \<in> set kvs" for kv
    using assms [OF that] by (intro split_on_join) (auto simp: kv_plain_def)
  have "split_on (CHR '','') (join '','' (map (join '':'') kvs)) = map (join '':'') kvs"
    using False c by (intro split_on_join) auto
  moreover have "map (split_on (CHR '':'')) (map (join '':'') kvs) = kvs"
    using s by (simp add: map_idI)
  ultimately show ?thesis using assms by (simp add: kv_pairs_def kv_plain_def filter_True)
qed

lemma kv_pairs_append:
  "kv_pairs (appendKVPairs origin neww) = fold kv_add (kv_pairs neww) (kv_pairs origin)"
  unfolding appendKVPairs_def
  by (rule kv_pairs_print) (rule kv_add_plain, auto intro: kv_pairs_plain)

section \<open>A rule and a Pod for examples\<close>

definition example_rule :: inject_rule where
  "example_rule = \<lparr>s_Namespaces = [''default''], s_Labels = [], s_namespaceSelectors = [\<lambda>ns. ns = ''default''],
     s_labelSelectors = [], ir_Name = ''r'', ir_Image = ''repo/lib:1'', ir_ImagePullPolicy = [],
     ir_Environments = None, ir_Resources = defaultResourceRequirements, ir_Envs = [(''DD_ENV'', ''prod'')]\<rparr>"

definition example_pod :: pod where
  "example_pod = no_pod\<lparr>p_Namespace := ''default'',
     p_Containers := [no_container\<lparr>c_Name := ''app'', c_Image := ''app:1''\<rparr>]\<rparr>"

section \<open>Properties\<close>

text \<open>Merging \<open>DD_TAGS\<close>-style lists keeps every well-formed pair of the old value in its place, adds
  the new pairs whose key is not there yet at the end, and merging the same pairs again changes nothing.\<close>

theorem appendKVPairs_merge:
  "named_append hd (kv_pairs origin) (kv_pairs (appendKVPairs origin neww)) \<and>
   names hd (kv_pairs (appendKVPairs origin neww)) = names hd (kv_pairs neww) \<union> names hd (kv_pairs origin) \<and>
   appendKVPairs (appendKVPairs origin neww) neww = appendKVPairs origin neww"
proof -
  have "appendKVPairs (appendKVPairs origin neww) neww =
      join '','' (map (join '':'') (fold kv_add (kv_pairs neww) (fold kv_add (kv_pairs neww) (kv_pairs origin))))"
    by (simp add: appendKVPairs_def [of "appendKVPairs origin neww"] kv_pairs_append)
  then show ?thesis by (simp add: kv_pairs_append kv.fold_append kv.names_fold kv.fold_again)
      (simp add: appendKVPairs_def)
qed

lemma last_index_append:
  "c \<notin> set v \<Longrightarrow> last_index_of c (xs @ c # v) = Some (length xs)"
proof -
  assume "c \<notin> set v"
  then have "index_of c (rev v @ c # rev xs) = Some (length (rev v))" by (intro index_of_append) simp
  then show ?thesis by (simp add: last_index_of_def)
qed

lemma last_index_None: "last_index_of c s = None \<longleftrightarrow> c \<notin> set s"
  by (simp add: last_index_of_def index_of_None)

lemma last_index_Some:
  assumes "last_index_of c s = Some i"
  shows "i < length s" "s = take i s @ c # drop (Suc i) s" "c \<notin> set (drop (Suc i) s)"
proof -
  obtain j where j: "index_of c (rev s) = Some j" "i = length s - Suc j"
    using assms by (auto simp: last_index_of_def)
  have *: "j < length s" "rev s ! j = c" "c \<notin> set (take j (rev s))"
    using index_of_Some [OF j(1)] by simp_all
  have n: "s ! i = c" using *(1,2) j(2) by (simp add: rev_nth)
  show i: "i < length s" using * j(2) by simp
  show "s = take i s @ c # drop (Suc i) s" using id_take_nth_drop [OF i] n by simp
  have "Suc i = length s - j" using *(1) j(2) by simp
  then show "c \<notin> set (drop (Suc i) s)" using *(3) by (simp only: take_rev set_rev) simp
qed

text \<open>The part of the remainder in front of the version.\<close>

definition untagged :: "string \<Rightarrow> string" where
  "untagged r = (case last_index_of (CHR '':'') r of Some i \<Rightarrow> take i r | None \<Rightarrow> r)"

lemma ParseImage_name:
  "image_split img = (d, r) \<Longrightarrow> fst (ParseImage img) = (if d \<noteq> [] then d @ ''/'' @ untagged r else untagged r)"
  by (simp add: ParseImage_def untagged_def Let_def split: option.splits)

lemma untagged_take: "\<exists>s. r = untagged r @ s \<and> (s = [] \<or> hd s = CHR '':'')"
proof (cases "last_index_of (CHR '':'') r")
  case None
  then show ?thesis by (simp add: untagged_def)
next
  case (Some i)
  then show ?thesis using last_index_Some(2) [OF Some]
    by (intro exI [of _ "CHR '':'' # drop (Suc i) r"]) (simp add: untagged_def)
qed

text \<open>A slash with no colon before it is in the untagged part.\<close>

lemma untagged_slash:
  assumes i: "index_of (CHR ''/'') img = Some i" and plain: "CHR '':'' \<notin> set (take i img)"
  shows "i < length (untagged img)" "take i (untagged img) = take i img" "untagged img ! i = CHR ''/''"
proof -
  note i = index_of_Some [OF i]
  obtain s where s: "img = untagged img @ s" "s = [] \<or> hd s = CHR '':''" using untagged_take by blast
  show len: "i < length (untagged img)"
  proof (rule ccontr)
    assume short: "\<not> i < length (untagged img)"
    then have "s \<noteq> []" using s(1) i by auto
    then have c: "img ! length (untagged img) = CHR '':''" using s by (metis hd_conv_nth nth_append_length list.collapse)
    then have "length (untagged img) \<noteq> i" using i by auto
    then have "CHR '':'' \<in> set (take i img)" using short c i
      by (metis in_set_conv_nth length_take min.absorb4 nat_neq_iff nth_take)
    then show False using plain by blast
  qed
  then show "take i (untagged img) = take i img" "untagged img ! i = CHR ''/''"
    using s(1) i by (metis append_eq_conv_conj take_take min.absorb3, metis nth_append)
qed

text \<open>Another tag leaves the split at the registry as it is.\<close>

lemma image_split_registry:
  assumes "image_split img = (d, r)" "d \<noteq> []"
  shows "image_split (d @ CHR ''/'' # t) = (d, t)"
proof -
  obtain i where i: "index_of (CHR ''/'') img = Some i" "d = take i img"
      "\<not> (\<not> (\<exists>c \<in> set (take i img). c = CHR ''.'' \<or> c = CHR '':'') \<and> take i img \<noteq> ''localhost'')"
    using assms unfolding image_split_def by (auto split: option.split_asm if_split_asm)
  have d: "CHR ''/'' \<notin> set d" "length d = i" using index_of_Some [OF i(1)] i(2) by simp_all
  then have "index_of (CHR ''/'') (d @ CHR ''/'' # t) = Some (length d)" by (intro index_of_append)
  then show ?thesis using i(2,3) d(2) unfolding image_split_def by simp
qed

lemma image_split_none:
  assumes "image_split img = ([], r)"
  shows "r = img" "index_of (CHR ''/'') img = Some i \<Longrightarrow>
    \<not> (\<exists>c \<in> set (take i img). c = CHR ''.'' \<or> c = CHR '':'') \<and> take i img \<noteq> ''localhost''"
proof -
  show r: "r = img"
  proof (cases "index_of (CHR ''/'') img")
    case (Some i)
    then have "i < length img" using index_of_Some by blast
    then show ?thesis using assms Some by (auto simp: image_split_def split: if_split_asm)
  qed (use assms in \<open>simp add: image_split_def\<close>)
  assume i: "index_of (CHR ''/'') img = Some i"
  show "\<not> (\<exists>c \<in> set (take i img). c = CHR ''.'' \<or> c = CHR '':'') \<and> take i img \<noteq> ''localhost''"
  proof (rule ccontr)
    assume "\<not> ?thesis"
    then have "(take i img, drop (Suc i) img) = ([], img)" using assms i r
      unfolding image_split_def by (simp only: option.case if_False)
    then have "drop (Suc i) img = img" by simp
    then have "length img - Suc i = length img" by (metis length_drop)
    moreover have "i < length img" using index_of_Some [OF i] by blast
    ultimately show False by linarith
  qed
qed

lemma image_split_plain:
  assumes "image_split img = ([], r)" "CHR ''/'' \<notin> set v"
  shows "image_split (untagged img @ CHR '':'' # v) = ([], untagged img @ CHR '':'' # v)"
proof (cases "index_of (CHR ''/'') img")
  case None
  then have "CHR ''/'' \<notin> set (untagged img)" using untagged_take [of img] by (metis Un_iff index_of_None set_append)
  then have "index_of (CHR ''/'') (untagged img @ CHR '':'' # v) = None" using assms(2) by (simp add: index_of_None)
  then show ?thesis by (simp add: image_split_def)
next
  case (Some i)
  note plain = image_split_none(2) [OF assms(1) Some]
  then have t: "i < length (untagged img)" "take i (untagged img) = take i img" "untagged img ! i = CHR ''/''"
    by (intro untagged_slash [OF Some]; blast)+
  have "index_of (CHR ''/'') (untagged img @ CHR '':'' # v) = Some i"
    using index_of_append [of "CHR ''/''" "take i img" "drop (Suc i) (untagged img) @ CHR '':'' # v"]
      index_of_Some [OF Some] t id_take_nth_drop [OF t(1)]
    by (metis append.assoc append_Cons length_take min.absorb4)
  then show ?thesis using plain t by (simp add: image_split_def)
qed

text \<open>Overriding the version of an image keeps its full and short names and its new version is the one asked
  for, provided the version holds no colon or slash.\<close>

theorem replaceImageVersion_version:
  assumes "v \<noteq> []" "CHR '':'' \<notin> set v" "CHR ''/'' \<notin> set v"
  shows "ParseImage (replaceImageVersion img v) = (fst (ParseImage img), fst (snd (ParseImage img)), v)"
proof -
  obtain d r where sp: "image_split img = (d, r)" by (cases "image_split img")
  let ?n = "fst (ParseImage img)"
  let ?i = "?n @ CHR '':'' # v"
  have "image_split ?i = (d, untagged r @ CHR '':'' # v)"
    using ParseImage_name [OF sp] image_split_registry [OF sp, of "untagged r @ CHR '':'' # v"]
      image_split_plain [OF _ assms(3), of img] image_split_none(1) [of img] sp
    by (cases "d = []") auto
  then have "ParseImage ?i = (?n, last (split_on (CHR ''/'') ?n), v)"
    using last_index_append [OF assms(2), of "untagged r"] ParseImage_name [OF sp]
    by (simp add: ParseImage_def Let_def)
  moreover have "fst (snd (ParseImage img)) = last (split_on (CHR ''/'') ?n)"
    by (simp add: ParseImage_def Let_def split: prod.splits)
  ultimately show ?thesis using assms(1) by (simp add: replaceImageVersion_def)
qed

lemma replaceImageVersion_version_witness:
  "ParseImage (replaceImageVersion ''repo:5000/lib/agent:1'' ''v2'') = (''repo:5000/lib/agent'', ''agent'', ''v2'')"
proof -
  have "fst (ParseImage ''repo:5000/lib/agent:1'') = ''repo:5000/lib/agent''"
    "fst (snd (ParseImage ''repo:5000/lib/agent:1'')) = ''agent''" by code_simp+
  then show ?thesis using replaceImageVersion_version [of "''v2''" "''repo:5000/lib/agent:1''"] by simp
qed

end
