(* ===== verification/DDTrace.thy ===== *)
theory DDTrace
  imports Injector_Utils
begin

text \<open>
  Injection of the DDTrace library (\<open>apis/webhook/injector/ddtrace.go\<close>).  The rules are those of
  the loaded configuration; \<open>None\<close> is a panic.  The Pod is never nil here: its only caller hands over
  the Pod it has just decoded.  An error of the library step leaves the
  Pod as it was, because the code works on a copy and drops it.
\<close>

section \<open>Constants\<close>

definition ddtraceInitContainerName :: string where "ddtraceInitContainerName = ''datakit-lib-init''"
definition ddtraceEnabledAnnotationKey :: string where
  "ddtraceEnabledAnnotationKey = ''admission.datakit/ddtrace.enabled''"
definition ddtraceVersionAnnotationKey :: "string \<Rightarrow> string" where
  "ddtraceVersionAnnotationKey lang = ''admission.datakit/'' @ lang @ ''-lib.version''"
definition ddtraceVolumeName :: string where "ddtraceVolumeName = ''datakit-auto-instrument''"
definition ddtraceMountPath :: string where "ddtraceMountPath = ''/datadog-lib''"
definition ddtraceDDTagsKey :: string where "ddtraceDDTagsKey = ''DD_TAGS''"
definition javaToolOptionsKey :: string where "javaToolOptionsKey = ''JAVA_TOOL_OPTIONS''"
definition javaAgentOption :: string where "javaAgentOption = ''-javaagent:/datadog-lib/dd-java-agent.jar''"
definition phpDefaultINIPath :: string where "phpDefaultINIPath = ''/usr/local/etc/php/conf.d''"
definition phpLoaderFileName :: string where "phpLoaderFileName = ''dd_library_loader.ini''"
definition phpLoaderFlavorGNU :: string where "phpLoaderFlavorGNU = ''linux-gnu''"
definition phpLoaderFlavorMusl :: string where "phpLoaderFlavorMusl = ''linux-musl''"
definition otelInitContainerName :: string where "otelInitContainerName = ''datakit-otel-lib-init''"

section \<open>Environment values\<close>

definition appendJavaAgentIfMissing :: "string \<Rightarrow> string" where
  "appendJavaAgentIfMissing v =
     (if list_ex (\<lambda>w. w = javaAgentOption \<or> has_prefix w (javaAgentOption @ ''='')) (go_fields v)
      then v else v @ '' '' @ javaAgentOption)"

definition appendOptionIfMissing :: "string \<Rightarrow> string \<Rightarrow> string" where
  "appendOptionIfMissing v option =
     (if list_ex (\<lambda>w. w = option) (go_fields v) then v else v @ '' '' @ option)"

definition pathListContains :: "string \<Rightarrow> string \<Rightarrow> bool" where
  "pathListContains v path \<longleftrightarrow> list_ex (\<lambda>w. w = path) (split_on (CHR '':'') v)"

definition python_path :: "string \<Rightarrow> string" where
  "python_path v =
     (if pathListContains v ''/datadog-lib/'' then v
      else if v = [] then ''/datadog-lib/'' else ''/datadog-lib/'' @ '':'' @ v)"

definition php_loader_path :: "string \<Rightarrow> string" where
  "php_loader_path v = (if v \<noteq> [] then v else ddtraceMountPath)"

definition php_scan_dir :: "string \<Rightarrow> string" where
  "php_scan_dir v =
     (if pathListContains v ddtraceMountPath then v
      else if v = [] then phpDefaultINIPath @ '':'' @ ddtraceMountPath
      else v @ '':'' @ ddtraceMountPath)"

definition nodejs_options :: "string \<Rightarrow> string" where
  "nodejs_options v = appendOptionIfMissing v ''--require=/datadog-lib/node_modules/dd-trace/init''"

section \<open>Steps on containers and Pods\<close>

text \<open>\<open>None\<close> is the error that the variable is set through \<open>valueFrom\<close>.\<close>

definition injectDDTraceEnvToContainer :: "string \<Rightarrow> (string \<Rightarrow> string) \<Rightarrow> container \<Rightarrow> container option" where
  "injectDDTraceEnvToContainer envKey envVal c =
     (case find (\<lambda>e. ev_Name e = envKey) (c_Env c) of
        Some e \<Rightarrow>
          if ev_ValueFrom e \<noteq> None then None
          else Some (c\<lparr>c_Env := AddOrUpdateEnvVar (c_Env c) (env_value envKey (envVal []))
                 (Some (\<lambda>existing _. existing\<lparr>ev_Value := envVal (ev_Value existing)\<rparr>))\<rparr>)
      | None \<Rightarrow> Some (c\<lparr>c_Env := AddOrUpdateEnvVar (c_Env c) (env_value envKey (envVal []))
                 (Some (\<lambda>existing _. existing\<lparr>ev_Value := envVal (ev_Value existing)\<rparr>))\<rparr>))"

definition injectDDTraceConfig :: "string \<Rightarrow> (string \<Rightarrow> string) \<Rightarrow> pod \<Rightarrow> pod option" where
  "injectDDTraceConfig envKey envVal p =
     (case those (map (injectDDTraceEnvToContainer envKey envVal) (p_Containers p)) of
        None \<Rightarrow> None
      | Some cs \<Rightarrow> Some (AddVolumeMount (mount ddtraceVolumeName ddtraceMountPath) (p\<lparr>p_Containers := cs\<rparr>)))"

text \<open>The \<open>ddtraceLibrary\<close> of a language; the outer \<open>None\<close> is an unsupported language.\<close>

definition ddtraceLibrary :: "string \<Rightarrow> (pod \<Rightarrow> pod option) option" where
  "ddtraceLibrary lang =
     (if lang = ''java'' then Some (injectDDTraceConfig javaToolOptionsKey appendJavaAgentIfMissing)
      else if lang = ''python'' then Some (injectDDTraceConfig ''PYTHONPATH'' python_path)
      else if lang = ''php'' then
        Some (\<lambda>p. case injectDDTraceConfig ''DD_LOADER_PACKAGE_PATH'' php_loader_path p of
            None \<Rightarrow> None | Some p1 \<Rightarrow> injectDDTraceConfig ''PHP_INI_SCAN_DIR'' php_scan_dir p1)
      else if lang = ''nodejs'' then Some (injectDDTraceConfig ''NODE_OPTIONS'' nodejs_options)
      else None)"

definition isValidPHPLoaderFlavor :: "string \<Rightarrow> bool" where
  "isValidPHPLoaderFlavor flavor \<longleftrightarrow> flavor = phpLoaderFlavorGNU \<or> flavor = phpLoaderFlavorMusl"

definition getPHPLoaderFlavor :: "ddtrace_rule \<Rightarrow> string" where
  "getPHPLoaderFlavor rule =
     (if dd_Language rule \<noteq> ''php'' then []
      else if isValidPHPLoaderFlavor (dd_PHPLoaderFlavor rule) then dd_PHPLoaderFlavor rule
      else phpLoaderFlavorGNU)"

definition ddtrace_command :: "string \<Rightarrow> string \<Rightarrow> string list" where
  "ddtrace_command lang flavor =
     (if lang = ''php''
      then [''sh'', ''-c'', ''/datadog-init/copy-lib.sh '' @ ddtraceMountPath @ '' && cp '' @ ddtraceMountPath
             @ ''/'' @ flavor @ ''/loader/'' @ phpLoaderFileName @ '' '' @ ddtraceMountPath @ ''/'' @ phpLoaderFileName]
      else [''sh'', ''copy-lib.sh'', ddtraceMountPath])"

definition ddtrace_injectInitContainer ::
  "(string \<Rightarrow> quantity option) \<Rightarrow> string \<Rightarrow> string \<Rightarrow> resource_config \<Rightarrow> string \<Rightarrow> string \<Rightarrow> pod \<Rightarrow> pod option" where
  "ddtrace_injectInitContainer pq img pullPolicy resources lang flavor p =
     map_option (\<lambda>c. AddInitContainer c p)
       (with_resources pq resources
         (no_container\<lparr>c_Name := ddtraceInitContainerName, c_Image := img,
            c_Command := ddtrace_command lang flavor, c_ImagePullPolicy := pullPolicy,
            c_VolumeMounts := [mount ddtraceVolumeName ddtraceMountPath]\<rparr>))"

definition ddtrace_injectGlobalVolume :: "pod \<Rightarrow> pod" where
  "ddtrace_injectGlobalVolume p = AddVolume (empty_dir_volume ddtraceVolumeName) p"

definition addOrMergeDDTagsEnvVar :: "envvar list \<Rightarrow> envvar \<Rightarrow> envvar list" where
  "addOrMergeDDTagsEnvVar envs incoming =
     (let idx = length (takeWhile (\<lambda>e. ev_Name e \<noteq> ddtraceDDTagsKey) envs) in
      if idx = length envs then envs @ [incoming]
      else if ev_ValueFrom (envs ! idx) \<noteq> None then envs
      else the (DeleteSlice envs idx (idx + 1)) @
           [incoming\<lparr>ev_Value := appendKVPairs (ev_Value (envs ! idx)) (ev_Value incoming)\<rparr>])"

definition ddtrace_injectGlobalEnv :: "envvar \<Rightarrow> pod \<Rightarrow> pod" where
  "ddtrace_injectGlobalEnv incoming p =
     (if ev_Name incoming = ddtraceDDTagsKey then
        (if ev_Value incoming = [] \<or> ev_ValueFrom incoming \<noteq> None then p
         else map_containers (\<lambda>c. c\<lparr>c_Env := addOrMergeDDTagsEnvVar (c_Env c) incoming\<rparr>) p)
      else map_containers (\<lambda>c. c\<lparr>c_Env := AddOrUpdateEnvVar (c_Env c) incoming (Some KeepExistingEnvVar)\<rparr>) p)"

definition ddtrace_injectGlobalEnvs :: "envvar list \<Rightarrow> pod \<Rightarrow> pod" where
  "ddtrace_injectGlobalEnvs envs p = fold ddtrace_injectGlobalEnv envs p"

definition hasDDTraceLibraryMount :: "container \<Rightarrow> bool" where
  "hasDDTraceLibraryMount c \<longleftrightarrow>
     list_ex (\<lambda>m. vm_Name m = ddtraceVolumeName \<and> vm_MountPath m = ddtraceMountPath) (c_VolumeMounts c)"

definition repair_container :: "container \<Rightarrow> container" where
  "repair_container c =
     (if \<not> hasDDTraceLibraryMount c then c
      else case injectDDTraceEnvToContainer javaToolOptionsKey appendJavaAgentIfMissing c of
             None \<Rightarrow> c | Some d \<Rightarrow> d)"

definition repairJavaAgentEnv :: "pod \<Rightarrow> pod" where
  "repairJavaAgentEnv p =
     (if \<not> IsEmptyDirVolume ddtraceVolumeName p then p
      else if \<not> (case find (\<lambda>c. c_Name c = ddtraceInitContainerName) (p_InitContainers p) of
                    None \<Rightarrow> False | Some c \<Rightarrow> hasDDTraceLibraryMount c) then p
      else if \<not> list_ex hasDDTraceLibraryMount (p_Containers p) then p
      else if \<not> Changed p (map_containers repair_container p) then p
      else map_containers repair_container p)"

section \<open>The injection\<close>

fun first_ddtrace_rule :: "go_map \<Rightarrow> ddtrace_rule list \<Rightarrow> (ddtrace_rule \<times> string) option" where
  "first_ddtrace_rule annotations [] = None"
| "first_ddtrace_rule annotations (rule # rules) =
     (if \<not> dd_CheckAnnotation rule then Some (rule, [])
      else case fmlookup annotations (ddtraceVersionAnnotationKey (dd_Language rule)) of
             Some version \<Rightarrow> Some (rule, version)
           | None \<Rightarrow> first_ddtrace_rule annotations rules)"

definition ddtrace_getMatchingRule ::
  "ddtrace_rule option list \<Rightarrow> string \<Rightarrow> pod \<Rightarrow> (ddtrace_rule \<times> string) option" where
  "ddtrace_getMatchingRule rules ns p =
     (if \<not> CheckAnnotationIsTrue (p_Annotations p) ddtraceEnabledAnnotationKey then None
      else if ContainsInitContainer otelInitContainerName p then None
      else first_ddtrace_rule (p_Annotations p) (matchAllInjectRules rules ns (p_Labels p)))"

definition ddtrace_mutate ::
  "(string \<Rightarrow> quantity option) \<Rightarrow> ddtrace_rule \<Rightarrow> string \<Rightarrow> (pod \<Rightarrow> pod option) \<Rightarrow> pod \<Rightarrow> pod option" where
  "ddtrace_mutate pq rule imageVersion lib p =
     (let img = (if imageVersion \<noteq> [] then replaceImageVersion (ir_Image rule) imageVersion else ir_Image rule)
      in case ddtrace_injectInitContainer pq img (PullPolicy_Value (ir_ImagePullPolicy rule))
                (ir_Resources rule) (dd_Language rule) (getPHPLoaderFlavor rule) p of
           None \<Rightarrow> None
         | Some p1 \<Rightarrow> (case lib p1 of
               None \<Rightarrow> Some p
             | Some p2 \<Rightarrow>
                 let p3 = ddtrace_injectGlobalVolume p2;
                     envs = FilterAndSetResourceFieldRefEnvVars (BuildEnvs (ir_Envs rule) True) p3
                 in Some (ddtrace_injectGlobalEnvs envs p3)))"

text \<open>The result: whether a rule was selected, and the Pod.\<close>

definition ddtrace_process ::
  "ddtrace_rule option list \<Rightarrow> (string \<Rightarrow> quantity option) \<Rightarrow> string \<Rightarrow> pod \<Rightarrow> (bool \<times> pod) option" where
  "ddtrace_process rules pq namespace p =
     (let ns = (if p_Namespace p \<noteq> [] then p_Namespace p else namespace) in
      case ddtrace_getMatchingRule rules ns p of
        None \<Rightarrow> Some (False, p)
      | Some (rule, imageVersion) \<Rightarrow>
          if ContainsInitContainer ddtraceInitContainerName p then
            (if dd_Language rule = ''java'' then Some (True, repairJavaAgentEnv p) else Some (True, p))
          else (case ddtraceLibrary (dd_Language rule) of
              None \<Rightarrow> Some (True, p)
            | Some lib \<Rightarrow> map_option (Pair True) (ddtrace_mutate pq rule imageVersion lib p)))"

definition injectDDTraceToPod ::
  "ddtrace_rule option list \<Rightarrow> (string \<Rightarrow> quantity option) \<Rightarrow> string \<Rightarrow> pod \<Rightarrow> (bool \<times> bool \<times> pod) option" where
  "injectDDTraceToPod rules pq namespace before =
     map_option (\<lambda>(selected, after). (selected, Changed before after, after))
       (ddtrace_process rules pq namespace before)"

definition InjectDDTraceToPod ::
  "ddtrace_rule option list \<Rightarrow> (string \<Rightarrow> quantity option) \<Rightarrow> injection" where
  "InjectDDTraceToPod rules pq namespace p =
     map_option (\<lambda>(_, changed, q). (changed, q)) (injectDDTraceToPod rules pq namespace p)"

section \<open>What the steps may change\<close>

lemma those_map: "those (map f xs) = Some ys \<Longrightarrow> list_all2 (\<lambda>x y. f x = Some y) xs ys"
  by (induction xs arbitrary: ys) (auto split: option.splits)

lemma containers_le_all2: "list_all2 container_le cs ds \<Longrightarrow> containers_le cs ds"
  by (frule list_all2_lengthD) (simp add: containers_le_def grows_def)

lemma pod_le_containers: "containers_le (p_Containers p) cs \<Longrightarrow> pod_le p (p\<lparr>p_Containers := cs\<rparr>)"
  by (simp add: pod_le_def)

lemma ddtrace_keys:
  "javaToolOptionsKey \<in> set merged_variables" "''PYTHONPATH'' \<in> set merged_variables"
  "''DD_LOADER_PACKAGE_PATH'' \<in> set merged_variables" "''PHP_INI_SCAN_DIR'' \<in> set merged_variables"
  "''NODE_OPTIONS'' \<in> set merged_variables"
  by (simp_all add: merged_variables_def javaToolOptionsKey_def)

lemma envToContainer_le:
  "\<lbrakk>injectDDTraceEnvToContainer k f c = Some d; k \<in> set merged_variables\<rbrakk> \<Longrightarrow> container_le c d"
  by (auto simp: injectDDTraceEnvToContainer_def split: option.splits if_splits
      intro!: container_le_env env_le_update)

lemma injectDDTraceConfig_le:
  assumes "injectDDTraceConfig k f p = Some q" "k \<in> set merged_variables"
  shows "pod_le p q"
proof -
  from assms(1)
  obtain cs where cs: "those (map (injectDDTraceEnvToContainer k f) (p_Containers p)) = Some cs"
    and q: "q = AddVolumeMount (mount ddtraceVolumeName ddtraceMountPath) (p\<lparr>p_Containers := cs\<rparr>)"
    by (auto simp: injectDDTraceConfig_def split: option.splits)
  have "list_all2 container_le (p_Containers p) cs"
    using those_map [OF cs] by (rule list_all2_mono) (rule envToContainer_le [OF _ assms(2)])
  then have "pod_le p (p\<lparr>p_Containers := cs\<rparr>)" by (intro pod_le_containers containers_le_all2)
  then show ?thesis unfolding q by (rule pod_le_trans) (rule pod_le_AddVolumeMount)
qed

lemma ddtraceLibrary_le: "ddtraceLibrary lang = Some lib \<Longrightarrow> lib p = Some q \<Longrightarrow> pod_le p q"
  by (auto simp: ddtraceLibrary_def split: if_splits option.splits
      intro: ddtrace_keys injectDDTraceConfig_le
        pod_le_trans [OF injectDDTraceConfig_le [OF _ ddtrace_keys(3)] injectDDTraceConfig_le [OF _ ddtrace_keys(4)]])

lemma ddtrace_init_le: "ddtrace_injectInitContainer pq img pol r l fl p = Some q \<Longrightarrow> pod_le p q"
  by (auto simp: ddtrace_injectInitContainer_def intro: pod_le_AddInitContainer)

lemma first_tag:
  assumes "length (takeWhile (\<lambda>e. ev_Name e \<noteq> k) es) = i" "i \<noteq> length es"
  shows "i < length es" "ev_Name (es ! i) = k" "DeleteSlice es i (i + 1) = Some (take i es @ drop (i + 1) es)"
    "names ev_Name es = insert k (names ev_Name (take i es @ drop (i + 1) es))"
proof -
  show i: "i < length es" using assms length_takeWhile_le [of "\<lambda>e. ev_Name e \<noteq> k" es] by linarith
  show n: "ev_Name (es ! i) = k" using i assms(1) nth_length_takeWhile [of "\<lambda>e. ev_Name e \<noteq> k" es] by simp
  show "DeleteSlice es i (i + 1) = Some (take i es @ drop (i + 1) es)" using i by (simp add: DeleteSlice_def)
  have "names ev_Name es = names ev_Name (take i es @ es ! i # drop (i + 1) es)"
    using id_take_nth_drop [OF i] by simp
  then show "names ev_Name es = insert k (names ev_Name (take i es @ drop (i + 1) es))" using n by auto
qed

lemma first_tag_own:
  assumes "k \<in> set merged_variables" "length (takeWhile (\<lambda>e. ev_Name e \<noteq> k) es) = i" "i \<noteq> length es"
  shows "filter own_variable (take i es @ drop (i + 1) es) = filter own_variable es"
proof -
  note i = first_tag(1,2) [OF assms(2,3)]
  have "\<not> own_variable (es ! i)" using i(2) assms(1) by (simp add: own_variable_def)
  then show ?thesis by (subst (3) id_take_nth_drop [OF i(1)]) simp
qed

lemma addOrMerge_le:
  assumes "ev_Name i = ddtraceDDTagsKey"
  shows "env_le es (addOrMergeDDTagsEnvVar es i)"
proof -
  let ?n = "length (takeWhile (\<lambda>e. ev_Name e \<noteq> ddtraceDDTagsKey) es)"
  have key: "ddtraceDDTagsKey \<in> set merged_variables" by (simp add: ddtraceDDTagsKey_def merged_variables_def)
  show ?thesis
  proof (cases "?n = length es \<or> ev_ValueFrom (es ! ?n) \<noteq> None")
    case True
    then show ?thesis by (auto simp: addOrMergeDDTagsEnvVar_def env_le_def Let_def)
  next
    case False
    define r where "r = take ?n es @ drop (?n + 1) es"
    let ?x = "i\<lparr>ev_Value := appendKVPairs (ev_Value (es ! ?n)) (ev_Value i)\<rparr>"
    have "addOrMergeDDTagsEnvVar es i = r @ [?x]"
      unfolding r_def using False first_tag(3) [of ddtraceDDTagsKey es, OF refl] by (simp add: addOrMergeDDTagsEnvVar_def Let_def)
    moreover have "filter own_variable r = filter own_variable es"
      unfolding r_def using first_tag_own [OF key refl] False by blast
    moreover have "names ev_Name es = insert ddtraceDDTagsKey (names ev_Name r)"
      unfolding r_def using first_tag(4) [of ddtraceDDTagsKey es, OF refl] False by blast
    ultimately show ?thesis using assms by (simp add: env_le_def)
  qed
qed

lemma globalEnv_le: "pod_le p (ddtrace_injectGlobalEnv i p)"
  by (auto simp: ddtrace_injectGlobalEnv_def intro!: pod_le_map_containers container_le_env
      addOrMerge_le env_le_keep)

lemma globalEnvs_le: "pod_le p (ddtrace_injectGlobalEnvs envs p)"
  unfolding ddtrace_injectGlobalEnvs_def by (rule pod_le_fold) (rule globalEnv_le)

lemma repair_container_le: "container_le c (repair_container c)"
  by (auto simp: repair_container_def intro: ddtrace_keys envToContainer_le split: option.splits)

lemma repair_le: "pod_le p (repairJavaAgentEnv p)"
  by (auto simp: repairJavaAgentEnv_def intro!: pod_le_map_containers repair_container_le)

lemma ddtrace_mutate_le:
  assumes "ddtraceLibrary lang = Some lib" "ddtrace_mutate pq rule v lib p = Some q"
  shows "pod_le p q"
proof -
  obtain img p1 where p1: "ddtrace_injectInitContainer pq img (PullPolicy_Value (ir_ImagePullPolicy rule))
                (ir_Resources rule) (dd_Language rule) (getPHPLoaderFlavor rule) p = Some p1"
    and q: "(case lib p1 of None \<Rightarrow> Some p
             | Some p2 \<Rightarrow>
                 let p3 = ddtrace_injectGlobalVolume p2;
                     envs = FilterAndSetResourceFieldRefEnvVars (BuildEnvs (ir_Envs rule) True) p3
                 in Some (ddtrace_injectGlobalEnvs envs p3)) = Some q"
    using assms(2) unfolding ddtrace_mutate_def Let_def by (auto split: option.split_asm)
  show ?thesis
  proof (cases "lib p1")
    case None
    then show ?thesis using q by simp
  next
    case (Some p2)
    have "pod_le p p2" using ddtrace_init_le [OF p1] ddtraceLibrary_le [OF assms(1) Some] by (rule pod_le_trans)
    then have "pod_le p (ddtrace_injectGlobalVolume p2)" unfolding ddtrace_injectGlobalVolume_def
      by (rule pod_le_trans) (rule pod_le_AddVolume)
    then show ?thesis using q Some by (auto simp: Let_def intro: pod_le_trans globalEnvs_le)
  qed
qed

lemma ddtrace_process_le: "ddtrace_process rules pq ns p = Some (sel, q) \<Longrightarrow> pod_le p q"
  by (auto simp: ddtrace_process_def Let_def split: option.splits if_splits
      intro: repair_le ddtrace_mutate_le)

section \<open>No panic\<close>

lemma first_rule_sound: "first_ddtrace_rule a rs = Some (r, v) \<Longrightarrow> r \<in> set rs"
  by (induction rs) (auto split: if_splits option.splits)

lemma ddtrace_rule_sound: "ddtrace_getMatchingRule rules ns p = Some (r, v) \<Longrightarrow> Some r \<in> set rules"
  by (auto simp: ddtrace_getMatchingRule_def split: if_splits intro: matchAll_sound first_rule_sound)

lemma ddtrace_mutate_total:
  "resources_Verify pq (ir_Resources r) \<Longrightarrow> ddtrace_mutate pq r v lib p \<noteq> None"
  by (auto simp: ddtrace_mutate_def ddtrace_injectInitContainer_def Let_def
      split: option.splits dest: with_resources_None)

lemma injectDDTrace_total: "rules_resources_ok pq rules \<Longrightarrow> injectDDTraceToPod rules pq ns p \<noteq> None"
  by (auto simp: injectDDTraceToPod_def ddtrace_process_def Let_def
      dest!: ddtrace_rule_sound dest: matched_resources_ok ddtrace_mutate_total split: option.splits)

section \<open>The agent stays\<close>

text \<open>The variable has a plain value that already is what the library step makes of it.\<close>

definition env_done :: "string \<Rightarrow> (string \<Rightarrow> string) \<Rightarrow> container \<Rightarrow> bool" where
  "env_done k f c \<longleftrightarrow> (case find (\<lambda>e. ev_Name e = k) (c_Env c) of
     None \<Rightarrow> False | Some e \<Rightarrow> ev_ValueFrom e = None \<and> f (ev_Value e) = ev_Value e)"

lemma update_done:
  "find (\<lambda>e. ev_Name e = k) es = Some e \<Longrightarrow> f (ev_Value e) = ev_Value e \<Longrightarrow>
   AddOrUpdateEnvVar es (env_value k w) (Some (\<lambda>x _. x\<lparr>ev_Value := f (ev_Value x)\<rparr>)) = es"
  by (induction es) (auto split: if_splits)

lemma env_done_again: "env_done k f c \<Longrightarrow> injectDDTraceEnvToContainer k f c = Some c"
  by (auto simp: env_done_def injectDDTraceEnvToContainer_def update_done split: option.splits)

lemma update_find:
  "find (\<lambda>e. ev_Name e = k) (AddOrUpdateEnvVar es (env_value k w) (Some (\<lambda>x _. x\<lparr>ev_Value := f (ev_Value x)\<rparr>))) =
     (case find (\<lambda>e. ev_Name e = k) es of None \<Rightarrow> Some (env_value k w)
      | Some e \<Rightarrow> Some (e\<lparr>ev_Value := f (ev_Value e)\<rparr>))"
  by (induction es) auto

lemma inject_env_done:
  "injectDDTraceEnvToContainer k f c = Some d \<Longrightarrow> (\<And>v. f (f v) = f v) \<Longrightarrow> env_done k f d"
  by (auto simp: injectDDTraceEnvToContainer_def env_done_def update_find split: option.splits if_splits)

lemma inject_env_other:
  "injectDDTraceEnvToContainer k f c = Some d \<Longrightarrow> c_VolumeMounts d = c_VolumeMounts c \<and> c_Name d = c_Name c"
  by (auto simp: injectDDTraceEnvToContainer_def split: option.splits if_splits)

lemma find_keep:
  "find (\<lambda>e. ev_Name e = k) es = Some e \<Longrightarrow>
   find (\<lambda>e. ev_Name e = k) (AddOrUpdateEnvVar es i (Some KeepExistingEnvVar)) = Some e"
proof -
  assume *: "find (\<lambda>e. ev_Name e = k) es = Some e"
  then have "k \<in> names ev_Name es" using find_SomeD [OF *] by (auto simp: names_def)
  then show ?thesis using * by (simp add: env.find_add)
qed

lemma env_done_keep:
  "env_done k f c \<Longrightarrow> env_done k f (c\<lparr>c_Env := AddOrUpdateEnvVar (c_Env c) i (Some KeepExistingEnvVar)\<rparr>)"
  by (cases "find (\<lambda>e. ev_Name e = k) (c_Env c)") (simp_all add: env_done_def find_keep)

lemma env_done_tags:
  assumes "env_done k f c" "k \<noteq> ddtraceDDTagsKey" "ev_Name i = ddtraceDDTagsKey"
  shows "env_done k f (c\<lparr>c_Env := addOrMergeDDTagsEnvVar (c_Env c) i\<rparr>)"
proof -
  have "find (\<lambda>e. ev_Name e = k) (addOrMergeDDTagsEnvVar es i) = find (\<lambda>e. ev_Name e = k) es" for es
  proof -
    let ?n = "length (takeWhile (\<lambda>e. ev_Name e \<noteq> ddtraceDDTagsKey) es)"
    show ?thesis
    proof (cases "?n = length es")
      case True
      then show ?thesis using assms(2,3)
        by (auto simp: addOrMergeDDTagsEnvVar_def find_append split: option.splits)
    next
      case False
      note t = first_tag [OF refl False]
      have "find (\<lambda>e. ev_Name e = k) es = find (\<lambda>e. ev_Name e = k) (take ?n es @ es ! ?n # drop (?n + 1) es)"
        using id_take_nth_drop [OF t(1)] by simp
      then show ?thesis using False t assms(2,3)
        by (auto simp: addOrMergeDDTagsEnvVar_def Let_def find_append split: option.splits)
    qed
  qed
  then show ?thesis using assms(1) by (simp add: env_done_def)
qed

lemma java_twice: "appendJavaAgentIfMissing (appendJavaAgentIfMissing v) = appendJavaAgentIfMissing v"
proof (cases "list_ex (\<lambda>w. w = javaAgentOption \<or> has_prefix w (javaAgentOption @ ''='')) (go_fields v)")
  case False
  have "list_all plain_char javaAgentOption" "javaAgentOption \<noteq> []" by code_simp+
  then have "go_fields (v @ '' '' @ javaAgentOption) = go_fields v @ [javaAgentOption]"
    by (rule go_fields_append_option)
  then show ?thesis using False by (simp add: appendJavaAgentIfMissing_def)
qed (simp add: appendJavaAgentIfMissing_def)

definition all_done :: "pod \<Rightarrow> bool" where
  "all_done p \<longleftrightarrow> list_all (env_done javaToolOptionsKey appendJavaAgentIfMissing) (p_Containers p)"

lemma tags_key: "javaToolOptionsKey \<noteq> ddtraceDDTagsKey"
  by (simp add: javaToolOptionsKey_def ddtraceDDTagsKey_def)

lemma all_done_env: "all_done p \<Longrightarrow> all_done (ddtrace_injectGlobalEnv i p)"
  using tags_key
  by (auto simp: all_done_def ddtrace_injectGlobalEnv_def list_all_iff intro: env_done_keep env_done_tags)

lemma all_done_envs: "all_done p \<Longrightarrow> all_done (ddtrace_injectGlobalEnvs es p)"
  by (induction es arbitrary: p) (auto simp: ddtrace_injectGlobalEnvs_def intro: all_done_env)

lemma env_done_mount: "env_done k f c \<Longrightarrow> env_done k f (AddVolumeMountToContainer m c)"
  by (simp add: env_done_def AddVolumeMountToContainer_def)

lemma all_done_java:
  assumes "injectDDTraceConfig javaToolOptionsKey appendJavaAgentIfMissing p = Some q"
  shows "all_done q"
proof -
  obtain cs where cs: "those (map (injectDDTraceEnvToContainer javaToolOptionsKey appendJavaAgentIfMissing)
      (p_Containers p)) = Some cs"
    and q: "q = AddVolumeMount (mount ddtraceVolumeName ddtraceMountPath) (p\<lparr>p_Containers := cs\<rparr>)"
    using assms by (auto simp: injectDDTraceConfig_def split: option.splits)
  have "list_all2 (\<lambda>_ d. env_done javaToolOptionsKey appendJavaAgentIfMissing d) (p_Containers p) cs"
    using those_map [OF cs] by (rule list_all2_mono) (rule inject_env_done, assumption, rule java_twice)
  then have "list_all (env_done javaToolOptionsKey appendJavaAgentIfMissing) cs"
    by (auto simp: list_all2_conv_all_nth list_all_length)
  then show ?thesis unfolding q by (auto simp: all_done_def AddVolumeMount_def list_all_iff env_done_mount)
qed

section \<open>Injecting again\<close>

lemma repair_container_again: "repair_container (repair_container c) = repair_container c"
proof (cases "hasDDTraceLibraryMount c")
  case mounted: True
  show ?thesis
  proof (cases "injectDDTraceEnvToContainer javaToolOptionsKey appendJavaAgentIfMissing c")
    case None
    then show ?thesis by (simp add: repair_container_def mounted)
  next
    case (Some d)
    have "hasDDTraceLibraryMount d" using mounted inject_env_other [OF Some]
      by (simp add: hasDDTraceLibraryMount_def)
    then show ?thesis using env_done_again [OF inject_env_done [OF Some java_twice]] Some mounted
      by (simp add: repair_container_def)
  qed
qed (simp add: repair_container_def)

lemma repair_container_mount [simp]: "c_VolumeMounts (repair_container c) = c_VolumeMounts c"
  by (auto simp: repair_container_def inject_env_other split: option.splits)

lemma repair_done: "env_done javaToolOptionsKey appendJavaAgentIfMissing c \<Longrightarrow> repair_container c = c"
  by (simp add: repair_container_def env_done_again)

lemma map_containers_id: "(\<And>c. c \<in> set (p_Containers p) \<Longrightarrow> f c = c) \<Longrightarrow> map_containers f p = p"
  by (simp add: map_containers_def map_idI)

lemma repair_again: "repairJavaAgentEnv (repairJavaAgentEnv p) = repairJavaAgentEnv p"
proof -
  have "map_containers repair_container (map_containers repair_container p) = map_containers repair_container p"
    by (rule map_containers_id) (auto simp: repair_container_again)
  then show ?thesis by (simp add: repairJavaAgentEnv_def IsEmptyDirVolume_def Changed_def)
qed

lemma repair_all_done: "all_done p \<Longrightarrow> repairJavaAgentEnv p = p"
proof -
  assume "all_done p"
  then have "map_containers repair_container p = p"
    by (intro map_containers_id repair_done) (auto simp: all_done_def list_all_iff)
  then show ?thesis by (simp add: repairJavaAgentEnv_def Changed_def)
qed

subsection \<open>Well-formed Pods stay well formed\<close>

lemma wf_containers:
  assumes "wf_with vs p"
    and "list_all2 (\<lambda>c d. c_VolumeMounts d = c_VolumeMounts c \<and> c_Name d = c_Name c) (p_Containers p) cs"
  shows "wf_with vs (p\<lparr>p_Containers := cs\<rparr>)"
proof -
  have "map c_Name cs = map c_Name (p_Containers p)"
    using assms(2) by (induction rule: list_all2_induct) auto
  moreover have "list_all (mounts_in ws) (p_Containers p) \<Longrightarrow> list_all (mounts_in ws) cs" for ws
    using assms(2) by (induction rule: list_all2_induct) (auto simp: mounts_in_def)
  ultimately show ?thesis using assms(1) by (simp add: wf_with_def)
qed

lemma wf_config:
  assumes "injectDDTraceConfig k f p = Some q" "wf_with vs p"
    "ddtraceVolumeName \<in> names v_Name (p_Volumes p) \<union> vs"
  shows "wf_with vs q" and "names v_Name (p_Volumes q) = names v_Name (p_Volumes p)"
proof -
  obtain cs where cs: "those (map (injectDDTraceEnvToContainer k f) (p_Containers p)) = Some cs"
    and q: "q = AddVolumeMount (mount ddtraceVolumeName ddtraceMountPath) (p\<lparr>p_Containers := cs\<rparr>)"
    using assms(1) by (auto simp: injectDDTraceConfig_def split: option.splits)
  have "list_all2 (\<lambda>c d. c_VolumeMounts d = c_VolumeMounts c \<and> c_Name d = c_Name c) (p_Containers p) cs"
    using those_map [OF cs] by (rule list_all2_mono) (rule inject_env_other)
  from wf_containers [OF assms(2) this] show "wf_with vs q" unfolding q
    by (rule wf_AddVolumeMount) (use assms(3) in simp)
  show "names v_Name (p_Volumes q) = names v_Name (p_Volumes p)" unfolding q by (simp add: AddVolumeMount_def)
qed

lemma wf_library:
  assumes "ddtraceLibrary lang = Some lib" "lib p = Some q" "wf_with vs p"
    "ddtraceVolumeName \<in> names v_Name (p_Volumes p) \<union> vs"
  shows "wf_with vs q"
proof (cases "\<exists>k f. lib = injectDDTraceConfig k f")
  case True
  then show ?thesis using assms wf_config(1) by blast
next
  case False
  then have "lib = (\<lambda>p. case injectDDTraceConfig ''DD_LOADER_PACKAGE_PATH'' php_loader_path p of
            None \<Rightarrow> None | Some p1 \<Rightarrow> injectDDTraceConfig ''PHP_INI_SCAN_DIR'' php_scan_dir p1)"
    using assms(1) by (auto simp: ddtraceLibrary_def split: if_splits)
  then obtain p1 where p1: "injectDDTraceConfig ''DD_LOADER_PACKAGE_PATH'' php_loader_path p = Some p1"
      "injectDDTraceConfig ''PHP_INI_SCAN_DIR'' php_scan_dir p1 = Some q"
    using assms(2) by (auto split: option.splits)
  show ?thesis by (rule wf_config(1) [OF p1(2)]) (use wf_config [OF p1(1) assms(3,4)] assms(4) in auto)
qed

lemma wf_globalEnvs: "wf_with vs p \<Longrightarrow> wf_with vs (ddtrace_injectGlobalEnvs es p)"
proof (induction es arbitrary: p)
  case (Cons e es)
  have "wf_with vs (ddtrace_injectGlobalEnv e p)" using Cons.prems
    by (simp add: ddtrace_injectGlobalEnv_def wf_env)
  then show ?case using Cons.IH by (simp add: ddtrace_injectGlobalEnvs_def)
qed (simp add: ddtrace_injectGlobalEnvs_def)

lemma wf_repair: "wf_with vs p \<Longrightarrow> wf_with vs (repairJavaAgentEnv p)"
proof -
  assume *: "wf_with vs p"
  have "wf_with vs (map_containers repair_container p)"
    using * by (rule wf_map_containers)
      (auto simp: mounts_in_def repair_container_def inject_env_other split: option.splits)
  then show ?thesis using * by (simp add: repairJavaAgentEnv_def)
qed

lemma wf_ddtrace_mutate:
  assumes "ddtrace_mutate pq rule v lib p = Some q" "ddtraceLibrary lang = Some lib" "wf_pod p"
  shows "wf_pod q"
proof -
  obtain img p1 where p1: "ddtrace_injectInitContainer pq img (PullPolicy_Value (ir_ImagePullPolicy rule))
                (ir_Resources rule) (dd_Language rule) (getPHPLoaderFlavor rule) p = Some p1"
    and q: "(case lib p1 of None \<Rightarrow> Some p
             | Some p2 \<Rightarrow>
                 let p3 = ddtrace_injectGlobalVolume p2;
                     envs = FilterAndSetResourceFieldRefEnvVars (BuildEnvs (ir_Envs rule) True) p3
                 in Some (ddtrace_injectGlobalEnvs envs p3)) = Some q"
    using assms(1) unfolding ddtrace_mutate_def Let_def by (auto split: option.split_asm)
  obtain c where c: "c_VolumeMounts c = [mount ddtraceVolumeName ddtraceMountPath]" "p1 = AddInitContainer c p"
    using p1 with_resources_frame(3) by (fastforce simp: ddtrace_injectInitContainer_def)
  have "wf_with {ddtraceVolumeName} p1" unfolding c(2)
    using wf_pending [OF assms(3)] by (rule wf_AddInitContainer) (simp add: mounts_in_def c(1))
  then have "wf_with {ddtraceVolumeName} p2" if "lib p1 = Some p2" for p2
    using wf_library [OF assms(2) that] by simp
  then have "wf_with {} (ddtrace_injectGlobalVolume p2)" if "lib p1 = Some p2" for p2
    using that by (simp add: ddtrace_injectGlobalVolume_def wf_AddVolume)
  then show ?thesis using q assms(3)
    by (auto simp: wf_pod_def Let_def intro: wf_globalEnvs split: option.split_asm)
qed

lemma wf_repaired: "wf_pod p \<Longrightarrow> wf_pod (repairJavaAgentEnv p)"
  by (simp add: wf_pod_def wf_repair)

lemma wf_ddtrace_process: "ddtrace_process rules pq ns p = Some (s, q) \<Longrightarrow> wf_pod p \<Longrightarrow> wf_pod q"
  by (auto simp: ddtrace_process_def Let_def intro: wf_ddtrace_mutate wf_repaired
      split: option.split_asm if_split_asm)

interpretation dd: safe_mutation "InjectDDTraceToPod rules pq" for rules pq
  by unfold_locales
    (auto simp: InjectDDTraceToPod_def injectDDTraceToPod_def Changed_def
      intro: ddtrace_process_le wf_ddtrace_process)

subsection \<open>The rule chosen\<close>

text \<open>What the rule is chosen by; only an added init container can change it.\<close>

definition same_view :: "pod \<Rightarrow> pod \<Rightarrow> bool" where
  "same_view p q \<longleftrightarrow> p_Annotations q = p_Annotations p \<and> p_Labels q = p_Labels p \<and>
     p_Namespace q = p_Namespace p \<and> p_InitContainers q = p_InitContainers p"

lemma same_view_refl [simp]: "same_view p p"
  and same_view_trans: "same_view p q \<Longrightarrow> same_view q r \<Longrightarrow> same_view p r"
  by (simp_all add: same_view_def)

lemma same_view_steps [simp]:
  "same_view p (AddVolumeMount m p)" "same_view p (AddVolume v p)" "same_view p (p\<lparr>p_Containers := cs\<rparr>)"
  "same_view p (map_containers f p)" "same_view p (ddtrace_injectGlobalEnv i p)"
  "same_view p (repairJavaAgentEnv p)"
  by (simp_all add: same_view_def AddVolumeMount_def AddVolume_def ddtrace_injectGlobalEnv_def
      repairJavaAgentEnv_def)

lemma same_view_config: "injectDDTraceConfig k f p = Some q \<Longrightarrow> same_view p q"
  by (auto simp: injectDDTraceConfig_def split: option.splits)
    (auto simp: same_view_def AddVolumeMount_def)

lemma same_view_library: "ddtraceLibrary lang = Some lib \<Longrightarrow> lib p = Some q \<Longrightarrow> same_view p q"
  by (auto simp: ddtraceLibrary_def split: if_splits option.splits
      intro: same_view_config same_view_trans [OF same_view_config same_view_config])

lemma same_view_envs: "same_view p (ddtrace_injectGlobalEnvs es p)"
  by (induction es arbitrary: p)
    (auto simp: ddtrace_injectGlobalEnvs_def intro: same_view_trans [OF same_view_steps(5)])

text \<open>A mutation either leaves the Pod, or adds the init container and finishes every step.\<close>

lemma ddtrace_mutate_cases:
  assumes "ddtrace_mutate pq rule v lib p = Some q" "ddtraceLibrary (dd_Language rule) = Some lib"
    and new: "\<not> ContainsInitContainer ddtraceInitContainerName p"
  obtains "q = p"
  | c p1 p2 where "c_Name c = ddtraceInitContainerName" "c_Image c = (if v \<noteq> [] then replaceImageVersion (ir_Image rule) v else ir_Image rule)"
      "p1 = p\<lparr>p_InitContainers := p_InitContainers p @ [c]\<rparr>" "lib p1 = Some p2"
      "q = ddtrace_injectGlobalEnvs (FilterAndSetResourceFieldRefEnvVars (BuildEnvs (ir_Envs rule) True)
              (ddtrace_injectGlobalVolume p2)) (ddtrace_injectGlobalVolume p2)"
proof -
  define img where "img = (if v \<noteq> [] then replaceImageVersion (ir_Image rule) v else ir_Image rule)"
  obtain p1 where p1: "ddtrace_injectInitContainer pq img (PullPolicy_Value (ir_ImagePullPolicy rule))
                (ir_Resources rule) (dd_Language rule) (getPHPLoaderFlavor rule) p = Some p1"
    and q: "(case lib p1 of None \<Rightarrow> Some p
             | Some p2 \<Rightarrow>
                 let p3 = ddtrace_injectGlobalVolume p2;
                     envs = FilterAndSetResourceFieldRefEnvVars (BuildEnvs (ir_Envs rule) True) p3
                 in Some (ddtrace_injectGlobalEnvs envs p3)) = Some q"
    using assms(1) unfolding ddtrace_mutate_def Let_def img_def by (auto split: option.split_asm)
  obtain c where c: "with_resources pq (ir_Resources rule)
         (no_container\<lparr>c_Name := ddtraceInitContainerName, c_Image := img,
            c_Command := ddtrace_command (dd_Language rule) (getPHPLoaderFlavor rule),
            c_ImagePullPolicy := PullPolicy_Value (ir_ImagePullPolicy rule),
            c_VolumeMounts := [mount ddtraceVolumeName ddtraceMountPath]\<rparr>) = Some c"
      "p1 = AddInitContainer c p"
    using p1 by (auto simp: ddtrace_injectInitContainer_def)
  have name: "c_Name c = ddtraceInitContainerName" "c_Image c = img"
    using with_resources_frame [OF c(1)] by simp_all
  then have p1': "p1 = p\<lparr>p_InitContainers := p_InitContainers p @ [c]\<rparr>"
    using new c(2) by (simp add: AddInitContainer_def ctr.add_absent ContainsInitContainer_def names_iff_ex)
  show thesis
  proof (cases "lib p1")
    case None
    then show thesis using q that(1) by simp
  next
    case (Some p2)
    then show thesis using q that(2) [OF _ _ p1' Some] name by (simp add: img_def Let_def)
  qed
qed

lemma init_after:
  assumes "same_view (p\<lparr>p_InitContainers := p_InitContainers p @ [c]\<rparr>) q" "c_Name c = ddtraceInitContainerName"
  shows "ContainsInitContainer ddtraceInitContainerName q"
    "ContainsInitContainer otelInitContainerName q \<longleftrightarrow> ContainsInitContainer otelInitContainerName p"
    "p_Annotations q = p_Annotations p" "p_Labels q = p_Labels p" "p_Namespace q = p_Namespace p"
  using assms
  by (auto simp: same_view_def ContainsInitContainer_def ddtraceInitContainerName_def otelInitContainerName_def)

lemma rule_cong:
  assumes "p_Annotations q = p_Annotations p" "p_Labels q = p_Labels p"
    "ContainsInitContainer otelInitContainerName q \<longleftrightarrow> ContainsInitContainer otelInitContainerName p"
  shows "ddtrace_getMatchingRule rules ns q = ddtrace_getMatchingRule rules ns p"
  using assms by (simp add: ddtrace_getMatchingRule_def)

lemma mutated_view:
  assumes "ddtraceLibrary lang = Some lib" "lib p1 = Some p2"
  shows "same_view p1 (ddtrace_injectGlobalEnvs es (ddtrace_injectGlobalVolume p2))"
  unfolding ddtrace_injectGlobalVolume_def
  by (intro same_view_trans [OF same_view_library [OF assms]] same_view_trans [OF same_view_steps(2) same_view_envs])

lemma all_done_volume: "all_done p \<Longrightarrow> all_done (ddtrace_injectGlobalVolume p)"
  by (simp add: all_done_def ddtrace_injectGlobalVolume_def AddVolume_def)

lemma java_library: "ddtraceLibrary ''java'' = Some lib \<Longrightarrow> lib p = Some q \<Longrightarrow> all_done q"
  by (auto simp: ddtraceLibrary_def intro: all_done_java)

text \<open>A Pod which has the init container is repaired, and only that, when its rule is still chosen.\<close>

lemma ddtrace_process_repair:
  assumes rule: "ddtrace_getMatchingRule rules (if p_Namespace p \<noteq> [] then p_Namespace p else ns) p = Some (r, v)"
    and view: "p_Annotations q = p_Annotations p" "p_Labels q = p_Labels p" "p_Namespace q = p_Namespace p"
      "ContainsInitContainer otelInitContainerName q \<longleftrightarrow> ContainsInitContainer otelInitContainerName p"
    and init: "ContainsInitContainer ddtraceInitContainerName q"
  shows "ddtrace_process rules pq ns q = Some (True, if dd_Language r = ''java'' then repairJavaAgentEnv q else q)"
  using rule view init rule_cong [of q p rules "if p_Namespace p \<noteq> [] then p_Namespace p else ns"]
  by (cases "p_Namespace p = []") (simp_all add: ddtrace_process_def)

lemma ddtrace_mutate_again:
  assumes m: "ddtrace_mutate pq r v lib p = Some q" and lib: "ddtraceLibrary (dd_Language r) = Some lib"
    and new: "\<not> ContainsInitContainer ddtraceInitContainerName p"
    and rule: "ddtrace_getMatchingRule rules (if p_Namespace p \<noteq> [] then p_Namespace p else ns) p = Some (r, v)"
    and self: "q = p \<Longrightarrow> ddtrace_process rules pq ns q = Some (True, q)"
  shows "ddtrace_process rules pq ns q = Some (True, q)"
  using m lib new
proof (cases rule: ddtrace_mutate_cases)
  case 1
  then show ?thesis using self by simp
next
  case (2 c p1 p2)
  have view: "same_view p1 q" unfolding 2(5) by (rule mutated_view [OF lib 2(4)])
  have "repairJavaAgentEnv q = q" if "dd_Language r = ''java''"
    unfolding 2(5) using java_library [OF lib [unfolded that] 2(4)]
    by (intro repair_all_done all_done_envs all_done_volume)
  then show ?thesis using ddtrace_process_repair [OF rule, of q pq] init_after [OF view [unfolded 2(3)] 2(1)] by simp
qed

lemma ddtrace_process_again:
  assumes "ddtrace_process rules pq ns p = Some (sel, q)"
  shows "ddtrace_process rules pq ns q = Some (sel, q)"
proof (cases "ddtrace_getMatchingRule rules (if p_Namespace p \<noteq> [] then p_Namespace p else ns) p")
  case None
  then show ?thesis using assms by (auto simp: ddtrace_process_def Let_def)
next
  case (Some rv)
  then obtain r v where rule:
      "ddtrace_getMatchingRule rules (if p_Namespace p \<noteq> [] then p_Namespace p else ns) p = Some (r, v)"
    by (cases rv) simp
  consider (repair) "ContainsInitContainer ddtraceInitContainerName p"
    | (none) "\<not> ContainsInitContainer ddtraceInitContainerName p" "ddtraceLibrary (dd_Language r) = None"
    | (mutate) lib where "\<not> ContainsInitContainer ddtraceInitContainerName p" "ddtraceLibrary (dd_Language r) = Some lib"
    by (cases "ddtraceLibrary (dd_Language r)") auto
  then show ?thesis
  proof cases
    case repair
    then have q: "sel = True" "q = (if dd_Language r = ''java'' then repairJavaAgentEnv p else p)"
      using assms rule by (auto simp: ddtrace_process_def Let_def split: if_splits)
    then have view: "same_view p q" by simp
    have fixed: "(if dd_Language r = ''java'' then repairJavaAgentEnv q else q) = q" using q(2) repair_again [of p] by simp
    have "ddtrace_process rules pq ns q = Some (True, if dd_Language r = ''java'' then repairJavaAgentEnv q else q)"
      by (rule ddtrace_process_repair [OF rule])
        (use view repair in \<open>simp_all add: same_view_def ContainsInitContainer_def\<close>)
    then show ?thesis unfolding fixed q(1) .
  next
    case none
    then show ?thesis using assms rule by (auto simp: ddtrace_process_def Let_def)
  next
    case (mutate lib)
    then have m: "ddtrace_mutate pq r v lib p = Some q" "sel = True"
      using assms rule by (auto simp: ddtrace_process_def Let_def)
    have "q = p \<Longrightarrow> ddtrace_process rules pq ns q = Some (True, q)" using assms m(2) by metis
    then show ?thesis unfolding m(2) by (rule ddtrace_mutate_again [OF m(1) mutate(2,1) rule])
  qed
qed

lemma java_fixed: "appendJavaAgentIfMissing v = v \<Longrightarrow>
    list_ex (\<lambda>w. w = javaAgentOption \<or> has_prefix w (javaAgentOption @ ''='')) (go_fields v)"
  by (simp add: appendJavaAgentIfMissing_def split: if_split_asm)

definition all_mounted :: "pod \<Rightarrow> bool" where
  "all_mounted p \<longleftrightarrow> list_all (\<lambda>c. ddtraceVolumeName \<in> names vm_Name (c_VolumeMounts c)) (p_Containers p)"

lemma all_mounted_env: "all_mounted p \<Longrightarrow> all_mounted (ddtrace_injectGlobalEnv i p)"
  by (auto simp: all_mounted_def ddtrace_injectGlobalEnv_def list_all_iff)

lemma all_mounted_envs: "all_mounted p \<Longrightarrow> all_mounted (ddtrace_injectGlobalEnvs es p)"
  by (induction es arbitrary: p) (auto simp: ddtrace_injectGlobalEnvs_def intro: all_mounted_env)

lemma all_mounted_config: "injectDDTraceConfig k f p = Some q \<Longrightarrow> all_mounted q"
  by (auto simp: injectDDTraceConfig_def all_mounted_def AddVolumeMount_def AddVolumeMountToContainer_def
      list_all_iff mnt.names_add split: option.splits)

lemma all_mounted_volume: "all_mounted p \<Longrightarrow> all_mounted (ddtrace_injectGlobalVolume p)"
  by (simp add: all_mounted_def ddtrace_injectGlobalVolume_def AddVolume_def)

lemma globalEnvs_volumes [simp]: "p_Volumes (ddtrace_injectGlobalEnvs es p) = p_Volumes p"
proof (induction es arbitrary: p)
  case (Cons e es)
  have "p_Volumes (ddtrace_injectGlobalEnv e p) = p_Volumes p" by (simp add: ddtrace_injectGlobalEnv_def)
  then show ?case using Cons [of "ddtrace_injectGlobalEnv e p"] by (simp add: ddtrace_injectGlobalEnvs_def)
qed (simp add: ddtrace_injectGlobalEnvs_def)

definition example_java :: ddtrace_rule where
  "example_java = inject_rule.extend example_rule (ddtrace_rule.fields False ''java'' [])"

lemma example_java_changes: "\<exists>q. InjectDDTraceToPod [Some example_java] example_quantity ''default'' example_pod = Some (True, q)"
proof -
  have "map_option fst (InjectDDTraceToPod [Some example_java] example_quantity ''default'' example_pod) = Some True"
    by code_simp
  then show ?thesis by auto
qed

section \<open>Properties\<close>

text \<open>C8: the injection is idempotent: on a Pod it has already mutated (the API server may call the webhook
  again), it changes nothing, whatever the rules, the language and the Pod.\<close>

theorem ddtrace_idempotent:
  assumes "InjectDDTraceToPod rules pq ns p = Some (changed, q)"
  shows "InjectDDTraceToPod rules pq ns q = Some (False, q)"
proof -
  obtain sel where "ddtrace_process rules pq ns p = Some (sel, q)"
    using assms by (auto simp: InjectDDTraceToPod_def injectDDTraceToPod_def)
  from ddtrace_process_again [OF this] show ?thesis
    by (simp add: InjectDDTraceToPod_def injectDDTraceToPod_def Changed_def)
qed

lemma ddtrace_idempotent_witness:
  "\<exists>q. InjectDDTraceToPod [Some example_java] example_quantity ''default'' example_pod = Some (True, q) \<and>
       InjectDDTraceToPod [Some example_java] example_quantity ''default'' q = Some (False, q)"
  using example_java_changes ddtrace_idempotent by blast

text \<open>C9: the injection is complete or absent.  When a Java rule is chosen and the Pod is changed, every
  application container has the agent in a plain \<open>JAVA_TOOL_OPTIONS\<close> and a mount of the library volume, and
  the Pod has the volume and exactly one more init container, with the configured image at the annotated version.\<close>

theorem ddtrace_java_complete:
  assumes inject: "InjectDDTraceToPod rules pq ns p = Some (True, q)"
    and rule: "ddtrace_getMatchingRule rules (if p_Namespace p \<noteq> [] then p_Namespace p else ns) p = Some (r, v)"
    and java: "dd_Language r = ''java''"
    and new: "\<not> ContainsInitContainer ddtraceInitContainerName p"
  shows "list_all (\<lambda>c. (case find (\<lambda>e. ev_Name e = ''JAVA_TOOL_OPTIONS'') (c_Env c) of
              None \<Rightarrow> False
            | Some e \<Rightarrow> ev_ValueFrom e = None \<and>
                list_ex (\<lambda>w. w = javaAgentOption \<or> has_prefix w (javaAgentOption @ ''='')) (go_fields (ev_Value e)))
          \<and> list_ex (\<lambda>m. vm_Name m = ''datakit-auto-instrument'') (c_VolumeMounts c)) (p_Containers q)
    \<and> list_ex (\<lambda>x. v_Name x = ''datakit-auto-instrument'') (p_Volumes q)
    \<and> (\<exists>c. p_InitContainers q = p_InitContainers p @ [c] \<and> c_Name c = ''datakit-lib-init'' \<and>
         c_Image c = (if v \<noteq> [] then replaceImageVersion (ir_Image r) v else ir_Image r))"
proof -
  obtain lib where lib: "ddtraceLibrary (dd_Language r) = Some lib"
      "lib = injectDDTraceConfig javaToolOptionsKey appendJavaAgentIfMissing"
    using java by (simp add: ddtraceLibrary_def)
  have m: "ddtrace_mutate pq r v lib p = Some q" and ne: "q \<noteq> p"
    using inject rule lib(1) new
    by (auto simp: InjectDDTraceToPod_def injectDDTraceToPod_def ddtrace_process_def Let_def Changed_def)
  from m lib(1) new show ?thesis
  proof (cases rule: ddtrace_mutate_cases)
    case 1
    then show ?thesis using ne by simp
  next
    case (2 c p1 p2)
    have view: "same_view p1 q" unfolding 2(5) by (rule mutated_view [OF lib(1) 2(4)])
    have config: "injectDDTraceConfig javaToolOptionsKey appendJavaAgentIfMissing p1 = Some p2"
      using 2(4) lib(2) by simp
    have "all_done q" unfolding 2(5)
      by (intro all_done_envs all_done_volume all_done_java [OF config])
    moreover have "all_mounted q" unfolding 2(5)
      by (intro all_mounted_envs all_mounted_volume all_mounted_config [OF config])
    moreover have "ddtraceVolumeName \<in> names v_Name (p_Volumes q)"
      using 2(5) by (simp add: ddtrace_injectGlobalVolume_def AddVolume_def vol.names_add)
    moreover have "p_InitContainers q = p_InitContainers p @ [c]" using view 2(3) by (simp add: same_view_def)
    ultimately show ?thesis using 2(1,2) java_fixed
      by (auto simp: all_done_def all_mounted_def list_all_iff env_done_def javaToolOptionsKey_def
          ddtraceVolumeName_def ddtraceInitContainerName_def simp flip: names_iff_ex split: option.splits)
  qed
qed

lemma ddtrace_java_complete_witness:
  "\<exists>q. InjectDDTraceToPod [Some example_java] example_quantity ''default'' example_pod = Some (True, q) \<and>
       list_ex (\<lambda>x. v_Name x = ''datakit-auto-instrument'') (p_Volumes q)"
proof -
  obtain q where q: "InjectDDTraceToPod [Some example_java] example_quantity ''default'' example_pod = Some (True, q)"
    using example_java_changes by blast
  let ?r = "ddtrace_getMatchingRule [Some example_java]
      (if p_Namespace example_pod \<noteq> [] then p_Namespace example_pod else ''default'') example_pod"
  have "map_option (\<lambda>(r, _). dd_Language r) ?r = Some ''java''" by code_simp
  then obtain r v where rule: "?r = Some (r, v)" "dd_Language r = ''java''" by auto
  have "\<not> ContainsInitContainer ddtraceInitContainerName example_pod" by code_simp
  from ddtrace_java_complete [OF q rule this] show ?thesis using q by blast
qed

end
