(* ===== verification/OTel.thy ===== *)
theory OTel
  imports DDTrace
begin

text \<open>
  Injection of the OpenTelemetry libraries (\<open>apis/webhook/injector/otel.go\<close>).  The reasons of a
  failed validation are only logged, so a validation is a truth value.  \<open>None\<close> is a panic.
  \<open>reflect.DeepEqual\<close> on the compared structs is equality of the records;
  \<open>k8sreflect.DeepDerivative\<close> ignores what its first argument leaves unset.
\<close>

section \<open>Constants\<close>

definition otelEnabledAnnotationKey :: string where
  "otelEnabledAnnotationKey = ''admission.datakit/otel.enabled''"
definition otelVersionAnnotationKey :: "string \<Rightarrow> string" where
  "otelVersionAnnotationKey lang = ''admission.datakit/otel-'' @ lang @ ''-lib.version''"
definition otelVolumeName :: string where "otelVolumeName = ''datakit-otel-auto-instrument''"
definition otelJavaMountPath :: string where "otelJavaMountPath = ''/otel-auto-instrumentation-java''"
definition otelJavaAgentSourcePath :: string where "otelJavaAgentSourcePath = ''/javaagent.jar''"
definition otelJavaAgentPath :: string where "otelJavaAgentPath = otelJavaMountPath @ ''/javaagent.jar''"
definition otelJavaAgentOption :: string where "otelJavaAgentOption = ''-javaagent:'' @ otelJavaAgentPath"
definition ddJavaAgentFileName :: string where "ddJavaAgentFileName = ''dd-java-agent.jar''"
definition ddNodeJSInitModule :: string where "ddNodeJSInitModule = ''dd-trace/init''"
definition otelPythonMountPath :: string where "otelPythonMountPath = ''/otel-auto-instrumentation-python''"
definition otelPythonPathKey :: string where "otelPythonPathKey = ''PYTHONPATH''"
definition otelPythonPathPrefix :: string where
  "otelPythonPathPrefix = otelPythonMountPath @ ''/opentelemetry/instrumentation/auto_instrumentation''"
definition otelNodeJSMountPath :: string where "otelNodeJSMountPath = ''/otel-auto-instrumentation-nodejs''"
definition otelNodeJSOptionsKey :: string where "otelNodeJSOptionsKey = ''NODE_OPTIONS''"
definition otelNodeJSRequirePath :: string where
  "otelNodeJSRequirePath = otelNodeJSMountPath @ ''/autoinstrumentation.js''"
definition otelNodeJSRequireOption :: string where
  "otelNodeJSRequireOption = ''--require '' @ otelNodeJSRequirePath"

section \<open>Environment values\<close>

definition containsPythonPathComponent :: "string \<Rightarrow> string \<Rightarrow> bool" where
  "containsPythonPathComponent v path \<longleftrightarrow>
     list_ex (\<lambda>w. w = path \<or> w = path @ ''/'') (split_on (CHR '':'') v)"

definition isOTelPythonPathInjected :: "string \<Rightarrow> bool" where
  "isOTelPythonPathInjected v =
     (let components = split_on (CHR '':'') v in
      if length components < 2 \<or> hd components \<noteq> otelPythonPathPrefix
         \<or> last components \<noteq> otelPythonMountPath then False
      else count_list components otelPythonPathPrefix = 1 \<and> count_list components otelPythonMountPath = 1)"

fun count_require :: "string list \<Rightarrow> nat" where
  "count_require (f # g # fs) =
     (if f = ''--require'' \<and> g = otelNodeJSRequirePath then Suc (count_require (g # fs))
      else count_require (g # fs))"
| "count_require fs = 0"

definition countNodeJSRequireOptions :: "string \<Rightarrow> nat" where
  "countNodeJSRequireOptions v = count_require (go_fields v)"

definition containsNodeJSRequireOption :: "string \<Rightarrow> bool" where
  "containsNodeJSRequireOption v \<longleftrightarrow> countNodeJSRequireOptions v = 1"

definition datadog_module :: "string \<Rightarrow> bool" where
  "datadog_module target0 =
     (let target = trim_suffix (trim_set {CHR 0x22, CHR 0x27} target0) ''.js''
      in target = ddNodeJSInitModule \<or> has_suffix target (''/node_modules/'' @ ddNodeJSInitModule))"

fun datadog_require :: "string list \<Rightarrow> bool" where
  "datadog_require [] = False"
| "datadog_require [f] =
     datadog_module (if f = ''--require'' \<or> f = ''-r'' then []
       else if has_prefix f ''--require='' then trim_prefix f ''--require=''
       else if has_prefix f ''-r='' then trim_prefix f ''-r='' else [])"
| "datadog_require (f # g # fs) =
     (if f = ''--require'' \<or> f = ''-r'' then datadog_module g \<or> datadog_require fs
      else datadog_module (if has_prefix f ''--require='' then trim_prefix f ''--require=''
             else if has_prefix f ''-r='' then trim_prefix f ''-r='' else [])
           \<or> datadog_require (g # fs))"

definition containsDatadogNodeJSRequire :: "string \<Rightarrow> bool" where
  "containsDatadogNodeJSRequire v = datadog_require (go_fields v)"

definition containsJavaToolOption :: "string \<Rightarrow> string \<Rightarrow> bool" where
  "containsJavaToolOption v option \<longleftrightarrow> list_ex (\<lambda>w. w = option) (go_fields v)"

text \<open>\<open>None\<close> is the index \<open>-1\<close>.\<close>

fun envIndex :: "envvar list \<Rightarrow> string \<Rightarrow> nat option" where
  "envIndex [] name = None"
| "envIndex (e # es) name = (if ev_Name e = name then Some 0 else map_option Suc (envIndex es name))"

section \<open>Compatibility of an init container\<close>

definition derive_string :: "string \<Rightarrow> string \<Rightarrow> bool" where
  "derive_string a b \<longleftrightarrow> a = [] \<or> a = b"

definition derive_ptr :: "('a \<Rightarrow> 'a \<Rightarrow> bool) \<Rightarrow> 'a option \<Rightarrow> 'a option \<Rightarrow> bool" where
  "derive_ptr d a b = (case a of None \<Rightarrow> True | Some x \<Rightarrow> (case b of None \<Rightarrow> False | Some y \<Rightarrow> d x y))"

definition derive_slice :: "('a \<Rightarrow> 'a \<Rightarrow> bool) \<Rightarrow> 'a list \<Rightarrow> 'a list \<Rightarrow> bool" where
  "derive_slice d a b = (if a = [] then True else if length a > length b then False
     else list_all2 d a (take (length a) b))"

definition derive_capabilities :: "capabilities \<Rightarrow> capabilities \<Rightarrow> bool" where
  "derive_capabilities a b \<longleftrightarrow>
     derive_slice derive_string (cap_Add a) (cap_Add b) \<and> derive_slice derive_string (cap_Drop a) (cap_Drop b)"

definition derive_selinux :: "selinux_options \<Rightarrow> selinux_options \<Rightarrow> bool" where
  "derive_selinux a b \<longleftrightarrow> derive_string (se_User a) (se_User b) \<and> derive_string (se_Role a) (se_Role b) \<and>
     derive_string (se_Type a) (se_Type b) \<and> derive_string (se_Level a) (se_Level b)"

definition derive_windows :: "windows_options \<Rightarrow> windows_options \<Rightarrow> bool" where
  "derive_windows a b \<longleftrightarrow>
     derive_ptr derive_string (wo_GMSACredentialSpecName a) (wo_GMSACredentialSpecName b) \<and>
     derive_ptr derive_string (wo_GMSACredentialSpec a) (wo_GMSACredentialSpec b) \<and>
     derive_ptr derive_string (wo_RunAsUserName a) (wo_RunAsUserName b) \<and>
     derive_ptr (=) (wo_HostProcess a) (wo_HostProcess b)"

definition derive_seccomp :: "seccomp_profile \<Rightarrow> seccomp_profile \<Rightarrow> bool" where
  "derive_seccomp a b \<longleftrightarrow> derive_string (sp_Type a) (sp_Type b) \<and>
     derive_ptr derive_string (sp_LocalhostProfile a) (sp_LocalhostProfile b)"

definition DeepDerivative :: "security_context \<Rightarrow> security_context \<Rightarrow> bool" where
  "DeepDerivative a b \<longleftrightarrow>
     derive_ptr derive_capabilities (sc_Capabilities a) (sc_Capabilities b) \<and>
     derive_ptr (=) (sc_Privileged a) (sc_Privileged b) \<and>
     derive_ptr derive_selinux (sc_SELinuxOptions a) (sc_SELinuxOptions b) \<and>
     derive_ptr derive_windows (sc_WindowsOptions a) (sc_WindowsOptions b) \<and>
     derive_ptr (=) (sc_RunAsUser a) (sc_RunAsUser b) \<and>
     derive_ptr (=) (sc_RunAsGroup a) (sc_RunAsGroup b) \<and>
     derive_ptr (=) (sc_RunAsNonRoot a) (sc_RunAsNonRoot b) \<and>
     derive_ptr (=) (sc_ReadOnlyRootFilesystem a) (sc_ReadOnlyRootFilesystem b) \<and>
     derive_ptr (=) (sc_AllowPrivilegeEscalation a) (sc_AllowPrivilegeEscalation b) \<and>
     derive_ptr derive_string (sc_ProcMount a) (sc_ProcMount b) \<and>
     derive_ptr derive_seccomp (sc_SeccompProfile a) (sc_SeccompProfile b)"

definition securityContextCompatible :: "security_context option \<Rightarrow> security_context option \<Rightarrow> bool" where
  "securityContextCompatible desired existing =
     (case desired of None \<Rightarrow> True
      | Some d \<Rightarrow> (case existing of None \<Rightarrow> False | Some e \<Rightarrow> DeepDerivative d e))"

definition otelInitVolumeMount :: "volume_mount list \<Rightarrow> volume_mount option" where
  "otelInitVolumeMount ms =
     (case filter (\<lambda>m. vm_Name m = otelVolumeName) ms of [m] \<Rightarrow> Some m | _ \<Rightarrow> None)"

definition otelInitContainerCompatible :: "container \<Rightarrow> container \<Rightarrow> bool" where
  "otelInitContainerCompatible existing desired =
     (if c_Image existing \<noteq> c_Image desired \<or> c_Command existing \<noteq> c_Command desired
         \<or> c_Args existing \<noteq> c_Args desired \<or> c_ImagePullPolicy existing \<noteq> c_ImagePullPolicy desired
         \<or> c_Resources existing \<noteq> c_Resources desired then False
      else if \<not> securityContextCompatible (c_SecurityContext desired) (c_SecurityContext existing) then False
      else case otelInitVolumeMount (c_VolumeMounts desired) of
          None \<Rightarrow> False
        | Some d \<Rightarrow>
            (let owned = filter (\<lambda>m. vm_Name m = vm_Name d \<or> vm_MountPath m = vm_MountPath d) (c_VolumeMounts existing)
             in list_all (\<lambda>m. m = d) owned \<and> length owned = 1))"

definition runAsNonRootWithoutNonRootUser :: "pod_security_context option \<Rightarrow> security_context option \<Rightarrow> bool" where
  "runAsNonRootWithoutNonRootUser podCtx ctrCtx =
     (let nonRoot0 = Option.bind podCtx ps_RunAsNonRoot; user0 = Option.bind podCtx ps_RunAsUser;
          nonRoot = (case Option.bind ctrCtx sc_RunAsNonRoot of None \<Rightarrow> nonRoot0 | Some b \<Rightarrow> Some b);
          user = (case Option.bind ctrCtx sc_RunAsUser of None \<Rightarrow> user0 | Some u \<Rightarrow> Some u)
      in nonRoot = Some True \<and> (user = None \<or> user = Some 0))"

section \<open>Validation\<close>

definition mount_conflict :: "string \<Rightarrow> volume_mount \<Rightarrow> bool" where
  "mount_conflict path m \<longleftrightarrow>
     vm_MountPath m = ddtraceMountPath \<or> trim_suffix (vm_MountPath m) ''/'' = ddtraceMountPath \<or>
     (vm_Name m = otelVolumeName) \<noteq> (vm_MountPath m = path) \<or>
     vm_Name m = otelVolumeName \<and> (vm_SubPath m \<noteq> [] \<or> vm_SubPathExpr m \<noteq> [])"

definition validateCommonInjection :: "string \<Rightarrow> container \<Rightarrow> string \<Rightarrow> pod \<Rightarrow> bool" where
  "validateCommonInjection configuredImage desired path p =
     (if trim_space configuredImage = [] then False
      else if p_Containers p = [] then False
      else if list_ex (\<lambda>c. c_Name c = ddtraceInitContainerName \<or>
             c_Name c = otelInitContainerName \<and> \<not> otelInitContainerCompatible c desired) (p_InitContainers p)
      then False
      else if list_ex (\<lambda>v. v_Name v = otelVolumeName \<and> v_EmptyDir v = None) (p_Volumes p) then False
      else \<not> list_ex (\<lambda>c. list_ex (mount_conflict path) (c_VolumeMounts c)) (p_Containers p))"

text \<open>The loop over the variables of a container, the same in the three languages: a second entry, an entry
  with \<open>valueFrom\<close> and an unacceptable value are errors.\<close>

fun env_entries_ok :: "string \<Rightarrow> (string \<Rightarrow> bool) \<Rightarrow> nat \<Rightarrow> envvar list \<Rightarrow> bool" where
  "env_entries_ok key unacceptable count [] = True"
| "env_entries_ok key unacceptable count (e # es) =
     (if ev_Name e \<noteq> key then env_entries_ok key unacceptable count es
      else if count + 1 > 1 then False
      else if ev_ValueFrom e \<noteq> None then False
      else if unacceptable (ev_Value e) then False
      else env_entries_ok key unacceptable (count + 1) es)"

definition validateJavaInjection :: "string \<Rightarrow> container \<Rightarrow> pod \<Rightarrow> bool" where
  "validateJavaInjection configuredImage desired p \<longleftrightarrow>
     validateCommonInjection configuredImage desired otelJavaMountPath p \<and>
     list_all (\<lambda>c. env_entries_ok javaToolOptionsKey (\<lambda>v. str_contains v ddJavaAgentFileName) 0 (c_Env c))
       (p_Containers p)"

definition python_unacceptable :: "string \<Rightarrow> bool" where
  "python_unacceptable v \<longleftrightarrow> containsPythonPathComponent v ddtraceMountPath \<or>
     \<not> isOTelPythonPathInjected v \<and>
       (containsPythonPathComponent v otelPythonPathPrefix \<or> containsPythonPathComponent v otelPythonMountPath)"

definition validatePythonInjection :: "string \<Rightarrow> container \<Rightarrow> pod \<Rightarrow> bool" where
  "validatePythonInjection configuredImage desired p \<longleftrightarrow>
     validateCommonInjection configuredImage desired otelPythonMountPath p \<and>
     list_all (\<lambda>c. env_entries_ok otelPythonPathKey python_unacceptable 0 (c_Env c)) (p_Containers p)"

definition nodejs_unacceptable :: "string \<Rightarrow> bool" where
  "nodejs_unacceptable v \<longleftrightarrow> str_contains v ddtraceMountPath \<or> containsDatadogNodeJSRequire v \<or>
     (let requireCount = countNodeJSRequireOptions v;
          pathCount = str_count v (trim_prefix otelNodeJSMountPath ''/'')
      in requireCount > 1 \<or> pathCount > 0 \<and> (requireCount \<noteq> 1 \<or> pathCount \<noteq> 1))"

definition validateNodeJSInjection :: "string \<Rightarrow> container \<Rightarrow> pod \<Rightarrow> bool" where
  "validateNodeJSInjection configuredImage desired p \<longleftrightarrow>
     validateCommonInjection configuredImage desired otelNodeJSMountPath p \<and>
     list_all (\<lambda>c. env_entries_ok otelNodeJSOptionsKey nodejs_unacceptable 0 (c_Env c)) (p_Containers p)"

section \<open>Steps on containers\<close>

definition set_value :: "container \<Rightarrow> nat \<Rightarrow> string \<Rightarrow> container" where
  "set_value c i v = c\<lparr>c_Env := (c_Env c)[i := (c_Env c ! i)\<lparr>ev_Value := v\<rparr>]\<rparr>"

definition otel_java_container :: "container \<Rightarrow> container" where
  "otel_java_container c = AddVolumeMountToContainer (mount otelVolumeName otelJavaMountPath)
     (case envIndex (c_Env c) javaToolOptionsKey of
        None \<Rightarrow> c\<lparr>c_Env := AddOrUpdateEnvVar (c_Env c) (env_value javaToolOptionsKey otelJavaAgentOption)
                  (Some KeepExistingEnvVar)\<rparr>
      | Some i \<Rightarrow>
          if \<not> containsJavaToolOption (ev_Value (c_Env c ! i)) otelJavaAgentOption then
            (if ev_Value (c_Env c ! i) = [] then set_value c i otelJavaAgentOption
             else set_value c i (ev_Value (c_Env c ! i) @ '' '' @ otelJavaAgentOption))
          else c)"

definition otel_python_container :: "container \<Rightarrow> container" where
  "otel_python_container c = AddVolumeMountToContainer (mount otelVolumeName otelPythonMountPath)
     (case envIndex (c_Env c) otelPythonPathKey of
        None \<Rightarrow> c\<lparr>c_Env := AddOrUpdateEnvVar (c_Env c)
                  (env_value otelPythonPathKey (otelPythonPathPrefix @ '':'' @ otelPythonMountPath))
                  (Some KeepExistingEnvVar)\<rparr>
      | Some i \<Rightarrow>
          if isOTelPythonPathInjected (ev_Value (c_Env c ! i)) then c
          else if ev_Value (c_Env c ! i) = []
          then set_value c i (otelPythonPathPrefix @ '':'' @ otelPythonMountPath)
          else set_value c i (otelPythonPathPrefix @ '':'' @ ev_Value (c_Env c ! i) @ '':'' @ otelPythonMountPath))"

definition otel_nodejs_container :: "container \<Rightarrow> container" where
  "otel_nodejs_container c = AddVolumeMountToContainer (mount otelVolumeName otelNodeJSMountPath)
     (case envIndex (c_Env c) otelNodeJSOptionsKey of
        None \<Rightarrow> c\<lparr>c_Env := AddOrUpdateEnvVar (c_Env c)
                  (env_value otelNodeJSOptionsKey ('' '' @ otelNodeJSRequireOption)) (Some KeepExistingEnvVar)\<rparr>
      | Some i \<Rightarrow>
          if \<not> containsNodeJSRequireOption (ev_Value (c_Env c ! i))
          then set_value c i (ev_Value (c_Env c ! i) @ '' '' @ otelNodeJSRequireOption)
          else c)"

text \<open>\<open>otelLibrary\<close>: its \<open>inject\<close> is the step on each container.\<close>

record otel_library =
  ol_mountPath :: string
  ol_command :: "string list"
  ol_validate :: "string \<Rightarrow> container \<Rightarrow> pod \<Rightarrow> bool"
  ol_inject :: "container \<Rightarrow> container"

definition libraryForLanguage :: "string \<Rightarrow> otel_library option" where
  "libraryForLanguage lang =
     (if lang = ''java'' then
        Some \<lparr>ol_mountPath = otelJavaMountPath, ol_command = [''cp'', otelJavaAgentSourcePath, otelJavaAgentPath],
              ol_validate = validateJavaInjection, ol_inject = otel_java_container\<rparr>
      else if lang = ''python'' then
        Some \<lparr>ol_mountPath = otelPythonMountPath,
              ol_command = [''cp'', ''-r'', ''/autoinstrumentation/.'', otelPythonMountPath],
              ol_validate = validatePythonInjection, ol_inject = otel_python_container\<rparr>
      else if lang = ''nodejs'' then
        Some \<lparr>ol_mountPath = otelNodeJSMountPath,
              ol_command = [''cp'', ''-r'', ''/autoinstrumentation/.'', otelNodeJSMountPath],
              ol_validate = validateNodeJSInjection, ol_inject = otel_nodejs_container\<rparr>
      else None)"

section \<open>The injection\<close>

fun selectOTelRule :: "otel_rule list \<Rightarrow> go_map \<Rightarrow> (otel_rule \<times> string) option" where
  "selectOTelRule [] annotations = None"
| "selectOTelRule (rule # rules) annotations =
     (if \<not> ot_CheckAnnotation rule then Some (rule, [])
      else case fmlookup annotations (otelVersionAnnotationKey (ot_Language rule)) of
             Some version \<Rightarrow> Some (rule, version)
           | None \<Rightarrow> selectOTelRule rules annotations)"

definition otel_initContainer ::
  "(string \<Rightarrow> quantity option) \<Rightarrow> otel_rule \<Rightarrow> string \<Rightarrow> otel_library \<Rightarrow> pod \<Rightarrow> container option" where
  "otel_initContainer pq rule img library p =
     with_resources pq (ir_Resources rule)
       (no_container\<lparr>c_Name := otelInitContainerName, c_Image := img, c_Command := ol_command library,
          c_ImagePullPolicy := PullPolicy_Value (ir_ImagePullPolicy rule),
          c_VolumeMounts := [mount otelVolumeName (ol_mountPath library)],
          c_SecurityContext := (case p_Containers p of [] \<Rightarrow> None | c # _ \<Rightarrow> c_SecurityContext c)\<rparr>)"

definition otel_injectVolume :: "pod \<Rightarrow> pod" where
  "otel_injectVolume p = AddVolume (empty_dir_volume otelVolumeName) p"

definition otel_injectEnvs :: "envvar list \<Rightarrow> pod \<Rightarrow> pod" where
  "otel_injectEnvs envs p =
     map_containers (\<lambda>c. c\<lparr>c_Env := AddOrUpdateEnvVars (c_Env c) envs (Some KeepExistingEnvVar)\<rparr>) p"

definition otel_apply :: "otel_library \<Rightarrow> (string \<times> string) list \<Rightarrow> container \<Rightarrow> pod \<Rightarrow> pod" where
  "otel_apply library rule_envs initContainer p =
     (let p1 = AddInitContainer initContainer p;
          p2 = otel_injectVolume p1;
          p3 = map_containers (ol_inject library) p2;
          envs = FilterAndSetResourceFieldRefEnvVars (BuildEnvs rule_envs True) p3
      in otel_injectEnvs envs p3)"

definition otel_process ::
  "otel_rule option list \<Rightarrow> (string \<Rightarrow> quantity option) \<Rightarrow> string \<Rightarrow> pod \<Rightarrow> pod option" where
  "otel_process rules pq namespace p =
     (let ns = (if p_Namespace p \<noteq> [] then p_Namespace p else namespace) in
      if \<not> CheckAnnotationIsTrue (p_Annotations p) otelEnabledAnnotationKey then Some p
      else case selectOTelRule (matchAllInjectRules rules ns (p_Labels p)) (p_Annotations p) of
          None \<Rightarrow> Some p
        | Some (rule, imageVersion) \<Rightarrow>
            (case libraryForLanguage (ot_Language rule) of
               None \<Rightarrow> Some p
             | Some library \<Rightarrow>
                 let img = (if imageVersion \<noteq> [] then replaceImageVersion (ir_Image rule) imageVersion
                            else ir_Image rule)
                 in case otel_initContainer pq rule img library p of
                      None \<Rightarrow> None
                    | Some c \<Rightarrow>
                        if runAsNonRootWithoutNonRootUser (p_SecurityContext p) (c_SecurityContext c) then Some p
                        else if \<not> ol_validate library (ir_Image rule) c p then Some p
                        else Some (otel_apply library (ir_Envs rule) c p)))"

definition InjectOTelToPod ::
  "otel_rule option list \<Rightarrow> (string \<Rightarrow> quantity option) \<Rightarrow> injection" where
  "InjectOTelToPod rules pq namespace before =
     map_option (\<lambda>after. (Changed before after, after)) (otel_process rules pq namespace before)"

section \<open>What the steps may change\<close>

lemma container_le_values:
  "\<lbrakk>map ev_Name es = map ev_Name (c_Env c); filter own_variable es = filter own_variable (c_Env c)\<rbrakk> \<Longrightarrow>
   container_le c (c\<lparr>c_Env := es\<rparr>)"
  by (intro container_le_env) (auto simp: env_le_def names_def simp flip: set_map)

lemma envIndex_sound: "envIndex es k = Some i \<Longrightarrow> i < length es \<and> ev_Name (es ! i) = k"
  by (induction es arbitrary: i) (auto split: if_splits)

lemma set_value_le:
  assumes "envIndex (c_Env c) k = Some i" "k \<in> set merged_variables"
  shows "container_le c (set_value c i v)"
  unfolding set_value_def
proof (rule container_le_values)
  have i: "i < length (c_Env c)" "ev_Name (c_Env c ! i) = k" using envIndex_sound [OF assms(1)] by simp_all
  then show "map ev_Name ((c_Env c)[i := (c_Env c ! i)\<lparr>ev_Value := v\<rparr>]) = map ev_Name (c_Env c)"
    by (simp add: map_update list_update_same_conv)
  have "\<not> own_variable (c_Env c ! i)" "\<not> own_variable ((c_Env c ! i)\<lparr>ev_Value := v\<rparr>)"
    using i(2) assms(2) by (simp_all add: own_variable_def)
  then show "filter own_variable ((c_Env c)[i := (c_Env c ! i)\<lparr>ev_Value := v\<rparr>]) = filter own_variable (c_Env c)"
    using i(1) by (simp add: upd_conv_take_nth_drop) (subst (3) id_take_nth_drop [OF i(1)], simp)
qed

lemma otel_keys:
  "javaToolOptionsKey \<in> set merged_variables" "otelPythonPathKey \<in> set merged_variables"
  "otelNodeJSOptionsKey \<in> set merged_variables"
  by (simp_all add: merged_variables_def javaToolOptionsKey_def otelPythonPathKey_def otelNodeJSOptionsKey_def)

lemma otel_java_le: "container_le c (otel_java_container c)"
  unfolding otel_java_container_def
  by (rule container_le_trans [OF _ container_le_mount])
    (auto split: option.splits simp: otel_keys intro!: set_value_le container_le_env env_le_keep)

lemma otel_python_le: "container_le c (otel_python_container c)"
  unfolding otel_python_container_def
  by (rule container_le_trans [OF _ container_le_mount])
    (auto split: option.splits simp: otel_keys intro!: set_value_le container_le_env env_le_keep)

lemma otel_nodejs_le: "container_le c (otel_nodejs_container c)"
  unfolding otel_nodejs_container_def
  by (rule container_le_trans [OF _ container_le_mount])
    (auto split: option.splits simp: otel_keys intro!: set_value_le container_le_env env_le_keep)

lemma library_le: "libraryForLanguage lang = Some lib \<Longrightarrow> container_le c (ol_inject lib c)"
  by (auto simp: libraryForLanguage_def otel_java_le otel_python_le otel_nodejs_le split: if_splits)

lemma otel_injectEnvs_le: "pod_le p (otel_injectEnvs envs p)"
  unfolding otel_injectEnvs_def by (intro pod_le_map_containers container_le_env env_le_keep_all)

lemma otel_apply_le:
  assumes "libraryForLanguage lang = Some lib"
  shows "pod_le p (otel_apply lib es c p)"
  unfolding otel_apply_def Let_def otel_injectVolume_def
  by (rule pod_le_trans [OF pod_le_AddInitContainer], rule pod_le_trans [OF pod_le_AddVolume],
      rule pod_le_trans [OF pod_le_map_containers], rule library_le [OF assms], rule otel_injectEnvs_le)

lemma otel_process_le: "otel_process rules pq ns p = Some q \<Longrightarrow> pod_le p q"
  by (auto simp: otel_process_def Let_def split: if_splits option.splits intro: otel_apply_le)

section \<open>No panic\<close>

lemma selectOTelRule_sound: "selectOTelRule rs a = Some (r, v) \<Longrightarrow> r \<in> set rs"
  by (induction rs) (auto split: if_splits option.splits)

lemma otel_rule_sound:
  "selectOTelRule (matchAllInjectRules rules ns ls) a = Some (r, v) \<Longrightarrow> Some r \<in> set rules"
  using selectOTelRule_sound matchAll_sound by blast

lemma InjectOTel_total:
  assumes "rules_resources_ok pq rules"
  shows "InjectOTelToPod rules pq ns p \<noteq> None"
proof -
  let ?ns = "if p_Namespace p \<noteq> [] then p_Namespace p else ns"
  let ?sel = "selectOTelRule (matchAllInjectRules rules ?ns (p_Labels p)) (p_Annotations p)"
  have "otel_process rules pq ns p \<noteq> None"
  proof (cases ?sel)
    case None
    then show ?thesis unfolding otel_process_def Let_def by simp
  next
    case (Some rv)
    obtain r v where rv: "rv = (r, v)" by (cases rv)
    have c: "\<exists>c. otel_initContainer pq r img lib p = Some c" for img lib
      unfolding otel_initContainer_def
      using with_resources_total matched_resources_ok [OF assms otel_rule_sound [OF Some [unfolded rv]]] by blast
    show ?thesis
    proof (cases "libraryForLanguage (ot_Language r)")
      case None
      then show ?thesis using Some rv unfolding otel_process_def Let_def by simp
    next
      case lib: (Some lib)
      obtain c where "otel_initContainer pq r (if v \<noteq> [] then replaceImageVersion (ir_Image r) v else ir_Image r)
          lib p = Some c" using c by blast
      then show ?thesis using Some rv lib unfolding otel_process_def Let_def by simp
    qed
  qed
  then show ?thesis by (simp add: InjectOTelToPod_def)
qed

section \<open>Injecting again\<close>

text \<open>The three container steps are one scheme: set the variable, then mount.\<close>

definition otel_step :: "string \<Rightarrow> string \<Rightarrow> (string \<Rightarrow> string) \<Rightarrow> string \<Rightarrow> container \<Rightarrow> container" where
  "otel_step k d g path c = AddVolumeMountToContainer (mount otelVolumeName path)
     (case envIndex (c_Env c) k of
        None \<Rightarrow> c\<lparr>c_Env := AddOrUpdateEnvVar (c_Env c) (env_value k d) (Some KeepExistingEnvVar)\<rparr>
      | Some i \<Rightarrow> set_value c i (g (ev_Value (c_Env c ! i))))"

definition java_value :: "string \<Rightarrow> string" where
  "java_value v = (if containsJavaToolOption v otelJavaAgentOption then v
     else if v = [] then otelJavaAgentOption else v @ '' '' @ otelJavaAgentOption)"

definition python_value :: "string \<Rightarrow> string" where
  "python_value v = (if isOTelPythonPathInjected v then v
     else if v = [] then otelPythonPathPrefix @ '':'' @ otelPythonMountPath
     else otelPythonPathPrefix @ '':'' @ v @ '':'' @ otelPythonMountPath)"

definition nodejs_value :: "string \<Rightarrow> string" where
  "nodejs_value v = (if containsNodeJSRequireOption v then v else v @ '' '' @ otelNodeJSRequireOption)"

lemma set_value_same [simp]: "set_value c i (ev_Value (c_Env c ! i)) = c"
  by (simp add: set_value_def)

lemma otel_steps:
  "otel_java_container = otel_step javaToolOptionsKey otelJavaAgentOption java_value otelJavaMountPath"
  "otel_python_container = otel_step otelPythonPathKey (otelPythonPathPrefix @ '':'' @ otelPythonMountPath)
     python_value otelPythonMountPath"
  "otel_nodejs_container = otel_step otelNodeJSOptionsKey ('' '' @ otelNodeJSRequireOption) nodejs_value
     otelNodeJSMountPath"
  by (rule ext, simp add: otel_java_container_def otel_python_container_def otel_nodejs_container_def
      otel_step_def java_value_def python_value_def nodejs_value_def split: option.split)+

lemma envIndex_find:
  "find (\<lambda>e. ev_Name e = k) es = map_option (nth es) (envIndex es k)"
  "envIndex es k = Some i \<Longrightarrow> i < length es \<and> find (\<lambda>e. ev_Name e = k) (es[i := x]) =
     (if ev_Name x = k then Some x else find (\<lambda>e. ev_Name e = k) (drop (Suc i) es)) \<and> ev_Name (es ! i) = k"
  by (induction es arbitrary: i) (auto simp: option.map_comp comp_def split: if_splits)

lemma step_fixed:
  assumes "find (\<lambda>e. ev_Name e = k) (c_Env c) = Some e" "g (ev_Value e) = ev_Value e"
    "otelVolumeName \<in> names vm_Name (c_VolumeMounts c)"
  shows "otel_step k d g path c = c"
proof -
  obtain i where "envIndex (c_Env c) k = Some i" "e = c_Env c ! i"
    using assms(1) by (auto simp: envIndex_find(1))
  then show ?thesis using assms(2,3)
    by (simp add: otel_step_def AddVolumeMountToContainer_def mnt.add_present)
qed

lemma step_mounted: "otelVolumeName \<in> names vm_Name (c_VolumeMounts (otel_step k d g path c))"
  by (simp add: otel_step_def AddVolumeMountToContainer_def mnt.names_add)

lemma step_find:
  "\<exists>e. find (\<lambda>e. ev_Name e = k) (c_Env (otel_step k d g path c)) = Some e \<and>
     (ev_Value e = d \<or> (\<exists>v. ev_Value e = g v))"
proof (cases "envIndex (c_Env c) k")
  case None
  then have "find (\<lambda>e. ev_Name e = k) (c_Env c) = None" by (simp add: envIndex_find(1))
  then have "k \<notin> names ev_Name (c_Env c)" by (auto simp: find_None_iff names_def)
  then show ?thesis using None
    by (simp add: otel_step_def AddVolumeMountToContainer_def env.find_add)
next
  case (Some i)
  then show ?thesis using envIndex_find(2) [OF Some]
    by (auto simp: otel_step_def AddVolumeMountToContainer_def set_value_def)
qed

lemma find_keep_all:
  "find (\<lambda>e. ev_Name e = k) es = Some e \<Longrightarrow>
   find (\<lambda>e. ev_Name e = k) (AddOrUpdateEnvVars es is (Some KeepExistingEnvVar)) = Some e"
  by (induction "is" arbitrary: es) (auto intro: find_keep)

lemma entries_ok_find:
  "env_entries_ok k bad n es \<Longrightarrow> find (\<lambda>e. ev_Name e = k) es = Some e \<Longrightarrow> \<not> bad (ev_Value e)"
  by (induction es arbitrary: n) (auto split: if_splits)

lemma java_value_fixed: "java_value otelJavaAgentOption = otelJavaAgentOption" "java_value (java_value v) = java_value v"
proof -
  have p: "list_all plain_char otelJavaAgentOption" "otelJavaAgentOption \<noteq> []" by code_simp+
  have f: "go_fields otelJavaAgentOption = [otelJavaAgentOption]" by code_simp
  then show "java_value otelJavaAgentOption = otelJavaAgentOption"
    by (simp add: java_value_def containsJavaToolOption_def)
  have "go_fields (v @ '' '' @ otelJavaAgentOption) = go_fields v @ [otelJavaAgentOption]"
    using p by (rule go_fields_append_option)
  with f show "java_value (java_value v) = java_value v"
    by (simp add: java_value_def containsJavaToolOption_def)
qed

lemma python_components:
  "split_on (CHR '':'') (otelPythonPathPrefix @ '':'' @ w) = otelPythonPathPrefix # split_on (CHR '':'') w"
proof -
  have "CHR '':'' \<notin> set otelPythonPathPrefix" by code_simp
  then show ?thesis using split_on_append_sep [of "CHR '':''" otelPythonPathPrefix w]
    by (simp add: split_on_no_sep)
qed

lemma python_value_fixed:
  assumes "\<not> python_unacceptable w" "w = otelPythonPathPrefix @ '':'' @ otelPythonMountPath \<or> w = python_value v"
  shows "python_value w = w"
proof (cases "isOTelPythonPathInjected w")
  case False
  have "w = otelPythonPathPrefix @ '':'' @ otelPythonMountPath \<or>
      (\<exists>u. w = otelPythonPathPrefix @ '':'' @ u)"
    using assms(2) False unfolding python_value_def by (auto split: if_split_asm)
  then obtain u where "w = otelPythonPathPrefix @ '':'' @ u" by blast
  then have "containsPythonPathComponent w otelPythonPathPrefix"
    by (simp only: containsPythonPathComponent_def python_components) simp
  then show ?thesis using assms(1) False by (simp add: python_unacceptable_def)
qed (simp add: python_value_def)

lemma count_require_append: "count_require (fs @ [''--require'', otelNodeJSRequirePath]) \<ge> 1"
  by (induction fs rule: count_require.induct) (auto simp: otelNodeJSRequirePath_def otelNodeJSMountPath_def)

lemma nodejs_fields:
  "go_fields (v @ '' '' @ otelNodeJSRequireOption) = go_fields v @ [''--require'', otelNodeJSRequirePath]"
proof -
  have p: "list_all plain_char ''--require''" "list_all plain_char otelNodeJSRequirePath"
    "otelNodeJSRequirePath \<noteq> []" by code_simp+
  have "v @ '' '' @ otelNodeJSRequireOption = (v @ '' '' @ ''--require'') @ '' '' @ otelNodeJSRequirePath"
    by (simp add: otelNodeJSRequireOption_def)
  then have "go_fields (v @ '' '' @ otelNodeJSRequireOption) =
      go_fields ((v @ '' '' @ ''--require'') @ '' '' @ otelNodeJSRequirePath)" by (rule arg_cong)
  also have "\<dots> = go_fields (v @ '' '' @ ''--require'') @ [otelNodeJSRequirePath]"
    by (rule go_fields_append_option [OF p(2,3)])
  also have "go_fields (v @ '' '' @ ''--require'') = go_fields v @ [''--require'']"
    by (rule go_fields_append_option [OF p(1)]) simp
  finally show ?thesis by simp
qed

lemma nodejs_value_fixed:
  assumes "\<not> nodejs_unacceptable w" "w = '' '' @ otelNodeJSRequireOption \<or> w = nodejs_value v"
  shows "nodejs_value w = w"
proof (cases "containsNodeJSRequireOption w")
  case False
  obtain u where "w = u @ '' '' @ otelNodeJSRequireOption"
    using assms(2) False unfolding nodejs_value_def by (metis append_Nil)
  then have "countNodeJSRequireOptions w \<ge> 1"
    by (simp only: countNodeJSRequireOptions_def nodejs_fields count_require_append)
  moreover have "\<not> countNodeJSRequireOptions w > 1" using assms(1) by (simp add: nodejs_unacceptable_def Let_def)
  ultimately show ?thesis using False by (simp add: containsNodeJSRequireOption_def)
qed (simp add: nodejs_value_def)

lemma library_again:
  assumes lib: "libraryForLanguage lang = Some lib"
    and valid: "ol_validate lib img desired q"
    and x: "x \<in> set (p_Containers q)"
    and step: "x = (ol_inject lib z)\<lparr>c_Env := AddOrUpdateEnvVars (c_Env (ol_inject lib z)) es (Some KeepExistingEnvVar)\<rparr>"
  shows "ol_inject lib x = x"
proof -
  have fixed: "otel_step k d g path x = x"
    if inj: "ol_inject lib = otel_step k d g path"
      and ok: "env_entries_ok k bad 0 (c_Env x)"
      and g: "\<And>w v. \<not> bad w \<Longrightarrow> w = d \<or> w = g v \<Longrightarrow> g w = w" for k d g path bad
  proof -
    obtain e where e: "find (\<lambda>e. ev_Name e = k) (c_Env (ol_inject lib z)) = Some e"
        "ev_Value e = d \<or> (\<exists>v. ev_Value e = g v)"
      using step_find [of k d g path z] inj by auto
    have f: "find (\<lambda>e. ev_Name e = k) (c_Env x) = Some e" using find_keep_all [OF e(1)] step by simp
    have "\<not> bad (ev_Value e)" by (rule entries_ok_find [OF ok f])
    then have "g (ev_Value e) = ev_Value e" using e(2) g by blast
    moreover have "otelVolumeName \<in> names vm_Name (c_VolumeMounts x)"
      using step inj step_mounted [of k d g path z] by simp
    ultimately show ?thesis by (rule step_fixed [OF f])
  qed
  consider (java) "ol_inject lib = otel_java_container" "ol_validate lib = validateJavaInjection"
    | (python) "ol_inject lib = otel_python_container" "ol_validate lib = validatePythonInjection"
    | (nodejs) "ol_inject lib = otel_nodejs_container" "ol_validate lib = validateNodeJSInjection"
    using lib by (auto simp: libraryForLanguage_def split: if_splits)
  then show ?thesis
  proof cases
    case java
    have "env_entries_ok javaToolOptionsKey (\<lambda>v. str_contains v ddJavaAgentFileName) 0 (c_Env x)"
      using valid x java by (simp add: validateJavaInjection_def list_all_iff)
    then show ?thesis
      using fixed [of javaToolOptionsKey otelJavaAgentOption java_value otelJavaMountPath
          "\<lambda>v. str_contains v ddJavaAgentFileName"] java otel_steps(1) java_value_fixed by metis
  next
    case python
    have "env_entries_ok otelPythonPathKey python_unacceptable 0 (c_Env x)"
      using valid x python by (simp add: validatePythonInjection_def list_all_iff)
    then show ?thesis
      using fixed [of otelPythonPathKey _ python_value] python otel_steps(2) python_value_fixed by metis
  next
    case nodejs
    have "env_entries_ok otelNodeJSOptionsKey nodejs_unacceptable 0 (c_Env x)"
      using valid x nodejs by (simp add: validateNodeJSInjection_def list_all_iff)
    then show ?thesis
      using fixed [of otelNodeJSOptionsKey _ nodejs_value] nodejs otel_steps(3) nodejs_value_fixed by metis
  qed
qed

lemma library_frame:
  "libraryForLanguage lang = Some lib \<Longrightarrow>
   c_Name (ol_inject lib c) = c_Name c \<and> c_Resources (ol_inject lib c) = c_Resources c"
  by (auto simp: libraryForLanguage_def otel_steps otel_step_def AddVolumeMountToContainer_def set_value_def
      split: if_splits option.splits)

lemma filter_cong_head:
  "\<lbrakk>map c_Name (p_Containers p) = map c_Name (p_Containers q);
    map c_Resources (p_Containers p) = map c_Resources (p_Containers q)\<rbrakk> \<Longrightarrow>
   FilterAndSetResourceFieldRefEnvVars envs p = FilterAndSetResourceFieldRefEnvVars envs q"
proof (cases "p_Containers p")
  case (Cons a as)
  assume *: "map c_Name (p_Containers p) = map c_Name (p_Containers q)"
    "map c_Resources (p_Containers p) = map c_Resources (p_Containers q)"
  then obtain b bs where b: "p_Containers q = b # bs" "c_Name b = c_Name a" "c_Resources b = c_Resources a"
    using Cons by (cases "p_Containers q") auto
  then have "hasResourceInContainer path b = hasResourceInContainer path a" for path
    by (simp add: hasResourceInContainer_def)
  then show ?thesis using Cons b
    by (simp add: FilterAndSetResourceFieldRefEnvVars_def cong: option.case_cong if_cong)
qed (simp add: FilterAndSetResourceFieldRefEnvVars_def)

text \<open>The result of an injection, container by container.\<close>

lemma otel_apply_containers:
  "p_Containers (otel_apply lib es c p) =
     map (\<lambda>z. (ol_inject lib z)\<lparr>c_Env := AddOrUpdateEnvVars (c_Env (ol_inject lib z))
        (FilterAndSetResourceFieldRefEnvVars (BuildEnvs es True) (map_containers (ol_inject lib) p))
        (Some KeepExistingEnvVar)\<rparr>) (p_Containers p)"
proof -
  have "FilterAndSetResourceFieldRefEnvVars envs (map_containers f (AddVolume v (AddInitContainer c p))) =
      FilterAndSetResourceFieldRefEnvVars envs (map_containers f p)" for envs f v
    by (rule filter_cong_head) (simp_all add: AddVolume_def AddInitContainer_def)
  then show ?thesis
    by (simp add: otel_apply_def otel_injectVolume_def otel_injectEnvs_def Let_def)
      (simp add: AddVolume_def AddInitContainer_def)
qed

lemma otel_apply_fields [simp]:
  "p_Annotations (otel_apply lib es c p) = p_Annotations p" "p_Labels (otel_apply lib es c p) = p_Labels p"
  "p_Namespace (otel_apply lib es c p) = p_Namespace p"
  "p_SecurityContext (otel_apply lib es c p) = p_SecurityContext p"
  "p_InitContainers (otel_apply lib es c p) = add_container c (p_InitContainers p)"
  "p_Volumes (otel_apply lib es c p) = add_volume (empty_dir_volume otelVolumeName) (p_Volumes p)"
  by (simp_all add: otel_apply_def otel_injectVolume_def otel_injectEnvs_def Let_def AddVolume_def AddInitContainer_def)

lemma otel_apply_again:
  assumes lib: "libraryForLanguage lang = Some lib" and c: "c_Name c = c_Name c'"
    and valid: "ol_validate lib img desired (otel_apply lib es c p)"
  shows "otel_apply lib es c' (otel_apply lib es c p) = otel_apply lib es c p"
proof -
  let ?q = "otel_apply lib es c p"
  have inject: "map_containers (ol_inject lib) ?q = ?q"
  proof (rule map_containers_id)
    fix x assume x: "x \<in> set (p_Containers ?q)"
    then obtain z where "x = (ol_inject lib z)\<lparr>c_Env := AddOrUpdateEnvVars (c_Env (ol_inject lib z))
        (FilterAndSetResourceFieldRefEnvVars (BuildEnvs es True) (map_containers (ol_inject lib) p))
        (Some KeepExistingEnvVar)\<rparr>" by (auto simp: otel_apply_containers)
    from library_again [OF lib valid x this] show "ol_inject lib x = x" .
  qed
  have add: "AddInitContainer c' ?q = ?q"
    using c by (simp add: AddInitContainer_def ctr.add_present ctr.names_add)
  have vol: "otel_injectVolume ?q = ?q"
    by (simp add: otel_injectVolume_def AddVolume_def vol.add_present vol.names_add)
  have envs: "FilterAndSetResourceFieldRefEnvVars (BuildEnvs es True) ?q =
      FilterAndSetResourceFieldRefEnvVars (BuildEnvs es True) (map_containers (ol_inject lib) p)"
    by (rule filter_cong_head) (simp_all add: otel_apply_containers)
  have "otel_injectEnvs (FilterAndSetResourceFieldRefEnvVars (BuildEnvs es True) ?q) ?q = ?q"
    unfolding otel_injectEnvs_def envs
    by (rule map_containers_id) (auto simp: otel_apply_containers keep_all env.fold_again)
  then show ?thesis using add vol inject by (simp add: otel_apply_def [of lib es c' ?q] Let_def)
qed

lemma with_resources_any: "with_resources pq r c = Some d \<Longrightarrow> \<exists>d'. with_resources pq r c' = Some d'"
  by (auto simp: with_resources_def setContainerResources_def split: Option.bind_splits)

lemma otel_process_again:
  assumes "otel_process rules pq ns p = Some q"
  shows "otel_process rules pq ns q = Some q"
proof (cases "q = p")
  case False
  let ?ns = "if p_Namespace p \<noteq> [] then p_Namespace p else ns"
  from assms False obtain r v lib c where ann: "CheckAnnotationIsTrue (p_Annotations p) otelEnabledAnnotationKey"
    and sel: "selectOTelRule (matchAllInjectRules rules ?ns (p_Labels p)) (p_Annotations p) = Some (r, v)"
    and lib: "libraryForLanguage (ot_Language r) = Some lib"
    and c: "otel_initContainer pq r (if v \<noteq> [] then replaceImageVersion (ir_Image r) v else ir_Image r) lib p = Some c"
    and q: "q = otel_apply lib (ir_Envs r) c p"
    unfolding otel_process_def Let_def by (auto split: if_split_asm option.split_asm)
  have name: "c_Name d = otelInitContainerName" if "otel_initContainer pq r img lib' x = Some d" for img lib' x d
    using that with_resources_frame(1) by (fastforce simp: otel_initContainer_def)
  obtain c' where c': "otel_initContainer pq r (if v \<noteq> [] then replaceImageVersion (ir_Image r) v else ir_Image r) lib q = Some c'"
    using c with_resources_any unfolding otel_initContainer_def by blast
  have "otel_process rules pq ns q =
     (if runAsNonRootWithoutNonRootUser (p_SecurityContext q) (c_SecurityContext c') then Some q
      else if \<not> ol_validate lib (ir_Image r) c' q then Some q
      else Some (otel_apply lib (ir_Envs r) c' q))"
    using ann sel lib c' q
    by (cases "p_Namespace p = []"; cases "v = []") (simp_all add: otel_process_def)
  moreover have "otel_apply lib (ir_Envs r) c' q = q" if "ol_validate lib (ir_Image r) c' q"
    unfolding q
  proof (rule otel_apply_again [OF lib])
    show "c_Name c = c_Name c'" using name [OF c] name [OF c'] by simp
    show "ol_validate lib (ir_Image r) c' (otel_apply lib (ir_Envs r) c p)" using that q by simp
  qed
  ultimately show ?thesis by simp
qed (use assms in simp)

section \<open>The contract\<close>

lemma library_mounts:
  assumes "libraryForLanguage lang = Some lib" "mounts_in vs c" "otelVolumeName \<in> vs"
  shows "mounts_in vs (ol_inject lib c)"
proof -
  obtain k d g path where "ol_inject lib = otel_step k d g path"
    using assms(1) by (auto simp: libraryForLanguage_def otel_steps split: if_splits)
  moreover have "c_VolumeMounts (otel_step k d g path c) = add_mount (mount otelVolumeName path) (c_VolumeMounts c)"
    by (simp add: otel_step_def AddVolumeMountToContainer_def set_value_def split: option.split)
  ultimately show ?thesis using assms(2,3) by (simp add: mounts_in_def mnt.names_add)
qed

lemma wf_otel_apply:
  assumes "libraryForLanguage lang = Some lib" "wf_pod p" "c_VolumeMounts c = [mount otelVolumeName path]"
  shows "wf_pod (otel_apply lib es c p)"
proof -
  let ?p1 = "AddInitContainer c p"
  have "wf_with {otelVolumeName} ?p1"
    using wf_pending [OF assms(2)] by (rule wf_AddInitContainer) (simp add: mounts_in_def assms(3))
  then have "wf_with {} (otel_injectVolume ?p1)" by (simp add: otel_injectVolume_def wf_AddVolume)
  then have "wf_with {} (map_containers (ol_inject lib) (otel_injectVolume ?p1))"
    by (rule wf_map_containers)
      (auto simp: otel_injectVolume_def library_frame [OF assms(1)] intro: library_mounts [OF assms(1)])
  then show ?thesis by (simp add: wf_pod_def otel_apply_def Let_def otel_injectEnvs_def wf_env)
qed

lemma wf_otel_process:
  assumes "otel_process rules pq ns p = Some q" "wf_pod p"
  shows "wf_pod q"
proof (cases "q = p")
  case False
  from assms(1) False obtain r v lib c img where lib: "libraryForLanguage (ot_Language r) = Some lib"
    and c: "otel_initContainer pq r img lib p = Some c"
    and q: "q = otel_apply lib (ir_Envs r) c p"
    unfolding otel_process_def Let_def by (auto split: if_split_asm option.split_asm)
  have "c_VolumeMounts c = [mount otelVolumeName (ol_mountPath lib)]"
    using with_resources_frame(3) [OF c [unfolded otel_initContainer_def]] by simp
  from wf_otel_apply [OF lib assms(2) this] show ?thesis unfolding q .
qed (use assms in simp)

interpretation ot: safe_mutation "InjectOTelToPod rules pq" for rules pq
  by unfold_locales (auto simp: InjectOTelToPod_def Changed_def intro: otel_process_le wf_otel_process)

section \<open>What a changed Pod contains\<close>

text \<open>The variable through which a language loads the agent, and the values which load it: the JVM option, the two
  path components at both ends, or exactly one option to Node.js.\<close>

definition otel_key :: "string \<Rightarrow> string" where
  "otel_key lang = (if lang = ''java'' then javaToolOptionsKey
     else if lang = ''python'' then otelPythonPathKey else otelNodeJSOptionsKey)"

definition otel_loads :: "string \<Rightarrow> string \<Rightarrow> bool" where
  "otel_loads lang v \<longleftrightarrow>
     (if lang = ''java'' then otelJavaAgentOption \<in> set (go_fields v)
      else if lang = ''python'' then hd (split_on (CHR '':'') v) = otelPythonPathPrefix \<and>
        last (split_on (CHR '':'') v) = otelPythonMountPath
      else containsNodeJSRequireOption v)"

text \<open>A container of the Pod and what became of it: the agent's volume is mounted, at the path of the library and
  nowhere else, and the language's variable has a single entry, a plain value which loads the agent and contains the value
  the container had.\<close>

definition otel_instrumented :: "string \<Rightarrow> string \<Rightarrow> container \<Rightarrow> container \<Rightarrow> bool" where
  "otel_instrumented lang path z x \<longleftrightarrow>
     c_Name x = c_Name z \<and>
     otelVolumeName \<in> names vm_Name (c_VolumeMounts x) \<and>
     list_all (\<lambda>m. (vm_Name m = otelVolumeName) = (vm_MountPath m = path)) (c_VolumeMounts x) \<and>
     (\<exists>e before. filter (\<lambda>e. ev_Name e = otel_key lang) (c_Env x) = [e] \<and> ev_ValueFrom e = None \<and>
        otel_loads lang (ev_Value e) \<and> sublist before (ev_Value e) \<and>
        before = (case find (\<lambda>e. ev_Name e = otel_key lang) (c_Env z) of None \<Rightarrow> [] | Some e \<Rightarrow> ev_Value e))"

lemma step_find_value:
  "find (\<lambda>e. ev_Name e = k) (c_Env (otel_step k d g path c)) = Some
     (case find (\<lambda>e. ev_Name e = k) (c_Env c) of None \<Rightarrow> env_value k d | Some e \<Rightarrow> e\<lparr>ev_Value := g (ev_Value e)\<rparr>)"
proof (cases "envIndex (c_Env c) k")
  case None
  then have none: "find (\<lambda>e. ev_Name e = k) (c_Env c) = None" by (simp add: envIndex_find(1))
  then have "k \<notin> names ev_Name (c_Env c)" by (auto simp: find_None_iff names_def)
  then show ?thesis using None none
    by (simp add: otel_step_def AddVolumeMountToContainer_def env.find_add)
next
  case (Some i)
  then show ?thesis using envIndex_find(1) [of k "c_Env c"] envIndex_find(2) [OF Some]
    by (simp add: otel_step_def AddVolumeMountToContainer_def set_value_def)
qed

lemma envIndex_upd: "envIndex es k = Some i \<Longrightarrow> map ev_Name (es[i := (es ! i)\<lparr>ev_Value := v\<rparr>]) = map ev_Name es"
  using envIndex_sound [of es k i] by (simp add: map_update list_update_same_conv)

lemma count_names: "length (filter (\<lambda>e. ev_Name e = k) es) = count_list (map ev_Name es) k"
  by (induction es) auto

lemma step_once:
  assumes "length (filter (\<lambda>e. ev_Name e = k) (c_Env c)) \<le> 1"
  shows "length (filter (\<lambda>e. ev_Name e = k) (c_Env (otel_step k d g path c))) \<le> 1"
proof (cases "envIndex (c_Env c) k")
  case None
  then have "find (\<lambda>e. ev_Name e = k) (c_Env c) = None" by (simp add: envIndex_find(1))
  then have "k \<notin> names ev_Name (c_Env c)" "filter (\<lambda>e. ev_Name e = k) (c_Env c) = []"
    by (auto simp: find_None_iff names_def filter_empty_conv)
  then show ?thesis using None
    by (simp add: otel_step_def AddVolumeMountToContainer_def env.add_absent)
next
  case (Some i)
  then show ?thesis using assms
    by (simp add: otel_step_def AddVolumeMountToContainer_def set_value_def count_names envIndex_upd)
qed

lemma keep_once:
  "k \<in> names ev_Name es \<Longrightarrow>
   filter (\<lambda>e. ev_Name e = k) (AddOrUpdateEnvVars es is (Some KeepExistingEnvVar)) = filter (\<lambda>e. ev_Name e = k) es"
proof (induction "is" arbitrary: es)
  case (Cons a as)
  have "filter (\<lambda>e. ev_Name e = k) (AddOrUpdateEnvVar es a (Some KeepExistingEnvVar)) = filter (\<lambda>e. ev_Name e = k) es"
    using Cons.prems by (cases "ev_Name a \<in> names ev_Name es") (auto simp: env.add_present env.add_absent)
  then show ?case using Cons.IH [of "AddOrUpdateEnvVar es a (Some KeepExistingEnvVar)"] Cons.prems
    by (simp add: env.names_add)
qed simp

lemma find_once:
  "\<lbrakk>find P xs = Some x; length (filter P xs) \<le> 1\<rbrakk> \<Longrightarrow> filter P xs = [x]"
  by (induction xs) (auto split: if_splits)

lemma filter_named: "filter (\<lambda>x. name x = k) xs = [x] \<Longrightarrow> k \<in> names name xs"
  by (induction xs) (auto split: if_splits)

lemma entries_ok_once: "env_entries_ok k bad n es \<Longrightarrow> n + length (filter (\<lambda>e. ev_Name e = k) es) \<le> max n 1"
  by (induction es arbitrary: n) (fastforce split: if_splits)+

lemma step_mounts: "c_VolumeMounts (otel_step k d g path c) = add_mount (mount otelVolumeName path) (c_VolumeMounts c)"
  by (simp add: otel_step_def AddVolumeMountToContainer_def set_value_def split: option.split)

lemma entries_ok_plain:
  "env_entries_ok k bad n es \<Longrightarrow> find (\<lambda>e. ev_Name e = k) es = Some e \<Longrightarrow> ev_ValueFrom e = None \<and> \<not> bad (ev_Value e)"
  by (induction es arbitrary: n) (auto split: if_splits)

lemma java_loads: "otel_loads ''java'' (java_value v)" "otel_loads ''java'' otelJavaAgentOption"
  "sublist v (java_value v)"
proof -
  have p: "list_all plain_char otelJavaAgentOption" "otelJavaAgentOption \<noteq> []" by code_simp+
  have f: "go_fields otelJavaAgentOption = [otelJavaAgentOption]" by code_simp
  then show "otel_loads ''java'' otelJavaAgentOption" by (simp add: otel_loads_def)
  show "otel_loads ''java'' (java_value v)" using f go_fields_append_option [OF p, of v]
    by (auto simp: otel_loads_def java_value_def containsJavaToolOption_def list_ex_iff)
  show "sublist v (java_value v)" by (simp add: java_value_def)
qed

lemma python_ends:
  "hd (split_on (CHR '':'') (otelPythonPathPrefix @ '':'' @ w @ '':'' @ otelPythonMountPath)) = otelPythonPathPrefix"
  "last (split_on (CHR '':'') (otelPythonPathPrefix @ '':'' @ w @ '':'' @ otelPythonMountPath)) = otelPythonMountPath"
  "hd (split_on (CHR '':'') (otelPythonPathPrefix @ '':'' @ otelPythonMountPath)) = otelPythonPathPrefix"
  "last (split_on (CHR '':'') (otelPythonPathPrefix @ '':'' @ otelPythonMountPath)) = otelPythonMountPath"
proof -
  have "CHR '':'' \<notin> set otelPythonMountPath" by code_simp
  then have m: "split_on (CHR '':'') otelPythonMountPath = [otelPythonMountPath]" by (rule split_on_no_sep)
  have w: "split_on (CHR '':'') (w @ '':'' @ otelPythonMountPath) = split_on (CHR '':'') w @ [otelPythonMountPath]"
    using split_on_append_sep [of "CHR '':''" w otelPythonMountPath] m by simp
  show "hd (split_on (CHR '':'') (otelPythonPathPrefix @ '':'' @ w @ '':'' @ otelPythonMountPath)) = otelPythonPathPrefix"
    "last (split_on (CHR '':'') (otelPythonPathPrefix @ '':'' @ w @ '':'' @ otelPythonMountPath)) = otelPythonMountPath"
    "hd (split_on (CHR '':'') (otelPythonPathPrefix @ '':'' @ otelPythonMountPath)) = otelPythonPathPrefix"
    "last (split_on (CHR '':'') (otelPythonPathPrefix @ '':'' @ otelPythonMountPath)) = otelPythonMountPath"
    by (simp_all only: python_components w m) simp_all
qed

lemma python_loads: "otel_loads ''python'' (python_value v)"
  "otel_loads ''python'' (otelPythonPathPrefix @ '':'' @ otelPythonMountPath)" "sublist v (python_value v)"
proof -
  show "otel_loads ''python'' (otelPythonPathPrefix @ '':'' @ otelPythonMountPath)"
    using python_ends by (simp add: otel_loads_def)
  show "otel_loads ''python'' (python_value v)"
    using python_ends by (auto simp: otel_loads_def python_value_def isOTelPythonPathInjected_def Let_def)
  have "sublist v (otelPythonPathPrefix @ '':'' @ v @ '':'' @ otelPythonMountPath)"
    using sublist_appendI [of v "otelPythonPathPrefix @ '':''" "'':'' @ otelPythonMountPath"] by simp
  then show "sublist v (python_value v)" by (simp add: python_value_def)
qed

lemma count_require_append_one:
  "count_require (fs @ [''--require'', otelNodeJSRequirePath]) = Suc (count_require fs)"
  by (induction fs rule: count_require.induct) (auto simp: otelNodeJSRequirePath_def otelNodeJSMountPath_def)

lemma nodejs_loads:
  "\<not> nodejs_unacceptable v \<Longrightarrow> otel_loads ''nodejs'' (nodejs_value v)"
  "otel_loads ''nodejs'' ('' '' @ otelNodeJSRequireOption)" "sublist v (nodejs_value v)"
proof -
  have one: "countNodeJSRequireOptions (v @ '' '' @ otelNodeJSRequireOption) = Suc (countNodeJSRequireOptions v)" for v
    by (simp only: countNodeJSRequireOptions_def nodejs_fields count_require_append_one)
  have "countNodeJSRequireOptions [] = 0" by code_simp
  then show "otel_loads ''nodejs'' ('' '' @ otelNodeJSRequireOption)" using one [of "[]"]
    by (simp add: otel_loads_def containsNodeJSRequireOption_def)
  assume "\<not> nodejs_unacceptable v"
  then have "countNodeJSRequireOptions v \<le> 1" by (simp add: nodejs_unacceptable_def Let_def)
  then show "otel_loads ''nodejs'' (nodejs_value v)" using one [of v]
    by (auto simp: otel_loads_def nodejs_value_def containsNodeJSRequireOption_def)
qed (simp add: nodejs_value_def)

text \<open>The step of each language, with what its validation asks of a container.\<close>

lemma library_step:
  assumes "libraryForLanguage lang = Some lib"
  obtains d g bad where "ol_inject lib = otel_step (otel_key lang) d g (ol_mountPath lib)"
    "\<And>img c p x. ol_validate lib img c p \<Longrightarrow> validateCommonInjection img c (ol_mountPath lib) p"
    "\<And>img c p x. ol_validate lib img c p \<Longrightarrow> x \<in> set (p_Containers p) \<Longrightarrow>
       env_entries_ok (otel_key lang) bad 0 (c_Env x)"
    "otel_loads lang d" "\<And>v. \<not> bad v \<Longrightarrow> otel_loads lang (g v)" "\<And>v. sublist v (g v)"
proof -
  consider "lang = ''java''" | "lang = ''python''" | "lang = ''nodejs''"
    using assms by (auto simp: libraryForLanguage_def split: if_splits)
  then show thesis
  proof cases
    case 1
    show thesis
      by (rule that [of otelJavaAgentOption java_value "\<lambda>v. str_contains v ddJavaAgentFileName"])
        (use assms 1 in \<open>auto simp: libraryForLanguage_def otel_steps otel_key_def validateJavaInjection_def
            list_all_iff java_loads\<close>)
  next
    case 2
    show thesis
      by (rule that [of "otelPythonPathPrefix @ '':'' @ otelPythonMountPath" python_value python_unacceptable])
        (use assms 2 python_loads(2) in \<open>auto simp: libraryForLanguage_def otel_steps otel_key_def validatePythonInjection_def
            list_all_iff python_loads\<close>)
  next
    case 3
    show thesis
      by (rule that [of "'' '' @ otelNodeJSRequireOption" nodejs_value nodejs_unacceptable])
        (use assms 3 nodejs_loads(2) in \<open>auto simp: libraryForLanguage_def otel_steps otel_key_def
            validateNodeJSInjection_def list_all_iff nodejs_loads\<close>)
  qed
qed

lemma mounts_validated:
  assumes "validateCommonInjection img c path p" "x \<in> set (p_Containers p)"
  shows "list_all (\<lambda>m. (vm_Name m = otelVolumeName) = (vm_MountPath m = path))
    (add_mount (mount otelVolumeName path) (c_VolumeMounts x))"
  using assms by (auto simp: validateCommonInjection_def list_ex_iff list_all_iff mount_conflict_def add_mount_def
      mount_def split: if_splits)

lemma container_instrumented:
  assumes "libraryForLanguage lang = Some lib" "ol_validate lib img c p" "z \<in> set (p_Containers p)"
  shows "otel_instrumented lang (ol_mountPath lib) z
    ((ol_inject lib z)\<lparr>c_Env := AddOrUpdateEnvVars (c_Env (ol_inject lib z)) es (Some KeepExistingEnvVar)\<rparr>)"
proof -
  obtain d g bad where inj: "ol_inject lib = otel_step (otel_key lang) d g (ol_mountPath lib)"
    and common: "validateCommonInjection img c (ol_mountPath lib) p"
    and ok: "env_entries_ok (otel_key lang) bad 0 (c_Env z)"
    and loads: "otel_loads lang d" "\<And>v. \<not> bad v \<Longrightarrow> otel_loads lang (g v)" "\<And>v. sublist v (g v)"
    using library_step [OF assms(1)] assms(2,3) by metis
  let ?old = "find (\<lambda>e. ev_Name e = otel_key lang) (c_Env z)"
  let ?new = "case ?old of None \<Rightarrow> env_value (otel_key lang) d | Some e \<Rightarrow> e\<lparr>ev_Value := g (ev_Value e)\<rparr>"
  have "find (\<lambda>e. ev_Name e = otel_key lang) (c_Env (ol_inject lib z)) = Some ?new"
    by (simp add: inj step_find_value)
  moreover have "length (filter (\<lambda>e. ev_Name e = otel_key lang) (c_Env (ol_inject lib z))) \<le> 1"
    using step_once entries_ok_once [OF ok] by (simp add: inj)
  ultimately have one: "filter (\<lambda>e. ev_Name e = otel_key lang) (c_Env (ol_inject lib z)) = [?new]" by (rule find_once)
  then have "otel_key lang \<in> names ev_Name (c_Env (ol_inject lib z))" by (rule filter_named)
  then have "filter (\<lambda>e. ev_Name e = otel_key lang) (AddOrUpdateEnvVars (c_Env (ol_inject lib z)) es (Some KeepExistingEnvVar)) =
      [?new]" using one by (simp add: keep_once)
  moreover have "ev_ValueFrom ?new = None \<and> otel_loads lang (ev_Value ?new) \<and>
      sublist (case ?old of None \<Rightarrow> [] | Some e \<Rightarrow> ev_Value e) (ev_Value ?new)"
    using entries_ok_plain [OF ok] loads by (cases ?old) (auto simp: env_value_def)
  ultimately show ?thesis
    using library_frame [OF assms(1), of z] mounts_validated [OF common assms(3)]
    by (simp add: otel_instrumented_def inj step_mounts mnt.names_add)
qed

text \<open>The init container of a changed Pod, whether it was added or found.\<close>

lemma init_container_validated:
  assumes "validateCommonInjection img c path p" "c_Name c = otelInitContainerName"
    "c_VolumeMounts c = [mount otelVolumeName path]"
    "x \<in> set (add_container c (p_InitContainers p))" "c_Name x = otelInitContainerName"
  shows "c_Image x = c_Image c \<and> c_Command x = c_Command c \<and>
    filter (\<lambda>m. vm_Name m = otelVolumeName \<or> vm_MountPath m = path) (c_VolumeMounts x) = [mount otelVolumeName path]"
proof -
  have "x = c \<or> x \<in> set (p_InitContainers p)"
    using assms(4) ctr.add_present [of c "p_InitContainers p"] ctr.add_absent [of c "p_InitContainers p"]
    by (cases "c_Name c \<in> names c_Name (p_InitContainers p)") auto
  moreover have "otelInitContainerCompatible x c" if "x \<in> set (p_InitContainers p)"
    using that assms(1,5) by (auto simp: validateCommonInjection_def list_ex_iff split: if_splits)
  ultimately consider "x = c" | "otelInitContainerCompatible x c" by blast
  then show ?thesis
  proof cases
    case 1
    then show ?thesis using assms(3) by (simp add: mount_def)
  next
    case 2
    let ?d = "mount otelVolumeName path"
    let ?owned = "filter (\<lambda>m. vm_Name m = otelVolumeName \<or> vm_MountPath m = path) (c_VolumeMounts x)"
    have "otelInitVolumeMount (c_VolumeMounts c) = Some ?d" "vm_Name ?d = otelVolumeName" "vm_MountPath ?d = path"
      using assms(3) by (simp_all add: otelInitVolumeMount_def mount_def)
    then have "list_all (\<lambda>m. m = ?d) ?owned" "length ?owned = 1" "c_Image x = c_Image c" "c_Command x = c_Command c"
      using 2 by (simp_all add: otelInitContainerCompatible_def Let_def split: if_splits)
    then show ?thesis by (cases ?owned) simp_all
  qed
qed

lemma volume_validated:
  assumes "validateCommonInjection img c path p"
  shows "\<forall>vol \<in> set (add_volume (empty_dir_volume otelVolumeName) (p_Volumes p)).
    v_Name vol = otelVolumeName \<longrightarrow> v_EmptyDir vol \<noteq> None"
proof -
  have "\<forall>vol \<in> set (p_Volumes p). v_Name vol = otelVolumeName \<longrightarrow> v_EmptyDir vol \<noteq> None"
    using assms by (auto simp: validateCommonInjection_def list_ex_iff split: if_splits)
  then show ?thesis
    using vol.add_present [of "empty_dir_volume otelVolumeName" "p_Volumes p"]
      vol.add_absent [of "empty_dir_volume otelVolumeName" "p_Volumes p"]
    by (cases "otelVolumeName \<in> names v_Name (p_Volumes p)") (auto simp: empty_dir_volume_def)
qed

section \<open>Properties\<close>

text \<open>C10: the OpenTelemetry injection is idempotent for every language: on the Pod it has mutated it finds its own
  init container, volume, mounts and option and changes nothing.\<close>

theorem otel_idempotent:
  assumes "InjectOTelToPod rules pq ns p = Some (changed, q)"
  shows "InjectOTelToPod rules pq ns q = Some (False, q)"
proof -
  have "otel_process rules pq ns p = Some q" using assms by (auto simp: InjectOTelToPod_def)
  from otel_process_again [OF this] show ?thesis by (simp add: InjectOTelToPod_def Changed_def)
qed

definition example_otel :: otel_rule where
  "example_otel = inject_rule.extend example_rule (otel_rule.fields False ''python'')"

lemma example_otel_changes:
  "\<exists>q. InjectOTelToPod [Some example_otel] example_quantity ''default'' example_pod = Some (True, q)"
proof -
  have "map_option fst (InjectOTelToPod [Some example_otel] example_quantity ''default'' example_pod) = Some True"
    by code_simp
  then show ?thesis by auto
qed

lemma otel_idempotent_witness:
  "\<exists>q. InjectOTelToPod [Some example_otel] example_quantity ''default'' example_pod = Some (True, q) \<and>
       InjectOTelToPod [Some example_otel] example_quantity ''default'' q = Some (False, q)"
  using example_otel_changes otel_idempotent by blast

text \<open>C11: the init container is never added when it would run as root under a Pod that forbids it: a changed Pod
  has no effective \<open>runAsNonRoot\<close> without a non-root user, and its injection was validated for its language.\<close>

theorem otel_change_validated:
  assumes "InjectOTelToPod rules pq ns p = Some (True, q)"
  shows "\<exists>r v lib c. selectOTelRule
       (matchAllInjectRules rules (if p_Namespace p \<noteq> [] then p_Namespace p else ns) (p_Labels p)) (p_Annotations p)
         = Some (r, v) \<and> libraryForLanguage (ot_Language r) = Some lib \<and>
     ol_validate lib (ir_Image r) c p \<and>
     \<not> runAsNonRootWithoutNonRootUser (p_SecurityContext p) (c_SecurityContext c) \<and>
     c_SecurityContext c = c_SecurityContext (hd (p_Containers p)) \<and>
     c_Image c = (if v \<noteq> [] then replaceImageVersion (ir_Image r) v else ir_Image r) \<and>
     q = otel_apply lib (ir_Envs r) c p"
proof -
  let ?ns = "if p_Namespace p \<noteq> [] then p_Namespace p else ns"
  have proc: "otel_process rules pq ns p = Some q" "q \<noteq> p"
    using assms by (auto simp: InjectOTelToPod_def Changed_def)
  then obtain r v lib c where sel: "selectOTelRule (matchAllInjectRules rules ?ns (p_Labels p)) (p_Annotations p) = Some (r, v)"
    and lib: "libraryForLanguage (ot_Language r) = Some lib"
    and c: "otel_initContainer pq r (if v \<noteq> [] then replaceImageVersion (ir_Image r) v else ir_Image r) lib p = Some c"
    and ok: "\<not> runAsNonRootWithoutNonRootUser (p_SecurityContext p) (c_SecurityContext c)"
      "ol_validate lib (ir_Image r) c p"
    and q: "q = otel_apply lib (ir_Envs r) c p"
    unfolding otel_process_def Let_def by (auto split: if_split_asm option.split_asm)
  have "p_Containers p \<noteq> []" using ok(2) lib
    by (auto simp: libraryForLanguage_def validateJavaInjection_def validatePythonInjection_def
        validateNodeJSInjection_def validateCommonInjection_def split: if_splits)
  then have "c_SecurityContext c = c_SecurityContext (hd (p_Containers p))"
    using with_resources_frame(5) [OF c [unfolded otel_initContainer_def]] by (cases "p_Containers p") simp_all
  moreover have "c_Image c = (if v \<noteq> [] then replaceImageVersion (ir_Image r) v else ir_Image r)"
    using with_resources_frame(4) [OF c [unfolded otel_initContainer_def]] by simp
  ultimately show ?thesis using sel lib ok q by blast
qed

lemma otel_change_validated_witness:
  "\<exists>q r v. InjectOTelToPod [Some example_otel] example_quantity ''default'' example_pod = Some (True, q) \<and>
     selectOTelRule (matchAllInjectRules [Some example_otel]
       (if p_Namespace example_pod \<noteq> [] then p_Namespace example_pod else ''default'') (p_Labels example_pod))
       (p_Annotations example_pod) = Some (r, v)"
  using example_otel_changes otel_change_validated by blast

text \<open>C28: a Pod which the OpenTelemetry injection changed carries everything the agent needs.  It has the init container with
  the rule's image, in the version the Pod asks for, and the command which copies the agent of the rule's language, on
  the shared volume, whether it was added or already there; the volume is an \<open>EmptyDir\<close>; and every container, also a sidecar
  which an earlier call of the webhook added, mounts that volume at the path of the language and has a single entry for the
  language's variable, a plain value which loads the agent and contains the value the container had.\<close>

theorem otel_complete:
  assumes "InjectOTelToPod rules pq ns p = Some (True, q)"
  shows "\<exists>r v lib. selectOTelRule
       (matchAllInjectRules rules (if p_Namespace p \<noteq> [] then p_Namespace p else ns) (p_Labels p)) (p_Annotations p)
         = Some (r, v) \<and> libraryForLanguage (ot_Language r) = Some lib \<and>
     otelInitContainerName \<in> names c_Name (p_InitContainers q) \<and>
     (\<forall>x \<in> set (p_InitContainers q). c_Name x = otelInitContainerName \<longrightarrow>
        c_Image x = (if v \<noteq> [] then replaceImageVersion (ir_Image r) v else ir_Image r) \<and>
        c_Command x = ol_command lib \<and>
        filter (\<lambda>m. vm_Name m = otelVolumeName \<or> vm_MountPath m = ol_mountPath lib) (c_VolumeMounts x)
          = [mount otelVolumeName (ol_mountPath lib)]) \<and>
     otelVolumeName \<in> names v_Name (p_Volumes q) \<and>
     (\<forall>vol \<in> set (p_Volumes q). v_Name vol = otelVolumeName \<longrightarrow> v_EmptyDir vol \<noteq> None) \<and>
     list_all2 (otel_instrumented (ot_Language r) (ol_mountPath lib)) (p_Containers p) (p_Containers q)"
proof -
  let ?ns = "if p_Namespace p \<noteq> [] then p_Namespace p else ns"
  have "otel_process rules pq ns p = Some q" "q \<noteq> p"
    using assms by (auto simp: InjectOTelToPod_def Changed_def)
  then obtain r v lib c where sel: "selectOTelRule (matchAllInjectRules rules ?ns (p_Labels p)) (p_Annotations p) = Some (r, v)"
    and lib: "libraryForLanguage (ot_Language r) = Some lib"
    and init: "otel_initContainer pq r (if v \<noteq> [] then replaceImageVersion (ir_Image r) v else ir_Image r) lib p = Some c"
    and ok: "ol_validate lib (ir_Image r) c p" and q: "q = otel_apply lib (ir_Envs r) c p"
    unfolding otel_process_def Let_def by (auto split: if_split_asm option.split_asm)
  have c: "c_Name c = otelInitContainerName" "c_VolumeMounts c = [mount otelVolumeName (ol_mountPath lib)]"
    "c_Image c = (if v \<noteq> [] then replaceImageVersion (ir_Image r) v else ir_Image r)" "c_Command c = ol_command lib"
    using with_resources_frame [OF init [unfolded otel_initContainer_def]] by simp_all
  have common: "validateCommonInjection (ir_Image r) c (ol_mountPath lib) p" using library_step [OF lib] ok by metis
  have "\<forall>vol \<in> set (p_Volumes q). v_Name vol = otelVolumeName \<longrightarrow> v_EmptyDir vol \<noteq> None"
    using volume_validated [OF common] q by simp
  moreover have "list_all2 (otel_instrumented (ot_Language r) (ol_mountPath lib)) (p_Containers p) (p_Containers q)"
    using container_instrumented [OF lib ok] by (simp add: q otel_apply_containers list_all2_conv_all_nth)
  moreover have "\<forall>x \<in> set (p_InitContainers q). c_Name x = otelInitContainerName \<longrightarrow>
      c_Image x = c_Image c \<and> c_Command x = c_Command c \<and>
      filter (\<lambda>m. vm_Name m = otelVolumeName \<or> vm_MountPath m = ol_mountPath lib) (c_VolumeMounts x)
        = [mount otelVolumeName (ol_mountPath lib)]"
    using init_container_validated [OF common c(1,2)] q by simp
  ultimately show ?thesis using sel lib c q
    by (intro exI [of _ r] exI [of _ v] exI [of _ lib]) (simp add: ctr.names_add vol.names_add empty_dir_volume_def)
qed

lemma otel_complete_witness:
  "\<exists>q (r :: otel_rule) (lib :: otel_library). InjectOTelToPod [Some example_otel] example_quantity ''default'' example_pod = Some (True, q) \<and>
     otelVolumeName \<in> names v_Name (p_Volumes q) \<and>
     list_all2 (otel_instrumented (ot_Language r) (ol_mountPath lib)) (p_Containers example_pod) (p_Containers q)"
proof -
  obtain q where q: "InjectOTelToPod [Some example_otel] example_quantity ''default'' example_pod = Some (True, q)"
    using example_otel_changes by blast
  from otel_complete [OF q] obtain r :: otel_rule and lib :: otel_library
    where "otelVolumeName \<in> names v_Name (p_Volumes q)"
    "list_all2 (otel_instrumented (ot_Language r) (ol_mountPath lib)) (p_Containers example_pod) (p_Containers q)"
    by (elim exE conjE) (rule that)
  with q show ?thesis by (intro exI conjI)
qed

end
