(* ===== verification/OTel_Log.thy ===== *)
theory OTel_Log
  imports OTel
begin

text \<open>
  What the OpenTelemetry injection logs about a Pod (\<open>apis/webhook/injector/otel.go\<close>), the only record of why
  a Pod was left alone: the admission answer does not say.  The Pod is that of \<open>OTel\<close>; here the step returns
  its entries too, without the text of a failed validation.
\<close>

datatype otel_entry =
    AnnotationDisabled string string
  | MultipleRules string string string string string
  | LanguageUnsupported string string string string
  | RunAsNonRoot string string string string string
  | ValidationFailed string string string
  | InjectionStarted string string string string
  | InjectionCompleted string string string string

definition warnIfMultipleRulesMatched ::
  "string \<Rightarrow> string \<Rightarrow> otel_rule list \<Rightarrow> otel_rule \<Rightarrow> otel_entry list" where
  "warnIfMultipleRulesMatched parent namespace rules selected =
     (let matchedRules = map (\<lambda>rule. ir_Name rule @ ''('' @ ot_Language rule @ '')'') rules
      in if length matchedRules < 2 then []
         else [MultipleRules parent namespace (ir_Name selected) (ot_Language selected) (join '','' matchedRules)])"

definition otel_process_log ::
  "otel_rule option list \<Rightarrow> (string \<Rightarrow> quantity option) \<Rightarrow> string \<Rightarrow> string \<Rightarrow> pod \<Rightarrow> (pod \<times> otel_entry list) option" where
  "otel_process_log rules pq namespace parent p =
     (let ns = (if p_Namespace p \<noteq> [] then p_Namespace p else namespace);
          matched = matchAllInjectRules rules ns (p_Labels p) in
      if \<not> CheckAnnotationIsTrue (p_Annotations p) otelEnabledAnnotationKey then Some (p, [AnnotationDisabled parent ns])
      else case selectOTelRule matched (p_Annotations p) of
          None \<Rightarrow> Some (p, [])
        | Some (rule, imageVersion) \<Rightarrow>
            (let warned = warnIfMultipleRulesMatched parent ns matched rule in
             case libraryForLanguage (ot_Language rule) of
               None \<Rightarrow> Some (p, warned @ [LanguageUnsupported parent ns (ir_Name rule) (ot_Language rule)])
             | Some library \<Rightarrow>
                 let img = (if imageVersion \<noteq> [] then replaceImageVersion (ir_Image rule) imageVersion
                            else ir_Image rule)
                 in case otel_initContainer pq rule img library p of
                      None \<Rightarrow> None
                    | Some c \<Rightarrow>
                        if runAsNonRootWithoutNonRootUser (p_SecurityContext p) (c_SecurityContext c)
                        then Some (p, warned @ [RunAsNonRoot (if p_Name p = [] then parent else p_Name p) ns
                                (ir_Name rule) (ot_Language rule) img])
                        else if \<not> ol_validate library (ir_Image rule) c p
                        then Some (p, warned @ [ValidationFailed parent ns (ir_Name rule)])
                        else Some (otel_apply library (ir_Envs rule) c p,
                          warned @ [InjectionStarted parent ns (ot_Language rule) (ir_Name rule),
                            InjectionCompleted parent ns img (ir_Name rule)])))"

lemma otel_process_log_value:
  "map_option fst (otel_process_log rules pq namespace parent p) = otel_process rules pq namespace p"
  by (simp add: otel_process_log_def otel_process_def Let_def split: option.split prod.split)

definition skip_reason :: "otel_entry \<Rightarrow> bool" where
  "skip_reason e = (case e of LanguageUnsupported _ _ _ _ \<Rightarrow> True | RunAsNonRoot _ _ _ _ _ \<Rightarrow> True
     | ValidationFailed _ _ _ \<Rightarrow> True | _ \<Rightarrow> False)"

text \<open>Every answer about a Pod is explained: with the annotation off that is all that is logged, without a
  selected rule nothing is, and with one the last entry says why the Pod was skipped, which then is unchanged,
  or that the injection was completed.\<close>

theorem otel_log_explains:
  assumes "otel_process_log rules pq namespace parent p = Some (q, es)"
  shows "if \<not> CheckAnnotationIsTrue (p_Annotations p) otelEnabledAnnotationKey
    then q = p \<and> (\<exists>ns. es = [AnnotationDisabled parent ns])
    else case selectOTelRule (matchAllInjectRules rules (if p_Namespace p \<noteq> [] then p_Namespace p else namespace) (p_Labels p))
             (p_Annotations p) of
        None \<Rightarrow> q = p \<and> es = []
      | Some (rule, version) \<Rightarrow> es \<noteq> [] \<and> (if skip_reason (List.last es) then q = p
          else \<exists>ns img. List.last es = InjectionCompleted parent ns img (ir_Name rule))"
  using assms
  by (simp add: otel_process_log_def skip_reason_def Let_def split: if_split_asm option.split_asm prod.split_asm) auto

end
