(* ===== verification/Election_Metrics.thy ===== *)
theory Election_Metrics
  imports Election_Traces
begin

text \<open>
  The counters and gauges of the election API (\<open>apis/election/metrics.go\<close>).  The arrays of counters
  are lists of their Go length; an index out of range, on which Go panics, is \<open>None\<close>.  The counters
  are 64-bit words.  The \<open>%.0f\<close> rendering of a duration in seconds is a parameter.
\<close>

section \<open>Counters\<close>

definition operation_index :: "electionOperation \<Rightarrow> nat" where
  "operation_index operation =
     (case operation of operationCampaign \<Rightarrow> 0 | operationHeartbeat \<Rightarrow> 1 | operationInformer \<Rightarrow> 2)"

definition transition_index :: "transition \<Rightarrow> nat" where
  "transition_index reason = (case reason of transitionFirstAcquire \<Rightarrow> 0 | transitionLeaseExpired \<Rightarrow> 1)"

definition operationNames :: "string list" where
  "operationNames = [''campaign'', ''heartbeat'', ''informer'']"

definition transitionNames :: "string list" where
  "transitionNames = [''first_acquire'', ''lease_expired'']"

definition resultStatuses :: "status list" where
  "resultStatuses = [StatusSuccess, StatusDefeat, StatusError]"

definition status_text :: "status \<Rightarrow> string" where
  "status_text st = (case st of StatusSuccess \<Rightarrow> ''success'' | StatusDefeat \<Rightarrow> ''defeat'' | StatusError \<Rightarrow> ''error'')"

record election_counters =
  ec_requests :: "64 word list list"
  ec_transitions :: "64 word list"
  ec_storageErrors :: "64 word list"
  ec_casConflicts :: "64 word list"

definition no_counts :: election_counters where
  "no_counts = \<lparr>ec_requests = replicate 2 (replicate 3 0), ec_transitions = replicate 2 0,
     ec_storageErrors = replicate 3 0, ec_casConflicts = replicate 2 0\<rparr>"

definition increment :: "nat \<Rightarrow> 64 word list \<Rightarrow> 64 word list option" where
  "increment i xs = (if i < length xs then Some (xs[i := xs ! i + 1]) else None)"

text \<open>The loop over \<open>resultNames\<close>: the index of the first name equal to the result, if any.\<close>

fun result_index :: "status list \<Rightarrow> status \<Rightarrow> nat option" where
  "result_index [] result = None"
| "result_index (name # names) result =
     (if result = name then Some 0 else map_option Suc (result_index names result))"

definition recordRequest :: "electionOperation \<Rightarrow> status \<Rightarrow> election_counters \<Rightarrow> election_counters option" where
  "recordRequest operation result m =
     (case result_index resultStatuses result of
        None \<Rightarrow> Some m
      | Some index \<Rightarrow>
          let op = operation_index operation
          in if op < length (ec_requests m)
             then map_option (\<lambda>row. m\<lparr>ec_requests := (ec_requests m)[op := row]\<rparr>) (increment index (ec_requests m ! op))
             else None)"

definition recordTransition :: "transition \<Rightarrow> election_counters \<Rightarrow> election_counters option" where
  "recordTransition reason m =
     map_option (\<lambda>xs. m\<lparr>ec_transitions := xs\<rparr>) (increment (transition_index reason) (ec_transitions m))"

definition recordStorageError :: "electionOperation \<Rightarrow> election_counters \<Rightarrow> election_counters option" where
  "recordStorageError operation m =
     map_option (\<lambda>xs. m\<lparr>ec_storageErrors := xs\<rparr>) (increment (operation_index operation) (ec_storageErrors m))"

definition recordCASConflict :: "electionOperation \<Rightarrow> election_counters \<Rightarrow> election_counters option" where
  "recordCASConflict operation m =
     map_option (\<lambda>xs. m\<lparr>ec_casConflicts := xs\<rparr>) (increment (operation_index operation) (ec_casConflicts m))"

text \<open>The counting calls in the trace of a request, in their order.\<close>

fun count_metric :: "metric \<Rightarrow> election_counters \<Rightarrow> election_counters option" where
  "count_metric (MRequest op result) m = recordRequest op result m"
| "count_metric (MTransition reason) m = recordTransition reason m"
| "count_metric (MStorageError op) m = recordStorageError op m"
| "count_metric (MCASConflict op) m = recordCASConflict op m"

fun count_trace :: "event list \<Rightarrow> election_counters \<Rightarrow> election_counters option" where
  "count_trace [] m = Some m"
| "count_trace (EvCount c # tr) m = (case count_metric c m of None \<Rightarrow> None | Some m' \<Rightarrow> count_trace tr m')"
| "count_trace (_ # tr) m = count_trace tr m"

section \<open>Gauges\<close>

text \<open>
  The loop of \<open>renderMetrics\<close> over the cached Leases, each with the monotonic instant at which its
  lifetime is asked for: the number of active Leases, the least remaining lifetime and the greatest
  age (zero when there is none), and the observation table, which the loop updates.
\<close>

definition gauge_step ::
  "int \<Rightarrow> lease \<times> int \<Rightarrow> (nat \<times> int \<times> int) \<times> obs_table \<Rightarrow> (nat \<times> int \<times> int) \<times> obs_table" where
  "gauge_step now = (\<lambda>(lease, elapsed) ((active, rem, age), tab).
     let (lifetime, tab') = remaining tab (Some lease) fromCache elapsed
     in if lifetime \<le> 0 then ((active, rem, age), tab')
        else ((active + 1,
               (if active = 0 \<or> lifetime < rem then lifetime else rem),
               (case AcquireTime (l_Spec lease) of None \<Rightarrow> age | Some t \<Rightarrow> max age (now - t))), tab'))"

definition gauges :: "int \<Rightarrow> (lease \<times> int) list \<Rightarrow> obs_table \<Rightarrow> (nat \<times> int \<times> int) \<times> obs_table" where
  "gauges now leases tab = fold (gauge_step now) leases ((0, 0, 0), tab)"

section \<open>Rendering\<close>

text \<open>\<open>%q\<close> of the names above, which hold no character to escape.\<close>

definition quoted :: "string \<Rightarrow> string" where
  "quoted s = [CHR 0x22] @ s @ [CHR 0x22]"

definition newline :: string where "newline = [CHR 0x0A]"

definition header_lines :: "string \<Rightarrow> string \<Rightarrow> string \<Rightarrow> string" where
  "header_lines name help kind = ''# HELP '' @ name @ '' '' @ help @ newline @ ''# TYPE '' @ name @ '' '' @ kind @ newline"

definition indexed_lines :: "string \<Rightarrow> string \<Rightarrow> string list \<Rightarrow> 64 word list \<Rightarrow> string" where
  "indexed_lines name label names counts =
     concat (map (\<lambda>(n, count). name @ ''{'' @ label @ ''='' @ quoted n @ ''} '' @ show_nat (unat count) @ newline)
       (zip names counts))"

definition request_lines :: "string \<Rightarrow> 64 word list list \<Rightarrow> string" where
  "request_lines name rows =
     concat (map (\<lambda>(op, row). concat (map (\<lambda>(st, count).
         name @ ''{operation='' @ quoted op @ '',result='' @ quoted (status_text st) @ ''} '' @
           show_nat (unat count) @ newline) (zip resultStatuses row)))
       (zip operationNames rows))"

text \<open>\<open>names\<close> must have an entry for every counter, which is so for the lengths of \<open>no_counts\<close>.\<close>

definition render :: "(int \<Rightarrow> string) \<Rightarrow> election_counters \<Rightarrow> nat \<times> int \<times> int \<Rightarrow> string" where
  "render format_seconds counts = (\<lambda>(active, rem, age).
     header_lines ''datakit_operator_election_requests_total'' ''Election HTTP requests by operation and result.'' ''counter'' @
     request_lines ''datakit_operator_election_requests_total'' (ec_requests counts) @
     header_lines ''datakit_operator_election_transitions_total'' ''Collection Leader transitions by reason.'' ''counter'' @
     indexed_lines ''datakit_operator_election_transitions_total'' ''reason'' transitionNames (ec_transitions counts) @
     header_lines ''datakit_operator_election_storage_errors_total'' ''Kubernetes Lease storage errors by operation.'' ''counter'' @
     indexed_lines ''datakit_operator_election_storage_errors_total'' ''operation'' operationNames (ec_storageErrors counts) @
     header_lines ''datakit_operator_election_cas_conflicts_total'' ''Kubernetes Lease resourceVersion conflicts by operation.'' ''counter'' @
     indexed_lines ''datakit_operator_election_cas_conflicts_total'' ''operation'' operationNames (ec_casConflicts counts) @
     header_lines ''datakit_operator_election_active_scopes'' ''Number of active election scopes in the Lease cache.'' ''gauge'' @
     ''datakit_operator_election_active_scopes '' @ show_nat active @ newline @
     header_lines ''datakit_operator_election_lease_remaining_seconds''
       ''Minimum remaining lifetime among active election Leases.'' ''gauge'' @
     ''datakit_operator_election_lease_remaining_seconds '' @ format_seconds rem @ newline @
     header_lines ''datakit_operator_election_lease_age_seconds'' ''Age of the oldest active election Lease.'' ''gauge'' @
     ''datakit_operator_election_lease_age_seconds '' @ format_seconds age @ newline)"

text \<open>A failing List is counted as a storage error of the informer and leaves no Leases.\<close>

definition renderMetrics ::
  "(int \<Rightarrow> string) \<Rightarrow> int \<Rightarrow> (lease \<times> int) list option \<Rightarrow> election_counters \<times> obs_table
   \<Rightarrow> (string \<times> election_counters \<times> obs_table) option" where
  "renderMetrics format_seconds now listed = (\<lambda>(m, tab).
     case (case listed of None \<Rightarrow> recordStorageError operationInformer m | Some _ \<Rightarrow> Some m) of
       None \<Rightarrow> None
     | Some counts \<Rightarrow>
         let (values, tab') = gauges now (case listed of None \<Rightarrow> [] | Some leases \<Rightarrow> leases) tab
         in Some (render format_seconds counts values, counts, tab'))"

section \<open>The counters of a request\<close>

definition counters_ok :: "election_counters \<Rightarrow> bool" where
  "counters_ok m \<longleftrightarrow> map length (ec_requests m) = [3, 3] \<and> length (ec_transitions m) = 2 \<and>
     length (ec_storageErrors m) = 3 \<and> length (ec_casConflicts m) = 2"

lemma no_counts_ok [simp]: "counters_ok no_counts"
  by (simp add: counters_ok_def no_counts_def numeral_eq_Suc)

text \<open>The calls that stay in range: requests and conflicts of the informer would not.\<close>

fun metric_ok :: "metric \<Rightarrow> bool" where
  "metric_ok (MRequest op _) = (op \<noteq> operationInformer)"
| "metric_ok (MCASConflict op) = (op \<noteq> operationInformer)"
| "metric_ok _ = True"

definition requests_of :: "election_counters \<Rightarrow> electionOperation \<Rightarrow> status \<Rightarrow> 64 word" where
  "requests_of m op result =
     (case result_index resultStatuses result of None \<Rightarrow> 0 | Some i \<Rightarrow> ec_requests m ! operation_index op ! i)"

lemma result_indices: "result_index resultStatuses StatusSuccess = Some 0"
  "result_index resultStatuses StatusDefeat = Some 1" "result_index resultStatuses StatusError = Some 2"
  by (simp_all add: resultStatuses_def)

lemma counters_requests:
  assumes "counters_ok m"
  obtains a b c d e f where "ec_requests m = [[a, b, c], [d, e, f]]"
  using assms by (auto simp: counters_ok_def map_eq_Cons_conv length_Suc_conv numeral_eq_Suc)

lemma all_status: "(\<forall>st. P st) \<longleftrightarrow> P StatusSuccess \<and> P StatusDefeat \<and> P StatusError"
  by (metis status.exhaust)

lemma all_operation: "(\<forall>op. P op) \<longleftrightarrow> P operationCampaign \<and> P operationHeartbeat \<and> P operationInformer"
  by (metis electionOperation.exhaust)

lemma count_request:
  assumes "counters_ok m" "op \<noteq> operationInformer"
  obtains m' where "recordRequest op result m = Some m'" "counters_ok m'"
    "\<And>op' result'. op' \<noteq> operationInformer \<Longrightarrow> requests_of m' op' result' =
       requests_of m op' result' + (if op' = op \<and> result' = result then 1 else 0)"
proof -
  obtain a b c d e f where r: "ec_requests m = [[a, b, c], [d, e, f]]" using counters_requests [OF assms(1)] .
  define row where "row = (ec_requests m ! operation_index op)"
  have "\<exists>m'. recordRequest op result m = Some m' \<and> counters_ok m' \<and>
      (\<forall>op' result'. op' \<noteq> operationInformer \<longrightarrow> requests_of m' op' result' =
         requests_of m op' result' + (if op' = op \<and> result' = result then 1 else 0))"
    using assms r
    by (cases op; cases result)
      (simp_all add: recordRequest_def result_indices operation_index_def increment_def counters_ok_def
        requests_of_def all_status all_operation)
  then show thesis using that by blast
qed

lemma count_other:
  assumes "counters_ok m" "metric_ok c" "\<And>op result. c \<noteq> MRequest op result"
  shows "\<exists>m'. count_metric c m = Some m' \<and> counters_ok m' \<and> ec_requests m' = ec_requests m"
proof (cases c)
  case (MStorageError op)
  then show ?thesis using assms
    by (cases op) (auto simp: recordStorageError_def increment_def operation_index_def counters_ok_def)
next
  case (MTransition reason)
  then show ?thesis using assms
    by (cases reason) (auto simp: recordTransition_def increment_def transition_index_def counters_ok_def)
next
  case (MCASConflict op)
  then show ?thesis using assms
    by (cases op) (auto simp: recordCASConflict_def increment_def operation_index_def counters_ok_def)
qed (use assms in blast)

fun uncounted :: "event \<Rightarrow> bool" where
  "uncounted (EvCount (MRequest _ _)) = False"
| "uncounted (EvCount c) = metric_ok c"
| "uncounted _ = True"

lemma count_uncounted:
  "\<lbrakk>list_all uncounted tr; counters_ok m\<rbrakk> \<Longrightarrow>
   \<exists>m'. count_trace tr m = Some m' \<and> counters_ok m' \<and> ec_requests m' = ec_requests m"
proof (induction tr m rule: count_trace.induct)
  case (2 c tr m)
  then have "metric_ok c" "\<And>op result. c \<noteq> MRequest op result" by (cases c; auto)+
  then obtain m1 where m1: "count_metric c m = Some m1" "counters_ok m1" "ec_requests m1 = ec_requests m"
    using count_other [OF 2(3)] by blast
  obtain m2 where "count_trace tr m1 = Some m2" "counters_ok m2" "ec_requests m2 = ec_requests m1"
    using 2(1) [OF m1(1) _ m1(2)] 2(2) by auto
  then show ?case using m1 by auto
qed auto

lemma count_trace_append:
  "count_trace (xs @ ys) m = (case count_trace xs m of None \<Rightarrow> None | Some m' \<Rightarrow> count_trace ys m')"
  by (induction xs m rule: count_trace.induct) (auto split: option.splits)

lemma write_event_uncounted [simp]: "uncounted (write_event op lns n i lo t a)"
  by (auto simp: write_event_def split: option.splits)

lemma loop_uncounted:
  "\<lbrakk>runs (elect_loop k lns op name ns ident) tr x; op \<noteq> operationInformer\<rbrakk> \<Longrightarrow> list_all uncounted tr"
proof (induction k arbitrary: tr)
  case 0
  then show ?case by (auto elim!: attemptE attempt_bodyE)
next
  case (Suc k)
  from Suc.prems show ?case by (auto elim!: attemptE attempt_bodyE after_writeE dest: Suc.IH)
qed

lemma elect_uncounted:
  "\<lbrakk>runs (elect sha256 lns op token ns ident) tr x; op \<noteq> operationInformer\<rbrakk> \<Longrightarrow> list_all uncounted tr"
  by (erule electE) (auto dest: loop_uncounted)

lemma handle_counts:
  assumes "runs (handle_election sha256 lns op token ns ident) tr (code, r)" "op \<noteq> operationInformer"
  obtains tr' where "list_all uncounted tr'" "tr = tr' @ [EvCount (MRequest op (r_Status r))]"
proof (cases "token = [] \<or> ident = []")
  case True
  then show thesis using that [of "[]"] assms(1) by (auto simp: handle_election_def Let_def)
next
  case False
  then obtain tr' e where "runs (elect sha256 lns op token ns ident) tr' e" "(code, r) = election_reply ns ident e"
      "tr = tr' @ [EvCount (MRequest op (r_Status (snd (election_reply ns ident e))))]"
    using assms(1) handle_runs [of token ident] by blast
  then show thesis using that [of tr'] elect_uncounted assms(2) by (metis snd_conv)
qed

section \<open>The gauges, by reference\<close>

fun lifetimes :: "(lease \<times> int) list \<Rightarrow> obs_table \<Rightarrow> (lease \<times> int) list" where
  "lifetimes [] tab = []"
| "lifetimes ((l, elapsed) # ls) tab =
     (l, fst (remaining tab (Some l) fromCache elapsed)) # lifetimes ls (snd (remaining tab (Some l) fromCache elapsed))"

definition active_leases :: "(lease \<times> int) list \<Rightarrow> obs_table \<Rightarrow> (lease \<times> int) list" where
  "active_leases ls tab = filter (\<lambda>(l, lifetime). 0 < lifetime) (lifetimes ls tab)"

definition ages :: "int \<Rightarrow> (lease \<times> int) list \<Rightarrow> int set" where
  "ages now ls = {now - t |l x t. (l, x) \<in> set ls \<and> AcquireTime (l_Spec l) = Some t}"

lemma ages_Cons [simp]: "ages now ((l, x) # ls) =
    (case AcquireTime (l_Spec l) of None \<Rightarrow> {} | Some t \<Rightarrow> {now - t}) \<union> ages now ls"
  by (auto simp: ages_def split: option.splits)

lemma ages_Nil [simp]: "ages now [] = {}"
  by (simp add: ages_def)

lemma finite_ages [simp]: "finite (ages now ls)"
  by (induction ls) (auto split: option.splits)

lemma gauge_skip:
    "\<lbrakk>remaining tab (Some l) fromCache e = (x, tab'); x \<le> 0\<rbrakk> \<Longrightarrow>
     gauge_step now (l, e) ((a, r, g), tab) = ((a, r, g), tab')"
  and gauge_take:
    "\<lbrakk>remaining tab (Some l) fromCache e = (x, tab'); \<not> x \<le> 0\<rbrakk> \<Longrightarrow>
     gauge_step now (l, e) ((a, r, g), tab) = ((Suc a, if a = 0 \<or> x < r then x else r,
       case AcquireTime (l_Spec l) of None \<Rightarrow> g | Some t \<Rightarrow> max g (now - t)), tab')"
  by (simp_all add: gauge_step_def)

lemma gauges_fold:
  "fst (fold (gauge_step now) ls ((a, r, g), tab)) =
     (a + length (active_leases ls tab),
      (if active_leases ls tab = [] then r
       else if a = 0 then Min (snd ` set (active_leases ls tab)) else min r (Min (snd ` set (active_leases ls tab)))),
      Max (insert g (ages now (active_leases ls tab))))"
proof (induction ls arbitrary: a r g tab)
  case Nil
  then show ?case by (simp add: active_leases_def)
next
  case (Cons y ls)
  obtain l e where y: "y = (l, e)" by (cases y)
  obtain x tab' where x: "remaining tab (Some l) fromCache e = (x, tab')" by (cases "remaining tab (Some l) fromCache e")
  show ?case
  proof (cases "x \<le> 0")
    case True
    then have "active_leases (y # ls) tab = active_leases ls tab'" by (simp add: active_leases_def y x)
    then show ?thesis by (simp add: y gauge_skip [OF x True] Cons.IH)
  next
    case False
    let ?r = "if a = 0 \<or> x < r then x else r"
    let ?g = "case AcquireTime (l_Spec l) of None \<Rightarrow> g | Some t \<Rightarrow> max g (now - t)"
    have act: "active_leases (y # ls) tab = (l, x) # active_leases ls tab'" using False by (simp add: active_leases_def y x)
    have step: "fst (fold (gauge_step now) (y # ls) ((a, r, g), tab)) =
        fst (fold (gauge_step now) ls ((Suc a, ?r, ?g), tab'))" by (simp add: y gauge_take [OF x False])
    have age: "Max (insert ?g (ages now (active_leases ls tab'))) =
        Max (insert g (ages now ((l, x) # active_leases ls tab')))"
      by (cases "ages now (active_leases ls tab') = {}") (auto simp: insert_commute max.assoc max.commute max.left_commute split: option.splits)
    have min: "active_leases ls tab' \<noteq> [] \<Longrightarrow>
        Min (snd ` set ((l, x) # active_leases ls tab')) = min x (Min (snd ` set (active_leases ls tab')))" by simp
    show ?thesis unfolding step Cons.IH act using age min by auto
  qed
qed

section \<open>Properties\<close>

text \<open>C38: every answered election request is counted exactly once, under its operation and the status it answers,
  and none of the counting calls of the request indexes an array out of range.\<close>

theorem request_counted_once:
  assumes "runs (handle_election sha256 lns op token ns ident) tr (code, r)" "op \<noteq> operationInformer" "counters_ok m"
  shows "\<exists>m'. count_trace tr m = Some m' \<and> counters_ok m' \<and>
     (\<forall>op' result. op' \<noteq> operationInformer \<longrightarrow> requests_of m' op' result =
        requests_of m op' result + (if op' = op \<and> result = r_Status r then 1 else 0))"
proof -
  obtain tr' where tr: "list_all uncounted tr'" "tr = tr' @ [EvCount (MRequest op (r_Status r))]"
    using handle_counts [OF assms(1,2)] .
  obtain m1 where m1: "count_trace tr' m = Some m1" "counters_ok m1" "ec_requests m1 = ec_requests m"
    using count_uncounted [OF tr(1) assms(3)] by blast
  obtain m2 where "recordRequest op (r_Status r) m1 = Some m2" "counters_ok m2"
      "\<And>op' result'. op' \<noteq> operationInformer \<Longrightarrow> requests_of m2 op' result' =
         requests_of m1 op' result' + (if op' = op \<and> result' = r_Status r then 1 else 0)"
    using count_request [OF m1(2) assms(2), of "r_Status r"] by blast
  moreover have "requests_of m1 = requests_of m" unfolding requests_of_def [abs_def] m1(3) ..
  ultimately show ?thesis using m1 by (auto simp: tr(2) count_trace_append)
qed

lemma request_counted_once_witness:
  "\<exists>tr code r m'. runs (handle_election (\<lambda>_. []) [] operationCampaign [] [] []) tr (code, r) \<and>
     count_trace tr no_counts = Some m' \<and> requests_of m' operationCampaign (r_Status r) = 1"
proof -
  obtain tr code r where run: "runs (handle_election (\<lambda>_. []) [] operationCampaign [] [] []) tr (code, r)"
    using runs_total [of "handle_election (\<lambda>_. []) [] operationCampaign [] [] []"] by force
  have "requests_of no_counts operationCampaign (r_Status r) = 0"
    by (cases "r_Status r") (simp_all add: requests_of_def no_counts_def result_indices operation_index_def)
  with request_counted_once [OF run electionOperation.distinct(3) no_counts_ok] run show ?thesis by fastforce
qed

text \<open>The gauges describe the active Leases: their number, their least remaining lifetime (0 when there is none)
  and the greatest age, at least 0.\<close>

theorem gauges_spec:
  "fst (gauges now leases tab) =
     (length (active_leases leases tab),
      (if active_leases leases tab = [] then 0 else Min (snd ` set (active_leases leases tab))),
      Max (insert 0 (ages now (active_leases leases tab))))"
  by (simp add: gauges_def gauges_fold)

end
