(* ===== verification/Election_Readiness.thy ===== *)
theory Election_Readiness
  imports Election_Traces
begin

text \<open>
  Readiness of the election coordinator: the informer cache with its watch flag
  (\<open>apis/election/kubernetes.go\<close>), the resolution of the Operator's namespace
  (\<open>apis/election/namespace.go\<close>) and the authorization probe of \<open>handler.go\<close>.  The reflector of the
  informer calls the two closures of the \<open>ListWatch\<close> and stops watches in an order that is not
  assumed; every store into the flag is one action.
\<close>

section \<open>The informer cache\<close>

record lease_cache =
  lk_runs :: nat
  lk_synced :: bool
  lk_watchReady :: bool
  lk_storageErrors :: nat

definition no_lease_cache :: lease_cache where
  "no_lease_cache = \<lparr>lk_runs = 0, lk_synced = False, lk_watchReady = False, lk_storageErrors = 0\<rparr>"

text \<open>
  What can happen: \<open>Start\<close>; the beginning and the failure of a List (with the context cancelled or
  not); the beginning, the failure and the success of a Watch; \<open>Stop\<close> of a watch; the first
  synchronisation; the return of the informer's \<open>Run\<close>.
\<close>

datatype cache_event =
    StartCalled
  | ListBegun
  | ListFailed bool
  | WatchBegun
  | WatchFailed bool
  | WatchOpened
  | WatchStopped
  | HasSynced
  | RunReturned

definition cache_Start :: "lease_cache \<Rightarrow> lease_cache" where
  "cache_Start s = (if lk_runs s = 0 then s\<lparr>lk_runs := 1\<rparr> else s)"

fun cache_do :: "cache_event \<Rightarrow> lease_cache \<Rightarrow> lease_cache" where
  "cache_do StartCalled s = cache_Start s"
| "cache_do ListBegun s = s\<lparr>lk_watchReady := False\<rparr>"
| "cache_do (ListFailed cancelled) s =
     (if cancelled then s else s\<lparr>lk_storageErrors := lk_storageErrors s + 1\<rparr>)"
| "cache_do WatchBegun s = s\<lparr>lk_watchReady := False\<rparr>"
| "cache_do (WatchFailed cancelled) s =
     (if cancelled then s else s\<lparr>lk_storageErrors := lk_storageErrors s + 1\<rparr>)"
| "cache_do WatchOpened s = s\<lparr>lk_watchReady := True\<rparr>"
| "cache_do WatchStopped s = s\<lparr>lk_watchReady := False\<rparr>"
| "cache_do HasSynced s = s\<lparr>lk_synced := True\<rparr>"
| "cache_do RunReturned s = s\<lparr>lk_watchReady := False\<rparr>"

definition Ready :: "lease_cache \<Rightarrow> bool" where
  "Ready s \<longleftrightarrow> lk_synced s \<and> lk_watchReady s"

definition coordinator_Start :: "string \<Rightarrow> lease_cache \<Rightarrow> lease_cache" where
  "coordinator_Start namespace s = (if namespace \<noteq> [] then cache_Start s else s)"

definition cache_run :: "cache_event list \<Rightarrow> lease_cache" where
  "cache_run es = fold cache_do es no_lease_cache"

text \<open>The events that end a watch or begin anew.\<close>

fun ends_watch :: "cache_event \<Rightarrow> bool" where
  "ends_watch ListBegun = True"
| "ends_watch WatchBegun = True"
| "ends_watch WatchStopped = True"
| "ends_watch RunReturned = True"
| "ends_watch _ = False"

lemma synced_run: "lk_synced (cache_run es) \<longleftrightarrow> HasSynced \<in> set es"
proof (induction es rule: rev_induct)
  case (snoc e es)
  then show ?case by (cases e) (auto simp: cache_run_def cache_Start_def)
qed (simp add: cache_run_def no_lease_cache_def)

lemma watch_run:
  "lk_watchReady (cache_run es) \<longleftrightarrow> (\<exists>before later. es = before @ WatchOpened # later \<and> \<not> list_ex ends_watch later)"
proof (induction es rule: rev_induct)
  case Nil
  then show ?case by (simp add: cache_run_def no_lease_cache_def)
next
  case (snoc e es)
  have step: "lk_watchReady (cache_run (es @ [e])) \<longleftrightarrow>
      (if e = WatchOpened then True else if ends_watch e then False else lk_watchReady (cache_run es))"
    by (cases e) (auto simp: cache_run_def cache_Start_def)
  have "(\<exists>before later. es @ [e] = before @ WatchOpened # later \<and> \<not> list_ex ends_watch later) \<longleftrightarrow>
      e = WatchOpened \<or> \<not> ends_watch e \<and> (\<exists>before later. es = before @ WatchOpened # later \<and> \<not> list_ex ends_watch later)"
    (is "?l \<longleftrightarrow> ?r")
  proof
    assume ?l
    then obtain before later where *: "es @ [e] = before @ WatchOpened # later" "\<not> list_ex ends_watch later" by blast
    show ?r
    proof (cases later rule: rev_cases)
      case (snoc ys y)
      then have "es = before @ WatchOpened # ys" "y = e" using *(1) by simp_all
      then show ?thesis using *(2) snoc by auto
    qed (use * in simp)
  next
    assume r: ?r
    show ?l
    proof (cases "e = WatchOpened")
      case False
      then obtain before later where "\<not> ends_watch e" "es = before @ WatchOpened # later" "\<not> list_ex ends_watch later"
        using r by blast
      then show ?thesis by (intro exI [of _ before] exI [of _ "later @ [e]"]) simp
    qed (intro exI [of _ es] exI [of _ "[]"], simp)
  qed
  then show ?case using step snoc.IH by auto
qed

section \<open>The namespace\<close>

datatype namespace_error = Unreadable string | InvalidNamespace string "string list"

text \<open>The environment variable (empty when unset), the content of the projected file or the error of
  reading it, and the validation of Kubernetes, which lists the problems of a name.\<close>

definition ResolveLeaseNamespace ::
  "(string \<Rightarrow> string list) \<Rightarrow> string \<Rightarrow> string + string \<Rightarrow> namespace_error + string" where
  "ResolveLeaseNamespace problems env projected =
     (let checked = (\<lambda>namespace. if problems namespace \<noteq> []
            then Inl (InvalidNamespace namespace (problems namespace)) else Inr namespace)
      in if trim_space env = []
         then (case projected of Inl err \<Rightarrow> Inl (Unreadable err) | Inr content \<Rightarrow> checked (trim_space content))
         else checked (trim_space env))"

lemma check_verbs_result:
  "runs (check_verbs vs) tr e \<Longrightarrow>
   (e = None \<longleftrightarrow> tr = map (\<lambda>v. EvReview v (Inr True)) vs @ [EvReady True]) \<and> \<not> list_ex is_write tr"
proof (induction vs arbitrary: tr)
  case Nil
  then show ?case by (auto split: if_splits)
next
  case (Cons v vs)
  then obtain a tr' where tr: "tr = EvReview v a # tr'" and
    run: "runs (case a of Inl e \<Rightarrow> bind_prog (storageError operationInformer e) (\<lambda>x. Done (Some x))
       | Inr allowed \<Rightarrow> if \<not> allowed then Done (Some errForbidden) else check_verbs vs) tr' e" by auto
  show ?case
  proof (cases a)
    case (Inl x)
    then show ?thesis using tr run by (auto simp: storageError_def)
  next
    case (Inr allowed)
    then show ?thesis using tr run Cons.IH [of tr'] by (cases allowed) auto
  qed
qed

section \<open>Properties\<close>

text \<open>C39: the cache counts as ready exactly when the first synchronisation is done and a watch has been opened since
  which no list or watch has begun, no watch has been stopped and the informer has not returned.\<close>

theorem ready_iff_live_watch:
  "Ready (cache_run es) \<longleftrightarrow> HasSynced \<in> set es \<and>
     (\<exists>before later. es = before @ WatchOpened # later \<and> \<not> list_ex ends_watch later)"
  by (simp add: Ready_def synced_run watch_run)

text \<open>The status probe reports ready exactly when the namespace is known, each of the five verbs on Leases was
  asked for in order and allowed, and then the cache was ready; it never writes a Lease, and it answers 200 or 503
  accordingly.\<close>

theorem status_probe_spec:
  assumes "runs (handleStatus lns) tr (code, text, err)"
  shows "(code = 200 \<longleftrightarrow> lns \<noteq> [] \<and>
       tr = map (\<lambda>v. EvReview v (Inr True)) [''get'', ''list'', ''watch'', ''create'', ''update''] @ [EvReady True]) \<and>
     (code = 200 \<and> text = ''ready'' \<and> err = [] \<or>
      code = 503 \<and> text = ''error'' \<and> err \<in> {''rbac_forbidden'', ''cache_not_ready'', ''storage_unavailable''}) \<and>
     \<not> list_ex is_write tr"
proof -
  obtain e where e: "runs (checkReady lns) tr e" and
    r: "(code, text, err) = (case e of Some x \<Rightarrow> (503, ''error'', errorCode x) | None \<Rightarrow> (200, ''ready'', []))"
    using assms by (auto simp: handleStatus_def runs_bind)
  have *: "(e = None \<longleftrightarrow> lns \<noteq> [] \<and>
      tr = map (\<lambda>v. EvReview v (Inr True)) [''get'', ''list'', ''watch'', ''create'', ''update''] @ [EvReady True]) \<and>
      \<not> list_ex is_write tr"
  proof (cases "lns = []")
    case False
    then show ?thesis using e check_verbs_result [of "[''get'', ''list'', ''watch'', ''create'', ''update'']" tr e]
      by (simp add: checkReady_def)
  qed (use e in \<open>simp add: checkReady_def\<close>)
  show ?thesis
  proof (cases e)
    case None
    then show ?thesis using r * by simp
  next
    case (Some x)
    then have "code = 503" "text = ''error''" "err = errorCode x" using r by simp_all
    then show ?thesis using * Some by (cases x) (auto simp: errorCode_def)
  qed
qed

lemma status_probe_spec_witness:
  "runs (handleStatus ''op'')
     (map (\<lambda>v. EvReview v (Inr True)) [''get'', ''list'', ''watch'', ''create'', ''update''] @ [EvReady True])
     (200, ''ready'', []) \<and> (200::nat) = 200"
proof -
  have run: "runs (handleStatus ''op'')
     (map (\<lambda>v. EvReview v (Inr True)) [''get'', ''list'', ''watch'', ''create'', ''update''] @ [EvReady True])
     (200, ''ready'', [])" by (auto simp: handleStatus_def checkReady_def)
  from status_probe_spec [OF this] run show ?thesis by blast
qed

text \<open>Resolving the namespace gives a name only if Kubernetes finds no problem with it; the environment variable
  has precedence over the projected file as soon as it holds more than white space, and surrounding white space is
  dropped.\<close>

theorem ResolveLeaseNamespace_spec:
  "(ResolveLeaseNamespace problems env projected = Inr ns \<longleftrightarrow> problems ns = [] \<and>
      (trim_space env \<noteq> [] \<and> ns = trim_space env \<or>
       trim_space env = [] \<and> (\<exists>content. projected = Inr content \<and> ns = trim_space content))) \<and>
   (ResolveLeaseNamespace problems env projected = Inl e \<longleftrightarrow>
      (case e of
         Unreadable err \<Rightarrow> trim_space env = [] \<and> projected = Inl err
       | InvalidNamespace ns ps \<Rightarrow> ps \<noteq> [] \<and> ps = problems ns \<and>
           (trim_space env \<noteq> [] \<and> ns = trim_space env \<or>
            trim_space env = [] \<and> (\<exists>content. projected = Inr content \<and> ns = trim_space content))))"
  by (cases e; cases projected) (auto simp: ResolveLeaseNamespace_def Let_def)

end
