(* ===== verification/Tracing.thy ===== *)
theory Tracing
  imports OTel
begin

text \<open>
  The choice between the two tracing libraries (\<open>apis/webhook/injector/tracing.go\<close>): DDTrace first;
  OpenTelemetry only when no DDTrace rule selects the Pod.
\<close>

definition InjectTracingToPod ::
  "ddtrace_rule option list \<Rightarrow> otel_rule option list \<Rightarrow> (string \<Rightarrow> quantity option) \<Rightarrow> injection" where
  "InjectTracingToPod dds ots pq namespace p =
     (if ContainsInitContainer ddtraceInitContainerName p then InjectDDTraceToPod dds pq namespace p
      else case injectDDTraceToPod dds pq namespace p of
          None \<Rightarrow> None
        | Some (ddtraceSelected, changed, p1) \<Rightarrow>
            if ddtraceSelected then Some (changed, p1)
            else (case InjectOTelToPod ots pq namespace p1 of
                None \<Rightarrow> None
              | Some (otelChanged, p2) \<Rightarrow> Some (changed \<or> otelChanged, p2)))"

section \<open>Facts\<close>

lemma not_selected: "injectDDTraceToPod dds pq ns p = Some (False, changed, q) \<Longrightarrow> q = p \<and> \<not> changed"
  by (auto simp: injectDDTraceToPod_def ddtrace_process_def Let_def Changed_def split: option.splits if_splits)

lemma tracing_cases:
  assumes "InjectTracingToPod dds ots pq ns p = Some (changed, q)"
  obtains "ContainsInitContainer ddtraceInitContainerName p" "InjectDDTraceToPod dds pq ns p = Some (changed, q)"
  | "\<not> ContainsInitContainer ddtraceInitContainerName p" "injectDDTraceToPod dds pq ns p = Some (True, changed, q)"
  | "\<not> ContainsInitContainer ddtraceInitContainerName p" "injectDDTraceToPod dds pq ns p = Some (False, False, p)"
    "InjectOTelToPod ots pq ns p = Some (changed, q)"
proof (cases "ContainsInitContainer ddtraceInitContainerName p")
  case False
  then obtain s ch p1 where d: "injectDDTraceToPod dds pq ns p = Some (s, ch, p1)"
    using assms by (auto simp: InjectTracingToPod_def split: option.split_asm)
  show thesis
  proof (cases s)
    case True
    then show thesis using that(2) False d assms by (simp add: InjectTracingToPod_def)
  next
    case s: False
    have "p1 = p \<and> \<not> ch" by (rule not_selected) (use d s in simp)
    then show thesis using that(3) False d s assms
      by (auto simp: InjectTracingToPod_def split: option.split_asm)
  qed
qed (use assms that(1) in \<open>simp add: InjectTracingToPod_def\<close>)

lemma injectDDTrace_Inject:
  "injectDDTraceToPod dds pq ns p = Some (s, changed, q) \<Longrightarrow> InjectDDTraceToPod dds pq ns p = Some (changed, q)"
  by (simp add: InjectDDTraceToPod_def)

interpretation tr: safe_mutation "InjectTracingToPod dds ots pq" for dds ots pq
proof
  fix ns p changed q
  assume *: "InjectTracingToPod dds ots pq ns p = Some (changed, q)"
  from * show "pod_le p q"
    by (rule tracing_cases) (auto dest: dd.extends ot.extends injectDDTrace_Inject)
  from * show "changed \<longleftrightarrow> p \<noteq> q"
    by (rule tracing_cases) (auto dest: dd.reports ot.reports injectDDTrace_Inject)
next
  fix p ns changed q
  assume wf: "wf_pod p" and *: "InjectTracingToPod dds ots pq ns p = Some (changed, q)"
  from * show "wf_pod q"
    by (rule tracing_cases) (auto intro: dd.keeps_wf [OF wf] ot.keeps_wf [OF wf] dest: injectDDTrace_Inject)
qed

lemma InjectTracing_total:
  "\<lbrakk>rules_resources_ok pq dds; rules_resources_ok pq ots\<rbrakk> \<Longrightarrow> InjectTracingToPod dds ots pq ns p \<noteq> None"
proof -
  assume *: "rules_resources_ok pq dds" "rules_resources_ok pq ots"
  obtain s ch p1 where d: "injectDDTraceToPod dds pq ns p = Some (s, ch, p1)"
    using injectDDTrace_total [OF *(1), of ns p] by auto
  obtain ch2 p2 where "InjectOTelToPod ots pq ns p1 = Some (ch2, p2)"
    using InjectOTel_total [OF *(2), of ns p1] by auto
  then show ?thesis using d by (simp add: InjectTracingToPod_def InjectDDTraceToPod_def)
qed

lemma otel_changed_init:
  assumes "otel_process rules pq ns p = Some q" "q \<noteq> p"
  shows "\<not> ContainsInitContainer ddtraceInitContainerName p"
    "ContainsInitContainer otelInitContainerName q" "\<not> ContainsInitContainer ddtraceInitContainerName q"
    "p_Annotations q = p_Annotations p" "p_Labels q = p_Labels p" "p_Namespace q = p_Namespace p"
proof -
  from assms obtain r v lib c img where lib: "libraryForLanguage (ot_Language r) = Some lib"
    and c: "otel_initContainer pq r img lib p = Some c"
    and ok: "ol_validate lib (ir_Image r) c p"
    and q: "q = otel_apply lib (ir_Envs r) c p"
    unfolding otel_process_def Let_def by (auto split: if_split_asm option.split_asm)
  have name: "c_Name c = otelInitContainerName"
    using with_resources_frame(1) [OF c [unfolded otel_initContainer_def]] by simp
  have ne: "otelInitContainerName \<noteq> ddtraceInitContainerName"
    by (simp add: otelInitContainerName_def ddtraceInitContainerName_def)
  have "validateCommonInjection (ir_Image r) c otelJavaMountPath p \<or>
      validateCommonInjection (ir_Image r) c otelPythonMountPath p \<or>
      validateCommonInjection (ir_Image r) c otelNodeJSMountPath p"
    using ok lib by (auto simp: libraryForLanguage_def validateJavaInjection_def validatePythonInjection_def
        validateNodeJSInjection_def split: if_splits)
  then show dd: "\<not> ContainsInitContainer ddtraceInitContainerName p"
    by (auto simp: validateCommonInjection_def ContainsInitContainer_def list_ex_iff split: if_splits)
  have "names c_Name (p_InitContainers q) = insert otelInitContainerName (names c_Name (p_InitContainers p))"
    using q name by (simp add: ctr.names_add)
  then show "ContainsInitContainer otelInitContainerName q" "\<not> ContainsInitContainer ddtraceInitContainerName q"
    using dd ne by (auto simp: ContainsInitContainer_def simp flip: names_iff_ex)
  show "p_Annotations q = p_Annotations p" "p_Labels q = p_Labels p" "p_Namespace q = p_Namespace p"
    using q by simp_all
qed

lemma ddtrace_changed_init:
  assumes "ddtrace_process rules pq ns p = Some (s, q)" "q \<noteq> p"
  shows "\<not> ContainsInitContainer otelInitContainerName p" "\<not> ContainsInitContainer otelInitContainerName q"
    "ContainsInitContainer ddtraceInitContainerName q"
proof -
  let ?ns = "if p_Namespace p \<noteq> [] then p_Namespace p else ns"
  obtain r v where rule: "ddtrace_getMatchingRule rules ?ns p = Some (r, v)"
    using assms by (auto simp: ddtrace_process_def Let_def split: option.split_asm)
  then show no: "\<not> ContainsInitContainer otelInitContainerName p"
    by (auto simp: ddtrace_getMatchingRule_def split: if_splits)
  have "\<not> ContainsInitContainer otelInitContainerName q \<and> ContainsInitContainer ddtraceInitContainerName q"
  proof (cases "ContainsInitContainer ddtraceInitContainerName p")
    case True
    then have "p_InitContainers q = p_InitContainers p"
      using assms rule same_view_steps(6) [of p]
      by (auto simp: ddtrace_process_def Let_def same_view_def split: if_splits)
    then show ?thesis using no True by (simp add: ContainsInitContainer_def)
  next
    case new: False
    obtain lib where lib: "ddtraceLibrary (dd_Language r) = Some lib" and m: "ddtrace_mutate pq r v lib p = Some q"
      using assms rule new by (auto simp: ddtrace_process_def Let_def split: option.split_asm)
    from m lib new show ?thesis
    proof (cases rule: ddtrace_mutate_cases)
      case 1
      then show ?thesis using assms(2) by simp
    next
      case (2 c p1 p2)
      have "same_view p1 q" unfolding 2(5) by (rule mutated_view [OF lib 2(4)])
      then show ?thesis using init_after [OF _ 2(1), of p q] 2(3) no by blast
    qed
  qed
  then show "\<not> ContainsInitContainer otelInitContainerName q" "ContainsInitContainer ddtraceInitContainerName q"
    by blast+
qed

lemma tracing_again:
  assumes "InjectTracingToPod dds ots pq ns p = Some (changed, q)"
  shows "InjectTracingToPod dds ots pq ns q = Some (False, q)"
  using assms
proof (cases rule: tracing_cases)
  case 1
  obtain s where s: "ddtrace_process dds pq ns p = Some (s, q)"
    using 1(2) by (auto simp: InjectDDTraceToPod_def injectDDTraceToPod_def)
  have "ContainsInitContainer ddtraceInitContainerName q"
    using ddtrace_changed_init(3) [OF s] 1(1) by (cases "q = p") auto
  then show ?thesis using ddtrace_process_again [OF s]
    by (simp add: InjectTracingToPod_def InjectDDTraceToPod_def injectDDTraceToPod_def Changed_def)
next
  case 2
  have s: "ddtrace_process dds pq ns p = Some (True, q)"
    using 2(2) by (auto simp: injectDDTraceToPod_def)
  show ?thesis using ddtrace_process_again [OF s]
    by (simp add: InjectTracingToPod_def InjectDDTraceToPod_def injectDDTraceToPod_def Changed_def)
next
  case 3
  have o: "otel_process ots pq ns p = Some q" using 3(3) by (auto simp: InjectOTelToPod_def)
  show ?thesis
  proof (cases "q = p")
    case True
    then show ?thesis using assms tr.reports [OF assms] by simp
  next
    case False
    note init = otel_changed_init [OF o False]
    have "ddtrace_process dds pq ns q = Some (False, q)"
      using init(2) by (simp add: ddtrace_process_def ddtrace_getMatchingRule_def Let_def)
    then show ?thesis using init(3) otel_process_again [OF o]
      by (simp add: InjectTracingToPod_def injectDDTraceToPod_def InjectOTelToPod_def Changed_def)
  qed
qed

section \<open>Properties\<close>

text \<open>C12: a Pod never ends up with both tracing libraries: if it did not come with both init containers, it has at
  most one of them after the tracing step.\<close>

theorem tracing_exclusive:
  assumes "InjectTracingToPod dds ots pq ns p = Some (changed, q)"
    and "\<not> (ContainsInitContainer ddtraceInitContainerName p \<and> ContainsInitContainer otelInitContainerName p)"
  shows "\<not> (ContainsInitContainer ddtraceInitContainerName q \<and> ContainsInitContainer otelInitContainerName q)"
proof (cases "q = p")
  case False
  from assms(1) show ?thesis
  proof (cases rule: tracing_cases)
    case 1
    then obtain s where "ddtrace_process dds pq ns p = Some (s, q)"
      by (auto simp: InjectDDTraceToPod_def injectDDTraceToPod_def)
    from ddtrace_changed_init(2) [OF this False] show ?thesis by blast
  next
    case 2
    then have "ddtrace_process dds pq ns p = Some (True, q)" by (auto simp: injectDDTraceToPod_def)
    from ddtrace_changed_init(2) [OF this False] show ?thesis by blast
  next
    case 3
    then have "otel_process ots pq ns p = Some q" by (auto simp: InjectOTelToPod_def)
    from otel_changed_init(3) [OF this False] show ?thesis by blast
  qed
qed (use assms(2) in simp)

lemma tracing_exclusive_witness:
  "\<exists>q. InjectTracingToPod [Some example_java] [Some example_otel] example_quantity ''default'' example_pod = Some (True, q) \<and>
     \<not> (ContainsInitContainer ddtraceInitContainerName q \<and> ContainsInitContainer otelInitContainerName q)"
proof -
  have "map_option fst (InjectTracingToPod [Some example_java] [Some example_otel] example_quantity ''default'' example_pod)
      = Some True" by code_simp
  then obtain q where q: "InjectTracingToPod [Some example_java] [Some example_otel] example_quantity ''default''
      example_pod = Some (True, q)" by auto
  have "\<not> (ContainsInitContainer ddtraceInitContainerName example_pod \<and>
      ContainsInitContainer otelInitContainerName example_pod)" by code_simp
  from tracing_exclusive [OF q this] q show ?thesis by blast
qed

end
