(* ===== verification/Sidecar.thy ===== *)
theory Sidecar
  imports Injector_Utils
begin

text \<open>
  What the injectors that add a sidecar container share (logfwd, flameshot and profiler), as a
  locale: a choice that is refused once the sidecar is there, and a build step that adds it.
  Running such an injector on its own result changes nothing.  The theory also holds the shared
  EmptyDir volumes for log directories, which the logfwd injector and the logging mutator
  compute in the same way (\<open>getVolumePairs\<close> of \<open>apis/webhook/injector/logfwd.go\<close> and
  \<open>apis/webhook/mutator/logging.go\<close>).
\<close>

section \<open>Sidecar injection\<close>

locale sidecar =
  fixes sname :: string
    and choice :: "pod \<Rightarrow> 'r option"
    and build :: "'r \<Rightarrow> pod \<Rightarrow> pod option"
    and process :: "pod \<Rightarrow> pod option"
  assumes process_choice: "process p = (case choice p of None \<Rightarrow> Some p | Some r \<Rightarrow> build r p)"
    and blocked: "ContainsContainer sname p \<Longrightarrow> choice p = None"
    and build_adds: "build r p = Some q \<Longrightarrow> q = p \<or> ContainsContainer sname q"
    and build_le: "build r p = Some q \<Longrightarrow> pod_le p q"
    and build_wf: "build r p = Some q \<Longrightarrow> wf_pod p \<Longrightarrow> wf_pod q"
begin

lemma process_le: "process p = Some q \<Longrightarrow> pod_le p q"
  by (auto simp: process_choice intro: build_le split: option.splits)

lemma process_wf: "process p = Some q \<Longrightarrow> wf_pod p \<Longrightarrow> wf_pod q"
  by (auto simp: process_choice intro: build_wf split: option.splits)

lemma process_again:
  assumes "process p = Some q"
  shows "process q = Some q"
proof (cases "choice p")
  case (Some r)
  then have "q = p \<or> ContainsContainer sname q" using assms build_adds by (simp add: process_choice)
  then show ?thesis using assms blocked by (auto simp: process_choice)
qed (use assms in \<open>simp add: process_choice\<close>)

lemma process_changed:
  assumes "process p = Some q" "q \<noteq> p"
  obtains r where "choice p = Some r" "build r p = Some q" "ContainsContainer sname q"
    "\<not> ContainsContainer sname p"
proof (cases "choice p")
  case (Some r)
  then have "build r p = Some q" using assms(1) by (simp add: process_choice)
  moreover have "\<not> ContainsContainer sname p" using Some blocked by auto
  ultimately show thesis using Some assms(2) build_adds [of r p q] that [of r] by auto
qed (use assms in \<open>simp add: process_choice\<close>)

lemma process_total: "(\<And>r. choice p = Some r \<Longrightarrow> build r p \<noteq> None) \<Longrightarrow> process p \<noteq> None"
  by (auto simp: process_choice split: option.splits)

end

lemma ContainsContainer_add [simp]:
  "ContainsContainer n (AddContainer c p) \<longleftrightarrow> n = c_Name c \<or> ContainsContainer n p"
  unfolding ContainsContainer_def names_iff_ex [symmetric] by (auto simp: AddContainer_def ctr.names_add)

lemma ContainsContainer_frame [simp]:
  "ContainsContainer n (AddVolumeMount m p) = ContainsContainer n p"
  "ContainsContainer n (AddVolume v p) = ContainsContainer n p"
  by (simp_all add: ContainsContainer_def AddVolumeMount_def AddVolumeMountToContainer_def AddVolume_def list_ex_iff)

section \<open>Volumes for log directories\<close>

text \<open>A path already mounted from an EmptyDir reuses its volume; one mounted from another kind of
  volume is skipped; any other path gets a new volume, named after its position.\<close>

definition volume_pair :: "string \<Rightarrow> pod \<Rightarrow> nat \<times> string \<Rightarrow> (string \<times> string) list" where
  "volume_pair prefix_text p = (\<lambda>(idx, path).
     case FindVolumeMountPathInContainer path p of
       Some name \<Rightarrow> if \<not> IsEmptyDirVolume name p then [] else [(name, path)]
     | None \<Rightarrow> [(prefix_text @ show_nat idx, path)])"

section \<open>Facts\<close>

lemma pod_le_fold_mounts: "pod_le p (fold (\<lambda>(name, path). AddVolumeMount (mount name path)) pairs p)"
  by (rule pod_le_fold) (auto intro: pod_le_AddVolumeMount)

lemma pod_le_fold_volumes: "pod_le p (fold (\<lambda>(name, path). AddVolume (empty_dir_volume name)) pairs p)"
  by (rule pod_le_fold) (auto intro: pod_le_AddVolume)

lemma fold_volume_names:
  "names v_Name (p_Volumes (fold (\<lambda>(name, path). AddVolume (empty_dir_volume name)) pairs p)) =
     fst ` set pairs \<union> names v_Name (p_Volumes p)"
  by (induction pairs arbitrary: p) auto

lemma fold_mount_volumes [simp]:
  "p_Volumes (fold (\<lambda>(name, path). AddVolumeMount (mount name path)) pairs p) = p_Volumes p"
  by (induction pairs arbitrary: p) (auto simp: AddVolumeMount_def)

lemma wf_fold_volumes:
  "wf_with vs p \<Longrightarrow> wf_with vs (fold (\<lambda>(name, path). AddVolume (empty_dir_volume name)) pairs p)"
proof (induction pairs arbitrary: p)
  case (Cons x xs)
  have "wf_with vs (AddVolume (empty_dir_volume (fst x)) p)"
    using Cons.prems by (intro wf_AddVolume) (auto elim: wf_with_mono)
  then show ?case using Cons.IH by (simp add: case_prod_beta)
qed simp

lemma wf_fold_mounts:
  "\<lbrakk>wf_with vs p; fst ` set pairs \<subseteq> names v_Name (p_Volumes p)\<rbrakk> \<Longrightarrow>
   wf_with vs (fold (\<lambda>(name, path). AddVolumeMount (mount name path)) pairs p)"
proof (induction pairs arbitrary: p)
  case (Cons x xs)
  let ?p = "AddVolumeMount (mount (fst x) (snd x)) p"
  have "wf_with vs ?p" using Cons.prems by (intro wf_AddVolumeMount) auto
  moreover have "p_Volumes ?p = p_Volumes p" by (simp add: AddVolumeMount_def)
  ultimately show ?case using Cons.IH [of ?p] Cons.prems(2) by (simp add: case_prod_beta)
qed simp

end
