(* ===== verification/Logfwd.thy ===== *)
theory Logfwd
  imports Sidecar
begin

text \<open>
  Injection of the logfwd sidecar (\<open>apis/webhook/injector/logfwd.go\<close>).  \<open>json.Compact\<close> and the
  decoding of the two configuration texts are parameters, gathered in one record; \<open>None\<close> is their
  error, and a null element of the decoded array is \<open>None\<close> too.  The request's namespace is not used: the
  code matches the namespace of the Pod object only.
\<close>

section \<open>Constants and decoded configurations\<close>

definition logfwdContainerName :: string where "logfwdContainerName = ''datakit-logfwd''"
definition logfwdEnabledAnnotationKey :: string where
  "logfwdEnabledAnnotationKey = ''admission.datakit/logfwd.enabled''"
definition logfwdInstancesAnnotationKey :: string where
  "logfwdInstancesAnnotationKey = ''admission.datakit/logfwd.instances''"
definition logfwdJSONConfigKey :: string where "logfwdJSONConfigKey = ''LOGFWD_JSON_CONFIG''"
definition logfwdLogConfigsKey :: string where "logfwdLogConfigsKey = ''LOGFWD_LOG_CONFIGS''"

record logfwd_logging =
  ll_LogFiles :: "string list"
  ll_Ignore :: "string list"

record logfwd_config =
  lc_DataKitAddr :: string
  lc_Loggings :: "logfwd_logging list"

record log_config =
  lg_Path :: string

record json_decoders =
  jd_compact :: "string \<Rightarrow> string option"
  jd_instances :: "string \<Rightarrow> logfwd_config option list option"
  jd_log_configs :: "string \<Rightarrow> log_config option list option"

section \<open>Configuration texts\<close>

definition instance_paths :: "logfwd_config option list \<Rightarrow> string list" where
  "instance_paths configs = concat (map (\<lambda>cfg. case cfg of None \<Rightarrow> []
     | Some c \<Rightarrow> concat (map (\<lambda>l. getMountPaths (ll_LogFiles l) @ getMountPaths (ll_Ignore l)) (lc_Loggings c)))
     configs)"

text \<open>The triple of the source with its last component false is \<open>None\<close>.\<close>

definition extractInstancesConfig :: "json_decoders \<Rightarrow> pod \<Rightarrow> (string \<times> string list) option" where
  "extractInstancesConfig jd p =
     (case fmlookup (p_Annotations p) logfwdInstancesAnnotationKey of
        None \<Rightarrow> None
      | Some configStr \<Rightarrow>
          if configStr = [] then Some (configStr, [])
          else (case jd_compact jd configStr of
              None \<Rightarrow> None
            | Some buf \<Rightarrow> (case jd_instances jd buf of
                None \<Rightarrow> None
              | Some configs \<Rightarrow> Some (buf, unique (instance_paths configs)))))"

definition log_config_paths :: "log_config option list \<Rightarrow> string list" where
  "log_config_paths configs =
     concat (map (\<lambda>cfg. case cfg of None \<Rightarrow> [] | Some c \<Rightarrow> [getMountPath (lg_Path c)]) configs)"

definition extractLogConfigsConfig :: "json_decoders \<Rightarrow> logfwd_rule \<Rightarrow> (string \<times> string list) option" where
  "extractLogConfigsConfig jd rule =
     (if lf_LogConfigs rule = [] then None
      else case jd_compact jd (lf_LogConfigs rule) of
          None \<Rightarrow> None
        | Some buf \<Rightarrow> (case jd_log_configs jd buf of
            None \<Rightarrow> None
          | Some configs \<Rightarrow> Some (buf, unique (log_config_paths configs))))"

section \<open>Volumes\<close>

definition logfwd_getVolumePairs :: "string list \<Rightarrow> pod \<Rightarrow> (string \<times> string) list" where
  "logfwd_getVolumePairs needVolumePaths p =
     concat (map (volume_pair ''datakit-logfwd-volume-'' p) (enumerate 0 needVolumePaths))"

definition podInfoVolume :: volume where
  "podInfoVolume = \<lparr>v_Name = ''datakit-pod-info'', v_EmptyDir = None, v_HostPath = None,
     v_DownwardAPI = Some \<lparr>da_Items = [\<lparr>df_Path = ''labels'',
        df_FieldRef = Some \<lparr>of_APIVersion = [], of_FieldPath = ''metadata.labels''\<rparr>, df_rest = fmempty\<rparr>],
        da_DefaultMode = None\<rparr>, v_rest = fmempty\<rparr>"

definition logfwd_injectVolume :: "(string \<times> string) list \<Rightarrow> pod \<Rightarrow> pod" where
  "logfwd_injectVolume pairs p =
     AddVolume podInfoVolume (fold (\<lambda>(name, _). AddVolume (empty_dir_volume name)) pairs p)"

definition logfwd_injectVolumeMount :: "(string \<times> string) list \<Rightarrow> pod \<Rightarrow> pod" where
  "logfwd_injectVolumeMount pairs p = fold (\<lambda>(name, path). AddVolumeMount (mount name path)) pairs p"

definition logfwd_injectContainer ::
  "(string \<Rightarrow> quantity option) \<Rightarrow> string \<Rightarrow> string \<Rightarrow> envvar list \<Rightarrow> (string \<times> string) list \<Rightarrow>
   resource_config \<Rightarrow> pod \<Rightarrow> pod option" where
  "logfwd_injectContainer pq img pullPolicy envs pairs resources p =
     map_option (\<lambda>c. AddContainer (c\<lparr>c_VolumeMounts := c_VolumeMounts c @
           map (\<lambda>(name, path). (mount name path)\<lparr>vm_ReadOnly := True\<rparr>) pairs @
           [(mount ''datakit-pod-info'' ''/etc/podinfo'')\<lparr>vm_ReadOnly := True\<rparr>]\<rparr>) p)
       (with_resources pq resources
         (no_container\<lparr>c_Name := logfwdContainerName, c_Image := img, c_ImagePullPolicy := pullPolicy,
            c_Env := envs\<rparr>))"

section \<open>The injection\<close>

definition logfwd_getMatchingRule :: "logfwd_rule option list \<Rightarrow> pod \<Rightarrow> logfwd_rule option" where
  "logfwd_getMatchingRule rules p =
     (if \<not> CheckAnnotationIsTrue (p_Annotations p) logfwdEnabledAnnotationKey then None
      else if ContainsContainer logfwdContainerName p then None
      else case matchInjectRule rules (p_Namespace p) (p_Labels p) of
          None \<Rightarrow> None
        | Some rule \<Rightarrow>
            if lf_CheckAnnotation rule \<and> fmlookup (p_Annotations p) logfwdInstancesAnnotationKey = None
            then None else Some rule)"

definition logfwd_envs :: "json_decoders \<Rightarrow> logfwd_rule \<Rightarrow> pod \<Rightarrow> envvar list" where
  "logfwd_envs jd rule p =
     (let envs0 = FilterAndSetResourceFieldRefEnvVars (BuildEnvs (ir_Envs rule) True) p;
          envs1 = AddOrUpdateEnvVars [] envs0 (Some ReplaceExistingEnvVar);
          envs2 = (case extractInstancesConfig jd p of
              None \<Rightarrow> envs1
            | Some (config, _) \<Rightarrow> AddOrUpdateEnvVar envs1 (env_value logfwdJSONConfigKey config)
                (Some ReplaceExistingEnvVar))
      in case extractLogConfigsConfig jd rule of
           None \<Rightarrow> envs2
         | Some (config, _) \<Rightarrow> AddOrUpdateEnvVar envs2 (env_value logfwdLogConfigsKey config)
             (Some ReplaceExistingEnvVar))"

definition logfwd_paths :: "json_decoders \<Rightarrow> logfwd_rule \<Rightarrow> pod \<Rightarrow> string list" where
  "logfwd_paths jd rule p =
     (case extractInstancesConfig jd p of None \<Rightarrow> [] | Some (_, ps) \<Rightarrow> ps) @
     (case extractLogConfigsConfig jd rule of None \<Rightarrow> [] | Some (_, ps) \<Rightarrow> ps) @
     (if lf_LogVolumePaths rule \<noteq> [] then getMountPaths (lf_LogVolumePaths rule) else [])"

definition logfwd_build ::
  "json_decoders \<Rightarrow> (string \<Rightarrow> quantity option) \<Rightarrow> logfwd_rule \<Rightarrow> pod \<Rightarrow> pod option" where
  "logfwd_build jd pq rule p =
     (let envs = logfwd_envs jd rule p;
          pairs = logfwd_getVolumePairs (unique (logfwd_paths jd rule p)) p;
          p1 = logfwd_injectVolume pairs p;
          p2 = logfwd_injectVolumeMount pairs p1
      in logfwd_injectContainer pq (ir_Image rule) (PullPolicy_Value (ir_ImagePullPolicy rule)) envs pairs
           (ir_Resources rule) p2)"

definition logfwd_process ::
  "json_decoders \<Rightarrow> logfwd_rule option list \<Rightarrow> (string \<Rightarrow> quantity option) \<Rightarrow> pod \<Rightarrow> pod option" where
  "logfwd_process jd rules pq p =
     (case logfwd_getMatchingRule rules p of
        None \<Rightarrow> Some p
      | Some rule \<Rightarrow> logfwd_build jd pq rule p)"

definition InjectLogfwdToPod ::
  "json_decoders \<Rightarrow> logfwd_rule option list \<Rightarrow> (string \<Rightarrow> quantity option) \<Rightarrow> injection" where
  "InjectLogfwdToPod jd rules pq namespace before =
     map_option (\<lambda>after. (Changed before after, after)) (logfwd_process jd rules pq before)"

section \<open>The contract\<close>

lemma logfwd_build_cases:
  assumes "logfwd_build jd pq rule p = Some q"
  obtains c pairs where "pairs = logfwd_getVolumePairs (unique (logfwd_paths jd rule p)) p"
    "c_Name c = logfwdContainerName" "c_Image c = ir_Image rule" "c_Env c = logfwd_envs jd rule p"
    "c_VolumeMounts c = map (\<lambda>(name, path). (mount name path)\<lparr>vm_ReadOnly := True\<rparr>) pairs @
       [(mount ''datakit-pod-info'' ''/etc/podinfo'')\<lparr>vm_ReadOnly := True\<rparr>]"
    "q = AddContainer c (logfwd_injectVolumeMount pairs (logfwd_injectVolume pairs p))"
proof -
  obtain c where c: "with_resources pq (ir_Resources rule)
         (no_container\<lparr>c_Name := logfwdContainerName, c_Image := ir_Image rule,
            c_ImagePullPolicy := PullPolicy_Value (ir_ImagePullPolicy rule), c_Env := logfwd_envs jd rule p\<rparr>) = Some c"
    and q: "q = AddContainer (c\<lparr>c_VolumeMounts := c_VolumeMounts c @
           map (\<lambda>(name, path). (mount name path)\<lparr>vm_ReadOnly := True\<rparr>)
             (logfwd_getVolumePairs (unique (logfwd_paths jd rule p)) p) @
           [(mount ''datakit-pod-info'' ''/etc/podinfo'')\<lparr>vm_ReadOnly := True\<rparr>]\<rparr>)
         (logfwd_injectVolumeMount (logfwd_getVolumePairs (unique (logfwd_paths jd rule p)) p)
           (logfwd_injectVolume (logfwd_getVolumePairs (unique (logfwd_paths jd rule p)) p) p))"
    using assms by (auto simp: logfwd_build_def Let_def logfwd_injectContainer_def)
  show thesis by (rule that [OF refl _ _ _ _ q])
    (use with_resources_frame [OF c] in \<open>simp_all add: no_container_def\<close>)
qed

lemma logfwd_build_le: "logfwd_build jd pq rule p = Some q \<Longrightarrow> pod_le p q"
  by (auto simp: logfwd_build_def Let_def logfwd_injectContainer_def logfwd_injectVolume_def
      logfwd_injectVolumeMount_def split: option.splits
      intro!: pod_le_trans [OF _ pod_le_AddContainer] pod_le_trans [OF _ pod_le_fold_mounts]
        pod_le_trans [OF pod_le_fold_volumes pod_le_AddVolume])

lemma logfwd_volume_names:
  "names v_Name (p_Volumes (logfwd_injectVolume pairs p)) =
     insert ''datakit-pod-info'' (fst ` set pairs \<union> names v_Name (p_Volumes p))"
  by (simp add: logfwd_injectVolume_def fold_volume_names podInfoVolume_def)

lemma wf_logfwd_build:
  assumes "logfwd_build jd pq rule p = Some q" "wf_pod p"
  shows "wf_pod q"
  using assms(1)
proof (cases rule: logfwd_build_cases)
  case (1 c pairs)
  let ?p1 = "logfwd_injectVolume pairs p"
  let ?p2 = "logfwd_injectVolumeMount pairs ?p1"
  have vols2: "p_Volumes ?p2 = p_Volumes ?p1" by (simp add: logfwd_injectVolumeMount_def)
  have "wf_with {} (fold (\<lambda>(name, _). AddVolume (empty_dir_volume name)) pairs p)"
    using assms(2) by (simp add: wf_pod_def wf_fold_volumes)
  then have "wf_with {} ?p1"
    unfolding logfwd_injectVolume_def by (intro wf_AddVolume) (auto elim: wf_with_mono)
  then have wf2: "wf_with {} ?p2" unfolding logfwd_injectVolumeMount_def
    by (rule wf_fold_mounts) (auto simp: logfwd_volume_names)
  have "names vm_Name (map (\<lambda>(name, path). (mount name path)\<lparr>vm_ReadOnly := True\<rparr>) pairs) = fst ` set pairs"
    by (force simp: names_def mount_def)
  then have "wf_with {} q" unfolding 1(6)
    by (intro wf_AddContainer wf2) (auto simp: mounts_in_def vols2 logfwd_volume_names 1(5) mount_def)
  then show ?thesis by (simp add: wf_pod_def)
qed

interpretation lf_side: sidecar logfwdContainerName "logfwd_getMatchingRule rules" "logfwd_build jd pq"
    "logfwd_process jd rules pq" for jd rules pq
proof
  show "logfwd_process jd rules pq p = (case logfwd_getMatchingRule rules p of None \<Rightarrow> Some p
      | Some r \<Rightarrow> logfwd_build jd pq r p)" for p by (simp add: logfwd_process_def)
  show "ContainsContainer logfwdContainerName p \<Longrightarrow> logfwd_getMatchingRule rules p = None" for p
    by (simp add: logfwd_getMatchingRule_def)
  show "logfwd_build jd pq r p = Some q \<Longrightarrow> q = p \<or> ContainsContainer logfwdContainerName q" for r p q
    by (erule logfwd_build_cases) simp
qed (rule logfwd_build_le wf_logfwd_build; assumption)+

interpretation lf: safe_mutation "InjectLogfwdToPod jd rules pq" for jd rules pq
  by unfold_locales (auto simp: InjectLogfwdToPod_def Changed_def intro: lf_side.process_le lf_side.process_wf)

lemma logfwd_rule_sound: "logfwd_getMatchingRule rules p = Some r \<Longrightarrow> Some r \<in> set rules"
  by (auto simp: logfwd_getMatchingRule_def split: if_splits option.splits dest: match_sound)

lemma InjectLogfwd_total:
  assumes "rules_resources_ok pq rules"
  shows "InjectLogfwdToPod jd rules pq ns p \<noteq> None"
proof -
  have "logfwd_build jd pq r p \<noteq> None" if r: "logfwd_getMatchingRule rules p = Some r" for r
  proof -
    have "resources_Verify pq (ir_Resources r)"
      using matched_resources_ok [OF assms logfwd_rule_sound [OF r]] .
    then show ?thesis by (simp add: logfwd_build_def logfwd_injectContainer_def Let_def with_resources_total)
  qed
  then have "logfwd_process jd rules pq p \<noteq> None" by (rule lf_side.process_total)
  then show ?thesis by (simp add: InjectLogfwdToPod_def)
qed

lemma InjectLogfwd_again:
  "InjectLogfwdToPod jd rules pq ns p = Some (ch, q) \<Longrightarrow> InjectLogfwdToPod jd rules pq ns q = Some (False, q)"
  using lf_side.process_again by (auto simp: InjectLogfwdToPod_def Changed_def)

section \<open>The sidecar sees the application's logs\<close>

lemma logfwd_containers:
  "p_Containers (logfwd_injectVolumeMount pairs (logfwd_injectVolume vs p)) =
     map (fold (\<lambda>(name, path). AddVolumeMountToContainer (mount name path)) pairs) (p_Containers p)"
proof -
  have *: "p_Containers (logfwd_injectVolumeMount pairs q) =
     map (fold (\<lambda>(name, path). AddVolumeMountToContainer (mount name path)) pairs) (p_Containers q)" for q
    unfolding logfwd_injectVolumeMount_def
    by (induction pairs arbitrary: q) (auto simp: AddVolumeMount_def map_containers_def comp_def)
  have "p_Containers (fold (\<lambda>(name, _). AddVolume (empty_dir_volume name)) vs p) = p_Containers p"
    by (induction vs arbitrary: p) (auto simp: AddVolume_def)
  then show ?thesis by (simp add: * logfwd_injectVolume_def AddVolume_def)
qed

lemma fold_mounts_names:
  "names vm_Name (c_VolumeMounts (fold (\<lambda>(name, path). AddVolumeMountToContainer (mount name path)) pairs c)) =
     fst ` set pairs \<union> names vm_Name (c_VolumeMounts c)"
  by (induction pairs arbitrary: c) (auto simp: AddVolumeMountToContainer_def mnt.names_add mount_def)

definition log_path_shared :: "pod \<Rightarrow> string \<Rightarrow> bool" where
  "log_path_shared p path \<longleftrightarrow>
     (case FindVolumeMountPathInContainer path p of None \<Rightarrow> True | Some n \<Rightarrow> IsEmptyDirVolume n p)"

lemma volume_pairs_paths:
  "map snd (concat (map (volume_pair pre p) (enumerate k paths))) = filter (log_path_shared p) paths"
  by (induction paths arbitrary: k) (auto simp: volume_pair_def log_path_shared_def split: option.splits)

definition example_logfwd :: logfwd_rule where
  "example_logfwd = inject_rule.extend example_rule (logfwd_rule.fields False [] [''/var/log''])"

definition example_json :: json_decoders where
  "example_json = \<lparr>jd_compact = \<lambda>_. None, jd_instances = \<lambda>_. None, jd_log_configs = \<lambda>_. None\<rparr>"

lemma example_logfwd_changes:
  "\<exists>q. InjectLogfwdToPod example_json [Some example_logfwd] example_quantity ''default'' example_pod = Some (True, q)"
proof -
  have "map_option fst (InjectLogfwdToPod example_json [Some example_logfwd] example_quantity ''default'' example_pod)
      = Some True" by code_simp
  then show ?thesis by auto
qed

section \<open>Properties\<close>

text \<open>C24: an injected logfwd sidecar is the last container of the Pod, runs the rule's image, mounts everything
  read-only, and mounts exactly the configured log directories that no container takes from a volume other than
  an EmptyDir, in order; every application container mounts the volume of each such directory.\<close>

theorem logfwd_sidecar_shares_logs:
  assumes "InjectLogfwdToPod jd rules pq ns p = Some (True, q)"
  shows "\<exists>r cs c. logfwd_getMatchingRule rules p = Some r \<and>
     p_Containers q = cs @ [c] \<and> length cs = length (p_Containers p) \<and>
     c_Name c = logfwdContainerName \<and> c_Image c = ir_Image r \<and> list_all vm_ReadOnly (c_VolumeMounts c) \<and>
     map vm_MountPath (c_VolumeMounts c) =
       filter (log_path_shared p) (unique (logfwd_paths jd r p)) @ [''/etc/podinfo''] \<and>
     list_all (\<lambda>m. list_all (\<lambda>a. vm_Name m \<in> names vm_Name (c_VolumeMounts a)) cs) (butlast (c_VolumeMounts c)) \<and>
     list_all (\<lambda>m. vm_Name m \<in> names v_Name (p_Volumes q)) (c_VolumeMounts c)"
proof -
  have "logfwd_process jd rules pq p = Some q" "q \<noteq> p" using assms by (auto simp: InjectLogfwdToPod_def Changed_def)
  then obtain r where r: "logfwd_getMatchingRule rules p = Some r" "logfwd_build jd pq r p = Some q"
    and new: "\<not> ContainsContainer logfwdContainerName p" by (rule lf_side.process_changed)
  from r(2) obtain c pairs where pairs: "pairs = logfwd_getVolumePairs (unique (logfwd_paths jd r p)) p"
    and c: "c_Name c = logfwdContainerName" "c_Image c = ir_Image r" "c_VolumeMounts c =
       map (\<lambda>(name, path). (mount name path)\<lparr>vm_ReadOnly := True\<rparr>) pairs @
       [(mount ''datakit-pod-info'' ''/etc/podinfo'')\<lparr>vm_ReadOnly := True\<rparr>]"
    and q: "q = AddContainer c (logfwd_injectVolumeMount pairs (logfwd_injectVolume pairs p))"
    by (rule logfwd_build_cases)
  let ?cs = "map (fold (\<lambda>(name, path). AddVolumeMountToContainer (mount name path)) pairs) (p_Containers p)"
  have name: "c_Name (fold (\<lambda>(name, path). AddVolumeMountToContainer (mount name path)) pairs a) = c_Name a" for a
    by (induction pairs arbitrary: a) (auto simp: AddVolumeMountToContainer_def)
  have "c_Name c \<notin> names c_Name ?cs"
    using new c(1) by (auto simp: ContainsContainer_def list_ex_iff names_def name)
  then have cs: "p_Containers q = ?cs @ [c]" by (simp add: q AddContainer_def logfwd_containers ctr.add_absent)
  have paths: "map vm_MountPath (c_VolumeMounts c) =
      filter (log_path_shared p) (unique (logfwd_paths jd r p)) @ [''/etc/podinfo'']"
    unfolding c(3) volume_pairs_paths [symmetric, of p "unique _" "''datakit-logfwd-volume-''" 0]
    by (simp add: pairs logfwd_getVolumePairs_def mount_def case_prod_beta comp_def)
  have vols: "p_Volumes q = p_Volumes (logfwd_injectVolume pairs p)"
    by (simp add: q AddContainer_def logfwd_injectVolumeMount_def)
  show ?thesis
  proof (intro exI conjI)
    show "list_all (\<lambda>m. list_all (\<lambda>a. vm_Name m \<in> names vm_Name (c_VolumeMounts a)) ?cs) (butlast (c_VolumeMounts c))"
      by (auto simp: c(3) list_all_iff fold_mounts_names intro: rev_image_eqI)
    show "list_all (\<lambda>m. vm_Name m \<in> names v_Name (p_Volumes q)) (c_VolumeMounts c)"
      by (auto simp: c(3) list_all_iff vols logfwd_volume_names intro: rev_image_eqI)
  qed (use r c paths cs in \<open>auto simp: list_all_iff\<close>)
qed

lemma logfwd_sidecar_shares_logs_witness:
  "\<exists>q r cs c. InjectLogfwdToPod example_json [Some example_logfwd] example_quantity ''default'' example_pod = Some (True, q) \<and>
     logfwd_getMatchingRule [Some example_logfwd] example_pod = Some r \<and> p_Containers q = cs @ [c] \<and>
     map vm_MountPath (c_VolumeMounts c) =
       filter (log_path_shared example_pod) (unique (logfwd_paths example_json r example_pod)) @ [''/etc/podinfo'']"
  using example_logfwd_changes logfwd_sidecar_shares_logs by blast

end
