(* ===== verification/Flameshot.thy ===== *)
theory Flameshot
  imports Sidecar
begin

text \<open>
  Injection of the flameshot sidecar (\<open>apis/webhook/injector/flameshot.go\<close>).  \<open>strconv.ParseInt\<close>
  at 32 bits gives the port, an \<open>int\<close> within the range of an int32; 0 is "no port".
\<close>

section \<open>Constants\<close>

definition flameshotContainerName :: string where "flameshotContainerName = ''datakit-flameshot''"
definition flameshotEnabledAnnotationKey :: string where
  "flameshotEnabledAnnotationKey = ''admission.datakit/flameshot.enabled''"
definition flameshotProfilingVolumeName :: string where
  "flameshotProfilingVolumeName = ''flameshot-volume''"
definition flameshotProfilingPathKey :: string where
  "flameshotProfilingPathKey = ''FLAMESHOT_PROFILING_PATH''"
definition flameshotHTTPPortName :: string where "flameshotHTTPPortName = ''flameshot-port''"
definition flameshotHTTPLocalPortKey :: string where
  "flameshotHTTPLocalPortKey = ''FLAMESHOT_HTTP_LOCAL_PORT''"
definition flameshotProcessesKey :: string where "flameshotProcessesKey = ''FLAMESHOT_PROCESSES''"

section \<open>Environment\<close>

fun getFlameshotProfilingPath :: "envvar list \<Rightarrow> string" where
  "getFlameshotProfilingPath [] = []"
| "getFlameshotProfilingPath (e # es) =
     (if ev_Name e = flameshotProfilingPathKey then path_clean (ev_Value e) else getFlameshotProfilingPath es)"

fun getFlameshotPort :: "envvar list \<Rightarrow> int" where
  "getFlameshotPort [] = 0"
| "getFlameshotPort (e # es) =
     (if ev_Name e = flameshotHTTPLocalPortKey
      then (case parse_int 32 (ev_Value e) of Some port \<Rightarrow> port | None \<Rightarrow> getFlameshotPort es)
      else getFlameshotPort es)"

definition flameshot_envs :: "flameshot_rule \<Rightarrow> pod \<Rightarrow> envvar list" where
  "flameshot_envs rule p =
     AddOrUpdateEnvVar
       (AddOrUpdateEnvVars [] (FilterAndSetResourceFieldRefEnvVars (BuildEnvs (ir_Envs rule) True) p)
         (Some ReplaceExistingEnvVar))
       (env_value flameshotProcessesKey (fl_Processes rule)) (Some ReplaceExistingEnvVar)"

section \<open>Parts of the Pod\<close>

definition resetSpec :: "pod \<Rightarrow> pod" where
  "resetSpec p = p\<lparr>p_ShareProcessNamespace := Some True, p_RestartPolicy := ''Always''\<rparr>"

definition flameshot_injectContainer ::
  "(string \<Rightarrow> quantity option) \<Rightarrow> string \<Rightarrow> string \<Rightarrow> envvar list \<Rightarrow> int \<Rightarrow> resource_config \<Rightarrow> pod \<Rightarrow> pod option" where
  "flameshot_injectContainer pq img pullPolicy envs port resources p =
     map_option (\<lambda>c. AddContainer (c\<lparr>c_Env := c_Env c @ envs\<rparr>) p)
       (with_resources pq resources
         (no_container\<lparr>c_Name := flameshotContainerName, c_Image := img,
            c_Command := [''/flameshot/flameshot''], c_ImagePullPolicy := pullPolicy,
            c_SecurityContext := Some (no_security_context\<lparr>sc_Capabilities :=
              Some \<lparr>cap_Add = [''SYS_PTRACE''], cap_Drop = []\<rparr>\<rparr>),
            c_Ports := [\<lparr>cp_Name = flameshotHTTPPortName, cp_HostPort = 0, cp_ContainerPort = port,
              cp_Protocol = ''TCP'', cp_HostIP = []\<rparr>]\<rparr>))"

definition flameshot_injectVolume :: "pod \<Rightarrow> pod" where
  "flameshot_injectVolume = AddVolume (empty_dir_volume flameshotProfilingVolumeName)"

definition flameshot_injectVolumeMount :: "string \<Rightarrow> pod \<Rightarrow> pod" where
  "flameshot_injectVolumeMount path = AddVolumeMount (mount flameshotProfilingVolumeName path)"

definition hasPrometheusAnnotation :: "go_map \<Rightarrow> bool" where
  "hasPrometheusAnnotation annotations \<longleftrightarrow>
     fBex (fmdom annotations) (\<lambda>key. has_prefix key ''prometheus.io/'')"

definition addPrometheusAnnotations :: "int \<Rightarrow> pod \<Rightarrow> pod" where
  "addPrometheusAnnotations port p =
     (if hasPrometheusAnnotation (p_Annotations p) then p
      else p\<lparr>p_Annotations :=
        fmupd ''prometheus.io/param_measurement'' ''flameshot''
          (fmupd ''prometheus.io/path'' ''/metrics''
            (fmupd ''prometheus.io/scheme'' ''http''
              (fmupd ''prometheus.io/port'' (format_int port)
                (fmupd ''prometheus.io/scrape'' ''true'' (p_Annotations p)))))\<rparr>)"

section \<open>The injection\<close>

definition flameshot_getMatchingRule :: "flameshot_rule option list \<Rightarrow> string \<Rightarrow> pod \<Rightarrow> flameshot_rule option" where
  "flameshot_getMatchingRule rules namespace p =
     (if \<not> CheckAnnotationIsTrue (p_Annotations p) flameshotEnabledAnnotationKey then None
      else if ContainsContainer flameshotContainerName p then None
      else matchInjectRule rules namespace (p_Labels p))"

definition flameshot_build :: "(string \<Rightarrow> quantity option) \<Rightarrow> flameshot_rule \<Rightarrow> pod \<Rightarrow> pod option" where
  "flameshot_build pq rule p =
     (if fl_Processes rule = [] then Some p
      else let envs = flameshot_envs rule p;
               profilingPath = getFlameshotProfilingPath envs;
               port = getFlameshotPort envs
           in if profilingPath = [] then Some p
              else if port = 0 then Some p
              else map_option (\<lambda>p1.
                  let p2 = flameshot_injectVolumeMount profilingPath (flameshot_injectVolume p1)
                  in if fl_EnablePrometheusAnnotations rule then addPrometheusAnnotations port p2 else p2)
                (flameshot_injectContainer pq (ir_Image rule) (PullPolicy_Value (ir_ImagePullPolicy rule))
                  envs port (ir_Resources rule) (resetSpec p)))"

definition flameshot_process ::
  "flameshot_rule option list \<Rightarrow> (string \<Rightarrow> quantity option) \<Rightarrow> string \<Rightarrow> pod \<Rightarrow> pod option" where
  "flameshot_process rules pq ns p =
     (case flameshot_getMatchingRule rules (if p_Namespace p \<noteq> [] then p_Namespace p else ns) p of
        None \<Rightarrow> Some p
      | Some rule \<Rightarrow> flameshot_build pq rule p)"

definition InjectFlameshotToPod ::
  "flameshot_rule option list \<Rightarrow> (string \<Rightarrow> quantity option) \<Rightarrow> injection" where
  "InjectFlameshotToPod rules pq namespace before =
     map_option (\<lambda>after. (Changed before after, after)) (flameshot_process rules pq namespace before)"

section \<open>The contract\<close>

lemma pod_le_prometheus: "pod_le p (addPrometheusAnnotations port p)"
proof (cases "hasPrometheusAnnotation (p_Annotations p)")
  case False
  have "fmlookup (p_Annotations p) k = None" if "has_prefix k ''prometheus.io/''" for k
    using False that by (metis fBexI fmdom_notD hasPrometheusAnnotation_def)
  then show ?thesis using False
    by (simp add: addPrometheusAnnotations_def)
      (intro pod_le_annotations annotations_le_add annotations_le_refl, simp_all add: written_annotations_def has_prefix_def)
qed (simp add: addPrometheusAnnotations_def)

lemma pod_le_resetSpec: "pod_le p (resetSpec p)"
  by (simp add: resetSpec_def pod_le_spec)

lemma prometheus_frame [simp]:
  "p_Containers (addPrometheusAnnotations port p) = p_Containers p"
  "p_Volumes (addPrometheusAnnotations port p) = p_Volumes p"
  "p_ShareProcessNamespace (addPrometheusAnnotations port p) = p_ShareProcessNamespace p"
  "p_RestartPolicy (addPrometheusAnnotations port p) = p_RestartPolicy p"
  "ContainsContainer n (addPrometheusAnnotations port p) = ContainsContainer n p"
  "wf_with vs (addPrometheusAnnotations port p) = wf_with vs p"
  by (simp_all add: addPrometheusAnnotations_def ContainsContainer_def)

lemma with_resources_ports: "with_resources pq r c = Some c' \<Longrightarrow> c_Ports c' = c_Ports c"
  by (auto simp: with_resources_def setContainerResources_def split: Option.bind_splits)

text \<open>What a build does: nothing, or the whole injection.\<close>

lemma flameshot_build_cases:
  assumes "flameshot_build pq rule p = Some q"
  obtains (skipped) "q = p"
  | (built) c port path where "c_Name c = flameshotContainerName" "c_Image c = ir_Image rule"
      "c_VolumeMounts c = []" "c_Env c = flameshot_envs rule p"
      "c_Ports c = [\<lparr>cp_Name = flameshotHTTPPortName, cp_HostPort = 0, cp_ContainerPort = port,
         cp_Protocol = ''TCP'', cp_HostIP = []\<rparr>]"
      "port = getFlameshotPort (flameshot_envs rule p)" "port \<noteq> 0"
      "path = getFlameshotProfilingPath (flameshot_envs rule p)" "path \<noteq> []" "fl_Processes rule \<noteq> []"
      "q = (if fl_EnablePrometheusAnnotations rule then addPrometheusAnnotations port else (\<lambda>p. p))
         (flameshot_injectVolumeMount path (flameshot_injectVolume (AddContainer c (resetSpec p))))"
proof (cases "q = p")
  case False
  let ?envs = "flameshot_envs rule p"
  have *: "fl_Processes rule \<noteq> []" "getFlameshotProfilingPath ?envs \<noteq> []" "getFlameshotPort ?envs \<noteq> 0"
    using assms False by (auto simp: flameshot_build_def Let_def split: if_splits)
  with assms obtain c where c: "with_resources pq (ir_Resources rule)
         (no_container\<lparr>c_Name := flameshotContainerName, c_Image := ir_Image rule,
            c_Command := [''/flameshot/flameshot''], c_ImagePullPolicy := PullPolicy_Value (ir_ImagePullPolicy rule),
            c_SecurityContext := Some (no_security_context\<lparr>sc_Capabilities :=
              Some \<lparr>cap_Add = [''SYS_PTRACE''], cap_Drop = []\<rparr>\<rparr>),
            c_Ports := [\<lparr>cp_Name = flameshotHTTPPortName, cp_HostPort = 0, cp_ContainerPort = getFlameshotPort ?envs,
              cp_Protocol = ''TCP'', cp_HostIP = []\<rparr>]\<rparr>) = Some c"
    and q: "q = (if fl_EnablePrometheusAnnotations rule then addPrometheusAnnotations (getFlameshotPort ?envs) else (\<lambda>p. p))
         (flameshot_injectVolumeMount (getFlameshotProfilingPath ?envs)
           (flameshot_injectVolume (AddContainer (c\<lparr>c_Env := c_Env c @ ?envs\<rparr>) (resetSpec p))))"
    by (auto simp: flameshot_build_def flameshot_injectContainer_def Let_def)
  show thesis
    by (rule built [OF _ _ _ _ _ refl *(3) refl *(2,1) q])
      (use with_resources_frame [OF c] with_resources_ports [OF c] in \<open>simp_all add: no_container_def\<close>)
qed (rule skipped)

lemma flameshot_build_le:
  assumes "flameshot_build pq rule p = Some q"
  shows "pod_le p q"
  using assms
proof (cases rule: flameshot_build_cases)
  case (built c port path)
  let ?r = "flameshot_injectVolumeMount path (flameshot_injectVolume (AddContainer c (resetSpec p)))"
  have "pod_le p (AddContainer c (resetSpec p))" by (rule pod_le_trans [OF pod_le_resetSpec pod_le_AddContainer])
  then have "pod_le p (flameshot_injectVolume (AddContainer c (resetSpec p)))"
    unfolding flameshot_injectVolume_def by (rule pod_le_trans [OF _ pod_le_AddVolume])
  then have "pod_le p ?r"
    unfolding flameshot_injectVolumeMount_def by (rule pod_le_trans [OF _ pod_le_AddVolumeMount])
  then show ?thesis unfolding built(11) using pod_le_trans [OF _ pod_le_prometheus] by auto
qed simp

lemma wf_flameshot_build:
  assumes "flameshot_build pq rule p = Some q" "wf_pod p"
  shows "wf_pod q"
  using assms(1)
proof (cases rule: flameshot_build_cases)
  case (built c port path)
  have "wf_with {flameshotProfilingVolumeName} (AddContainer c (resetSpec p))"
    using assms(2) built(3)
    by (intro wf_AddContainer) (auto simp: wf_pod_def resetSpec_def mounts_in_def elim: wf_with_mono)
  then have "wf_with {} (flameshot_injectVolume (AddContainer c (resetSpec p)))"
    unfolding flameshot_injectVolume_def by (intro wf_AddVolume) simp
  then have "wf_with {} (flameshot_injectVolumeMount path (flameshot_injectVolume (AddContainer c (resetSpec p))))"
    unfolding flameshot_injectVolumeMount_def
    by (rule wf_AddVolumeMount) (simp add: flameshot_injectVolume_def)
  then show ?thesis by (simp add: wf_pod_def built(11))
qed (use assms(2) in simp)

lemma flameshot_contains [simp]:
  "ContainsContainer n (flameshot_injectVolumeMount path p) = ContainsContainer n p"
  "ContainsContainer n (flameshot_injectVolume p) = ContainsContainer n p"
  by (simp_all add: flameshot_injectVolumeMount_def flameshot_injectVolume_def)

interpretation fs_side: sidecar flameshotContainerName
    "\<lambda>p. flameshot_getMatchingRule rules (if p_Namespace p \<noteq> [] then p_Namespace p else ns) p"
    "flameshot_build pq" "flameshot_process rules pq ns" for rules pq ns
proof
  show "flameshot_process rules pq ns p =
      (case flameshot_getMatchingRule rules (if p_Namespace p \<noteq> [] then p_Namespace p else ns) p of
         None \<Rightarrow> Some p | Some r \<Rightarrow> flameshot_build pq r p)" for p by (simp add: flameshot_process_def)
  show "ContainsContainer flameshotContainerName p \<Longrightarrow>
      flameshot_getMatchingRule rules (if p_Namespace p \<noteq> [] then p_Namespace p else ns) p = None" for p
    by (simp add: flameshot_getMatchingRule_def)
  show "flameshot_build pq r p = Some q \<Longrightarrow> q = p \<or> ContainsContainer flameshotContainerName q" for r p q
    by (erule flameshot_build_cases) auto
qed (rule flameshot_build_le wf_flameshot_build; assumption)+

interpretation fs: safe_mutation "InjectFlameshotToPod rules pq" for rules pq
  by unfold_locales (auto simp: InjectFlameshotToPod_def Changed_def intro: fs_side.process_le fs_side.process_wf)

lemma flameshot_rule_sound: "flameshot_getMatchingRule rules ns p = Some r \<Longrightarrow> Some r \<in> set rules"
  by (auto simp: flameshot_getMatchingRule_def split: if_splits dest: match_sound)

lemma InjectFlameshot_total:
  assumes "rules_resources_ok pq rules"
  shows "InjectFlameshotToPod rules pq ns p \<noteq> None"
proof -
  let ?ns = "if p_Namespace p \<noteq> [] then p_Namespace p else ns"
  have "flameshot_build pq r p \<noteq> None" if r: "flameshot_getMatchingRule rules ?ns p = Some r" for r
  proof -
    have "resources_Verify pq (ir_Resources r)"
      using matched_resources_ok [OF assms flameshot_rule_sound [OF r]] .
    then show ?thesis
      by (simp add: flameshot_build_def flameshot_injectContainer_def Let_def with_resources_total)
  qed
  then have "flameshot_process rules pq ns p \<noteq> None" by (rule fs_side.process_total)
  then show ?thesis by (simp add: InjectFlameshotToPod_def)
qed

lemma InjectFlameshot_again:
  "InjectFlameshotToPod rules pq ns p = Some (ch, q) \<Longrightarrow> InjectFlameshotToPod rules pq ns q = Some (False, q)"
  using fs_side.process_again by (auto simp: InjectFlameshotToPod_def Changed_def)

section \<open>Annotations and ports\<close>

lemma prometheus_fresh:
  assumes "\<not> hasPrometheusAnnotation m" "has_prefix k ''prometheus.io/''"
  shows "k |\<notin>| fmdom m"
  using assms by (auto simp: hasPrometheusAnnotation_def)

lemma prometheus_keeps:
  assumes "fmlookup (p_Annotations p) k = Some v"
  shows "fmlookup (p_Annotations (addPrometheusAnnotations port p)) k = Some v"
proof (cases "hasPrometheusAnnotation (p_Annotations p)")
  case False
  have np: "\<not> has_prefix k ''prometheus.io/''" using assms prometheus_fresh [OF False] by (auto simp: fmlookup_dom_iff)
  have "k \<notin> {''prometheus.io/param_measurement'', ''prometheus.io/path'', ''prometheus.io/scheme'',
      ''prometheus.io/port'', ''prometheus.io/scrape''}"
    by (rule notI, elim insertE emptyE) (use np in \<open>simp_all add: has_prefix_def\<close>)
  then show ?thesis using assms False by (auto simp: addPrometheusAnnotations_def)
qed (simp add: addPrometheusAnnotations_def assms)

lemma getFlameshotPort_range: "- (2 ^ 31) \<le> getFlameshotPort es \<and> getFlameshotPort es < 2 ^ 31"
proof (induction es)
  case (Cons e es)
  then show ?case using parse_int_range [of 32 "ev_Value e"] by (auto split: option.splits)
qed simp

lemma mounted_everywhere:
  "list_all (\<lambda>c. vm_Name m \<in> names vm_Name (c_VolumeMounts c)) (p_Containers (AddVolumeMount m p))"
  by (simp add: AddVolumeMount_def AddVolumeMountToContainer_def list_all_iff mnt.names_add)

text \<open>A Pod that is changed was built, with the sidecar after its own containers.\<close>

lemma flameshot_changed:
  assumes "InjectFlameshotToPod rules pq ns p = Some (True, q)"
  obtains r c port path where "c_Name c = flameshotContainerName" "map cp_ContainerPort (c_Ports c) = [port]"
    "port = getFlameshotPort (flameshot_envs r p)" "port \<noteq> 0"
    "q = (if fl_EnablePrometheusAnnotations r then addPrometheusAnnotations port else (\<lambda>p. p))
       (flameshot_injectVolumeMount path (flameshot_injectVolume (AddContainer c (resetSpec p))))"
    "p_Containers q = map (AddVolumeMountToContainer (mount flameshotProfilingVolumeName path)) (p_Containers p @ [c])"
proof -
  have "flameshot_process rules pq ns p = Some q" "q \<noteq> p"
    using assms by (auto simp: InjectFlameshotToPod_def Changed_def)
  then obtain r where r: "flameshot_build pq r p = Some q" and new: "\<not> ContainsContainer flameshotContainerName p"
    by (rule fs_side.process_changed)
  from r \<open>q \<noteq> p\<close> show thesis
  proof (cases rule: flameshot_build_cases)
    case (built c port path)
    show thesis
      by (rule that [OF built(1) _ built(6,7,11)], insert new built(1,5))
        (auto simp: built(11) AddContainer_def resetSpec_def flameshot_injectVolumeMount_def
          flameshot_injectVolume_def AddVolumeMount_def AddVolume_def ctr.add_absent names_iff_ex ContainsContainer_def)
  qed blast
qed

lemma flameshot_frame [simp]:
  "p_Annotations (flameshot_injectVolumeMount path (flameshot_injectVolume (AddContainer c (resetSpec p)))) = p_Annotations p"
  "p_ShareProcessNamespace (flameshot_injectVolumeMount path (flameshot_injectVolume (AddContainer c (resetSpec p)))) = Some True"
  "p_RestartPolicy (flameshot_injectVolumeMount path (flameshot_injectVolume (AddContainer c (resetSpec p)))) = ''Always''"
  "flameshotProfilingVolumeName \<in>
     names v_Name (p_Volumes (flameshot_injectVolumeMount path (flameshot_injectVolume (AddContainer c (resetSpec p)))))"
  by (simp_all add: flameshot_injectVolumeMount_def flameshot_injectVolume_def AddContainer_def resetSpec_def
      AddVolumeMount_def AddVolume_def vol.names_add)

definition example_flameshot :: flameshot_rule where
  "example_flameshot = inject_rule.extend (example_rule\<lparr>ir_Envs := [(flameshotProfilingPathKey, ''/data/''),
     (flameshotHTTPLocalPortKey, ''9'')]\<rparr>) (flameshot_rule.fields ''[]'' True)"

lemma example_flameshot_changes:
  "\<exists>q. InjectFlameshotToPod [Some example_flameshot] example_quantity ''default'' example_pod = Some (True, q)"
proof -
  have "map_option fst (InjectFlameshotToPod [Some example_flameshot] example_quantity ''default'' example_pod)
      = Some True" by code_simp
  then show ?thesis by auto
qed

section \<open>Properties\<close>

text \<open>C25: an injected flameshot sidecar is complete: the Pod shares its process namespace and always restarts,
  every container (the sidecar too) mounts the profiling volume, the sidecar listens on the configured nonzero
  32-bit port, the Prometheus annotations, if the Pod gets them, announce this port, and no annotation of the
  Pod is overwritten.\<close>

theorem flameshot_complete:
  assumes "InjectFlameshotToPod rules pq ns p = Some (True, q)"
  shows "p_ShareProcessNamespace q = Some True \<and> p_RestartPolicy q = ''Always'' \<and>
     list_all (\<lambda>c. flameshotProfilingVolumeName \<in> names vm_Name (c_VolumeMounts c)) (p_Containers q) \<and>
     flameshotProfilingVolumeName \<in> names v_Name (p_Volumes q) \<and>
     fmsubset (p_Annotations p) (p_Annotations q) \<and>
     (\<exists>c port. c \<in> set (p_Containers q) \<and> c_Name c = flameshotContainerName \<and>
        map cp_ContainerPort (c_Ports c) = [port] \<and> port \<noteq> 0 \<and> - (2 ^ 31) \<le> port \<and> port < 2 ^ 31 \<and>
        (p_Annotations q = p_Annotations p \<or>
         (\<exists>s. fmlookup (p_Annotations q) ''prometheus.io/port'' = Some s \<and> parse_int 32 s = Some port)))"
proof -
  obtain r c port path where c: "c_Name c = flameshotContainerName" "map cp_ContainerPort (c_Ports c) = [port]"
      "port = getFlameshotPort (flameshot_envs r p)" "port \<noteq> 0"
    and q: "q = (if fl_EnablePrometheusAnnotations r then addPrometheusAnnotations port else (\<lambda>p. p))
       (flameshot_injectVolumeMount path (flameshot_injectVolume (AddContainer c (resetSpec p))))"
    and cs: "p_Containers q = map (AddVolumeMountToContainer (mount flameshotProfilingVolumeName path)) (p_Containers p @ [c])"
    using assms by (rule flameshot_changed)
  have range: "- (2 ^ 31) \<le> port \<and> port < 2 ^ 31" unfolding c(3) by (rule getFlameshotPort_range)
  have ann: "p_Annotations q = p_Annotations p \<or>
      fmlookup (p_Annotations q) ''prometheus.io/port'' = Some (format_int port)"
    by (auto simp: q addPrometheusAnnotations_def)
  have spec: "p_ShareProcessNamespace q = Some True \<and> p_RestartPolicy q = ''Always'' \<and>
      flameshotProfilingVolumeName \<in> names v_Name (p_Volumes q) \<and> fmsubset (p_Annotations p) (p_Annotations q)"
    by (auto simp: q fmsubset_alt_def fmpred_iff prometheus_keeps)
  show ?thesis
    by (intro conjI exI [of _ "AddVolumeMountToContainer (mount flameshotProfilingVolumeName path) c"] exI [of _ port])
      (use spec ann range c in \<open>auto simp: cs AddVolumeMountToContainer_def list_all_iff mnt.names_add
        intro!: parse_int_format\<close>)
qed

lemma flameshot_complete_witness:
  "\<exists>q. InjectFlameshotToPod [Some example_flameshot] example_quantity ''default'' example_pod = Some (True, q) \<and>
     p_ShareProcessNamespace q = Some True \<and>
     list_all (\<lambda>c. flameshotProfilingVolumeName \<in> names vm_Name (c_VolumeMounts c)) (p_Containers q)"
  using example_flameshot_changes flameshot_complete by blast

end
