(* ===== verification/Profiler.thy ===== *)
theory Profiler
  imports Sidecar
begin

text \<open>
  Injection of the profiler sidecar (\<open>apis/webhook/injector/profiler.go\<close>).
\<close>

section \<open>Constants\<close>

definition profilerContainerName :: string where "profilerContainerName = ''datakit-profiler''"
definition profilerEnabledAnnotationKey :: string where
  "profilerEnabledAnnotationKey = ''admission.datakit/profiler.enabled''"
definition profilerVersionAnnotationKey :: "string \<Rightarrow> string" where
  "profilerVersionAnnotationKey lang = ''admission.datakit/'' @ lang @ ''-profiler.version''"
definition profilerVolumeName :: string where "profilerVolumeName = ''datakit-profiler-volume''"
definition profilerMountPath :: string where "profilerMountPath = ''/app/datakit-profiler''"
definition profilerTimezone :: string where "profilerTimezone = ''timezone''"
definition profilerTimezoneMountPath :: string where "profilerTimezoneMountPath = ''/etc/localtime''"
definition profilerTmp :: string where "profilerTmp = ''tmp''"
definition profilerTmpMountPath :: string where "profilerTmpMountPath = ''/tmp''"

definition supportedLanguagesForProfiler :: "string list" where
  "supportedLanguagesForProfiler = [''java'', ''python'', ''golang'']"

section \<open>Choice of the rule, the language and the image\<close>

fun annotated_language :: "string list \<Rightarrow> go_map \<Rightarrow> (string \<times> string) option" where
  "annotated_language [] annotations = None"
| "annotated_language (l # ls) annotations =
     (case fmlookup annotations (profilerVersionAnnotationKey l) of
        Some version \<Rightarrow> Some (l, version)
      | None \<Rightarrow> annotated_language ls annotations)"

definition profiler_getMatchingRule ::
  "profiler_rule option list \<Rightarrow> string \<Rightarrow> pod \<Rightarrow> (profiler_rule \<times> string \<times> string) option" where
  "profiler_getMatchingRule rules namespace p =
     (if \<not> CheckAnnotationIsTrue (p_Annotations p) profilerEnabledAnnotationKey then None
      else if ContainsContainer profilerContainerName p then None
      else case matchInjectRule rules namespace (p_Labels p) of
          None \<Rightarrow> None
        | Some rule \<Rightarrow>
            if pr_CheckAnnotation rule
            then map_option (\<lambda>(l, version). (rule, l, version))
                   (annotated_language supportedLanguagesForProfiler (p_Annotations p))
            else if pr_Language rule = [] then None
            else if pr_Language rule \<in> {''java'', ''python'', ''golang''} then Some (rule, pr_Language rule, [])
            else None)"

definition getImageFromRule :: "profiler_rule \<Rightarrow> string \<Rightarrow> string" where
  "getImageFromRule rule lang =
     (let keyed = (\<lambda>imageKey. case fmlookup (pr_Images rule) imageKey of
            Some img \<Rightarrow> if img \<noteq> [] then img else ir_Image rule
          | None \<Rightarrow> ir_Image rule)
      in if lang = ''java'' then keyed ''java_profiler_image''
         else if lang = ''python'' then keyed ''python_profiler_image''
         else if lang = ''golang'' then keyed ''golang_profiler_image''
         else [])"

section \<open>Parts of the Pod\<close>

definition profiler_resetSpec :: "pod \<Rightarrow> pod" where
  "profiler_resetSpec p = p\<lparr>p_ShareProcessNamespace := Some True, p_RestartPolicy := ''Always''\<rparr>"

definition timezoneVolume :: volume where
  "timezoneVolume = \<lparr>v_Name = profilerTimezone, v_EmptyDir = None,
     v_HostPath = Some \<lparr>hp_Path = profilerTimezoneMountPath, hp_Type = Some ''FileOrCreate''\<rparr>,
     v_DownwardAPI = None, v_rest = fmempty\<rparr>"

definition profiler_injectVolume :: "pod \<Rightarrow> pod" where
  "profiler_injectVolume p =
     AddVolume timezoneVolume (AddVolume (empty_dir_volume profilerTmp)
       (AddVolume (empty_dir_volume profilerVolumeName) p))"

definition mount_unless_taken :: "string \<Rightarrow> string \<Rightarrow> pod \<Rightarrow> pod" where
  "mount_unless_taken name path p =
     (case FindVolumeMountPathInContainer path p of
        Some _ \<Rightarrow> p
      | None \<Rightarrow> AddVolumeMount (mount name path) p)"

definition profiler_injectVolumeMount :: "pod \<Rightarrow> pod" where
  "profiler_injectVolumeMount p =
     mount_unless_taken profilerTimezone profilerTimezoneMountPath
       (mount_unless_taken profilerTmp profilerTmpMountPath
         (AddVolumeMount (mount profilerVolumeName profilerMountPath) p))"

definition profiler_injectContainer ::
  "(string \<Rightarrow> quantity option) \<Rightarrow> string \<Rightarrow> string \<Rightarrow> resource_config \<Rightarrow> envvar list \<Rightarrow> pod \<Rightarrow> pod option" where
  "profiler_injectContainer pq img pullPolicy resources envs p =
     map_option (\<lambda>c. AddContainer (c\<lparr>c_Env := c_Env c @ envs\<rparr>) p)
       (with_resources pq resources
         (no_container\<lparr>c_Name := profilerContainerName, c_Image := img, c_Command := [''bash'', ''cmd.sh''],
            c_ImagePullPolicy := pullPolicy, c_WorkingDir := profilerMountPath,
            c_SecurityContext := Some (no_security_context\<lparr>sc_Capabilities :=
              Some \<lparr>cap_Add = [''SYS_PTRACE'', ''SYS_ADMIN''], cap_Drop = []\<rparr>\<rparr>)\<rparr>))"

section \<open>The injection\<close>

definition profiler_envs :: "profiler_rule \<Rightarrow> pod \<Rightarrow> envvar list" where
  "profiler_envs rule p =
     AddOrUpdateEnvVars [] (FilterAndSetResourceFieldRefEnvVars (BuildEnvs (ir_Envs rule) True) p)
       (Some ReplaceExistingEnvVar)"

definition profiler_build ::
  "(string \<Rightarrow> quantity option) \<Rightarrow> profiler_rule \<times> string \<times> string \<Rightarrow> pod \<Rightarrow> pod option" where
  "profiler_build pq = (\<lambda>(rule, lang, imageVersion) p.
     let image0 = getImageFromRule rule lang
     in if image0 = [] then Some p
        else let img = (if imageVersion \<noteq> [] then replaceImageVersion image0 imageVersion else image0);
                 p1 = profiler_resetSpec p
             in map_option (\<lambda>p2. profiler_injectVolumeMount (profiler_injectVolume p2))
                  (profiler_injectContainer pq img (PullPolicy_Value (ir_ImagePullPolicy rule)) (ir_Resources rule)
                    (profiler_envs rule p1) p1))"

definition profiler_process ::
  "profiler_rule option list \<Rightarrow> (string \<Rightarrow> quantity option) \<Rightarrow> string \<Rightarrow> pod \<Rightarrow> pod option" where
  "profiler_process rules pq ns p =
     (case profiler_getMatchingRule rules (if p_Namespace p \<noteq> [] then p_Namespace p else ns) p of
        None \<Rightarrow> Some p
      | Some choice \<Rightarrow> profiler_build pq choice p)"

definition InjectProfilerToPod ::
  "profiler_rule option list \<Rightarrow> (string \<Rightarrow> quantity option) \<Rightarrow> injection" where
  "InjectProfilerToPod rules pq namespace before =
     map_option (\<lambda>after. (Changed before after, after)) (profiler_process rules pq namespace before)"

section \<open>The contract\<close>

lemma profiler_build_cases:
  assumes "profiler_build pq (rule, lang, version) p = Some q"
  obtains (skipped) "q = p"
  | (built) c where "getImageFromRule rule lang \<noteq> []" "c_Name c = profilerContainerName" "c_VolumeMounts c = []"
      "c_Image c = (if version \<noteq> [] then replaceImageVersion (getImageFromRule rule lang) version
         else getImageFromRule rule lang)"
      "q = profiler_injectVolumeMount (profiler_injectVolume (AddContainer c (profiler_resetSpec p)))"
proof (cases "getImageFromRule rule lang = []")
  case True
  then show thesis using assms skipped by (simp add: profiler_build_def)
next
  case False
  with assms obtain c where c: "with_resources pq (ir_Resources rule)
         (no_container\<lparr>c_Name := profilerContainerName,
            c_Image := if version \<noteq> [] then replaceImageVersion (getImageFromRule rule lang) version
              else getImageFromRule rule lang,
            c_Command := [''bash'', ''cmd.sh''],
            c_ImagePullPolicy := PullPolicy_Value (ir_ImagePullPolicy rule), c_WorkingDir := profilerMountPath,
            c_SecurityContext := Some (no_security_context\<lparr>sc_Capabilities :=
              Some \<lparr>cap_Add = [''SYS_PTRACE'', ''SYS_ADMIN''], cap_Drop = []\<rparr>\<rparr>)\<rparr>) = Some c"
    and q: "q = profiler_injectVolumeMount (profiler_injectVolume
        (AddContainer (c\<lparr>c_Env := c_Env c @ profiler_envs rule (profiler_resetSpec p)\<rparr>) (profiler_resetSpec p)))"
    by (auto simp: profiler_build_def profiler_injectContainer_def Let_def)
  show thesis
    by (rule built [OF False _ _ _ q]) (use with_resources_frame [OF c] in \<open>simp_all add: no_container_def\<close>)
qed

lemma pod_le_unless: "pod_le p (mount_unless_taken n path p)"
  by (auto simp: mount_unless_taken_def pod_le_AddVolumeMount split: option.splits)

lemma profiler_build_le:
  assumes "profiler_build pq r p = Some q"
  shows "pod_le p q"
proof -
  obtain rule lang version where r: "r = (rule, lang, version)" by (cases r)
  show ?thesis using assms unfolding r
  proof (cases rule: profiler_build_cases)
    case (built c)
    have "pod_le p (AddContainer c (profiler_resetSpec p))"
      unfolding profiler_resetSpec_def by (rule pod_le_trans [OF pod_le_spec pod_le_AddContainer])
    then have "pod_le p (profiler_injectVolume (AddContainer c (profiler_resetSpec p)))"
      unfolding profiler_injectVolume_def
      by (rule pod_le_trans [OF _ pod_le_trans [OF pod_le_AddVolume pod_le_trans [OF pod_le_AddVolume pod_le_AddVolume]]])
    then show ?thesis unfolding built profiler_injectVolumeMount_def
      by (rule pod_le_trans [OF _ pod_le_trans [OF pod_le_AddVolumeMount pod_le_trans [OF pod_le_unless pod_le_unless]]])
  qed simp
qed

lemma unless_frame [simp]:
  "p_Volumes (mount_unless_taken n path p) = p_Volumes p"
  "ContainsContainer m (mount_unless_taken n path p) = ContainsContainer m p"
  "p_ShareProcessNamespace (mount_unless_taken n path p) = p_ShareProcessNamespace p"
  "p_RestartPolicy (mount_unless_taken n path p) = p_RestartPolicy p"
  by (auto simp: mount_unless_taken_def AddVolumeMount_def AddVolumeMountToContainer_def ContainsContainer_def
      list_ex_iff split: option.splits)

lemma wf_unless:
  "wf_with vs p \<Longrightarrow> n \<in> names v_Name (p_Volumes p) \<union> vs \<Longrightarrow> wf_with vs (mount_unless_taken n path p)"
  by (auto simp: mount_unless_taken_def intro!: wf_AddVolumeMount split: option.splits)

lemma profiler_volume_names:
  "names v_Name (p_Volumes (profiler_injectVolume p)) =
     {profilerTimezone, profilerTmp, profilerVolumeName} \<union> names v_Name (p_Volumes p)"
  by (simp add: profiler_injectVolume_def timezoneVolume_def)

lemma wf_profiler_build:
  assumes "profiler_build pq r p = Some q" "wf_pod p"
  shows "wf_pod q"
proof -
  obtain rule lang version where r: "r = (rule, lang, version)" by (cases r)
  show ?thesis using assms(1) unfolding r
  proof (cases rule: profiler_build_cases)
    case (built c)
    have "wf_with {profilerTimezone, profilerTmp, profilerVolumeName} (AddContainer c (profiler_resetSpec p))"
      using assms(2) built(3)
      by (intro wf_AddContainer) (auto simp: wf_pod_def profiler_resetSpec_def mounts_in_def elim: wf_with_mono)
    then have "wf_with {} (profiler_injectVolume (AddContainer c (profiler_resetSpec p)))"
      unfolding profiler_injectVolume_def
      by (intro wf_AddVolume) (auto simp: timezoneVolume_def elim: wf_with_mono)
    then have "wf_with {} q" unfolding built profiler_injectVolumeMount_def
      by (intro wf_unless wf_AddVolumeMount) (auto simp: profiler_volume_names AddVolumeMount_def)
    then show ?thesis by (simp add: wf_pod_def)
  qed (use assms(2) in simp)
qed

lemma profiler_contains [simp]:
  "ContainsContainer n (profiler_injectVolumeMount p) = ContainsContainer n p"
  "ContainsContainer n (profiler_injectVolume p) = ContainsContainer n p"
  by (simp_all add: profiler_injectVolumeMount_def profiler_injectVolume_def)

interpretation pf_side: sidecar profilerContainerName
    "\<lambda>p. profiler_getMatchingRule rules (if p_Namespace p \<noteq> [] then p_Namespace p else ns) p"
    "profiler_build pq" "profiler_process rules pq ns" for rules pq ns
proof
  show "profiler_process rules pq ns p =
      (case profiler_getMatchingRule rules (if p_Namespace p \<noteq> [] then p_Namespace p else ns) p of
         None \<Rightarrow> Some p | Some r \<Rightarrow> profiler_build pq r p)" for p by (simp add: profiler_process_def)
  show "ContainsContainer profilerContainerName p \<Longrightarrow>
      profiler_getMatchingRule rules (if p_Namespace p \<noteq> [] then p_Namespace p else ns) p = None" for p
    by (simp add: profiler_getMatchingRule_def)
  show "profiler_build pq r p = Some q \<Longrightarrow> q = p \<or> ContainsContainer profilerContainerName q" for r p q
    by (cases r) (auto elim!: profiler_build_cases)
qed (rule profiler_build_le wf_profiler_build; assumption)+

interpretation pf: safe_mutation "InjectProfilerToPod rules pq" for rules pq
  by unfold_locales (auto simp: InjectProfilerToPod_def Changed_def intro: pf_side.process_le pf_side.process_wf)

lemma profiler_rule_sound: "profiler_getMatchingRule rules ns p = Some (r, l, v) \<Longrightarrow> Some r \<in> set rules"
  by (auto simp: profiler_getMatchingRule_def split: if_splits option.splits dest: match_sound)

lemma InjectProfiler_total:
  assumes "rules_resources_ok pq rules"
  shows "InjectProfilerToPod rules pq ns p \<noteq> None"
proof -
  let ?ns = "if p_Namespace p \<noteq> [] then p_Namespace p else ns"
  have "profiler_build pq x p \<noteq> None" if x: "profiler_getMatchingRule rules ?ns p = Some x" for x
  proof -
    obtain r l v where r: "x = (r, l, v)" by (cases x)
    have "resources_Verify pq (ir_Resources r)"
      using matched_resources_ok [OF assms profiler_rule_sound [OF x [unfolded r]]] .
    then show ?thesis
      by (simp add: r profiler_build_def profiler_injectContainer_def Let_def with_resources_total)
  qed
  then have "profiler_process rules pq ns p \<noteq> None" by (rule pf_side.process_total)
  then show ?thesis by (simp add: InjectProfilerToPod_def)
qed

lemma InjectProfiler_again:
  "InjectProfilerToPod rules pq ns p = Some (ch, q) \<Longrightarrow> InjectProfilerToPod rules pq ns q = Some (False, q)"
  using pf_side.process_again by (auto simp: InjectProfilerToPod_def Changed_def)

section \<open>Mounts at a path\<close>

definition mounts_at :: "string \<Rightarrow> pod \<Rightarrow> volume_mount list list" where
  "mounts_at path p = map (\<lambda>c. filter (\<lambda>m. vm_MountPath m = path) (c_VolumeMounts c)) (p_Containers p)"

lemma Find_mounts_at: "FindVolumeMountPathInContainer path p \<noteq> None \<longleftrightarrow> (\<exists>ms \<in> set (mounts_at path p). ms \<noteq> [])"
  by (auto simp: FindVolumeMountPathInContainer_def mounts_at_def find_None_iff filter_empty_conv)

lemmas Find_mounts_some = Find_mounts_at [unfolded not_None_eq]

lemma mounts_at_add_other:
  "path' \<noteq> path \<Longrightarrow> mounts_at path (AddVolumeMount (mount n path') p) = mounts_at path p"
  by (auto simp: mounts_at_def AddVolumeMount_def AddVolumeMountToContainer_def add_mount_def)

lemma mounts_at_unless_other:
  "path' \<noteq> path \<Longrightarrow> mounts_at path (mount_unless_taken n path' p) = mounts_at path p"
  by (auto simp: mount_unless_taken_def mounts_at_add_other split: option.splits)

lemma mounts_at_unless_taken:
  "FindVolumeMountPathInContainer path p \<noteq> None \<Longrightarrow> mount_unless_taken n path p = p"
  by (auto simp: mount_unless_taken_def)

lemma unless_found:
  assumes "c \<in> set (p_Containers p)" "n \<notin> names vm_Name (c_VolumeMounts c)"
  shows "FindVolumeMountPathInContainer path (mount_unless_taken n path p) \<noteq> None"
proof (cases "FindVolumeMountPathInContainer path p")
  case None
  let ?d = "AddVolumeMountToContainer (mount n path) c"
  have "mount n path \<in> set (c_VolumeMounts ?d)"
    using assms(2) by (auto simp: AddVolumeMountToContainer_def mnt.add_absent)
  moreover have "?d \<in> set (p_Containers (AddVolumeMount (mount n path) p))"
    using assms(1) by (simp add: AddVolumeMount_def)
  ultimately have "FindVolumeMountPathInContainer path (AddVolumeMount (mount n path) p) \<noteq> None"
    unfolding FindVolumeMountPathInContainer_def option.map_disc_iff find_None_iff
    by (auto intro!: bexI [of _ ?d] exI [of _ "mount n path"])
  then show ?thesis by (simp add: mount_unless_taken_def None Find_mounts_at)
qed (simp add: mount_unless_taken_def)

lemma unless_member:
  assumes "c \<in> set (p_Containers p)"
  obtains d where "d \<in> set (p_Containers (mount_unless_taken n path p))"
    "names vm_Name (c_VolumeMounts d) \<subseteq> insert n (names vm_Name (c_VolumeMounts c))"
proof (cases "FindVolumeMountPathInContainer path p")
  case None
  then show thesis using assms
    by (intro that [of "AddVolumeMountToContainer (mount n path) c"])
      (auto simp: mount_unless_taken_def AddVolumeMount_def AddVolumeMountToContainer_def mnt.names_add)
qed (use assms that [of c] in \<open>auto simp: mount_unless_taken_def\<close>)

lemma mounted_still:
  "list_all (\<lambda>c. v \<in> names vm_Name (c_VolumeMounts c)) (p_Containers p) \<Longrightarrow>
   list_all (\<lambda>c. v \<in> names vm_Name (c_VolumeMounts c)) (p_Containers (mount_unless_taken n path p))"
  by (auto simp: mount_unless_taken_def AddVolumeMount_def AddVolumeMountToContainer_def list_all_iff mnt.names_add
      split: option.splits)

lemma profiler_paths: "profilerTmpMountPath \<noteq> profilerTimezoneMountPath"
    "profilerMountPath \<noteq> profilerTmpMountPath" "profilerMountPath \<noteq> profilerTimezoneMountPath"
  and profiler_volumes: "profilerVolumeName \<noteq> profilerTmp" "profilerVolumeName \<noteq> profilerTimezone"
    "profilerTmp \<noteq> profilerTimezone"
  by (simp_all add: profilerTmpMountPath_def profilerTimezoneMountPath_def profilerMountPath_def
      profilerVolumeName_def profilerTmp_def profilerTimezone_def)

text \<open>The mounts of the shared paths, after the injection into a Pod whose last container is new.\<close>

abbreviation profiler_mounted :: "pod \<Rightarrow> pod" where
  "profiler_mounted p \<equiv> AddVolumeMount (mount profilerVolumeName profilerMountPath) p"

lemma profiler_mounts_found:
  assumes "c \<in> set (p_Containers p)" "c_VolumeMounts c = []"
    and path: "path \<in> {profilerTmpMountPath, profilerTimezoneMountPath}"
  shows "FindVolumeMountPathInContainer path (profiler_injectVolumeMount p) \<noteq> None"
proof -
  let ?p2 = "mount_unless_taken profilerTmp profilerTmpMountPath (profiler_mounted p)"
  let ?d = "AddVolumeMountToContainer (mount profilerVolumeName profilerMountPath) c"
  have d: "?d \<in> set (p_Containers (profiler_mounted p))" "names vm_Name (c_VolumeMounts ?d) = {profilerVolumeName}"
    subgoal using assms(1) by (simp add: AddVolumeMount_def)
    subgoal using assms(2) by (simp add: AddVolumeMountToContainer_def mnt.names_add)
    done
  from unless_member [OF d(1)] obtain e where e: "e \<in> set (p_Containers ?p2)"
      "names vm_Name (c_VolumeMounts e) \<subseteq> {profilerTmp, profilerVolumeName}"
    unfolding d(2) by blast
  have "FindVolumeMountPathInContainer profilerTmpMountPath ?p2 \<noteq> None"
    using d profiler_volumes by (intro unless_found [of ?d]) auto
  then have "FindVolumeMountPathInContainer profilerTmpMountPath (profiler_injectVolumeMount p) \<noteq> None"
    using mounts_at_unless_other [OF profiler_paths(1) [symmetric]]
    by (simp add: profiler_injectVolumeMount_def Find_mounts_some)
  moreover have "FindVolumeMountPathInContainer profilerTimezoneMountPath (profiler_injectVolumeMount p) \<noteq> None"
    unfolding profiler_injectVolumeMount_def using e profiler_volumes by (intro unless_found [of e]) auto
  ultimately show ?thesis using path by blast
qed

lemma mounts_at_unless_kept:
  "FindVolumeMountPathInContainer path p \<noteq> None \<Longrightarrow> mounts_at path (mount_unless_taken n x p) = mounts_at path p"
  using mounts_at_unless_taken mounts_at_unless_other by (cases "x = path") auto

lemma profiler_mounts_kept:
  assumes taken: "FindVolumeMountPathInContainer path p \<noteq> None"
    and path: "path \<in> {profilerTmpMountPath, profilerTimezoneMountPath}"
  shows "mounts_at path (profiler_injectVolumeMount p) = mounts_at path p"
proof -
  have one: "mounts_at path (profiler_mounted p) = mounts_at path p"
    using path profiler_paths by (intro mounts_at_add_other) auto
  then have "FindVolumeMountPathInContainer path (profiler_mounted p) \<noteq> None"
    using taken by (simp add: Find_mounts_some)
  then have two: "mounts_at path (mount_unless_taken n x (profiler_mounted p)) = mounts_at path p" for n x
    using mounts_at_unless_kept one by metis
  then have "FindVolumeMountPathInContainer path (mount_unless_taken n x (profiler_mounted p)) \<noteq> None" for n x
    using taken by (simp add: Find_mounts_some)
  then show ?thesis
    unfolding profiler_injectVolumeMount_def using mounts_at_unless_kept two by metis
qed

lemma profiler_mounts_everywhere:
  "list_all (\<lambda>c. profilerVolumeName \<in> names vm_Name (c_VolumeMounts c)) (p_Containers (profiler_injectVolumeMount p))"
  unfolding profiler_injectVolumeMount_def
  by (intro mounted_still) (simp add: AddVolumeMount_def AddVolumeMountToContainer_def list_all_iff mnt.names_add)

text \<open>A Pod that is changed was built, with the profiler after its own containers.\<close>

lemma profiler_changed:
  assumes "InjectProfilerToPod rules pq ns p = Some (True, q)"
  obtains rule lang version c where
    "profiler_getMatchingRule rules (if p_Namespace p \<noteq> [] then p_Namespace p else ns) p = Some (rule, lang, version)"
    "getImageFromRule rule lang \<noteq> []" "c_Name c = profilerContainerName" "c_VolumeMounts c = []"
    "c_Image c = (if version \<noteq> [] then replaceImageVersion (getImageFromRule rule lang) version
       else getImageFromRule rule lang)"
    "q = profiler_injectVolumeMount (profiler_injectVolume (AddContainer c (profiler_resetSpec p)))"
    "p_Containers (profiler_injectVolume (AddContainer c (profiler_resetSpec p))) = p_Containers p @ [c]"
proof -
  have "profiler_process rules pq ns p = Some q" "q \<noteq> p"
    using assms by (auto simp: InjectProfilerToPod_def Changed_def)
  then obtain rule lang version where
      r: "profiler_getMatchingRule rules (if p_Namespace p \<noteq> [] then p_Namespace p else ns) p = Some (rule, lang, version)"
      "profiler_build pq (rule, lang, version) p = Some q" and new: "\<not> ContainsContainer profilerContainerName p"
    by (metis pf_side.process_changed prod.exhaust)
  from r(2) \<open>q \<noteq> p\<close> show thesis
  proof (cases rule: profiler_build_cases)
    case (built c)
    have "p_Containers (profiler_injectVolume (AddContainer c (profiler_resetSpec p))) = p_Containers p @ [c]"
      using new built(2) by (auto simp: AddContainer_def profiler_resetSpec_def profiler_injectVolume_def AddVolume_def
        ctr.add_absent names_iff_ex ContainsContainer_def)
    then show thesis by (rule that [OF r(1) built(1-5)])
  qed blast
qed

lemma profiler_injectVolumeMount_le: "pod_le p (profiler_injectVolumeMount p)"
  unfolding profiler_injectVolumeMount_def
  by (rule pod_le_trans [OF pod_le_AddVolumeMount pod_le_trans [OF pod_le_unless pod_le_unless]])

lemma pod_le_last_container:
  assumes "pod_le p q" "p_Containers p = cs @ [c]"
  obtains d where "d \<in> set (p_Containers q)" "c_Name d = c_Name c" "c_Image d = c_Image c"
proof -
  have g: "grows container_le (cs @ [c]) (p_Containers q)"
    using assms by (auto simp: pod_le_def containers_le_def)
  then obtain d where d: "d \<in> set (p_Containers q)" "container_le c d"
    using grows_nthD [OF g, of "length cs"] grows_lengthD [OF g] by (force simp: nth_append)
  have "c_Name d = c_Name c" "c_Image d = c_Image c" using d(2) unfolding container_le_def by (cases d, cases c, simp)+
  with d(1) show thesis by (rule that)
qed

definition example_profiler :: profiler_rule where
  "example_profiler = inject_rule.extend example_rule (profiler_rule.fields False ''python'' fmempty)"

lemma example_profiler_changes:
  "\<exists>q. InjectProfilerToPod [Some example_profiler] example_quantity ''default'' example_pod = Some (True, q)"
proof -
  have "map_option fst (InjectProfilerToPod [Some example_profiler] example_quantity ''default'' example_pod)
      = Some True" by code_simp
  then show ?thesis by auto
qed

section \<open>Properties\<close>

text \<open>C26: an injected profiler runs the image chosen for the language at the annotated version; every container
  mounts its work directory; \<open>/tmp\<close> and the local time are mounted in the Pod, and where a container of the Pod
  already mounted one of them no mount of that path is added anywhere.\<close>

theorem profiler_complete:
  assumes inject: "InjectProfilerToPod rules pq ns p = Some (True, q)"
    and path: "path \<in> {''/tmp'', ''/etc/localtime''}"
  shows "\<exists>rule lang version c.
     profiler_getMatchingRule rules (if p_Namespace p \<noteq> [] then p_Namespace p else ns) p = Some (rule, lang, version) \<and>
     c \<in> set (p_Containers q) \<and> c_Name c = profilerContainerName \<and>
     c_Image c = (if version \<noteq> [] then replaceImageVersion (getImageFromRule rule lang) version
       else getImageFromRule rule lang) \<and> getImageFromRule rule lang \<noteq> [] \<and>
     list_all (\<lambda>c. profilerVolumeName \<in> names vm_Name (c_VolumeMounts c)) (p_Containers q) \<and>
     FindVolumeMountPathInContainer path q \<noteq> None \<and>
     (FindVolumeMountPathInContainer path p \<noteq> None \<longrightarrow> mounts_at path q = mounts_at path p @ [[]])"
proof -
  obtain rule lang version c where
      r: "profiler_getMatchingRule rules (if p_Namespace p \<noteq> [] then p_Namespace p else ns) p = Some (rule, lang, version)"
    and c: "getImageFromRule rule lang \<noteq> []" "c_Name c = profilerContainerName" "c_VolumeMounts c = []"
      "c_Image c = (if version \<noteq> [] then replaceImageVersion (getImageFromRule rule lang) version
         else getImageFromRule rule lang)"
    and q: "q = profiler_injectVolumeMount (profiler_injectVolume (AddContainer c (profiler_resetSpec p)))"
    and cs: "p_Containers (profiler_injectVolume (AddContainer c (profiler_resetSpec p))) = p_Containers p @ [c]"
    using inject by (rule profiler_changed)
  let ?p = "profiler_injectVolume (AddContainer c (profiler_resetSpec p))"
  obtain d where d: "d \<in> set (p_Containers q)" "c_Name d = c_Name c" "c_Image d = c_Image c"
    unfolding q by (rule pod_le_last_container [OF profiler_injectVolumeMount_le cs])
  have path': "path \<in> {profilerTmpMountPath, profilerTimezoneMountPath}"
    using path by (simp add: profilerTmpMountPath_def profilerTimezoneMountPath_def)
  have at: "mounts_at path ?p = mounts_at path p @ [[]]" by (simp add: mounts_at_def cs c(3))
  have "FindVolumeMountPathInContainer path q \<noteq> None"
    unfolding q by (rule profiler_mounts_found [OF _ c(3) path']) (simp add: cs)
  moreover have "FindVolumeMountPathInContainer path p \<noteq> None \<longrightarrow> mounts_at path q = mounts_at path p @ [[]]"
    unfolding q using profiler_mounts_kept [OF _ path', of ?p] at by (simp add: Find_mounts_some)
  ultimately show ?thesis
    using r c(1,2,4) d profiler_mounts_everywhere [of ?p, folded q]
    by (intro exI [of _ rule] exI [of _ lang] exI [of _ version] exI [of _ d] conjI) simp_all
qed

lemma profiler_complete_witness:
  "\<exists>q. InjectProfilerToPod [Some example_profiler] example_quantity ''default'' example_pod = Some (True, q) \<and>
     FindVolumeMountPathInContainer ''/tmp'' q \<noteq> None \<and>
     list_all (\<lambda>c. profilerVolumeName \<in> names vm_Name (c_VolumeMounts c)) (p_Containers q)"
  using example_profiler_changes profiler_complete [of _ _ _ _ _ "''/tmp''"] by blast

end
