(* ===== verification/Mutate_Logging.thy ===== *)
theory Mutate_Logging
  imports Sidecar
begin

text \<open>
  The logging mutation (\<open>apis/webhook/mutator/logging.go\<close>): the annotation \<open>datakit/logs\<close> and
  EmptyDir volumes for the directories of the log files it names.  The decoding of the rule's
  configuration text into a list of log configurations is a parameter (\<open>None\<close> is its error).
\<close>

definition loggingAnnotationKey :: string where "loggingAnnotationKey = ''datakit/logs''"

record log_source =
  lo_Disable :: bool
  lo_Type :: string
  lo_Path :: string

section \<open>Directories\<close>

definition mutator_unique :: "string list \<Rightarrow> string list" where
  "mutator_unique xs = dedup_from {} (filter (\<lambda>s. s \<noteq> []) xs)"

definition log_dir :: "string \<Rightarrow> string" where
  "log_dir path = (case index_of (CHR ''*'') path of
     Some starIdx \<Rightarrow> path_dir (take starIdx path)
   | None \<Rightarrow> path_dir path)"

definition parseMountPaths :: "log_source list \<Rightarrow> string list" where
  "parseMountPaths cfgs = mutator_unique (map (\<lambda>cfg. log_dir (lo_Path cfg))
     (filter (\<lambda>cfg. \<not> lo_Disable cfg \<and> lo_Type cfg = ''file'') cfgs))"

definition logging_getVolumePairs :: "string list \<Rightarrow> pod \<Rightarrow> (string \<times> string) list" where
  "logging_getVolumePairs needVolumePaths p =
     concat (map (volume_pair ''datakit-logs-volume-'' p) (enumerate 0 needVolumePaths))"

section \<open>The mutation\<close>

definition loggingMatchNamespaceOrLabelsForConfig :: "mutate_rule option list \<Rightarrow> string \<Rightarrow> go_map \<Rightarrow> string" where
  "loggingMatchNamespaceOrLabelsForConfig rules ns labels =
     (case MutateRules_Matches rules ns labels of None \<Rightarrow> [] | Some rule \<Rightarrow> mu_Config rule)"

definition logging_shouldInject :: "mutate_rule option list \<Rightarrow> string \<Rightarrow> pod \<Rightarrow> string option" where
  "logging_shouldInject rules namespace p =
     (if fmlookup (p_Annotations p) loggingAnnotationKey \<noteq> None then None
      else let configStr = loggingMatchNamespaceOrLabelsForConfig rules namespace (p_Labels p)
           in if configStr \<noteq> [] then Some configStr else None)"

definition injectEmptyDirVolume :: "(string \<times> string) list \<Rightarrow> pod \<Rightarrow> pod" where
  "injectEmptyDirVolume pairs p = fold (\<lambda>(name, _). AddVolume (empty_dir_volume name)) pairs p"

definition logging_injectVolumeMount :: "(string \<times> string) list \<Rightarrow> pod \<Rightarrow> pod" where
  "logging_injectVolumeMount pairs p = fold (\<lambda>(name, path). AddVolumeMount (mount name path)) pairs p"

definition injectAnnotationWithLog :: "string \<Rightarrow> pod \<Rightarrow> pod" where
  "injectAnnotationWithLog configStr p =
     p\<lparr>p_Annotations := fmupd loggingAnnotationKey configStr (p_Annotations p)\<rparr>"

definition logging_process ::
  "(string \<Rightarrow> log_source list option) \<Rightarrow> mutate_rule option list \<Rightarrow> string \<Rightarrow> pod \<Rightarrow> pod" where
  "logging_process decode rules ns p =
     (case logging_shouldInject rules (if p_Namespace p \<noteq> [] then p_Namespace p else ns) p of
        None \<Rightarrow> p
      | Some configStr \<Rightarrow> (case decode configStr of
            None \<Rightarrow> p
          | Some cfgs \<Rightarrow>
              let pairs = logging_getVolumePairs (parseMountPaths cfgs) p
              in injectAnnotationWithLog configStr
                   (logging_injectVolumeMount pairs (injectEmptyDirVolume pairs p))))"

definition MutateLoggingToPod ::
  "(string \<Rightarrow> log_source list option) \<Rightarrow> mutate_rule option list \<Rightarrow> injection" where
  "MutateLoggingToPod decode rules namespace before =
     (let after = logging_process decode rules namespace before in Some (Changed before after, after))"

section \<open>The contract\<close>

lemma logging_cases:
  obtains (skipped) "logging_process decode rules ns p = p"
  | (annotated) configStr cfgs pairs where
      "logging_shouldInject rules (if p_Namespace p \<noteq> [] then p_Namespace p else ns) p = Some configStr"
      "decode configStr = Some cfgs" "pairs = logging_getVolumePairs (parseMountPaths cfgs) p"
      "logging_process decode rules ns p = injectAnnotationWithLog configStr
         (logging_injectVolumeMount pairs (injectEmptyDirVolume pairs p))"
proof (cases "logging_shouldInject rules (if p_Namespace p \<noteq> [] then p_Namespace p else ns) p")
  case (Some configStr)
  show thesis
  proof (cases "decode configStr")
    case (Some cfgs)
    then show thesis using \<open>logging_shouldInject _ _ _ = _\<close>
      by (intro annotated [OF \<open>logging_shouldInject _ _ _ = _\<close> Some refl]) (simp add: logging_process_def Let_def)
  qed (rule skipped, use Some in \<open>simp add: logging_process_def\<close>)
qed (rule skipped, simp add: logging_process_def)

lemma fold_annotations [simp]:
  "p_Annotations (logging_injectVolumeMount pairs p) = p_Annotations p"
  "p_Annotations (injectEmptyDirVolume pairs p) = p_Annotations p"
  unfolding logging_injectVolumeMount_def injectEmptyDirVolume_def
  by (induction pairs arbitrary: p) (auto simp: AddVolumeMount_def AddVolume_def)

lemma logging_le: "pod_le p (logging_process decode rules ns p)"
proof (cases rule: logging_cases [of decode rules ns p])
  case (annotated configStr cfgs pairs)
  let ?q = "logging_injectVolumeMount pairs (injectEmptyDirVolume pairs p)"
  have "pod_le p ?q" unfolding logging_injectVolumeMount_def injectEmptyDirVolume_def
    by (rule pod_le_trans [OF pod_le_fold_volumes pod_le_fold_mounts])
  moreover have "fmlookup (p_Annotations ?q) loggingAnnotationKey = None"
    using annotated(1) by (simp add: logging_shouldInject_def split: if_splits)
  ultimately show ?thesis unfolding annotated(4) injectAnnotationWithLog_def
    by (elim pod_le_trans) (intro pod_le_annotations annotations_le_add annotations_le_refl;
      simp add: written_annotations_def loggingAnnotationKey_def)
qed simp

lemma logging_wf: "wf_pod p \<Longrightarrow> wf_pod (logging_process decode rules ns p)"
proof (cases rule: logging_cases [of decode rules ns p])
  case (annotated configStr cfgs pairs)
  assume "wf_pod p"
  then have "wf_with {} (injectEmptyDirVolume pairs p)"
    by (simp add: wf_pod_def injectEmptyDirVolume_def wf_fold_volumes)
  then have "wf_with {} (logging_injectVolumeMount pairs (injectEmptyDirVolume pairs p))"
    unfolding logging_injectVolumeMount_def
    by (rule wf_fold_mounts) (auto simp: injectEmptyDirVolume_def fold_volume_names)
  then show ?thesis by (simp add: annotated(4) wf_pod_def injectAnnotationWithLog_def)
qed simp

interpretation lg: safe_mutation "MutateLoggingToPod decode rules" for decode rules
  by unfold_locales (auto simp: MutateLoggingToPod_def Let_def Changed_def logging_le logging_wf)

lemma logging_again: "logging_process decode rules ns (logging_process decode rules ns p) = logging_process decode rules ns p"
proof (cases rule: logging_cases [of decode rules ns p])
  case (annotated configStr cfgs pairs)
  let ?q = "logging_process decode rules ns p"
  have "logging_shouldInject rules ns' ?q = None" for ns'
    by (simp add: logging_shouldInject_def annotated(4) injectAnnotationWithLog_def)
  then show ?thesis by (simp add: logging_process_def [of _ _ _ ?q])
qed simp

lemma MutateLogging_again:
  "MutateLoggingToPod decode rules ns p = Some (ch, q) \<Longrightarrow> MutateLoggingToPod decode rules ns q = Some (False, q)"
  using logging_again by (auto simp: MutateLoggingToPod_def Let_def Changed_def)

lemma MutateLogging_total: "MutateLoggingToPod decode rules ns p \<noteq> None"
  by (simp add: MutateLoggingToPod_def Let_def)

end
