(* ===== verification/Json_Patch.thy ===== *)
theory Json_Patch
  imports Go_Strings Pod_Extends
begin

text \<open>
  What the API server does with a patch: the \<open>add\<close> and \<open>replace\<close> operations of JSON Patch
  (RFC 6902) on JSON Pointers (RFC 6901), and the JSON encoding of a Pod that it holds (the
  struct tags of \<open>k8s.io/api/core/v1\<close>, which omit empty fields).  This is the specification the
  patches of \<open>apis/webhook/pod_patch.go\<close> are verified against.
\<close>

section \<open>JSON pointers\<close>

fun unescape :: "string \<Rightarrow> string" where
  "unescape (a # b # s) =
     (if a = CHR ''~'' \<and> b = CHR ''1'' then CHR ''/'' # unescape s
      else if a = CHR ''~'' \<and> b = CHR ''0'' then CHR ''~'' # unescape s
      else a # unescape (b # s))"
| "unescape s = s"

definition pointer_tokens :: "string \<Rightarrow> string list" where
  "pointer_tokens path = map unescape (tl (split_on (CHR ''/'') path))"

text \<open>An array index has no leading zeros.\<close>

definition array_index :: "string \<Rightarrow> nat option" where
  "array_index k = (case parse_nat k of None \<Rightarrow> None | Some i \<Rightarrow> if show_nat i = k then Some i else None)"

lemma array_index_show [simp]: "array_index (show_nat i) = Some i"
  by (simp add: array_index_def)

lemma array_index_dash [simp]: "array_index ''-'' = None"
  by (simp add: array_index_def parse_nat_def is_digit_def)

section \<open>The operations\<close>

fun json_add :: "string list \<Rightarrow> json \<Rightarrow> json \<Rightarrow> json option" where
  "json_add [] v doc = Some v"
| "json_add (k # ks) v (JObj m) =
     (if ks = [] then Some (JObj (fmupd k v m))
      else case fmlookup m k of None \<Rightarrow> None
        | Some d \<Rightarrow> map_option (\<lambda>d'. JObj (fmupd k d' m)) (json_add ks v d))"
| "json_add (k # ks) v (JArr xs) =
     (if ks = [] \<and> k = ''-'' then Some (JArr (xs @ [v]))
      else case array_index k of None \<Rightarrow> None
        | Some i \<Rightarrow>
            if ks = [] then (if i \<le> length xs then Some (JArr (take i xs @ v # drop i xs)) else None)
            else if i < length xs then map_option (\<lambda>d'. JArr (xs[i := d'])) (json_add ks v (xs ! i))
            else None)"
| "json_add (k # ks) v _ = None"

fun json_replace :: "string list \<Rightarrow> json \<Rightarrow> json \<Rightarrow> json option" where
  "json_replace [] v doc = Some v"
| "json_replace (k # ks) v (JObj m) =
     (case fmlookup m k of None \<Rightarrow> None
        | Some d \<Rightarrow> map_option (\<lambda>d'. JObj (fmupd k d' m)) (json_replace ks v d))"
| "json_replace (k # ks) v (JArr xs) =
     (case array_index k of None \<Rightarrow> None
        | Some i \<Rightarrow>
            if i < length xs then map_option (\<lambda>d'. JArr (xs[i := d'])) (json_replace ks v (xs ! i))
            else None)"
| "json_replace (k # ks) v _ = None"

datatype patch_op = OpAdd | OpReplace

record json_patch_op =
  jp_op :: patch_op
  jp_path :: string
  jp_value :: json

definition apply_op :: "json_patch_op \<Rightarrow> json \<Rightarrow> json option" where
  "apply_op x doc = (case jp_op x of
     OpAdd \<Rightarrow> json_add (pointer_tokens (jp_path x)) (jp_value x) doc
   | OpReplace \<Rightarrow> json_replace (pointer_tokens (jp_path x)) (jp_value x) doc)"

primrec apply_patch :: "json_patch_op list \<Rightarrow> json \<Rightarrow> json option" where
  "apply_patch [] doc = Some doc"
| "apply_patch (x # xs) doc = Option.bind (apply_op x doc) (apply_patch xs)"

lemma apply_patch_append:
  "apply_patch (xs @ ys) doc = Option.bind (apply_patch xs doc) (apply_patch ys)"
  by (induction xs arbitrary: doc) (auto split: Option.bind_splits)

lemma apply_patch_seq:
  "apply_patch xs doc = Some d \<Longrightarrow> apply_patch (xs @ ys) doc = apply_patch ys d"
  by (simp add: apply_patch_append)

section \<open>The JSON encoding of a Pod\<close>

text \<open>An omitted field is absent; \<open>put\<close> sets a field of an object or leaves it out.\<close>

definition put :: "string \<Rightarrow> json option \<Rightarrow> json_fields \<Rightarrow> json_fields" where
  "put k v m = (case v of None \<Rightarrow> fmdrop k m | Some j \<Rightarrow> fmupd k j m)"

definition omit_str :: "string \<Rightarrow> json option" where
  "omit_str s = (if s = [] then None else Some (JStr s))"

definition omit_list :: "('a \<Rightarrow> json) \<Rightarrow> 'a list \<Rightarrow> json option" where
  "omit_list f xs = (if xs = [] then None else Some (JArr (map f xs)))"

definition omit_map :: "('a \<Rightarrow> json) \<Rightarrow> (string, 'a) fmap \<Rightarrow> json option" where
  "omit_map f m = (if fmdom m = {||} then None else Some (JObj (fmmap f m)))"

definition omit_bool :: "bool \<Rightarrow> json option" where
  "omit_bool b = (if b then Some (JBool True) else None)"

definition omit_int :: "int \<Rightarrow> json option" where
  "omit_int i = (if i = 0 then None else Some (JInt i))"

definition obj :: "(string \<times> json option) list \<Rightarrow> json_fields \<Rightarrow> json" where
  "obj kvs rest = JObj (foldr (\<lambda>(k, v). put k v) kvs rest)"

definition enc_field_ref :: "object_field_selector \<Rightarrow> json" where
  "enc_field_ref r = obj [(''apiVersion'', omit_str (of_APIVersion r)),
     (''fieldPath'', Some (JStr (of_FieldPath r)))] fmempty"

definition enc_resource_ref :: "resource_field_selector \<Rightarrow> json" where
  "enc_resource_ref r = obj [(''containerName'', omit_str (rf_ContainerName r)),
     (''resource'', Some (JStr (rf_Resource r))), (''divisor'', Some (JQuantity (rf_Divisor r)))] fmempty"

definition enc_key_ref :: "secret_key_selector \<Rightarrow> json" where
  "enc_key_ref r = obj [(''name'', omit_str (sk_Name r)), (''key'', Some (JStr (sk_Key r))),
     (''optional'', map_option JBool (sk_Optional r))] fmempty"

definition enc_env_source :: "env_source \<Rightarrow> json" where
  "enc_env_source s = obj [(''fieldRef'', map_option enc_field_ref (es_FieldRef s)),
     (''resourceFieldRef'', map_option enc_resource_ref (es_ResourceFieldRef s)),
     (''configMapKeyRef'', map_option enc_key_ref (es_ConfigMapKeyRef s)),
     (''secretKeyRef'', map_option enc_key_ref (es_SecretKeyRef s))] fmempty"

definition enc_env :: "envvar \<Rightarrow> json" where
  "enc_env e = obj [(''name'', Some (JStr (ev_Name e))), (''value'', omit_str (ev_Value e)),
     (''valueFrom'', map_option enc_env_source (ev_ValueFrom e))] fmempty"

definition enc_mount :: "volume_mount \<Rightarrow> json" where
  "enc_mount m = obj [(''name'', Some (JStr (vm_Name m))), (''readOnly'', omit_bool (vm_ReadOnly m)),
     (''mountPath'', Some (JStr (vm_MountPath m))), (''subPath'', omit_str (vm_SubPath m)),
     (''subPathExpr'', omit_str (vm_SubPathExpr m))] (vm_rest m)"

definition enc_empty_dir :: "empty_dir \<Rightarrow> json" where
  "enc_empty_dir d = obj [(''medium'', omit_str (ed_Medium d)),
     (''sizeLimit'', map_option JQuantity (ed_SizeLimit d))] fmempty"

definition enc_host_path :: "host_path \<Rightarrow> json" where
  "enc_host_path h = obj [(''path'', Some (JStr (hp_Path h))), (''type'', map_option JStr (hp_Type h))] fmempty"

definition enc_downward_file :: "downward_file \<Rightarrow> json" where
  "enc_downward_file f = obj [(''path'', Some (JStr (df_Path f))),
     (''fieldRef'', map_option enc_field_ref (df_FieldRef f))] (df_rest f)"

definition enc_downward_api :: "downward_api \<Rightarrow> json" where
  "enc_downward_api d = obj [(''items'', omit_list enc_downward_file (da_Items d)),
     (''defaultMode'', map_option JInt (da_DefaultMode d))] fmempty"

definition enc_volume :: "volume \<Rightarrow> json" where
  "enc_volume v = obj [(''name'', Some (JStr (v_Name v))),
     (''emptyDir'', map_option enc_empty_dir (v_EmptyDir v)),
     (''hostPath'', map_option enc_host_path (v_HostPath v)),
     (''downwardAPI'', map_option enc_downward_api (v_DownwardAPI v))] (v_rest v)"

definition enc_port :: "container_port \<Rightarrow> json" where
  "enc_port p = obj [(''name'', omit_str (cp_Name p)), (''hostPort'', omit_int (cp_HostPort p)),
     (''containerPort'', Some (JInt (cp_ContainerPort p))), (''protocol'', omit_str (cp_Protocol p)),
     (''hostIP'', omit_str (cp_HostIP p))] fmempty"

definition enc_quantities :: "(string, quantity) fmap option \<Rightarrow> json option" where
  "enc_quantities m = (case m of None \<Rightarrow> None | Some q \<Rightarrow> omit_map JQuantity q)"

definition enc_resources :: "resource_requirements \<Rightarrow> json" where
  "enc_resources r = obj [(''limits'', enc_quantities (rr_Limits r)),
     (''requests'', enc_quantities (rr_Requests r))] fmempty"

definition enc_capabilities :: "capabilities \<Rightarrow> json" where
  "enc_capabilities c = obj [(''add'', omit_list JStr (cap_Add c)), (''drop'', omit_list JStr (cap_Drop c))] fmempty"

definition enc_selinux :: "selinux_options \<Rightarrow> json" where
  "enc_selinux s = obj [(''user'', omit_str (se_User s)), (''role'', omit_str (se_Role s)),
     (''type'', omit_str (se_Type s)), (''level'', omit_str (se_Level s))] fmempty"

definition enc_windows :: "windows_options \<Rightarrow> json" where
  "enc_windows w = obj [(''gmsaCredentialSpecName'', map_option JStr (wo_GMSACredentialSpecName w)),
     (''gmsaCredentialSpec'', map_option JStr (wo_GMSACredentialSpec w)),
     (''runAsUserName'', map_option JStr (wo_RunAsUserName w)),
     (''hostProcess'', map_option JBool (wo_HostProcess w))] fmempty"

definition enc_seccomp :: "seccomp_profile \<Rightarrow> json" where
  "enc_seccomp s = obj [(''type'', Some (JStr (sp_Type s))),
     (''localhostProfile'', map_option JStr (sp_LocalhostProfile s))] fmempty"

definition enc_security_context :: "security_context \<Rightarrow> json" where
  "enc_security_context s = obj [
     (''capabilities'', map_option enc_capabilities (sc_Capabilities s)),
     (''privileged'', map_option JBool (sc_Privileged s)),
     (''seLinuxOptions'', map_option enc_selinux (sc_SELinuxOptions s)),
     (''windowsOptions'', map_option enc_windows (sc_WindowsOptions s)),
     (''runAsUser'', map_option JInt (sc_RunAsUser s)),
     (''runAsGroup'', map_option JInt (sc_RunAsGroup s)),
     (''runAsNonRoot'', map_option JBool (sc_RunAsNonRoot s)),
     (''readOnlyRootFilesystem'', map_option JBool (sc_ReadOnlyRootFilesystem s)),
     (''allowPrivilegeEscalation'', map_option JBool (sc_AllowPrivilegeEscalation s)),
     (''procMount'', map_option JStr (sc_ProcMount s)),
     (''seccompProfile'', map_option enc_seccomp (sc_SeccompProfile s))] fmempty"

text \<open>The environment and the mounts come first, the fields the patches address inside a container.\<close>

definition enc_container_rest :: "container \<Rightarrow> json_fields" where
  "enc_container_rest c = foldr (\<lambda>(k, v). put k v) [
     (''name'', Some (JStr (c_Name c))), (''image'', omit_str (c_Image c)),
     (''command'', omit_list JStr (c_Command c)),
     (''args'', case c_Args c of None \<Rightarrow> None | Some as \<Rightarrow> omit_list JStr as),
     (''workingDir'', omit_str (c_WorkingDir c)), (''ports'', omit_list enc_port (c_Ports c)),
     (''resources'', Some (enc_resources (c_Resources c))),
     (''imagePullPolicy'', omit_str (c_ImagePullPolicy c)),
     (''securityContext'', map_option enc_security_context (c_SecurityContext c))] (c_rest c)"

definition enc_container :: "container \<Rightarrow> json" where
  "enc_container c = obj [(''env'', omit_list enc_env (c_Env c)),
     (''volumeMounts'', omit_list enc_mount (c_VolumeMounts c))] (enc_container_rest c)"

definition enc_pod_security :: "pod_security_context \<Rightarrow> json" where
  "enc_pod_security s = obj [(''runAsUser'', map_option JInt (ps_RunAsUser s)),
     (''runAsNonRoot'', map_option JBool (ps_RunAsNonRoot s))] (ps_rest s)"

text \<open>\<open>spec.containers\<close> is the one list that is never omitted.\<close>

definition enc_metadata :: "pod \<Rightarrow> json" where
  "enc_metadata p = obj [(''annotations'', omit_map JStr (p_Annotations p)),
     (''name'', omit_str (p_Name p)), (''generateName'', omit_str (p_GenerateName p)),
     (''namespace'', omit_str (p_Namespace p)), (''labels'', omit_map JStr (p_Labels p))] (p_meta_rest p)"

definition enc_spec :: "pod \<Rightarrow> json" where
  "enc_spec p = obj [(''shareProcessNamespace'', map_option JBool (p_ShareProcessNamespace p)),
     (''restartPolicy'', omit_str (p_RestartPolicy p)),
     (''volumes'', omit_list enc_volume (p_Volumes p)),
     (''initContainers'', omit_list enc_container (p_InitContainers p)),
     (''containers'', Some (if p_Containers p = [] then JNull else JArr (map enc_container (p_Containers p)))),
     (''securityContext'', map_option enc_pod_security (p_SecurityContext p))] (p_spec_rest p)"

definition enc_pod :: "pod \<Rightarrow> json" where
  "enc_pod p = obj [(''apiVersion'', Some (JStr ''v1'')), (''kind'', Some (JStr ''Pod'')),
     (''metadata'', Some (enc_metadata p)), (''spec'', Some (enc_spec p))] fmempty"

section \<open>Objects as field maps\<close>

lemma fmlookup_put [simp]: "fmlookup (put k v m) k' = (if k' = k then v else fmlookup m k')"
  by (cases v) (auto simp: put_def)

lemma fmupd_put: "fmupd k j (put k v m) = put k (Some j) m"
  by (rule fmap_ext) simp

lemma put_commute: "k \<noteq> k' \<Longrightarrow> put k v (put k' v' m) = put k' v' (put k v m)"
  by (rule fmap_ext) simp

lemma fmupd_put_other: "k \<noteq> k' \<Longrightarrow> fmupd k j (put k' v' m) = put k' v' (fmupd k j m)"
  by (rule fmap_ext) simp

lemma fmupd_idem: "fmlookup m k = Some j \<Longrightarrow> fmupd k j m = m"
  by (rule fmap_ext) auto

lemma fmupd_is_put: "fmupd k j m = put k (Some j) m"
  by (simp add: put_def)

lemma put_put [simp]: "put k v (put k w m) = put k v m"
  by (rule fmap_ext) simp

lemma put_same: "fmlookup m k = v \<Longrightarrow> put k v m = m"
  by (rule fmap_ext) simp

section \<open>Working inside a subdocument\<close>

fun subdoc :: "string list \<Rightarrow> json \<Rightarrow> json option" where
  "subdoc [] d = Some d"
| "subdoc (k # ks) (JObj m) = Option.bind (fmlookup m k) (subdoc ks)"
| "subdoc (k # ks) (JArr xs) =
     (case array_index k of None \<Rightarrow> None | Some i \<Rightarrow> if i < length xs then subdoc ks (xs ! i) else None)"
| "subdoc (k # ks) _ = None"

fun set_at :: "string list \<Rightarrow> json \<Rightarrow> json \<Rightarrow> json" where
  "set_at [] d _ = d"
| "set_at (k # ks) d (JObj m) = JObj (put k (Some (set_at ks d (the (fmlookup m k)))) m)"
| "set_at (k # ks) d (JArr xs) =
     (case array_index k of None \<Rightarrow> JArr xs | Some i \<Rightarrow> JArr (xs[i := set_at ks d (xs ! i)]))"
| "set_at (k # ks) d j = j"

lemma subdoc_set: "subdoc ks doc = Some d \<Longrightarrow> subdoc ks (set_at ks d' doc) = Some d'"
  by (induction ks doc rule: subdoc.induct) (auto split: option.splits if_splits Option.bind_splits)

lemma set_set: "subdoc ks doc = Some d \<Longrightarrow> set_at ks d'' (set_at ks d' doc) = set_at ks d'' doc"
  by (induction ks doc rule: subdoc.induct) (auto split: option.splits if_splits Option.bind_splits)

lemma set_subdoc: "subdoc ks doc = Some d \<Longrightarrow> set_at ks d doc = doc"
  by (induction ks doc rule: subdoc.induct)
     (auto simp: put_same split: option.splits if_splits Option.bind_splits)

type_synonym tok_op = "patch_op \<times> string list \<times> json"

fun app_tok :: "tok_op \<Rightarrow> json \<Rightarrow> json option" where
  "app_tok (OpAdd, ks, v) doc = json_add ks v doc"
| "app_tok (OpReplace, ks, v) doc = json_replace ks v doc"

primrec app_toks :: "tok_op list \<Rightarrow> json \<Rightarrow> json option" where
  "app_toks [] doc = Some doc"
| "app_toks (x # xs) doc = Option.bind (app_tok x doc) (app_toks xs)"

definition tok_of :: "json_patch_op \<Rightarrow> tok_op" where
  "tok_of x = (jp_op x, pointer_tokens (jp_path x), jp_value x)"

definition under :: "string list \<Rightarrow> tok_op \<Rightarrow> tok_op" where
  "under pre = (\<lambda>(x, ks, v). (x, pre @ ks, v))"

lemma apply_patch_toks: "apply_patch xs doc = app_toks (map tok_of xs) doc"
proof (induction xs arbitrary: doc)
  case (Cons x xs)
  have "apply_op x doc = app_tok (tok_of x) doc"
    by (cases "jp_op x") (simp_all add: apply_op_def tok_of_def)
  with Cons show ?case by (simp cong: Option.bind_cong)
qed simp

lemma add_under:
  "\<lbrakk>subdoc pre doc = Some d; ks \<noteq> []\<rbrakk> \<Longrightarrow>
   json_add (pre @ ks) v doc = map_option (\<lambda>d'. set_at pre d' doc) (json_add ks v d)"
proof (induction pre doc rule: subdoc.induct)
  case (3 k pre xs)
  then show ?case
    by (auto simp: option.map_comp comp_def split: option.splits if_splits Option.bind_splits)
qed (auto simp: option.map_comp comp_def fmupd_is_put option.map_ident split: option.splits if_splits Option.bind_splits)

lemma replace_under:
  "\<lbrakk>subdoc pre doc = Some d; ks \<noteq> []\<rbrakk> \<Longrightarrow>
   json_replace (pre @ ks) v doc = map_option (\<lambda>d'. set_at pre d' doc) (json_replace ks v d)"
proof (induction pre doc rule: subdoc.induct)
  case (3 k pre xs)
  then show ?case
    by (auto simp: option.map_comp comp_def split: option.splits if_splits Option.bind_splits)
qed (auto simp: option.map_comp comp_def fmupd_is_put option.map_ident split: option.splits if_splits Option.bind_splits)

text \<open>A list of operations under one path is the same list applied to the document there.\<close>

lemma app_under:
  assumes "subdoc pre doc = Some d" "\<forall>(x, ks, v) \<in> set xs. ks \<noteq> []"
  shows "app_toks (map (under pre) xs) doc = map_option (\<lambda>d'. set_at pre d' doc) (app_toks xs d)"
  using assms
proof (induction xs arbitrary: doc d)
  case Nil
  then show ?case by (simp add: set_subdoc)
next
  case (Cons t xs)
  obtain x ks v where t: "t = (x, ks, v)" by (cases t) auto
  have one: "app_tok (under pre t) doc = map_option (\<lambda>d'. set_at pre d' doc) (app_tok t d)"
    using Cons.prems t by (cases x) (auto simp: under_def add_under replace_under)
  show ?case
  proof (cases "app_tok t d")
    case None
    then show ?thesis using one by simp
  next
    case (Some d1)
    have "subdoc pre (set_at pre d1 doc) = Some d1" using Cons.prems(1) by (rule subdoc_set)
    then have "app_toks (map (under pre) xs) (set_at pre d1 doc) =
        map_option (\<lambda>d'. set_at pre d' (set_at pre d1 doc)) (app_toks xs d1)"
      using Cons.IH Cons.prems(2) by simp
    then show ?thesis using one Some set_set [OF Cons.prems(1)] by (simp add: comp_def)
  qed
qed

lemma app_toks_append: "app_toks (xs @ ys) doc = Option.bind (app_toks xs doc) (app_toks ys)"
  by (induction xs arbitrary: doc) (auto split: Option.bind_splits)

section \<open>Tokens of the paths in use\<close>

lemma tokens_step:
  "pointer_tokens (xs @ CHR ''/'' # ys) = pointer_tokens xs @ map unescape (split_on (CHR ''/'') ys)"
  by (simp add: pointer_tokens_def split_on_append_sep)

lemma unescape_plain [simp]: "CHR ''~'' \<notin> set s \<Longrightarrow> unescape s = s"
  by (induction s rule: unescape.induct) auto

lemma tokens_nat: "pointer_tokens (xs @ CHR ''/'' # show_nat i) = pointer_tokens xs @ [show_nat i]"
  using show_nat_no_char [of "CHR ''/''"] show_nat_no_char [of "CHR ''~''"]
  by (simp add: tokens_step split_on_no_sep is_digit_def)

end
