(* ===== verification/Pod_Patch.thy ===== *)
theory Pod_Patch
  imports Json_Patch
begin

text \<open>
  The patch builder of \<open>apis/webhook/pod_patch.go\<close>, and its correctness: applied to the JSON of the
  submitted Pod, the patch gives the JSON of the mutated Pod.  The values of the operations are
  the JSON that the code marshals them to.
\<close>

section \<open>The builder\<close>

definition addPatch :: "string \<Rightarrow> json \<Rightarrow> json_patch_op" where
  "addPatch path v = \<lparr>jp_op = OpAdd, jp_path = path, jp_value = v\<rparr>"

definition replacePatch :: "string \<Rightarrow> json \<Rightarrow> json_patch_op" where
  "replacePatch path v = \<lparr>jp_op = OpReplace, jp_path = path, jp_value = v\<rparr>"

definition escapeJSONPointer :: "string \<Rightarrow> string" where
  "escapeJSONPointer s = replace_char (CHR ''/'') ''~1'' (replace_char (CHR ''~'') ''~0'' s)"

definition buildAnnotationPatch :: "go_map \<Rightarrow> go_map \<Rightarrow> json_patch_op list" where
  "buildAnnotationPatch old new =
     (if fmdom new = {||} then []
      else if fmdom old = {||} then [addPatch ''/metadata/annotations'' (JObj (fmmap JStr new))]
      else concat (map (\<lambda>key. case fmlookup new key of None \<Rightarrow> [] | Some newValue \<Rightarrow>
          (case fmlookup old key of
             None \<Rightarrow> [addPatch (''/metadata/annotations/'' @ escapeJSONPointer key) (JStr newValue)]
           | Some oldValue \<Rightarrow>
               if oldValue \<noteq> newValue
               then [replacePatch (''/metadata/annotations/'' @ escapeJSONPointer key) (JStr newValue)]
               else [])) (sorted_list_of_fset (fmdom new))))"

text \<open>\<open>boolPtrEqual\<close> is equality of the option values.\<close>

definition buildSharePatch :: "bool option \<Rightarrow> bool option \<Rightarrow> json_patch_op list" where
  "buildSharePatch old new =
     (case new of None \<Rightarrow> [] | Some b \<Rightarrow>
        if old = new then []
        else [(if old \<noteq> None then replacePatch else addPatch) ''/spec/shareProcessNamespace'' (JBool b)])"

definition buildRestartPatch :: "string \<Rightarrow> string \<Rightarrow> json_patch_op list" where
  "buildRestartPatch old new =
     (if old \<noteq> new \<and> new \<noteq> []
      then [(if old \<noteq> [] then replacePatch else addPatch) ''/spec/restartPolicy'' (JStr new)]
      else [])"

definition buildNamedAppendPatch ::
  "string \<Rightarrow> ('a \<Rightarrow> json) \<Rightarrow> ('a \<Rightarrow> string) \<Rightarrow> 'a list \<Rightarrow> 'a list \<Rightarrow> json_patch_op list" where
  "buildNamedAppendPatch basePath enc nameFn oldItems newItems =
     (if newItems = [] then []
      else if oldItems = [] then [addPatch basePath (JArr (map enc newItems))]
      else map (\<lambda>item. addPatch (basePath @ ''/-'') (enc item))
             (filter (\<lambda>item. nameFn item \<notin> names nameFn oldItems) newItems))"

text \<open>
  The loop over the old variables: \<open>None\<close> is the early return on the first name that differs.
\<close>

fun env_replacements :: "string \<Rightarrow> nat \<Rightarrow> envvar list \<Rightarrow> envvar list \<Rightarrow> json_patch_op list option" where
  "env_replacements basePath i (e # es) (f # fs) =
     (if ev_Name e \<noteq> ev_Name f then None
      else map_option (\<lambda>ps. (if e \<noteq> f then [replacePatch (basePath @ ''/'' @ show_nat i) (enc_env f)] else []) @ ps)
             (env_replacements basePath (Suc i) es fs))"
| "env_replacements basePath i _ _ = Some []"

definition buildEnvPatch :: "string \<Rightarrow> envvar list \<Rightarrow> envvar list \<Rightarrow> json_patch_op list" where
  "buildEnvPatch basePath oldEnvs newEnvs =
     (if newEnvs = [] then []
      else if oldEnvs = [] then [addPatch basePath (JArr (map enc_env newEnvs))]
      else if length newEnvs < length oldEnvs then [replacePatch basePath (JArr (map enc_env newEnvs))]
      else case env_replacements basePath 0 oldEnvs newEnvs of
          None \<Rightarrow> [replacePatch basePath (JArr (map enc_env newEnvs))]
        | Some ps \<Rightarrow> ps @ map (\<lambda>e. addPatch (basePath @ ''/-'') (enc_env e)) (drop (length oldEnvs) newEnvs))"

text \<open>\<open>newByName\<close> keeps the last container of a name.\<close>

definition newByName :: "container list \<Rightarrow> string \<Rightarrow> container option" where
  "newByName cs n = find (\<lambda>c. c_Name c = n) (rev cs)"

fun container_field_patches :: "(string \<Rightarrow> container option) \<Rightarrow> nat \<Rightarrow> container list \<Rightarrow> json_patch_op list" where
  "container_field_patches new i [] = []"
| "container_field_patches new i (c # cs) =
     (case new (c_Name c) of
        None \<Rightarrow> []
      | Some d \<Rightarrow> (let containerPath = ''/spec/containers/'' @ show_nat i in
          buildEnvPatch (containerPath @ ''/env'') (c_Env c) (c_Env d) @
          buildNamedAppendPatch (containerPath @ ''/volumeMounts'') enc_mount vm_Name
            (c_VolumeMounts c) (c_VolumeMounts d)))
     @ container_field_patches new (Suc i) cs"

definition buildContainerFieldPatch :: "container list \<Rightarrow> container list \<Rightarrow> json_patch_op list" where
  "buildContainerFieldPatch old new = container_field_patches (newByName new) 0 old"

definition buildPodSpecPatch :: "pod \<Rightarrow> pod \<Rightarrow> json_patch_op list" where
  "buildPodSpecPatch old new =
     buildSharePatch (p_ShareProcessNamespace old) (p_ShareProcessNamespace new) @
     buildRestartPatch (p_RestartPolicy old) (p_RestartPolicy new) @
     buildNamedAppendPatch ''/spec/volumes'' enc_volume v_Name (p_Volumes old) (p_Volumes new) @
     buildNamedAppendPatch ''/spec/initContainers'' enc_container c_Name (p_InitContainers old) (p_InitContainers new) @
     buildNamedAppendPatch ''/spec/containers'' enc_container c_Name (p_Containers old) (p_Containers new) @
     buildContainerFieldPatch (p_Containers old) (p_Containers new)"

definition buildPodInjectionPatch :: "pod option \<Rightarrow> pod option \<Rightarrow> json_patch_op list" where
  "buildPodInjectionPatch oldPod newPod =
     (case (oldPod, newPod) of
        (Some old, Some new) \<Rightarrow>
          buildAnnotationPatch (p_Annotations old) (p_Annotations new) @ buildPodSpecPatch old new
      | _ \<Rightarrow> [])"

section \<open>Escaping\<close>

lemma escape_no_slash: "CHR ''/'' \<notin> set (escapeJSONPointer s)"
  by (auto simp: escapeJSONPointer_def replace_char_def)

lemma escape_Nil [simp]: "escapeJSONPointer [] = []"
  by (simp add: escapeJSONPointer_def replace_char_def)

lemma escape_Cons: "escapeJSONPointer (c # s) =
    (if c = CHR ''~'' then ''~0'' else if c = CHR ''/'' then ''~1'' else [c]) @ escapeJSONPointer s"
  by (auto simp: escapeJSONPointer_def replace_char_def)

lemma unescape_other: "c \<noteq> CHR ''~'' \<Longrightarrow> unescape (c # s) = c # unescape s"
  by (cases s) auto

lemma unescape_escape: "unescape (escapeJSONPointer s) = s"
  by (induction s) (auto simp: escape_Cons unescape_other)

lemma tokens_escaped:
  "pointer_tokens (xs @ CHR ''/'' # escapeJSONPointer key) = pointer_tokens xs @ [key]"
  by (simp add: tokens_step split_on_no_sep escape_no_slash unescape_escape)

section \<open>Lists of named items\<close>

lemma app_appends:
  "app_toks (map (\<lambda>x. (OpAdd, [''-''], enc x)) zs) (JArr ys) = Some (JArr (ys @ map enc zs))"
  by (induction zs arbitrary: ys) auto

lemma named_append_new:
  assumes "named_append name xs ys"
  shows "filter (\<lambda>y. name y \<notin> names name xs) ys = drop (length xs) ys"
proof -
  obtain zs where "ys = xs @ zs" "\<And>z. z \<in> set zs \<Longrightarrow> name z \<notin> names name xs"
    using named_appendE [OF assms] by blast
  moreover have "filter (\<lambda>y. name y \<notin> names name xs) xs = []"
    by (auto simp: filter_empty_conv names_def)
  moreover have "filter (\<lambda>y. name y \<notin> names name xs) zs = zs"
    using calculation(2) by (auto simp: filter_id_conv)
  ultimately show ?thesis by simp
qed

text \<open>
  On an object whose field \<open>k\<close> holds the old items (or is absent when there are none), the
  operations of \<open>buildNamedAppendPatch\<close> at that field set it to the new items.
\<close>

lemma named_patch_toks:
  assumes toks: "pointer_tokens path = pre @ [k]"
  shows "map tok_of (buildNamedAppendPatch path enc name old new) =
    map (under pre) (if new = [] then [] else if old = [] then [(OpAdd, [k], JArr (map enc new))]
      else map (\<lambda>x. (OpAdd, [k, ''-''], enc x)) (filter (\<lambda>x. name x \<notin> names name old) new))"
  using toks tokens_step [of path "''-''"]
  by (simp add: buildNamedAppendPatch_def tok_of_def addPatch_def under_def comp_def)

lemma named_patch_field:
  assumes "named_append name old new" "old \<noteq> [] \<Longrightarrow> fmlookup m k = Some (JArr (map enc old))"
    "old = [] \<Longrightarrow> new = [] \<Longrightarrow> fmlookup m k = v" "new \<noteq> [] \<Longrightarrow> v = Some (JArr (map enc new))"
  shows "app_toks (if new = [] then [] else if old = [] then [(OpAdd, [k], JArr (map enc new))]
      else map (\<lambda>x. (OpAdd, [k, ''-''], enc x)) (filter (\<lambda>x. name x \<notin> names name old) new)) (JObj m)
    = Some (JObj (put k v m))"
proof (cases "old = []")
  case True
  with assms(3,4) show ?thesis by (auto simp: fmupd_is_put put_same)
next
  case False
  obtain zs where new: "new = old @ zs" using named_appendE [OF assms(1)] by blast
  have "filter (\<lambda>x. name x \<notin> names name old) new = zs"
    using named_append_new [OF assms(1)] new by simp
  moreover have "app_toks (map (under [k]) (map (\<lambda>x. (OpAdd, [''-''], enc x)) zs)) (JObj m) =
      map_option (\<lambda>d. set_at [k] d (JObj m)) (app_toks (map (\<lambda>x. (OpAdd, [''-''], enc x)) zs) (JArr (map enc old)))"
    using assms(2) False by (intro app_under) auto
  ultimately show ?thesis using new False assms(4)
    by (simp add: app_appends under_def comp_def)
qed

section \<open>Environments\<close>

lemma env_replacements_toks:
  assumes "env_replacements path i es fs = Some ps" "length es \<le> length fs"
  shows "\<exists>ts. map tok_of ps = map (under (pointer_tokens path)) ts \<and> (\<forall>(x, ks, v) \<in> set ts. ks \<noteq> []) \<and>
    (\<forall>ys. length ys = i \<longrightarrow> app_toks ts (JArr (ys @ map enc_env es)) =
       Some (JArr (ys @ map enc_env (take (length es) fs))))"
  using assms
proof (induction path i es fs arbitrary: ps rule: env_replacements.induct)
  case (1 path i e es f fs)
  from "1.prems" obtain qs where n: "ev_Name e = ev_Name f" and
    qs: "env_replacements path (Suc i) es fs = Some qs" and
    ps: "ps = (if e \<noteq> f then [replacePatch (path @ ''/'' @ show_nat i) (enc_env f)] else []) @ qs"
    by (auto split: if_splits)
  from "1.IH" [OF _ qs] n "1.prems"(2) obtain ts where
    ts: "map tok_of qs = map (under (pointer_tokens path)) ts" "\<forall>(x, ks, v) \<in> set ts. ks \<noteq> []"
    "\<And>ys. length ys = Suc i \<Longrightarrow> app_toks ts (JArr (ys @ map enc_env es)) =
       Some (JArr (ys @ map enc_env (take (length es) fs)))"
    by auto
  let ?ts = "(if e \<noteq> f then [(OpReplace, [show_nat i], enc_env f)] else []) @ ts"
  have "map tok_of ps = map (under (pointer_tokens path)) ?ts"
    using ts(1) by (simp add: ps tok_of_def replacePatch_def under_def tokens_nat)
  moreover have "\<forall>(x, ks, v) \<in> set ?ts. ks \<noteq> []" using ts(2) by auto
  moreover have "app_toks ?ts (JArr (ys @ map enc_env (e # es))) =
      Some (JArr (ys @ map enc_env (take (length (e # es)) (f # fs))))" if "length ys = i" for ys
    using ts(3) [of "ys @ [enc_env f]"] that by (cases "e = f") (auto simp: list_update_append)
  ultimately show ?case by blast
qed (auto intro!: exI [of _ "[]"])

definition env_toks :: "envvar list \<Rightarrow> envvar list \<Rightarrow> tok_op list \<Rightarrow> bool" where
  "env_toks old new ts \<longleftrightarrow> (\<forall>(x, ks, v) \<in> set ts. ks \<noteq> []) \<and>
     (\<forall>m. fmlookup m ''env'' = omit_list enc_env old \<longrightarrow>
        app_toks ts (JObj m) = Some (JObj (put ''env'' (omit_list enc_env new) m)))"

lemma env_toks_whole: "old \<noteq> [] \<Longrightarrow> new \<noteq> [] \<Longrightarrow> env_toks old new [(OpReplace, [''env''], JArr (map enc_env new))]"
  by (simp add: env_toks_def omit_list_def fmupd_is_put)

lemma env_patch_toks:
  assumes path: "pointer_tokens path = pre @ [''env'']" and le: "env_le old new"
  shows "\<exists>ts. map tok_of (buildEnvPatch path old new) = map (under pre) ts \<and> env_toks old new ts"
proof -
  have whole: "\<exists>ts. map tok_of [replacePatch path (JArr (map enc_env new))] = map (under pre) ts \<and>
      env_toks old new ts" if "old \<noteq> []" "new \<noteq> []"
    using env_toks_whole [OF that] path
    by (intro exI [of _ "[(OpReplace, [''env''], JArr (map enc_env new))]"])
       (simp add: tok_of_def replacePatch_def under_def)
  consider (none) "new = []" | (first) "new \<noteq> []" "old = []"
    | (short) "new \<noteq> []" "old \<noteq> []" "length new < length old"
    | (differ) "new \<noteq> []" "old \<noteq> []" "length old \<le> length new" "env_replacements path 0 old new = None"
    | (same) ps where "new \<noteq> []" "old \<noteq> []" "length old \<le> length new"
        "env_replacements path 0 old new = Some ps"
    by (cases "env_replacements path 0 old new"; cases "length old \<le> length new") auto
  then show ?thesis
  proof cases
    case none
    then have "old = []" using le by (auto simp: env_le_def)
    with none show ?thesis
      by (intro exI [of _ "[]"]) (simp add: buildEnvPatch_def env_toks_def put_same)
  next
    case first
    then show ?thesis using path
      by (intro exI [of _ "[(OpAdd, [''env''], JArr (map enc_env new))]"])
         (simp add: buildEnvPatch_def env_toks_def tok_of_def addPatch_def under_def fmupd_is_put omit_list_def)
  next
    case short
    then show ?thesis using whole by (simp add: buildEnvPatch_def)
  next
    case differ
    then show ?thesis using whole by (simp add: buildEnvPatch_def)
  next
    case same
    let ?zs = "drop (length old) new"
    from env_replacements_toks [OF same(4,3)] obtain ts where
      ts: "map tok_of ps = map (under (pointer_tokens path)) ts" "\<forall>(x, ks, v) \<in> set ts. ks \<noteq> []"
      "app_toks ts (JArr (map enc_env old)) = Some (JArr (map enc_env (take (length old) new)))"
      by (metis append_Nil list.size(3))
    let ?us = "ts @ map (\<lambda>e. (OpAdd, [''-''], enc_env e)) ?zs"
    have app: "app_toks ?us (JArr (map enc_env old)) = Some (JArr (map enc_env new))"
      using ts(3) by (simp add: app_toks_append app_appends flip: map_append)
    have ne: "\<forall>(x, ks, v) \<in> set ?us. ks \<noteq> []" using ts(2) by auto
    have "app_toks (map (under [''env'']) ?us) (JObj m) = Some (JObj (put ''env'' (omit_list enc_env new) m))"
      if "fmlookup m ''env'' = omit_list enc_env old" for m
      using app_under [of "[''env'']" "JObj m" "JArr (map enc_env old)" ?us] ne app that same(1,2)
      by (simp add: omit_list_def)
    moreover have "\<forall>(x, ks, v) \<in> set (map (under [''env'']) ?us). ks \<noteq> []"
      by (auto simp: under_def)
    moreover have "map tok_of (buildEnvPatch path old new) = map (under pre) (map (under [''env'']) ?us)"
      using same ts(1) path tokens_step [of path "''-''"]
      by (auto simp: buildEnvPatch_def tok_of_def addPatch_def under_def comp_def split: prod.splits)
    ultimately show ?thesis unfolding env_toks_def by blast
  qed
qed

section \<open>Containers\<close>

definition container_fields :: "container \<Rightarrow> json_fields" where
  "container_fields c = put ''env'' (omit_list enc_env (c_Env c))
     (put ''volumeMounts'' (omit_list enc_mount (c_VolumeMounts c)) (enc_container_rest c))"

lemma enc_container_fields: "enc_container c = JObj (container_fields c)"
  by (simp add: enc_container_def container_fields_def obj_def)

lemma container_fields_le:
  assumes "container_le c d"
  shows "container_fields d = put ''volumeMounts'' (omit_list enc_mount (c_VolumeMounts d))
    (put ''env'' (omit_list enc_env (c_Env d)) (container_fields c))"
proof -
  have "enc_container_rest d = enc_container_rest c"
    using assms unfolding container_le_def by (cases c, cases d) (simp add: enc_container_rest_def)
  then show ?thesis by (intro fmap_ext) (simp add: container_fields_def)
qed

lemma container_patch:
  assumes le: "container_le c d" and path: "pointer_tokens path = pre"
    and doc: "subdoc pre doc = Some (enc_container c)"
  shows "app_toks (map tok_of (buildEnvPatch (path @ ''/env'') (c_Env c) (c_Env d) @
      buildNamedAppendPatch (path @ ''/volumeMounts'') enc_mount vm_Name (c_VolumeMounts c) (c_VolumeMounts d))) doc
    = Some (set_at pre (enc_container d) doc)"
proof -
  have toks: "pointer_tokens (path @ ''/env'') = pre @ [''env'']"
    "pointer_tokens (path @ ''/volumeMounts'') = pre @ [''volumeMounts'']"
    using tokens_step [of path "''env''"] tokens_step [of path "''volumeMounts''"] path by simp_all
  have el: "env_le (c_Env c) (c_Env d)" and ml: "named_append vm_Name (c_VolumeMounts c) (c_VolumeMounts d)"
    using le by (simp_all add: container_le_def)
  from env_patch_toks [OF toks(1) el] obtain ts where
    ts: "map tok_of (buildEnvPatch (path @ ''/env'') (c_Env c) (c_Env d)) = map (under pre) ts"
    "env_toks (c_Env c) (c_Env d) ts" by blast
  let ?us = "if c_VolumeMounts d = [] then [] else if c_VolumeMounts c = []
      then [(OpAdd, [''volumeMounts''], JArr (map enc_mount (c_VolumeMounts d)))]
      else map (\<lambda>x. (OpAdd, [''volumeMounts'', ''-''], enc_mount x))
        (filter (\<lambda>x. vm_Name x \<notin> names vm_Name (c_VolumeMounts c)) (c_VolumeMounts d))"
  let ?m = "put ''env'' (omit_list enc_env (c_Env d)) (container_fields c)"
  have us: "app_toks ?us (JObj ?m) = Some (JObj (container_fields d))"
    unfolding container_fields_le [OF le]
  proof (rule named_patch_field [OF ml])
    show "c_VolumeMounts c \<noteq> [] \<Longrightarrow> fmlookup ?m ''volumeMounts'' = Some (JArr (map enc_mount (c_VolumeMounts c)))"
      by (simp add: container_fields_def omit_list_def)
  qed (simp_all add: container_fields_def omit_list_def)
  have "app_toks ts (JObj (container_fields c)) = Some (JObj ?m)"
    using ts(2) by (simp add: env_toks_def container_fields_def)
  then have "app_toks (ts @ ?us) (enc_container c) = Some (enc_container d)"
    using us by (simp add: app_toks_append enc_container_fields)
  moreover have "\<forall>(x, ks, v) \<in> set (ts @ ?us). ks \<noteq> []"
    using ts(2) by (auto simp: env_toks_def split: if_splits)
  ultimately have "app_toks (map (under pre) (ts @ ?us)) doc = Some (set_at pre (enc_container d) doc)"
    using app_under [OF doc, of "ts @ ?us"] by simp
  moreover have "map tok_of (buildEnvPatch (path @ ''/env'') (c_Env c) (c_Env d) @
      buildNamedAppendPatch (path @ ''/volumeMounts'') enc_mount vm_Name (c_VolumeMounts c) (c_VolumeMounts d))
    = map (under pre) (ts @ ?us)"
    using ts(1) named_patch_toks [OF toks(2), of enc_mount vm_Name "c_VolumeMounts c" "c_VolumeMounts d"]
    by simp
  ultimately show ?thesis by simp
qed

lemma find_unique: "distinct (map f xs) \<Longrightarrow> x \<in> set xs \<Longrightarrow> find (\<lambda>y. f y = f x) xs = Some x"
  by (induction xs) (auto simp: image_iff)

lemma find_rev_unique:
  assumes "distinct (map f xs)" "x \<in> set xs"
  shows "find (\<lambda>y. f y = f x) (rev xs) = Some x"
  by (rule find_unique) (use assms in \<open>simp_all flip: rev_map\<close>)

lemma newByName_upd:
  assumes "list_all2 container_le cs ds" "distinct (map c_Name cs)"
    "\<And>e. e \<in> set es \<Longrightarrow> c_Name e \<notin> names c_Name cs" "(c, d) \<in> set (zip cs ds)"
  shows "newByName (ds @ es) (c_Name c) = Some d"
proof -
  have len: "length cs = length ds" using assms(1) by (rule list_all2_lengthD)
  have "map c_Name ds = map c_Name cs"
    using assms(1) by (induction rule: list_all2_induct) (auto dest: container_le_name)
  then have dist: "distinct (map c_Name ds)" using assms(2) by simp
  have cd: "c \<in> set cs" "d \<in> set ds" "container_le c d"
    using assms(1,4) by (auto dest: set_zip_leftD set_zip_rightD simp: list_all2_iff)
  have "find (\<lambda>x. c_Name x = c_Name c) (rev es) = None"
    using assms(3) cd(1) by (auto simp: find_None_iff names_def)
  moreover have "find (\<lambda>x. c_Name x = c_Name c) (rev ds) = Some d"
    using find_rev_unique [OF dist cd(2)] container_le_name [OF cd(3)] by simp
  ultimately show ?thesis by (simp add: newByName_def find_append)
qed

lemma container_list_patch:
  assumes "\<And>c d. (c, d) \<in> set (zip cs ds) \<Longrightarrow> new (c_Name c) = Some d" "list_all2 container_le cs ds"
    "subdoc [''spec'', ''containers''] doc = Some (JArr (ys @ map enc_container cs @ zs))"
  shows "app_toks (map tok_of (container_field_patches new (length ys) cs)) doc =
    Some (set_at [''spec'', ''containers''] (JArr (ys @ map enc_container ds @ zs)) doc)"
  using assms
proof (induction cs arbitrary: ds ys doc)
  case Nil
  then show ?case using set_subdoc [OF Nil.prems(3)] by simp
next
  case (Cons c cs)
  let ?sc = "[''spec'', ''containers'']"
  from Cons.prems(2) obtain d ds' where ds: "ds = d # ds'" "container_le c d" "list_all2 container_le cs ds'"
    by (cases ds) auto
  have new: "new (c_Name c) = Some d" using Cons.prems(1) ds(1) by simp
  let ?path = "''/spec/containers/'' @ show_nat (length ys)"
  let ?pre = "?sc @ [show_nat (length ys)]"
  have pre: "pointer_tokens ?path = ?pre"
    using tokens_nat [of "''/spec/containers''" "length ys"] by (simp add: pointer_tokens_def)
  have sub: "subdoc (xs @ k) x = Option.bind (subdoc xs x) (subdoc k)" for xs k x
    by (induction xs x rule: subdoc.induct) (auto split: option.splits Option.bind_splits)
  have setapp: "subdoc xs x = Some y \<Longrightarrow> set_at (xs @ k) v x = set_at xs (set_at k v y) x" for xs k x v y
    by (induction xs x rule: subdoc.induct) (auto split: option.splits if_splits Option.bind_splits)
  have doc: "subdoc ?pre doc = Some (enc_container c)"
    unfolding sub using Cons.prems(3) by simp
  let ?doc = "set_at ?sc (JArr ((ys @ [enc_container d]) @ map enc_container cs @ zs)) doc"
  have step: "set_at ?pre (enc_container d) doc = ?doc"
    unfolding setapp [OF Cons.prems(3)] by (simp add: list_update_append)
  have "subdoc ?sc ?doc = Some (JArr ((ys @ [enc_container d]) @ map enc_container cs @ zs))"
    using Cons.prems(3) by (rule subdoc_set)
  from Cons.IH [OF _ ds(3) this] Cons.prems(1) ds(1)
  have "app_toks (map tok_of (container_field_patches new (Suc (length ys)) cs)) ?doc =
      Some (set_at ?sc (JArr ((ys @ [enc_container d]) @ map enc_container ds' @ zs)) ?doc)"
    by simp
  moreover obtain P where "container_field_patches new (length ys) (c # cs) =
      P @ container_field_patches new (Suc (length ys)) cs" "app_toks (map tok_of P) doc = Some ?doc"
  proof
    show "container_field_patches new (length ys) (c # cs) =
      (buildEnvPatch (?path @ ''/env'') (c_Env c) (c_Env d) @
       buildNamedAppendPatch (?path @ ''/volumeMounts'') enc_mount vm_Name (c_VolumeMounts c) (c_VolumeMounts d))
      @ container_field_patches new (Suc (length ys)) cs"
      by (simp add: new Let_def)
    show "app_toks (map tok_of (buildEnvPatch (?path @ ''/env'') (c_Env c) (c_Env d) @
       buildNamedAppendPatch (?path @ ''/volumeMounts'') enc_mount vm_Name (c_VolumeMounts c) (c_VolumeMounts d)))
      doc = Some ?doc"
      unfolding container_patch [OF ds(2) pre doc] step ..
  qed
  ultimately show ?case
    using set_set [OF Cons.prems(3)] ds(1) by (simp add: app_toks_append)
qed

section \<open>The whole Pod\<close>

definition spec_fields :: "pod \<Rightarrow> json_fields" where
  "spec_fields p = put ''shareProcessNamespace'' (map_option JBool (p_ShareProcessNamespace p))
     (put ''restartPolicy'' (omit_str (p_RestartPolicy p))
     (put ''volumes'' (omit_list enc_volume (p_Volumes p))
     (put ''initContainers'' (omit_list enc_container (p_InitContainers p))
     (put ''containers'' (Some (if p_Containers p = [] then JNull else JArr (map enc_container (p_Containers p))))
     (put ''securityContext'' (map_option enc_pod_security (p_SecurityContext p)) (p_spec_rest p))))))"

lemma enc_spec_fields: "enc_spec p = JObj (spec_fields p)"
  by (simp add: enc_spec_def spec_fields_def obj_def)

lemma spec_fields_upd:
  "spec_fields (p\<lparr>p_ShareProcessNamespace := s\<rparr>) =
     put ''shareProcessNamespace'' (map_option JBool s) (spec_fields p)"
  "spec_fields (p\<lparr>p_RestartPolicy := r\<rparr>) = put ''restartPolicy'' (omit_str r) (spec_fields p)"
  "spec_fields (p\<lparr>p_Volumes := vs\<rparr>) = put ''volumes'' (omit_list enc_volume vs) (spec_fields p)"
  "spec_fields (p\<lparr>p_InitContainers := cs\<rparr>) =
     put ''initContainers'' (omit_list enc_container cs) (spec_fields p)"
  "spec_fields (p\<lparr>p_Containers := cs\<rparr>) =
     put ''containers'' (Some (if cs = [] then JNull else JArr (map enc_container cs))) (spec_fields p)"
  by (rule fmap_ext, simp add: spec_fields_def)+

lemma spec_lookup:
  "fmlookup (spec_fields p) ''shareProcessNamespace'' = map_option JBool (p_ShareProcessNamespace p)"
  "fmlookup (spec_fields p) ''restartPolicy'' = omit_str (p_RestartPolicy p)"
  "fmlookup (spec_fields p) ''volumes'' = omit_list enc_volume (p_Volumes p)"
  "fmlookup (spec_fields p) ''initContainers'' = omit_list enc_container (p_InitContainers p)"
  "fmlookup (spec_fields p) ''containers'' =
     Some (if p_Containers p = [] then JNull else JArr (map enc_container (p_Containers p)))"
  by (simp_all add: spec_fields_def)

text \<open>The document of a Pod, split at the two objects that the patches address.\<close>

definition pod_doc :: "json \<Rightarrow> json \<Rightarrow> json" where
  "pod_doc m s = JObj (put ''apiVersion'' (Some (JStr ''v1'')) (put ''kind'' (Some (JStr ''Pod''))
     (put ''metadata'' (Some m) (put ''spec'' (Some s) fmempty))))"

lemma enc_pod_doc: "enc_pod p = pod_doc (enc_metadata p) (enc_spec p)"
  by (simp add: enc_pod_def pod_doc_def obj_def)

lemma pod_doc_at [simp]:
  "subdoc (''spec'' # ks) (pod_doc m s) = subdoc ks s"
  "subdoc (''metadata'' # ks) (pod_doc m s) = subdoc ks m"
  "set_at (''spec'' # ks) d (pod_doc m s) = pod_doc m (set_at ks d s)"
  "set_at (''metadata'' # ks) d (pod_doc m s) = pod_doc (set_at ks d m) s"
  unfolding pod_doc_def by (simp_all, (rule fmap_ext, simp)+)

lemma in_spec:
  assumes "map tok_of ops = map (under [''spec'']) ts" "\<forall>(x, ks, v) \<in> set ts. ks \<noteq> []"
    "app_toks ts (JObj (spec_fields p)) = Some (JObj (spec_fields q))" "enc_metadata q = enc_metadata p"
  shows "app_toks (map tok_of ops) (enc_pod p) = Some (enc_pod q)"
  using assms app_under [of "[''spec'']" "enc_pod p" "JObj (spec_fields p)" ts]
  by (simp add: enc_pod_doc enc_spec_fields)

lemma metadata_upd [simp]:
  "enc_metadata (p\<lparr>p_ShareProcessNamespace := s\<rparr>) = enc_metadata p"
  "enc_metadata (p\<lparr>p_RestartPolicy := r\<rparr>) = enc_metadata p"
  "enc_metadata (p\<lparr>p_Volumes := vs\<rparr>) = enc_metadata p"
  "enc_metadata (p\<lparr>p_InitContainers := cs\<rparr>) = enc_metadata p"
  "enc_metadata (p\<lparr>p_Containers := cs\<rparr>) = enc_metadata p"
  by (simp_all add: enc_metadata_def)

definition meta_fields :: "pod \<Rightarrow> json_fields" where
  "meta_fields p = put ''annotations'' (omit_map JStr (p_Annotations p))
     (put ''name'' (omit_str (p_Name p)) (put ''generateName'' (omit_str (p_GenerateName p))
     (put ''namespace'' (omit_str (p_Namespace p)) (put ''labels'' (omit_map JStr (p_Labels p)) (p_meta_rest p)))))"

lemma enc_meta_fields: "enc_metadata p = JObj (meta_fields p)"
  by (simp add: enc_metadata_def meta_fields_def obj_def)

lemma meta_fields_upd:
  "meta_fields (p\<lparr>p_Annotations := a\<rparr>) = put ''annotations'' (omit_map JStr a) (meta_fields p)"
  by (rule fmap_ext) (simp add: meta_fields_def)

definition annotation_tok :: "go_map \<Rightarrow> go_map \<Rightarrow> string \<Rightarrow> tok_op list" where
  "annotation_tok old new key = (case fmlookup new key of None \<Rightarrow> [] | Some v \<Rightarrow>
     (case fmlookup old key of None \<Rightarrow> [(OpAdd, [key], JStr v)]
      | Some w \<Rightarrow> if w \<noteq> v then [(OpReplace, [key], JStr v)] else []))"

lemma annotation_toks_app:
  assumes "distinct ks" "\<And>k. k \<in> set ks \<Longrightarrow> fmlookup m k = map_option JStr (fmlookup old k)"
  shows "\<exists>m'. app_toks (concat (map (annotation_tok old new) ks)) (JObj m) = Some (JObj m') \<and>
    (\<forall>k. fmlookup m' k = (if k \<in> set ks \<and> fmlookup new k \<noteq> None then map_option JStr (fmlookup new k)
                          else fmlookup m k))"
  using assms
proof (induction ks arbitrary: m)
  case Nil
  then show ?case by simp
next
  case (Cons k ks)
  define m1 where "m1 = put k (if fmlookup new k \<noteq> None then map_option JStr (fmlookup new k) else fmlookup m k) m"
  have m1: "app_toks (annotation_tok old new k) (JObj m) = Some (JObj m1)"
    using Cons.prems(2) [of k] unfolding m1_def
    by (cases "fmlookup new k"; cases "fmlookup old k")
       (auto simp: annotation_tok_def fmupd_is_put put_same)
  have m1': "fmlookup m1 k' = (if k' = k \<and> fmlookup new k \<noteq> None then map_option JStr (fmlookup new k)
       else fmlookup m k')" for k'
    by (simp add: m1_def)
  note m1 = m1 m1'
  have "fmlookup m1 k' = map_option JStr (fmlookup old k')" if "k' \<in> set ks" for k'
    using that Cons.prems m1(2) [of k'] by auto
  from Cons.IH [OF _ this] Cons.prems(1) obtain m' where
    m': "app_toks (concat (map (annotation_tok old new) ks)) (JObj m1) = Some (JObj m')"
    "\<And>k'. fmlookup m' k' = (if k' \<in> set ks \<and> fmlookup new k' \<noteq> None then map_option JStr (fmlookup new k')
       else fmlookup m1 k')" by auto
  have "app_toks (concat (map (annotation_tok old new) (k # ks))) (JObj m) = Some (JObj m')"
    using m1(1) m'(1) by (simp add: app_toks_append)
  moreover have "fmlookup m' k' = (if k' \<in> set (k # ks) \<and> fmlookup new k' \<noteq> None
      then map_option JStr (fmlookup new k') else fmlookup m k')" for k'
    using m1(2) m'(2) Cons.prems(1) by auto
  ultimately show ?case by blast
qed

lemma fmdom_empty: "fmdom m = {||} \<longleftrightarrow> m = fmempty"
  by (metis fmdom_empty fmrestrict_fset_dom fmrestrict_fset_null)

text \<open>Of a non-empty annotation map every entry is patched below \<open>/metadata/annotations\<close>.\<close>

lemma annotation_patch_toks:
  assumes "fmdom new \<noteq> {||}" "fmdom old \<noteq> {||}"
  shows "map tok_of (buildAnnotationPatch old new) = map (under [''metadata'']) (map (under [''annotations''])
    (concat (map (annotation_tok old new) (sorted_list_of_fset (fmdom new)))))"
proof -
  have tok: "pointer_tokens (''/metadata/annotations/'' @ escapeJSONPointer k) = [''metadata'', ''annotations'', k]" for k
    using tokens_escaped [of "''/metadata/annotations''" k] by (simp add: pointer_tokens_def)
  have "map tok_of (case fmlookup new key of None \<Rightarrow> [] | Some newValue \<Rightarrow>
        (case fmlookup old key of
           None \<Rightarrow> [addPatch (''/metadata/annotations/'' @ escapeJSONPointer key) (JStr newValue)]
         | Some oldValue \<Rightarrow>
             if oldValue \<noteq> newValue
             then [replacePatch (''/metadata/annotations/'' @ escapeJSONPointer key) (JStr newValue)]
             else [])) = map (under [''metadata'', ''annotations'']) (annotation_tok old new key)" for key
    using tok [of key]
    by (simp add: annotation_tok_def tok_of_def addPatch_def replacePatch_def under_def split: option.splits)
  then have "map tok_of (buildAnnotationPatch old new) = map (under [''metadata'', ''annotations''])
      (concat (map (annotation_tok old new) (sorted_list_of_fset (fmdom new))))"
    using assms by (simp add: buildAnnotationPatch_def map_concat comp_def)
  then show ?thesis by (simp add: under_def comp_def split_def)
qed

lemma annotation_toks_all:
  assumes "fmdom old |\<subseteq>| fmdom new"
  shows "app_toks (concat (map (annotation_tok old new) (sorted_list_of_fset (fmdom new)))) (JObj (fmmap JStr old)) =
    Some (JObj (fmmap JStr new))"
proof -
  let ?keys = "sorted_list_of_fset (fmdom new)"
  have keys: "set ?keys = fset (fmdom new)" "distinct ?keys" by (simp_all add: sorted_list_of_fset.rep_eq)
  obtain m where m: "app_toks (concat (map (annotation_tok old new) ?keys)) (JObj (fmmap JStr old)) = Some (JObj m)"
    "\<And>k. fmlookup m k = (if k \<in> set ?keys \<and> fmlookup new k \<noteq> None then map_option JStr (fmlookup new k)
       else fmlookup (fmmap JStr old) k)"
    using annotation_toks_app [OF keys(2), of "fmmap JStr old" old new] by auto
  have "m = fmmap JStr new"
  proof (rule fmap_ext)
    fix k
    show "fmlookup m k = fmlookup (fmmap JStr new) k"
      using m(2) [of k] keys(1) assms by (cases "fmlookup new k") (auto simp: fmlookup_dom_iff dest!: fsubsetD)
  qed
  with m(1) show ?thesis by simp
qed

lemma annotation_patch:
  assumes dom: "fmdom (p_Annotations p) |\<subseteq>| fmdom new"
  shows "app_toks (map tok_of (buildAnnotationPatch (p_Annotations p) new)) (enc_pod p) =
    Some (enc_pod (p\<lparr>p_Annotations := new\<rparr>))"
proof -
  let ?old = "p_Annotations p"
  have spec: "enc_spec (p\<lparr>p_Annotations := new\<rparr>) = enc_spec p" by (simp add: enc_spec_def)
  have goal: ?thesis if "map tok_of (buildAnnotationPatch ?old new) = map (under [''metadata'']) ts"
    "\<forall>(x, ks, v) \<in> set ts. ks \<noteq> []"
    "app_toks ts (JObj (meta_fields p)) = Some (JObj (put ''annotations'' (omit_map JStr new) (meta_fields p)))" for ts
    using that app_under [of "[''metadata'']" "enc_pod p" "JObj (meta_fields p)" ts]
    by (simp add: enc_pod_doc enc_meta_fields meta_fields_upd spec)
  consider "fmdom new = {||}" | "fmdom new \<noteq> {||}" "fmdom ?old = {||}"
    | "fmdom new \<noteq> {||}" "fmdom ?old \<noteq> {||}" by blast
  then show ?thesis
  proof cases
    case 1
    then have "?old = new" using dom by (metis fmdom_empty fsubset_fempty)
    then show ?thesis using 1 by (intro goal [of "[]"])
      (simp_all add: buildAnnotationPatch_def put_same meta_fields_def)
  next
    case 2
    have "pointer_tokens ''/metadata/annotations'' = [''metadata'', ''annotations'']"
      by (simp add: pointer_tokens_def)
    with 2 show ?thesis by (intro goal [of "[(OpAdd, [''annotations''], JObj (fmmap JStr new))]"])
      (simp_all add: buildAnnotationPatch_def tok_of_def addPatch_def under_def omit_map_def fmupd_is_put)
  next
    case 3
    let ?ts = "concat (map (annotation_tok ?old new) (sorted_list_of_fset (fmdom new)))"
    have ne: "\<forall>(x, ks, v) \<in> set ?ts. ks \<noteq> []"
      by (auto simp: annotation_tok_def split: option.splits if_splits)
    have "subdoc [''annotations''] (JObj (meta_fields p)) = Some (JObj (fmmap JStr ?old))"
      using 3 by (simp add: meta_fields_def omit_map_def)
    then have "app_toks (map (under [''annotations'']) ?ts) (JObj (meta_fields p)) =
        Some (JObj (put ''annotations'' (omit_map JStr new) (meta_fields p)))"
      using app_under [of "[''annotations'']" "JObj (meta_fields p)", OF _ ne] annotation_toks_all [OF dom] 3
      by (simp add: omit_map_def)
    then show ?thesis using annotation_patch_toks [OF 3] by (intro goal) (auto simp: under_def)
  qed
qed

lemma share_patch:
  assumes "s = p_ShareProcessNamespace p \<or> s \<noteq> None"
  shows "app_toks (map tok_of (buildSharePatch (p_ShareProcessNamespace p) s)) (enc_pod p) =
    Some (enc_pod (p\<lparr>p_ShareProcessNamespace := s\<rparr>))"
proof (cases "s = p_ShareProcessNamespace p")
  case True
  then show ?thesis by (simp add: buildSharePatch_def split: option.splits)
next
  case False
  then obtain b where s: "s = Some b" using assms by auto
  have tok: "pointer_tokens ''/spec/shareProcessNamespace'' = [''spec'', ''shareProcessNamespace'']"
    by (simp add: pointer_tokens_def)
  show ?thesis using False s tok
    by (intro in_spec [of _ "[(if p_ShareProcessNamespace p \<noteq> None then OpReplace else OpAdd,
            [''shareProcessNamespace''], JBool b)]"])
       (auto simp: buildSharePatch_def tok_of_def addPatch_def replacePatch_def under_def spec_fields_upd
          spec_lookup fmupd_is_put)
qed

lemma restart_patch:
  assumes "r = p_RestartPolicy p \<or> r \<noteq> []"
  shows "app_toks (map tok_of (buildRestartPatch (p_RestartPolicy p) r)) (enc_pod p) =
    Some (enc_pod (p\<lparr>p_RestartPolicy := r\<rparr>))"
proof (cases "r = p_RestartPolicy p")
  case True
  then show ?thesis by (simp add: buildRestartPatch_def)
next
  case False
  have tok: "pointer_tokens ''/spec/restartPolicy'' = [''spec'', ''restartPolicy'']"
    by (simp add: pointer_tokens_def)
  show ?thesis using False assms tok
    by (intro in_spec [of _ "[(if p_RestartPolicy p \<noteq> [] then OpReplace else OpAdd, [''restartPolicy''], JStr r)]"])
       (auto simp: buildRestartPatch_def tok_of_def addPatch_def replacePatch_def under_def spec_fields_upd
          spec_lookup fmupd_is_put omit_str_def)
qed

lemma named_patch:
  assumes tok: "pointer_tokens path = [''spec'', k]" and le: "named_append name old new"
    and m: "old \<noteq> [] \<Longrightarrow> fmlookup (spec_fields p) k = Some (JArr (map enc old))"
      "old = [] \<Longrightarrow> new = [] \<Longrightarrow> fmlookup (spec_fields p) k = v" "new \<noteq> [] \<Longrightarrow> v = Some (JArr (map enc new))"
    and q: "spec_fields q = put k v (spec_fields p)" "enc_metadata q = enc_metadata p"
  shows "app_toks (map tok_of (buildNamedAppendPatch path enc name old new)) (enc_pod p) = Some (enc_pod q)"
proof -
  let ?ts = "if new = [] then [] else if old = [] then [(OpAdd, [k], JArr (map enc new))]
      else map (\<lambda>x. (OpAdd, [k, ''-''], enc x)) (filter (\<lambda>x. name x \<notin> names name old) new)"
  have toks: "map tok_of (buildNamedAppendPatch path enc name old new) = map (under [''spec'']) ?ts"
    by (rule named_patch_toks) (simp add: tok)
  have ne: "\<forall>(x, ks, v) \<in> set ?ts. ks \<noteq> []" by auto
  have "app_toks ?ts (JObj (spec_fields p)) = Some (JObj (put k v (spec_fields p)))"
    using le m by (rule named_patch_field)
  then have "app_toks ?ts (JObj (spec_fields p)) = Some (JObj (spec_fields q))" by (simp only: q(1))
  with toks ne show ?thesis using q(2) by (rule in_spec)
qed

lemma container_le_names: "list_all2 container_le cs ds \<Longrightarrow> names c_Name ds = names c_Name cs"
  by (induction rule: list_all2_induct) (auto dest: container_le_name)

lemma container_fields_patch:
  assumes "list_all2 container_le (p_Containers p) ds" "distinct (map c_Name (p_Containers p))"
    "\<And>e. e \<in> set es \<Longrightarrow> c_Name e \<notin> names c_Name (p_Containers p)"
  shows "app_toks (map tok_of (buildContainerFieldPatch (p_Containers p) (ds @ es)))
      (enc_pod (p\<lparr>p_Containers := p_Containers p @ es\<rparr>)) = Some (enc_pod (p\<lparr>p_Containers := ds @ es\<rparr>))"
proof (cases "p_Containers p = []")
  case True
  then show ?thesis using assms(1) by (simp add: buildContainerFieldPatch_def)
next
  case False
  let ?sc = "[''spec'', ''containers'']" and ?p = "p\<lparr>p_Containers := p_Containers p @ es\<rparr>"
  have ds: "ds \<noteq> []" using False assms(1) by auto
  have doc: "subdoc ?sc (enc_pod ?p) = Some (JArr ([] @ map enc_container (p_Containers p) @ map enc_container es))"
    using False by (simp add: enc_pod_doc enc_spec_fields spec_lookup)
  have "set_at ?sc (JArr ([] @ map enc_container ds @ map enc_container es)) (enc_pod ?p) =
      enc_pod (p\<lparr>p_Containers := ds @ es\<rparr>)"
    using ds by (simp add: enc_pod_doc enc_spec_fields spec_fields_upd enc_metadata_def)
  moreover have "newByName (ds @ es) (c_Name c) = Some d" if "(c, d) \<in> set (zip (p_Containers p) ds)" for c d
    using assms that by (rule newByName_upd)
  ultimately show ?thesis
    using container_list_patch [OF _ assms(1) doc, of "newByName (ds @ es)"]
    by (simp add: buildContainerFieldPatch_def)
qed

text \<open>The patch of every Pod that the mutations may produce gives exactly that Pod.\<close>

text \<open>The containers: the new ones are appended, then those that were there get their fields.\<close>

lemma containers_patch:
  assumes ds: "list_all2 container_le (p_Containers p) ds" and dist: "distinct (map c_Name (p_Containers p))"
    and es: "\<And>e. e \<in> set es \<Longrightarrow> c_Name e \<notin> names c_Name (p_Containers p)"
  shows "app_toks (map tok_of (buildNamedAppendPatch ''/spec/containers'' enc_container c_Name (p_Containers p) (ds @ es) @
      buildContainerFieldPatch (p_Containers p) (ds @ es))) (enc_pod p) = Some (enc_pod (p\<lparr>p_Containers := ds @ es\<rparr>))"
proof -
  let ?cs = "p_Containers p"
  have len: "length ds = length ?cs" using ds by (simp add: list_all2_lengthD)
  have na: "named_append c_Name ?cs (?cs @ es)" using es by (rule named_appendI)
  have "filter (\<lambda>x. c_Name x \<notin> names c_Name ?cs) ds = []" "filter (\<lambda>x. c_Name x \<notin> names c_Name ?cs) ?cs = []"
    using container_le_names [OF ds] by (auto simp: filter_empty_conv names_def)
  then have "buildNamedAppendPatch ''/spec/containers'' enc_container c_Name ?cs (ds @ es) =
      buildNamedAppendPatch ''/spec/containers'' enc_container c_Name ?cs (?cs @ es)"
    using len by (auto simp: buildNamedAppendPatch_def)
  then have "app_toks (map tok_of (buildNamedAppendPatch ''/spec/containers'' enc_container c_Name ?cs (ds @ es)))
      (enc_pod p) = Some (enc_pod (p\<lparr>p_Containers := ?cs @ es\<rparr>))"
    using na
    by (simp only:, intro named_patch [where k = "''containers''" and
          v = "Some (if ?cs @ es = [] then JNull else JArr (map enc_container (?cs @ es)))"])
       (simp_all add: pointer_tokens_def spec_lookup spec_fields_upd)
  with container_fields_patch [OF ds dist es] show ?thesis by (simp add: app_toks_append)
qed

lemma patch_toks_correct:
  assumes le: "pod_le p q" and dist: "distinct (map c_Name (p_Containers p))"
  shows "app_toks (map tok_of (buildPodInjectionPatch (Some p) (Some q))) (enc_pod p) = Some (enc_pod q)"
proof -
  note le = le [unfolded pod_le_def]
  define p1 where "p1 = p\<lparr>p_Annotations := p_Annotations q\<rparr>"
  define p2 where "p2 = p1\<lparr>p_ShareProcessNamespace := p_ShareProcessNamespace q\<rparr>"
  define p3 where "p3 = p2\<lparr>p_RestartPolicy := p_RestartPolicy q\<rparr>"
  define p4 where "p4 = p3\<lparr>p_Volumes := p_Volumes q\<rparr>"
  define p5 where "p5 = p4\<lparr>p_InitContainers := p_InitContainers q\<rparr>"
  note defs = p1_def p2_def p3_def p4_def p5_def
  let ?cs = "p_Containers p"
  obtain ds es where cs: "p_Containers q = ds @ es" "list_all2 container_le ?cs ds"
    using le by (auto simp: containers_le_def grows_iff)
  have es: "c_Name e \<notin> names c_Name ?cs" if "e \<in> set es" for e
    using le that cs(1) list_all2_lengthD [OF cs(2)] by (simp add: containers_le_def)
  have q: "q = p5\<lparr>p_Containers := ds @ es\<rparr>"
    using le cs(1) by (cases p, cases q) (simp add: defs)
  have frame: "p_Volumes p3 = p_Volumes p" "p_InitContainers p4 = p_InitContainers p" "p_Containers p5 = ?cs"
    "p_ShareProcessNamespace p1 = p_ShareProcessNamespace p" "p_RestartPolicy p2 = p_RestartPolicy p"
    by (simp_all add: defs)
  have s1: "app_toks (map tok_of (buildAnnotationPatch (p_Annotations p) (p_Annotations q))) (enc_pod p) = Some (enc_pod p1)"
    unfolding p1_def using le by (intro annotation_patch annotations_le_dom) blast
  have s2: "app_toks (map tok_of (buildSharePatch (p_ShareProcessNamespace p) (p_ShareProcessNamespace q))) (enc_pod p1)
      = Some (enc_pod p2)"
    unfolding p2_def frame(4) [symmetric] using le frame(4) by (intro share_patch) auto
  have s3: "app_toks (map tok_of (buildRestartPatch (p_RestartPolicy p) (p_RestartPolicy q))) (enc_pod p2)
      = Some (enc_pod p3)"
    unfolding p3_def frame(5) [symmetric] using le frame(5) by (intro restart_patch) auto
  have s4: "app_toks (map tok_of (buildNamedAppendPatch ''/spec/volumes'' enc_volume v_Name (p_Volumes p) (p_Volumes q)))
      (enc_pod p3) = Some (enc_pod p4)"
    unfolding p4_def using le frame(1)
    by (intro named_patch [where k = "''volumes''" and v = "omit_list enc_volume (p_Volumes q)"])
       (simp_all add: pointer_tokens_def spec_lookup spec_fields_upd omit_list_def)
  have s5: "app_toks (map tok_of (buildNamedAppendPatch ''/spec/initContainers'' enc_container c_Name
      (p_InitContainers p) (p_InitContainers q))) (enc_pod p4) = Some (enc_pod p5)"
    unfolding p5_def using le frame(2)
    by (intro named_patch [where k = "''initContainers''" and v = "omit_list enc_container (p_InitContainers q)"])
       (simp_all add: pointer_tokens_def spec_lookup spec_fields_upd omit_list_def)
  have "app_toks (map tok_of (buildNamedAppendPatch ''/spec/containers'' enc_container c_Name ?cs (ds @ es) @
      buildContainerFieldPatch ?cs (ds @ es))) (enc_pod p5) = Some (enc_pod q)"
    using containers_patch [of p5 ds es] cs(2) dist es frame(3) q by simp
  then show ?thesis
    using s1 s2 s3 s4 s5
    by (simp add: buildPodInjectionPatch_def buildPodSpecPatch_def app_toks_append cs(1))
qed

lemma patch_correct:
  "\<lbrakk>pod_le p q; distinct (map c_Name (p_Containers p))\<rbrakk> \<Longrightarrow>
   apply_patch (buildPodInjectionPatch (Some p) (Some q)) (enc_pod p) = Some (enc_pod q)"
  by (simp add: apply_patch_toks patch_toks_correct)

end
