(* ===== verification/Webhook.thy ===== *)
theory Webhook
  imports Tracing Logfwd Flameshot Profiler Mutate_Logging Pod_Patch
begin

text \<open>
  The admission webhook (\<open>apis/webhook/mutate.go\<close> and \<open>apis/webhook/handle.go\<close>): the chain of
  mutations, the patch of a request and the HTTP handler.  The decoding of texts (a Pod, an
  AdmissionReview, the JSON and quantities inside the configuration) and the marshalling of the
  response are gathered in one record of parameters.  \<open>None\<close> is a panic, which gin turns into a
  response with status 500.  A patch is kept as its list of operations.
\<close>

section \<open>Parameters, requests and responses\<close>

record admission_config =
  ac_Inject :: admission_inject
  ac_Mutate :: "mutate_rule option list"

record webhook_codecs =
  wc_quantity :: "string \<Rightarrow> quantity option"
  wc_json :: json_decoders
  wc_logs :: "string \<Rightarrow> log_source list option"
  wc_pod :: "string \<Rightarrow> string + pod"

record group_version_resource =
  gvr_Group :: string
  gvr_Version :: string
  gvr_Resource :: string

record admission_request =
  ar_UID :: string
  ar_Resource :: group_version_resource
  ar_Operation :: string
  ar_Namespace :: string
  ar_Object :: string

datatype mutate_error = UndecodablePod string | UnsupportedResource group_version_resource

record admission_response =
  rs_UID :: string
  rs_Allowed :: bool
  rs_Patch :: "json_patch_op list option"
  rs_PatchType :: "string option"
  rs_Result :: "mutate_error option"

definition podResource :: group_version_resource where
  "podResource = \<lparr>gvr_Group = [], gvr_Version = ''v1'', gvr_Resource = ''pods''\<rparr>"

section \<open>The chain of mutations\<close>

definition shouldInject :: "go_map \<Rightarrow> bool" where
  "shouldInject annotations = CheckAnnotationIsTrue annotations ''admission.datakit/enabled''"

text \<open>One link of the chain: the next mutation runs on the Pod left by the previous ones, and the
  flags are disjoined.\<close>

definition and_then :: "injection \<Rightarrow> injection \<Rightarrow> injection" where
  "and_then f g namespace p =
     (case f namespace p of
        None \<Rightarrow> None
      | Some (changed, p1) \<Rightarrow> (case g namespace p1 of
            None \<Rightarrow> None
          | Some (ok, p2) \<Rightarrow> Some (changed \<or> ok, p2)))"

definition mutation_chain :: "admission_config \<Rightarrow> webhook_codecs \<Rightarrow> injection" where
  "mutation_chain cfg wc =
     and_then (and_then (and_then (and_then
       (InjectTracingToPod (ai_DDTraces (ac_Inject cfg)) (ai_OTels (ac_Inject cfg)) (wc_quantity wc))
       (InjectLogfwdToPod (wc_json wc) (ai_Logfwds (ac_Inject cfg)) (wc_quantity wc)))
       (InjectFlameshotToPod (ai_Flameshots (ac_Inject cfg)) (wc_quantity wc)))
       (InjectProfilerToPod (ai_Profilers (ac_Inject cfg)) (wc_quantity wc)))
       (MutateLoggingToPod (wc_logs wc) (ac_Mutate cfg))"

definition mutatePod :: "admission_config \<Rightarrow> webhook_codecs \<Rightarrow> injection" where
  "mutatePod cfg wc namespace p =
     (if \<not> shouldInject (p_Annotations p) then Some (False, p) else mutation_chain cfg wc namespace p)"

section \<open>The response\<close>

definition getGenerateName :: "string \<Rightarrow> string" where
  "getGenerateName name = (if name = [] then ''<no-one>''
     else if last name = CHR ''-'' then butlast name else name)"

definition mutateRequest ::
  "admission_config \<Rightarrow> webhook_codecs \<Rightarrow> admission_request \<Rightarrow> (mutate_error + json_patch_op list) option" where
  "mutateRequest cfg wc requ =
     (if ar_Resource requ = podResource
      then (case wc_pod wc (ar_Object requ) of
          Inl err \<Rightarrow> Some (Inl (UndecodablePod err))
        | Inr p \<Rightarrow>
            if ar_Operation requ \<noteq> ''CREATE'' then Some (Inr [])
            else (case mutatePod cfg wc (ar_Namespace requ) p of
                None \<Rightarrow> None
              | Some (changed, mutatedPod) \<Rightarrow> Some (Inr (buildPodInjectionPatch (Some p) (Some mutatedPod)))))
      else Some (Inl (UnsupportedResource (ar_Resource requ))))"

definition mutationResponsev1 :: "mutate_error + json_patch_op list \<Rightarrow> admission_response" where
  "mutationResponsev1 r = (case r of
       Inl err \<Rightarrow> \<lparr>rs_UID = [], rs_Allowed = True, rs_Patch = None, rs_PatchType = None, rs_Result = Some err\<rparr>
     | Inr jsonPatch \<Rightarrow> \<lparr>rs_UID = [], rs_Allowed = True, rs_Patch = Some jsonPatch,
         rs_PatchType = Some ''JSONPatch'', rs_Result = None\<rparr>)"

section \<open>The HTTP handler\<close>

type_synonym group_version_kind = "string \<times> string \<times> string"

text \<open>A decoded object: an AdmissionReview with its request (which may be a nil pointer), or anything else.\<close>

datatype decoded_object = AdmissionReview "admission_request option" | OtherObject

datatype http_body = NoBody | TextBody string | DataBody string

record http_response =
  hr_Status :: nat
  hr_Body :: http_body

definition admissionReviewKind :: group_version_kind where
  "admissionReviewKind = (''admission.k8s.io'', ''v1'', ''AdmissionReview'')"

definition review_response ::
  "admission_config \<Rightarrow> webhook_codecs \<Rightarrow> admission_request \<Rightarrow> admission_response option" where
  "review_response cfg wc requ =
     map_option (\<lambda>r. (mutationResponsev1 r)\<lparr>rs_UID := ar_UID requ\<rparr>) (mutateRequest cfg wc requ)"

text \<open>The body is \<open>None\<close> when reading it fails.  The texts of the two error messages carry an
  external rendering, \<open>show_kind\<close> and the decoder's message.\<close>

definition HandleInject ::
  "admission_config \<Rightarrow> webhook_codecs \<Rightarrow>
   (string \<Rightarrow> string + decoded_object \<times> group_version_kind) \<Rightarrow> (group_version_kind \<Rightarrow> string) \<Rightarrow>
   (admission_response \<Rightarrow> string + string) \<Rightarrow> string \<Rightarrow> string option \<Rightarrow> http_response option" where
  "HandleInject cfg wc decode show_kind marshal contentType body =
     (if contentType \<noteq> ''application/json'' then Some \<lparr>hr_Status = 400, hr_Body = NoBody\<rparr>
      else case body of
          None \<Rightarrow> Some \<lparr>hr_Status = 400, hr_Body = NoBody\<rparr>
        | Some bytes \<Rightarrow> (case decode bytes of
              Inl err \<Rightarrow> Some \<lparr>hr_Status = 400, hr_Body = TextBody (''Request could not be decoded: '' @ err)\<rparr>
            | Inr (object, gvk) \<Rightarrow>
                if gvk = admissionReviewKind
                then (case object of
                    OtherObject \<Rightarrow> Some \<lparr>hr_Status = 400, hr_Body = NoBody\<rparr>
                  | AdmissionReview None \<Rightarrow> None
                  | AdmissionReview (Some requ) \<Rightarrow> (case review_response cfg wc requ of
                        None \<Rightarrow> None
                      | Some response \<Rightarrow> (case marshal response of
                            Inl err \<Rightarrow> Some \<lparr>hr_Status = 500, hr_Body = TextBody err\<rparr>
                          | Inr text \<Rightarrow> Some \<lparr>hr_Status = 200, hr_Body = DataBody text\<rparr>)))
                else Some \<lparr>hr_Status = 400, hr_Body = TextBody (''unsupported_gvk='' @ show_kind gvk)\<rparr>))"

section \<open>Composition of mutations\<close>

text \<open>A mutation that changes a Pod only by making it grow: a container or an annotation more.  Such
  a change cannot be undone by another mutation, so the flags of a chain may be disjoined.\<close>

definition grown :: "pod \<Rightarrow> pod \<Rightarrow> bool" where
  "grown p q \<longleftrightarrow> length (p_Containers p) < length (p_Containers q) \<or>
     fmdom (p_Annotations p) |\<subset>| fmdom (p_Annotations q)"

locale growing_mutation = safe_mutation +
  assumes grows_strictly: "inject ns p = Some (True, q) \<Longrightarrow> grown p q"

lemma grown_neq: "grown p q \<Longrightarrow> p \<noteq> q"
  by (auto simp: grown_def)

lemma pod_le_monotone:
  "pod_le p q \<Longrightarrow> length (p_Containers p) \<le> length (p_Containers q) \<and>
     fmdom (p_Annotations p) |\<subseteq>| fmdom (p_Annotations q)"
  unfolding pod_le_def containers_le_def by (blast dest: grows_lengthD annotations_le_dom)

lemma grown_trans: "\<lbrakk>pod_le p q; grown q r\<rbrakk> \<Longrightarrow> grown p r" "\<lbrakk>grown p q; pod_le q r\<rbrakk> \<Longrightarrow> grown p r"
  by (auto simp: grown_def dest!: pod_le_monotone)

lemma and_then_Some:
  "and_then f g ns p = Some (changed, q) \<longleftrightarrow>
     (\<exists>c1 p1 c2. f ns p = Some (c1, p1) \<and> g ns p1 = Some (c2, q) \<and> changed = (c1 \<or> c2))"
  by (auto simp: and_then_def split: option.splits)

locale chained = first: safe_mutation f + second: growing_mutation g for f g
begin

lemma chain_extends:
  assumes "and_then f g ns p = Some (changed, q)"
  shows "pod_le p q"
proof -
  from assms obtain c1 p1 c2 where *: "f ns p = Some (c1, p1)" "g ns p1 = Some (c2, q)"
    by (auto simp: and_then_Some)
  show ?thesis by (rule pod_le_trans [OF first.extends [OF *(1)] second.extends [OF *(2)]])
qed

lemma chain_reports:
  assumes "and_then f g ns p = Some (changed, q)"
  shows "changed \<longleftrightarrow> p \<noteq> q"
proof -
  from assms obtain c1 p1 c2 where *: "f ns p = Some (c1, p1)" "g ns p1 = Some (c2, q)" "changed = (c1 \<or> c2)"
    by (auto simp: and_then_Some)
  show ?thesis
  proof (cases c2)
    case True
    then have "grown p1 q" using second.grows_strictly *(2) by simp
    then have "grown p q" by (rule grown_trans(1) [OF first.extends [OF *(1)]])
    then show ?thesis using True *(3) grown_neq by blast
  next
    case False
    then have "q = p1" using *(2) second.unchanged [of ns p1 q] by simp
    then show ?thesis using False * first.reports by blast
  qed
qed

lemma chain_wf:
  assumes "wf_pod p" "and_then f g ns p = Some (changed, q)"
  shows "wf_pod q"
proof -
  from assms(2) obtain c1 p1 c2 where *: "f ns p = Some (c1, p1)" "g ns p1 = Some (c2, q)"
    by (auto simp: and_then_Some)
  show ?thesis by (rule second.keeps_wf [OF first.keeps_wf [OF assms(1) *(1)] *(2)])
qed

end

sublocale chained \<subseteq> chain: safe_mutation "and_then f g"
  by unfold_locales (rule chain_extends chain_reports chain_wf; assumption)+

section \<open>The chain of the webhook\<close>

lemma added_container_grown:
  assumes "pod_le p q" "ContainsContainer n q" "\<not> ContainsContainer n p"
  shows "grown p q"
proof -
  have g: "grows container_le (p_Containers p) (p_Containers q)"
    using assms(1) by (simp add: pod_le_def containers_le_def)
  have "length (p_Containers p) \<noteq> length (p_Containers q)"
  proof
    assume len: "length (p_Containers p) = length (p_Containers q)"
    obtain i where i: "i < length (p_Containers q)" "c_Name (p_Containers q ! i) = n"
      using assms(2) by (auto simp: ContainsContainer_def list_ex_iff in_set_conv_nth)
    have "container_le (p_Containers p ! i) (p_Containers q ! i)" using g i(1) len by (auto dest: grows_nthD)
    then have "c_Name (p_Containers p ! i) = n" using i(2) container_le_name by metis
    then show False using assms(3) i(1) len by (auto simp: ContainsContainer_def list_ex_iff)
  qed
  then show ?thesis using grows_lengthD [OF g] by (simp add: grown_def)
qed

context sidecar
begin

lemma process_grown: "process p = Some q \<Longrightarrow> q \<noteq> p \<Longrightarrow> grown p q"
  by (blast elim: process_changed intro: added_container_grown process_le)

end

interpretation lf_grow: growing_mutation "InjectLogfwdToPod jd rules pq" for jd rules pq
  by unfold_locales (auto simp: InjectLogfwdToPod_def Changed_def intro!: lf_side.process_grown)

interpretation fs_grow: growing_mutation "InjectFlameshotToPod rules pq" for rules pq
  by unfold_locales (auto simp: InjectFlameshotToPod_def Changed_def intro!: fs_side.process_grown)

interpretation pf_grow: growing_mutation "InjectProfilerToPod rules pq" for rules pq
  by unfold_locales (auto simp: InjectProfilerToPod_def Changed_def intro!: pf_side.process_grown)

interpretation lg_grow: growing_mutation "MutateLoggingToPod decode rules" for decode rules
proof
  fix ns p q
  assume *: "MutateLoggingToPod decode rules ns p = Some (True, q)"
  then have q: "q = logging_process decode rules ns p" "q \<noteq> p"
    by (auto simp: MutateLoggingToPod_def Let_def Changed_def)
  then obtain s where "fmlookup (p_Annotations p) loggingAnnotationKey = None"
      "fmlookup (p_Annotations q) loggingAnnotationKey = Some s"
    by (cases rule: logging_cases [of decode rules ns p])
      (auto simp: injectAnnotationWithLog_def logging_shouldInject_def split: if_splits)
  moreover have "fmdom (p_Annotations p) |\<subseteq>| fmdom (p_Annotations q)" using pod_le_monotone [OF lg.extends [OF *]] by simp
  moreover have "fmdom (p_Annotations p) \<noteq> fmdom (p_Annotations q)"
    using \<open>fmlookup (p_Annotations p) _ = None\<close> \<open>fmlookup (p_Annotations q) _ = Some s\<close>
    by (metis fmdomI fmdom_notI)
  ultimately show "grown p q" by (auto simp: grown_def)
qed

interpretation chain2: chained "InjectTracingToPod dds ots pq" "InjectLogfwdToPod jd lfs pq" for dds ots pq jd lfs
  by unfold_locales

interpretation chain3: chained "and_then (InjectTracingToPod dds ots pq) (InjectLogfwdToPod jd lfs pq)"
    "InjectFlameshotToPod fls pq" for dds ots pq jd lfs fls
  by unfold_locales

interpretation chain4: chained "and_then (and_then (InjectTracingToPod dds ots pq) (InjectLogfwdToPod jd lfs pq))
    (InjectFlameshotToPod fls pq)" "InjectProfilerToPod prs pq" for dds ots pq jd lfs fls prs
  by unfold_locales

interpretation chain5: chained "and_then (and_then (and_then (InjectTracingToPod dds ots pq)
    (InjectLogfwdToPod jd lfs pq)) (InjectFlameshotToPod fls pq)) (InjectProfilerToPod prs pq)"
    "MutateLoggingToPod dec mus" for dds ots pq jd lfs fls prs dec mus
  by unfold_locales

interpretation mp: safe_mutation "mutatePod cfg wc" for cfg wc
proof
  fix ns p changed q
  assume *: "mutatePod cfg wc ns p = Some (changed, q)"
  show "pod_le p q"
    using * chain5.chain_extends by (fastforce simp: mutatePod_def mutation_chain_def split: if_splits)
  show "changed \<longleftrightarrow> p \<noteq> q"
    using * chain5.chain_reports by (fastforce simp: mutatePod_def mutation_chain_def split: if_splits)
next
  fix p ns changed q
  assume "wf_pod p" "mutatePod cfg wc ns p = Some (changed, q)"
  then show "wf_pod q"
    using chain5.chain_wf by (fastforce simp: mutatePod_def mutation_chain_def split: if_splits)
qed

lemma and_then_total:
  assumes "\<And>p. f ns p \<noteq> None" "\<And>p. g ns p \<noteq> None"
  shows "and_then f g ns p \<noteq> None"
proof -
  obtain c1 p1 where f: "f ns p = Some (c1, p1)" using assms(1) [of p] by auto
  obtain c2 p2 where "g ns p1 = Some (c2, p2)" using assms(2) [of p1] by auto
  with f show ?thesis by (simp add: and_then_def)
qed

lemma mutatePod_total:
  assumes "inject_resources_ok (wc_quantity wc) (ac_Inject cfg)"
  shows "mutatePod cfg wc ns p \<noteq> None"
proof -
  have "mutation_chain cfg wc ns p \<noteq> None" for p unfolding mutation_chain_def
    by (intro and_then_total InjectTracing_total InjectLogfwd_total InjectFlameshot_total InjectProfiler_total
        MutateLogging_total) (use assms in \<open>simp_all add: inject_resources_ok_def\<close>)
  then show ?thesis unfolding mutatePod_def by (metis option.distinct(1))
qed

lemma mutateRequest_total:
  assumes "inject_resources_ok (wc_quantity wc) (ac_Inject cfg)"
  shows "\<exists>x. mutateRequest cfg wc requ = Some x \<and>
      (isl x \<longleftrightarrow> ar_Resource requ \<noteq> podResource \<or> isl (wc_pod wc (ar_Object requ)))"
proof (cases "wc_pod wc (ar_Object requ)")
  case (Inr p)
  have "\<exists>changed q. mutatePod cfg wc (ar_Namespace requ) p = Some (changed, q)"
    using mutatePod_total [OF assms, of "ar_Namespace requ" p] by auto
  then show ?thesis using Inr by (auto simp: mutateRequest_def)
qed (simp add: mutateRequest_def)

section \<open>A configuration for examples\<close>

definition example_codecs :: webhook_codecs where
  "example_codecs = \<lparr>wc_quantity = example_quantity, wc_json = example_json, wc_logs = \<lambda>_. None,
     wc_pod = \<lambda>_. Inr example_pod\<rparr>"

definition example_config :: admission_config where
  "example_config = \<lparr>ac_Inject = \<lparr>ai_DDTraces = [], ai_OTels = [Some example_otel],
     ai_Logfwds = [Some example_logfwd], ai_Flameshots = [], ai_Profilers = []\<rparr>, ac_Mutate = []\<rparr>"

definition example_request :: admission_request where
  "example_request = \<lparr>ar_UID = ''u'', ar_Resource = podResource, ar_Operation = ''CREATE'',
     ar_Namespace = ''default'', ar_Object = []\<rparr>"

lemma example_mutates: "\<exists>q. mutatePod example_config example_codecs ''default'' example_pod = Some (True, q)"
proof -
  have "map_option fst (mutatePod example_config example_codecs ''default'' example_pod) = Some True" by code_simp
  then show ?thesis by auto
qed

lemma example_resources_ok: "inject_resources_ok (wc_quantity example_codecs) (ac_Inject example_config)"
  by code_simp

lemma wf_example_pod: "wf_pod example_pod"
  by (simp add: wf_pod_def wf_with_def example_pod_def no_pod_def no_container_def mounts_in_def)

section \<open>Properties\<close>

text \<open>C1: the patch the webhook returns for a Pod, applied by RFC 6902 to the encoding of this Pod, gives exactly
  the encoding of the mutated Pod, which is again well formed (distinct names, every mount names a volume); it is
  the Pod itself unless the operation is CREATE.\<close>

theorem admission_patch_applies:
  assumes "mutateRequest cfg wc requ = Some (Inr patch)"
    and "wc_pod wc (ar_Object requ) = Inr p" "wf_pod p"
  shows "\<exists>q. apply_patch patch (enc_pod p) = Some (enc_pod q) \<and> wf_pod q \<and>
     (if ar_Operation requ = ''CREATE''
      then mutatePod cfg wc (ar_Namespace requ) p = Some (p \<noteq> q, q) \<and>
           patch = buildPodInjectionPatch (Some p) (Some q)
      else q = p \<and> patch = [])"
proof (cases "ar_Operation requ = ''CREATE''")
  case True
  then obtain changed q where q: "mutatePod cfg wc (ar_Namespace requ) p = Some (changed, q)"
      "patch = buildPodInjectionPatch (Some p) (Some q)"
    using assms(1,2) by (auto simp: mutateRequest_def split: if_split_asm option.split_asm)
  have "distinct (map c_Name (p_Containers p))" using assms(3) by (simp add: wf_pod_def wf_with_def)
  then have "apply_patch patch (enc_pod p) = Some (enc_pod q)"
    using q(2) patch_correct [OF mp.extends [OF q(1)]] by simp
  then show ?thesis using True q mp.keeps_wf [OF assms(3) q(1)] mp.reports [OF q(1)] by auto
next
  case False
  then have "patch = []" using assms(1,2) by (auto simp: mutateRequest_def split: if_split_asm)
  then show ?thesis using False assms(3) by (simp add: apply_patch_def)
qed

lemma admission_patch_applies_witness:
  "\<exists>patch q. mutateRequest example_config example_codecs example_request = Some (Inr patch) \<and>
     apply_patch patch (enc_pod example_pod) = Some (enc_pod q) \<and> q \<noteq> example_pod"
proof -
  obtain q where q: "mutatePod example_config example_codecs ''default'' example_pod = Some (True, q)"
    using example_mutates by blast
  have r: "ar_Operation example_request = ''CREATE''" "ar_Namespace example_request = ''default''"
    by (simp_all add: example_request_def)
  have p: "wc_pod example_codecs (ar_Object example_request) = Inr example_pod" by (simp add: example_codecs_def)
  have "mutateRequest example_config example_codecs example_request =
      Some (Inr (buildPodInjectionPatch (Some example_pod) (Some q)))"
    using q r p by (simp add: mutateRequest_def) (simp add: example_request_def)
  from admission_patch_applies [OF this p wf_example_pod] show ?thesis
    using q r \<open>mutateRequest _ _ _ = _\<close> by auto
qed

text \<open>With a configuration whose resource strings parse, which loading ensures, a review is always answered:
  the response carries the request's UID, always admits the Pod, and holds either a JSON patch or the reason why there
  is none, the latter exactly when the resource is not a Pod or its object cannot be decoded.\<close>

theorem review_always_admits:
  assumes "inject_resources_ok (wc_quantity wc) (ac_Inject cfg)"
  shows "\<exists>r. review_response cfg wc requ = Some r \<and> rs_UID r = ar_UID requ \<and> rs_Allowed r \<and>
     (rs_PatchType r = Some ''JSONPatch'' \<longleftrightarrow> rs_Patch r \<noteq> None) \<and>
     (rs_Patch r = None \<longleftrightarrow> rs_Result r \<noteq> None) \<and>
     (rs_Result r \<noteq> None \<longleftrightarrow> ar_Resource requ \<noteq> podResource \<or> isl (wc_pod wc (ar_Object requ)))"
proof -
  obtain x where x: "mutateRequest cfg wc requ = Some x"
      "isl x \<longleftrightarrow> ar_Resource requ \<noteq> podResource \<or> isl (wc_pod wc (ar_Object requ))"
    using mutateRequest_total [OF assms] by blast
  show ?thesis using x(2)
    by (cases x) (simp_all add: review_response_def mutationResponsev1_def x(1))
qed

lemma review_always_admits_witness:
  "\<exists>r. review_response example_config example_codecs example_request = Some r \<and> rs_Allowed r"
  using review_always_admits [OF example_resources_ok, of example_request] by blast

text \<open>C3: what the webhook may change.  The reported flag is exactly whether the Pod differs, and a Pod annotated
  against the webhook is left alone.  Otherwise labels, names and every field not listed here are unchanged; an annotation
  is changed only by adding one of the six the operator writes where it was absent; restart policy and process namespace
  are unchanged or become \<open>Always\<close> and shared; volumes and init containers are only appended, under new names, and
  so are containers.  Every container of the Pod stays at its place with everything but its environment and its mounts,
  which are only appended under new names.  In its environment no variable is lost, and the variables other than the six
  that the tracing libraries extend keep their values and their order, before any added one.\<close>

theorem mutatePod_conservative:
  assumes "mutatePod cfg wc ns p = Some (changed, q)"
  shows "(changed \<longleftrightarrow> q \<noteq> p) \<and> (\<not> shouldInject (p_Annotations p) \<longrightarrow> q = p) \<and>
     q = p\<lparr>p_Annotations := p_Annotations q, p_Volumes := p_Volumes q, p_InitContainers := p_InitContainers q,
       p_Containers := p_Containers q, p_RestartPolicy := p_RestartPolicy q,
       p_ShareProcessNamespace := p_ShareProcessNamespace q\<rparr> \<and>
     (\<forall>k. fmlookup (p_Annotations q) k = fmlookup (p_Annotations p) k \<or> fmlookup (p_Annotations p) k = None \<and>
        k \<in> {''datakit/logs'', ''prometheus.io/scrape'', ''prometheus.io/port'', ''prometheus.io/scheme'',
          ''prometheus.io/path'', ''prometheus.io/param_measurement''}) \<and>
     (p_RestartPolicy q = p_RestartPolicy p \<and> p_ShareProcessNamespace q = p_ShareProcessNamespace p \<or>
      p_RestartPolicy q = ''Always'' \<and> p_ShareProcessNamespace q = Some True) \<and>
     length (p_Containers p) \<le> length (p_Containers q) \<and>
     (\<forall>i < length (p_Containers p). let c = p_Containers p ! i; d = p_Containers q ! i in
        d = c\<lparr>c_Env := c_Env d, c_VolumeMounts := c_VolumeMounts d\<rparr> \<and>
        names ev_Name (c_Env c) \<subseteq> names ev_Name (c_Env d) \<and>
        prefix (filter own_variable (c_Env c)) (filter own_variable (c_Env d)) \<and>
        named_append vm_Name (c_VolumeMounts c) (c_VolumeMounts d)) \<and>
     (\<forall>d \<in> set (drop (length (p_Containers p)) (p_Containers q)). c_Name d \<notin> names c_Name (p_Containers p)) \<and>
     named_append v_Name (p_Volumes p) (p_Volumes q) \<and>
     named_append c_Name (p_InitContainers p) (p_InitContainers q)"
proof -
  have le: "pod_le p q" by (rule mp.extends [OF assms])
  then have g: "grows container_le (p_Containers p) (p_Containers q)" by (simp add: pod_le_def containers_le_def)
  have "container_le (p_Containers p ! i) (p_Containers q ! i)" if "i < length (p_Containers p)" for i
    using g that by (auto dest: grows_nthD)
  moreover have "\<not> shouldInject (p_Annotations p) \<longrightarrow> q = p" using assms by (auto simp: mutatePod_def)
  moreover have "changed \<longleftrightarrow> q \<noteq> p" using mp.reports [OF assms] by blast
  ultimately show ?thesis
    using le [unfolded pod_le_def containers_le_def annotations_le_def written_annotations_def] grows_lengthD [OF g]
    by (simp add: container_le_def env_le_def Let_def)
qed

lemma mutatePod_conservative_witness:
  "\<exists>q. mutatePod example_config example_codecs ''default'' example_pod = Some (True, q) \<and> q \<noteq> example_pod \<and>
     named_append v_Name (p_Volumes example_pod) (p_Volumes q)"
  using example_mutates mutatePod_conservative by blast

text \<open>C27: each sidecar injection and the logging mutation is idempotent: on its own result it changes nothing.\<close>

theorem sidecars_idempotent:
  "(InjectLogfwdToPod jd lfs pq ns p = Some (ca, qa) \<longrightarrow> InjectLogfwdToPod jd lfs pq ns qa = Some (False, qa)) \<and>
   (InjectFlameshotToPod fls pq ns p = Some (cb, qb) \<longrightarrow> InjectFlameshotToPod fls pq ns qb = Some (False, qb)) \<and>
   (InjectProfilerToPod prs pq ns p = Some (cc, qc) \<longrightarrow> InjectProfilerToPod prs pq ns qc = Some (False, qc)) \<and>
   (MutateLoggingToPod dec mus ns p = Some (cd, qd) \<longrightarrow> MutateLoggingToPod dec mus ns qd = Some (False, qd))"
  by (simp add: InjectLogfwd_again InjectFlameshot_again InjectProfiler_again MutateLogging_again)

lemma sidecars_idempotent_witness:
  "\<exists>q1 q2 q3. InjectLogfwdToPod example_json [Some example_logfwd] example_quantity ''default'' q1 = Some (False, q1) \<and>
     ContainsContainer logfwdContainerName q1 \<and>
     InjectFlameshotToPod [Some example_flameshot] example_quantity ''default'' q2 = Some (False, q2) \<and>
     InjectProfilerToPod [Some example_profiler] example_quantity ''default'' q3 = Some (False, q3)"
proof -
  obtain q1 where q1: "InjectLogfwdToPod example_json [Some example_logfwd] example_quantity ''default'' example_pod =
      Some (True, q1)" using example_logfwd_changes by blast
  obtain q2 where q2: "InjectFlameshotToPod [Some example_flameshot] example_quantity ''default'' example_pod =
      Some (True, q2)" using example_flameshot_changes by blast
  obtain q3 where q3: "InjectProfilerToPod [Some example_profiler] example_quantity ''default'' example_pod =
      Some (True, q3)" using example_profiler_changes by blast
  have "ContainsContainer logfwdContainerName q1"
    using q1 by (auto simp: InjectLogfwdToPod_def Changed_def elim: lf_side.process_changed)
  then show ?thesis using q1 q2 q3
      sidecars_idempotent [where jd = example_json and lfs = "[Some example_logfwd]" and pq = example_quantity
        and ns = "''default''" and p = example_pod and ca = True and qa = q1
        and fls = "[Some example_flameshot]" and cb = True and qb = q2
        and prs = "[Some example_profiler]" and cc = True and qc = q3] by blast
qed

text \<open>An example: the whole chain is not idempotent.  On the second call OpenTelemetry finds the log sidecar that the first
  call added after it, and instruments it like an application container.\<close>

lemma reinvocation_instruments_sidecars:
  "\<exists>cfg wc p q r. inject_resources_ok (wc_quantity wc) (ac_Inject cfg) \<and> wf_pod p \<and>
     mutatePod cfg wc ''default'' p = Some (True, q) \<and> mutatePod cfg wc ''default'' q = Some (True, r) \<and>
     list_ex (\<lambda>c. c_Name c = logfwdContainerName \<and> otelPythonPathKey \<notin> names ev_Name (c_Env c)) (p_Containers q) \<and>
     list_ex (\<lambda>c. c_Name c = logfwdContainerName \<and> otelPythonPathKey \<in> names ev_Name (c_Env c)) (p_Containers r)"
proof -
  obtain q where q: "mutatePod example_config example_codecs ''default'' example_pod = Some (True, q)"
    using example_mutates by blast
  let ?test = "\<lambda>f p. list_ex (\<lambda>c. c_Name c = logfwdContainerName \<and> f (list_ex (\<lambda>e. ev_Name e = otelPythonPathKey) (c_Env c)))
      (p_Containers p)"
  have "case mutatePod example_config example_codecs ''default'' example_pod of None \<Rightarrow> False
     | Some (_, q) \<Rightarrow> ?test Not q \<and>
        (case mutatePod example_config example_codecs ''default'' q of None \<Rightarrow> False
         | Some (c, r) \<Rightarrow> c \<and> ?test (\<lambda>b. b) r)"
    by code_simp
  then obtain r where "?test Not q" "mutatePod example_config example_codecs ''default'' q = Some (True, r)"
      "?test (\<lambda>b. b) r"
    using q by (auto split: option.splits)
  then show ?thesis using q example_resources_ok wf_example_pod unfolding names_iff_ex by blast
qed

text \<open>What the handler reads from a JSON request.\<close>

definition json_body ::
  "(string \<Rightarrow> string + decoded_object \<times> group_version_kind) \<Rightarrow> string \<Rightarrow> string option \<Rightarrow>
   (string + decoded_object \<times> group_version_kind) option" where
  "json_body decode contentType body = (if contentType = ''application/json'' then map_option decode body else None)"

text \<open>C29: the HTTP handler panics exactly on an admission.k8s.io/v1 AdmissionReview without a request.  On one with a request
  it computes the response to that request, which allows it and carries its UID, and answers 200 with the marshalled
  response, or 500 with the error when it cannot be marshalled, and nothing else.  It answers 400 exactly when there is no such review:
  with the decoder's error for an undecodable body, naming the kind for another kind, and with no text for a wrong content
  type, an unreadable body or an object of another Go type.\<close>

theorem HandleInject_statuses:
  assumes "inject_resources_ok (wc_quantity wc) (ac_Inject cfg)"
  shows "(HandleInject cfg wc decode show_kind marshal contentType body = None \<longleftrightarrow>
       json_body decode contentType body = Some (Inr (AdmissionReview None, admissionReviewKind))) \<and>
     (\<forall>requ. json_body decode contentType body = Some (Inr (AdmissionReview (Some requ), admissionReviewKind)) \<longrightarrow>
        (\<exists>r. review_response cfg wc requ = Some r \<and> rs_Allowed r \<and> rs_UID r = ar_UID requ \<and>
           HandleInject cfg wc decode show_kind marshal contentType body =
             Some (case marshal r of Inl err \<Rightarrow> \<lparr>hr_Status = 500, hr_Body = TextBody err\<rparr>
               | Inr text \<Rightarrow> \<lparr>hr_Status = 200, hr_Body = DataBody text\<rparr>))) \<and>
     ((\<exists>text. HandleInject cfg wc decode show_kind marshal contentType body = Some \<lparr>hr_Status = 400, hr_Body = text\<rparr>) \<longleftrightarrow>
        (\<nexists>review. json_body decode contentType body = Some (Inr (AdmissionReview review, admissionReviewKind)))) \<and>
     (\<forall>err. json_body decode contentType body = Some (Inl err) \<longrightarrow>
        HandleInject cfg wc decode show_kind marshal contentType body =
          Some \<lparr>hr_Status = 400, hr_Body = TextBody (''Request could not be decoded: '' @ err)\<rparr>) \<and>
     (\<forall>obj gvk. json_body decode contentType body = Some (Inr (obj, gvk)) \<longrightarrow> gvk \<noteq> admissionReviewKind \<longrightarrow>
        HandleInject cfg wc decode show_kind marshal contentType body =
          Some \<lparr>hr_Status = 400, hr_Body = TextBody (''unsupported_gvk='' @ show_kind gvk)\<rparr>) \<and>
     (json_body decode contentType body = None \<longrightarrow>
        HandleInject cfg wc decode show_kind marshal contentType body = Some \<lparr>hr_Status = 400, hr_Body = NoBody\<rparr>)"
proof (cases "\<exists>requ. json_body decode contentType body = Some (Inr (AdmissionReview (Some requ), admissionReviewKind))")
  case True
  then obtain bytes requ where b: "contentType = ''application/json''" "body = Some bytes"
      "decode bytes = Inr (AdmissionReview (Some requ), admissionReviewKind)"
    by (auto simp: json_body_def split: if_splits)
  obtain x where x: "mutateRequest cfg wc requ = Some x" using mutateRequest_total [OF assms] by blast
  define r where "r = (mutationResponsev1 x)\<lparr>rs_UID := ar_UID requ\<rparr>"
  have r: "review_response cfg wc requ = Some r" "rs_Allowed r" "rs_UID r = ar_UID requ"
    by (simp_all add: r_def x review_response_def mutationResponsev1_def split: sum.split)
  show ?thesis by (cases "marshal r") (simp_all add: HandleInject_def json_body_def b r)
next
  case False
  then show ?thesis
    by (auto simp: HandleInject_def json_body_def split: option.splits sum.splits decoded_object.splits)
qed

lemma HandleInject_statuses_witness:
  "\<exists>h. HandleInject example_config example_codecs (\<lambda>_. Inr (AdmissionReview (Some example_request), admissionReviewKind))
      (\<lambda>_. []) (\<lambda>_. Inr ''review'') ''application/json'' (Some []) = Some h \<and> hr_Status h = 200 \<and> hr_Body h = DataBody ''review''"
  using HandleInject_statuses [OF example_resources_ok,
      where decode = "\<lambda>_. Inr (AdmissionReview (Some example_request), admissionReviewKind)"
        and show_kind = "\<lambda>_. []" and marshal = "\<lambda>_. Inr ''review''" and contentType = "''application/json''" and body = "Some []"]
  by (auto simp: json_body_def)

text \<open>A Pod handed through several calls of the webhook, each with its own configuration and namespace, as when
  the API server calls a webhook again after another one changed the Pod.\<close>

fun admissions :: "webhook_codecs \<Rightarrow> (admission_config \<times> string) list \<Rightarrow> pod \<Rightarrow> pod option" where
  "admissions wc [] p = Some p"
| "admissions wc ((cfg, ns) # calls) p =
     (case mutatePod cfg wc ns p of None \<Rightarrow> None | Some (_, q) \<Rightarrow> admissions wc calls q)"

text \<open>C4: well-formed Pods are the type of the webhook: distinct names of volumes, init containers and containers, and
  every mount naming a volume of the Pod.  With loaded configurations any number of calls returns, without a panic, a Pod
  which is well formed again and which differs from the first one only as one call may change a Pod (\<open>pod_le\<close>).\<close>

theorem admissions_well_formed:
  assumes "\<forall>(cfg, _) \<in> set calls. inject_resources_ok (wc_quantity wc) (ac_Inject cfg)" "wf_pod p"
  shows "\<exists>q. admissions wc calls p = Some q \<and> wf_pod q \<and> pod_le p q"
  using assms
proof (induction calls arbitrary: p)
  case (Cons call calls)
  obtain cfg ns where call: "call = (cfg, ns)" by (cases call)
  obtain changed q where q: "mutatePod cfg wc ns p = Some (changed, q)"
    using mutatePod_total [of wc cfg ns p] Cons.prems(1) call by auto
  obtain r where "admissions wc calls q = Some r" "wf_pod r" "pod_le q r"
    using Cons.IH [of q] Cons.prems mp.keeps_wf [OF Cons.prems(2) q] by auto
  then show ?case using call q pod_le_trans [OF mp.extends [OF q]] by auto
qed simp

lemma admissions_well_formed_witness:
  "\<exists>q. admissions example_codecs [(example_config, ''default''), (example_config, ''default'')] example_pod = Some q \<and> wf_pod q"
  using admissions_well_formed [of "[(example_config, ''default''), (example_config, ''default'')]" example_codecs example_pod]
    example_resources_ok wf_example_pod by auto

end
