(* ===== verification/Logging_Cache.thy ===== *)
theory Logging_Cache
  imports Labels_Parser
begin

text \<open>
  The cache of logging configurations (\<open>apis/logging/config/cache.go\<close>) and its HTTP handler
  (\<open>apis/logging/handle.go\<close>).  The cache is the ordered list of compiled configurations.
  \<open>regexp.Compile\<close>, the glob compiler of label selectors and the marshalling of the log
  configurations are parameters; \<open>None\<close> is their error.
\<close>

section \<open>The custom resource\<close>

record logging_selector =
  ls_NamespaceRegex :: string
  ls_PodRegex :: string
  ls_PodLabelSelector :: string
  ls_ContainerRegex :: string

text \<open>The log configurations of the resource are only marshalled, so here they are a type parameter;
  \<open>Logging_Resource\<close> has the configurations of the custom resource.\<close>

record 'c logging_config =
  lg_Selector :: logging_selector
  lg_PodTargetLabels :: "string list"
  lg_Configs :: 'c

record 'c logging_codecs =
  lk_regex :: "string \<Rightarrow> (string \<Rightarrow> bool) option"
  lk_glob :: "string \<Rightarrow> (string \<Rightarrow> bool) option"
  lk_marshal :: "'c \<Rightarrow> string option"

section \<open>The cache\<close>

record cached_config =
  cc_name :: string
  cc_podTargetLabels :: "string list"
  cc_configs :: string
  cc_namespaceRegex :: "(string \<Rightarrow> bool) option"
  cc_podRegex :: "(string \<Rightarrow> bool) option"
  cc_podLabelSelector :: "selector option"

definition compile_regex :: "(string \<Rightarrow> (string \<Rightarrow> bool) option) \<Rightarrow> string \<Rightarrow> (string \<Rightarrow> bool) option" where
  "compile_regex compile s = (if s \<noteq> [] then compile s else None)"

definition compile_selector :: "(string \<Rightarrow> (string \<Rightarrow> bool) option) \<Rightarrow> string \<Rightarrow> selector option" where
  "compile_selector glob s = (if s \<noteq> [] then (case Parse glob s of POk sel _ \<Rightarrow> Some sel | _ \<Rightarrow> None) else None)"

text \<open>The compiled form of a resource, or \<open>None\<close> when its configurations cannot be marshalled.\<close>

definition compile_config :: "'c logging_codecs \<Rightarrow> string \<Rightarrow> 'c logging_config \<Rightarrow> cached_config option" where
  "compile_config k name config =
     (case lk_marshal k (lg_Configs config) of
        None \<Rightarrow> None
      | Some configsJSON \<Rightarrow>
          let sel = lg_Selector config
          in Some \<lparr>cc_name = name, cc_podTargetLabels = lg_PodTargetLabels config, cc_configs = configsJSON,
               cc_namespaceRegex = compile_regex (lk_regex k) (ls_NamespaceRegex sel),
               cc_podRegex = compile_regex (lk_regex k) (ls_PodRegex sel),
               cc_podLabelSelector = compile_selector (lk_glob k) (ls_PodLabelSelector sel)\<rparr>)"

text \<open>The loops over the list: the first entry of the name is replaced, or the new one appended; the first
  entry of the name is removed.\<close>

fun put_config :: "cached_config \<Rightarrow> cached_config list \<Rightarrow> cached_config list" where
  "put_config cached [] = [cached]"
| "put_config cached (existing # rest) =
     (if cc_name existing = cc_name cached then cached # rest else existing # put_config cached rest)"

fun removeConfig :: "string \<Rightarrow> cached_config list \<Rightarrow> cached_config list" where
  "removeConfig name [] = []"
| "removeConfig name (cached # rest) =
     (if cc_name cached = name then rest else cached # removeConfig name rest)"

definition addOrUpdateConfig ::
  "'c logging_codecs \<Rightarrow> string \<Rightarrow> 'c logging_config \<Rightarrow> cached_config list \<Rightarrow> cached_config list" where
  "addOrUpdateConfig k name config configs =
     (case compile_config k name config of None \<Rightarrow> configs | Some cached \<Rightarrow> put_config cached configs)"

section \<open>Matching\<close>

text \<open>Pairs with other than one equals sign are skipped; the last pair of a key wins.\<close>

definition parseLabels :: "string \<Rightarrow> go_map" where
  "parseLabels s =
     (if s = [] then fmempty
      else fold (\<lambda>part tags. case split_on (CHR ''='') part of
             [key, value] \<Rightarrow> fmupd key value tags | _ \<Rightarrow> tags)
           (split_on (CHR '','') s) fmempty)"

definition matchesSelector :: "cached_config \<Rightarrow> string \<Rightarrow> string \<Rightarrow> string \<Rightarrow> bool" where
  "matchesSelector cached namespace podName podLabels =
     (if (case cc_namespaceRegex cached of None \<Rightarrow> False | Some re \<Rightarrow> \<not> re namespace) then False
      else if (case cc_podRegex cached of None \<Rightarrow> False | Some re \<Rightarrow> \<not> re podName) then False
      else if podLabels \<noteq> [] \<and> (case cc_podLabelSelector cached of None \<Rightarrow> False
             | Some sel \<Rightarrow> \<not> selector_Matches sel (parseLabels podLabels)) then False
      else True)"

definition findMatchingConfigs ::
  "cached_config list \<Rightarrow> string \<Rightarrow> string \<Rightarrow> string \<Rightarrow> string \<times> string \<times> string list" where
  "findMatchingConfigs configs namespace podName podLabels =
     (case find (\<lambda>cached. matchesSelector cached namespace podName podLabels) configs of
        Some cached \<Rightarrow> (cc_name cached, cc_configs cached, cc_podTargetLabels cached)
      | None \<Rightarrow> ([], [], []))"

section \<open>The handler\<close>

record logging_response =
  lr_Name :: string
  lr_PodTargetLabels :: "string list"
  lr_Configs :: string
  lr_Error :: string

definition error_response :: "string \<Rightarrow> logging_response" where
  "error_response msg = \<lparr>lr_Name = [], lr_PodTargetLabels = [], lr_Configs = [], lr_Error = msg\<rparr>"

definition HandleConfigs ::
  "cached_config list \<Rightarrow> string \<Rightarrow> string \<Rightarrow> string \<Rightarrow> nat \<times> logging_response" where
  "HandleConfigs cache namespace podName podLabelsStr =
     (if namespace = [] \<or> podName = []
      then (400, error_response ''namespace, pod_name parameters are required'')
      else let (name, configs, podTargetLabels) = findMatchingConfigs cache namespace podName podLabelsStr
           in if configs = [] then (404, error_response ''no matching config found'')
              else (200, \<lparr>lr_Name = name, lr_PodTargetLabels = podTargetLabels, lr_Configs = configs, lr_Error = []\<rparr>))"

datatype rbac_error = RbacMissing | RbacNotFound | RbacCannotList | RbacClientNil

datatype list_outcome = ListOk | ListForbidden | ListUnauthorized | ListNotFound | ListFailed

text \<open>The answer of the probing List call, when the client exists.\<close>

definition CheckClusterLoggingConfigRBAC :: "list_outcome option \<Rightarrow> rbac_error option" where
  "CheckClusterLoggingConfigRBAC answer =
     (case answer of
        None \<Rightarrow> Some RbacClientNil
      | Some e \<Rightarrow> if e = ListForbidden \<or> e = ListUnauthorized then Some RbacMissing
                  else if e = ListNotFound then Some RbacNotFound
                  else if e \<noteq> ListOk then Some RbacCannotList
                  else None)"

section \<open>The cache as a keyed store\<close>

text \<open>What the watcher needs of the cache: a store of entries by name, one entry a name.\<close>

locale keyed_store =
  fixes entry_name :: "'v \<Rightarrow> string"
    and lookup :: "'s \<Rightarrow> string \<Rightarrow> 'v option"
    and put :: "'v \<Rightarrow> 's \<Rightarrow> 's"
    and del :: "string \<Rightarrow> 's \<Rightarrow> 's"
    and valid :: "'s \<Rightarrow> bool"
  assumes lookup_put: "valid s \<Longrightarrow> lookup (put v s) n = (if n = entry_name v then Some v else lookup s n)"
    and lookup_del: "valid s \<Longrightarrow> lookup (del m s) n = (if n = m then None else lookup s n)"
    and valid_put: "valid s \<Longrightarrow> valid (put v s)"
    and valid_del: "valid s \<Longrightarrow> valid (del m s)"
begin

text \<open>Bringing one name up to date with a source: the entry it has there, or none.\<close>

definition reflect :: "string \<Rightarrow> 'v option \<Rightarrow> 's \<Rightarrow> 's" where
  "reflect n v s = (case v of None \<Rightarrow> del n s | Some x \<Rightarrow> put x s)"

lemma valid_reflect: "valid s \<Longrightarrow> valid (reflect n v s)"
  by (auto simp: reflect_def valid_put valid_del split: option.splits)

lemma lookup_reflect:
  "\<lbrakk>valid s; \<And>x. v = Some x \<Longrightarrow> entry_name x = n\<rbrakk> \<Longrightarrow>
   lookup (reflect n v s) m = (if m = n then v else lookup s m)"
  by (auto simp: reflect_def lookup_put lookup_del split: option.splits)

lemma put_del_lookup: "valid s \<Longrightarrow> lookup (del (entry_name v) (put v s)) n =
    (if n = entry_name v then None else lookup s n)"
  by (simp add: lookup_put lookup_del valid_put)

end

definition lookup_config :: "cached_config list \<Rightarrow> string \<Rightarrow> cached_config option" where
  "lookup_config configs name = find (\<lambda>c. cc_name c = name) configs"

definition distinct_names :: "cached_config list \<Rightarrow> bool" where
  "distinct_names configs \<longleftrightarrow> distinct (map cc_name configs)"

lemma put_names: "map cc_name (put_config c cs) =
    (if cc_name c \<in> set (map cc_name cs) then map cc_name cs else map cc_name cs @ [cc_name c])"
  by (induction cs) auto

lemma remove_names: "distinct (map cc_name cs) \<Longrightarrow>
    map cc_name (removeConfig n cs) = filter (\<lambda>m. m \<noteq> n) (map cc_name cs)"
  by (induction cs) (auto intro!: filter_True [symmetric])

lemma find_absent: "n \<notin> cc_name ` set cs \<Longrightarrow> find (\<lambda>c. cc_name c = n) cs = None"
  by (auto simp: find_None_iff)

interpretation cc: keyed_store cc_name lookup_config put_config removeConfig distinct_names
proof
  show "lookup_config (put_config v s) n = (if n = cc_name v then Some v else lookup_config s n)" for s v n
    unfolding lookup_config_def by (induction s) auto
  show "distinct_names s \<Longrightarrow> lookup_config (removeConfig m s) n = (if n = m then None else lookup_config s n)" for s m n
    unfolding lookup_config_def distinct_names_def by (induction s) (auto simp: find_absent)
  show "distinct_names s \<Longrightarrow> distinct_names (put_config v s)" for s v
    by (simp add: distinct_names_def put_names)
  show "distinct_names s \<Longrightarrow> distinct_names (removeConfig m s)" for s m
    by (simp add: distinct_names_def remove_names)
qed

section \<open>Properties\<close>

text \<open>Storing a configuration under a name and looking the name up gives its compiled form, at the position the
  name had (or at the end); no other name is affected, names stay distinct, and removing the name undoes the
  storing of a new one.\<close>

theorem cache_store_lookup:
  assumes "distinct_names cache" "compile_config k name config = Some cached"
  defines "cache' \<equiv> addOrUpdateConfig k name config cache"
  shows "lookup_config cache' name = Some cached \<and> distinct_names cache' \<and>
     (\<forall>n. n \<noteq> name \<longrightarrow> lookup_config cache' n = lookup_config cache n) \<and>
     map cc_name cache' = (if lookup_config cache name = None then map cc_name cache @ [name] else map cc_name cache) \<and>
     lookup_config (removeConfig name cache') name = None \<and>
     (lookup_config cache name = None \<longrightarrow> removeConfig name cache' = cache)"
proof -
  have n: "cc_name cached = name" using assms(2) by (auto simp: compile_config_def Let_def split: option.splits)
  have c: "cache' = put_config cached cache" using assms(2) by (simp add: cache'_def addOrUpdateConfig_def)
  have a: "lookup_config cache name = None \<longleftrightarrow> name \<notin> set (map cc_name cache)"
    by (auto simp: lookup_config_def find_None_iff)
  have "name \<notin> set (map cc_name cs) \<Longrightarrow> removeConfig name (put_config cached cs) = cs" for cs
    using n by (induction cs) auto
  then show ?thesis using n a assms(1)
    by (simp add: c cc.lookup_put cc.lookup_del cc.valid_put put_names)
qed

definition example_entry :: cached_config where
  "example_entry = \<lparr>cc_name = ''a'', cc_podTargetLabels = [], cc_configs = ''[]'', cc_namespaceRegex = None,
     cc_podRegex = None, cc_podLabelSelector = None\<rparr>"

lemma cache_store_lookup_witness:
  "\<exists>k cached. compile_config (k :: string logging_codecs) ''b'' \<lparr>lg_Selector = \<lparr>ls_NamespaceRegex = [], ls_PodRegex = [],
       ls_PodLabelSelector = [], ls_ContainerRegex = []\<rparr>, lg_PodTargetLabels = [], lg_Configs = ''[]''\<rparr> = Some cached \<and>
     lookup_config (addOrUpdateConfig k ''b'' \<lparr>lg_Selector = \<lparr>ls_NamespaceRegex = [], ls_PodRegex = [],
       ls_PodLabelSelector = [], ls_ContainerRegex = []\<rparr>, lg_PodTargetLabels = [], lg_Configs = ''[]''\<rparr> [example_entry])
       ''b'' = Some cached"
proof -
  let ?k = "\<lparr>lk_regex = \<lambda>_. None, lk_glob = \<lambda>_. None, lk_marshal = Some\<rparr> :: string logging_codecs"
  let ?c = "\<lparr>lg_Selector = \<lparr>ls_NamespaceRegex = [], ls_PodRegex = [], ls_PodLabelSelector = [], ls_ContainerRegex = []\<rparr>,
    lg_PodTargetLabels = [], lg_Configs = ''[]''\<rparr>"
  obtain cached where c: "compile_config ?k ''b'' ?c = Some cached" by (simp add: compile_config_def Let_def)
  have "distinct_names [example_entry]" by (simp add: distinct_names_def)
  from cache_store_lookup [OF this c] c show ?thesis by blast
qed

text \<open>The handler answers 400 exactly when a parameter is missing, 200 exactly with the first configuration of
  the cache whose selector matches (if it has a text), and 404 otherwise; an error text comes exactly with 400 and 404.\<close>

theorem HandleConfigs_spec:
  "case HandleConfigs cache namespace podName podLabels of (status, r) \<Rightarrow>
     status \<in> {200, 400, 404} \<and> (status = 400 \<longleftrightarrow> namespace = [] \<or> podName = []) \<and>
     (status = 200 \<longleftrightarrow> lr_Error r = []) \<and>
     (status = 200 \<longleftrightarrow> namespace \<noteq> [] \<and> podName \<noteq> [] \<and>
        (\<exists>earlier c later. cache = earlier @ c # later \<and> matchesSelector c namespace podName podLabels \<and>
           \<not> list_ex (\<lambda>e. matchesSelector e namespace podName podLabels) earlier \<and> cc_configs c \<noteq> [] \<and>
           r = \<lparr>lr_Name = cc_name c, lr_PodTargetLabels = cc_podTargetLabels c, lr_Configs = cc_configs c, lr_Error = []\<rparr>))"
proof (cases "find (\<lambda>c. matchesSelector c namespace podName podLabels) cache")
  case None
  then have no: "\<not> matchesSelector c namespace podName podLabels" if "c \<in> set cache" for c
    using that by (auto simp: find_None_iff)
  then show ?thesis using None
    by (auto simp: HandleConfigs_def findMatchingConfigs_def error_response_def)
next
  case (Some c)
  then obtain i where i: "i < length cache" "matchesSelector (cache ! i) namespace podName podLabels" "c = cache ! i"
      "\<forall>j < i. \<not> matchesSelector (cache ! j) namespace podName podLabels"
    by (auto simp: find_Some_iff)
  have split: "cache = take i cache @ c # drop (Suc i) cache" using i(1,3) by (simp add: id_take_nth_drop)
  have earlier: "\<not> list_ex (\<lambda>e. matchesSelector e namespace podName podLabels) (take i cache)"
    using i(1,4) by (auto simp: list_ex_iff in_set_conv_nth)
  have first: "c' = c" if "cache = es @ c' # ls" "matchesSelector c' namespace podName podLabels"
      "\<not> list_ex (\<lambda>e. matchesSelector e namespace podName podLabels) es" for es c' ls
  proof -
    have "find (\<lambda>c. matchesSelector c namespace podName podLabels) es = None"
      using that(3) by (auto simp: find_None_iff list_ex_iff)
    then show ?thesis using Some that(1,2) by (simp add: find_append)
  qed
  show ?thesis
  proof (cases "namespace = [] \<or> podName = [] \<or> cc_configs c = []")
    case True
    then show ?thesis using Some first
      by (auto simp: HandleConfigs_def findMatchingConfigs_def error_response_def)
  next
    case False
    then have "HandleConfigs cache namespace podName podLabels =
        (200, \<lparr>lr_Name = cc_name c, lr_PodTargetLabels = cc_podTargetLabels c, lr_Configs = cc_configs c, lr_Error = []\<rparr>)"
      using Some by (simp add: HandleConfigs_def findMatchingConfigs_def)
    then show ?thesis using False split earlier i(2,3) by auto
  qed
qed

text \<open>A configuration whose selector texts do not compile applies to every Pod: the failed constraint is
  dropped, not the configuration.\<close>

lemma uncompilable_selector_matches_all:
  assumes "lk_regex k re = None" "lk_marshal k c = Some text"
  shows "\<exists>cached. compile_config k name \<lparr>lg_Selector = \<lparr>ls_NamespaceRegex = re, ls_PodRegex = re,
         ls_PodLabelSelector = [], ls_ContainerRegex = []\<rparr>, lg_PodTargetLabels = ts, lg_Configs = c\<rparr> = Some cached \<and>
     matchesSelector cached namespace podName podLabels"
  using assms by (simp add: compile_config_def compile_regex_def compile_selector_def matchesSelector_def Let_def)

end
