(* ===== verification/Logging_Watcher.thy ===== *)
theory Logging_Watcher
  imports Logging_Cache
begin

text \<open>
  The watcher of logging configurations (\<open>apis/logging/config/crd_watcher.go\<close>) as a step relation.
  The informer changes its store and later notifies the handler, which enqueues the key; the single
  worker takes a key, reads the object and updates the cache.  Each step is one atomic action; the
  API server's changes may come between any two of them.  Of the delaying work queue the model uses
  what its documentation promises: a key added is handed out later, equal keys may be merged, and a
  key is handed out in no particular order.
\<close>

section \<open>State\<close>

text \<open>An object of the informer's store, which is a configuration unless the type assertion fails.\<close>

datatype 'c stored = StoredConfig "'c logging_config" | ForeignObject

text \<open>The worker: waiting, after \<open>Get\<close>, or after \<open>GetByKey\<close> with the object it returned.\<close>

datatype 'c worker = Idle | Taken string | Found string "'c stored option"

record 'c watcher =
  wt_store :: "string \<Rightarrow> 'c stored option"
  wt_notices :: "string list"
  wt_queue :: "string list"
  wt_worker :: "'c worker"
  wt_cache :: "cached_config list"
  wt_lost :: "string set"

definition watcher_start :: "'c watcher" where
  "watcher_start = \<lparr>wt_store = \<lambda>_. None, wt_notices = [], wt_queue = [], wt_worker = Idle, wt_cache = [],
     wt_lost = {}\<rparr>"

section \<open>Steps\<close>

text \<open>\<open>processNextItem\<close> after the read: delete, ignore a foreign object, or add or update.\<close>

definition apply_object ::
  "'c logging_codecs \<Rightarrow> string \<Rightarrow> 'c stored option \<Rightarrow> cached_config list \<Rightarrow> cached_config list" where
  "apply_object k key obj cache =
     (case obj of
        None \<Rightarrow> removeConfig key cache
      | Some ForeignObject \<Rightarrow> cache
      | Some (StoredConfig config) \<Rightarrow> addOrUpdateConfig k key config cache)"

definition enqueue :: "string \<Rightarrow> string list \<Rightarrow> string list" where
  "enqueue key queue = (if key \<in> set queue then queue else queue @ [key])"

datatype 'c action =
    Change string "'c stored option"
  | Notify
  | Get string
  | Read
  | ReadError
  | Apply

text \<open>An action is possible only in some states.  A failed read drops the key, which the history
  variable \<open>wt_lost\<close> records until the object changes again.\<close>

fun watcher_do :: "'c logging_codecs \<Rightarrow> 'c action \<Rightarrow> 'c watcher \<Rightarrow> 'c watcher option" where
  "watcher_do k (Change key obj) s =
     Some (s\<lparr>wt_store := (wt_store s)(key := obj), wt_notices := wt_notices s @ [key],
       wt_lost := wt_lost s - {key}\<rparr>)"
| "watcher_do k Notify s =
     (case wt_notices s of
        [] \<Rightarrow> None
      | key # rest \<Rightarrow> Some (s\<lparr>wt_notices := rest, wt_queue := enqueue key (wt_queue s)\<rparr>))"
| "watcher_do k (Get key) s =
     (case wt_worker s of
        Idle \<Rightarrow> if key \<in> set (wt_queue s)
          then Some (s\<lparr>wt_queue := removeAll key (wt_queue s), wt_worker := Taken key\<rparr>) else None
      | _ \<Rightarrow> None)"
| "watcher_do k Read s =
     (case wt_worker s of
        Taken key \<Rightarrow> Some (s\<lparr>wt_worker := Found key (wt_store s key)\<rparr>)
      | _ \<Rightarrow> None)"
| "watcher_do k ReadError s =
     (case wt_worker s of
        Taken key \<Rightarrow> Some (s\<lparr>wt_worker := Idle, wt_lost := insert key (wt_lost s)\<rparr>)
      | _ \<Rightarrow> None)"
| "watcher_do k Apply s =
     (case wt_worker s of
        Found key obj \<Rightarrow> Some (s\<lparr>wt_worker := Idle, wt_cache := apply_object k key obj (wt_cache s)\<rparr>)
      | _ \<Rightarrow> None)"

fun watcher_run :: "'c logging_codecs \<Rightarrow> 'c action list \<Rightarrow> 'c watcher \<Rightarrow> 'c watcher option" where
  "watcher_run k [] s = Some s"
| "watcher_run k (a # as) s = (case watcher_do k a s of None \<Rightarrow> None | Some t \<Rightarrow> watcher_run k as t)"

inductive watcher_reachable :: "'c logging_codecs \<Rightarrow> 'c watcher \<Rightarrow> bool" for k where
  reach_start: "watcher_reachable k watcher_start"
| reach_do: "\<lbrakk>watcher_reachable k s; watcher_do k a s = Some t\<rbrakk> \<Longrightarrow> watcher_reachable k t"

lemma reach_run: "\<lbrakk>watcher_reachable k s; watcher_run k as s = Some t\<rbrakk> \<Longrightarrow> watcher_reachable k t"
  by (induction as arbitrary: s) (auto split: option.splits intro: reach_do)

fun_cases watcher_doE:
  "watcher_do k (Change key obj) s = Some t" "watcher_do k Notify s = Some t" "watcher_do k (Get key) s = Some t"
  "watcher_do k Read s = Some t" "watcher_do k ReadError s = Some t" "watcher_do k Apply s = Some t"

section \<open>The invariant\<close>

text \<open>What the store promises of the cache: a deleted configuration has no entry, and one that
  can be marshalled has its compiled form.\<close>

definition expected :: "'c logging_codecs \<Rightarrow> string \<Rightarrow> 'c stored option \<Rightarrow> cached_config option \<Rightarrow> bool" where
  "expected k key obj entry \<longleftrightarrow>
     (case obj of
        None \<Rightarrow> entry = None
      | Some ForeignObject \<Rightarrow> True
      | Some (StoredConfig config) \<Rightarrow> (case compile_config k key config of None \<Rightarrow> True | Some c \<Rightarrow> entry = Some c))"

definition in_flight :: "'c watcher \<Rightarrow> string \<Rightarrow> bool" where
  "in_flight s key \<longleftrightarrow> key \<in> set (wt_notices s) \<or> key \<in> set (wt_queue s) \<or> wt_worker s = Taken key \<or>
     wt_worker s = Found key (wt_store s key) \<or> key \<in> wt_lost s"

definition watcher_inv :: "'c logging_codecs \<Rightarrow> 'c watcher \<Rightarrow> bool" where
  "watcher_inv k s \<longleftrightarrow> distinct_names (wt_cache s) \<and>
     (\<forall>key. expected k key (wt_store s key) (lookup_config (wt_cache s) key) \<or> in_flight s key) \<and>
     (\<forall>key obj. wt_worker s = Found key obj \<longrightarrow> obj = wt_store s key \<or> key \<in> set (wt_notices s) \<or> key \<in> set (wt_queue s))"

lemma compile_name: "compile_config k key config = Some c \<Longrightarrow> cc_name c = key"
  by (auto simp: compile_config_def Let_def split: option.splits)

lemma apply_object_distinct: "distinct_names cache \<Longrightarrow> distinct_names (apply_object k key obj cache)"
  by (auto simp: apply_object_def addOrUpdateConfig_def cc.valid_put cc.valid_del
      split: option.splits stored.splits)

lemma apply_object_other:
  "\<lbrakk>distinct_names cache; key' \<noteq> key\<rbrakk> \<Longrightarrow>
   lookup_config (apply_object k key obj cache) key' = lookup_config cache key'"
  by (auto simp: apply_object_def addOrUpdateConfig_def cc.lookup_put cc.lookup_del compile_name
      split: option.splits stored.splits)

lemma apply_object_expected:
  "distinct_names cache \<Longrightarrow> expected k key obj (lookup_config (apply_object k key obj cache) key)"
  by (auto simp: expected_def apply_object_def addOrUpdateConfig_def cc.lookup_put cc.lookup_del compile_name
      split: option.splits stored.splits)

lemma enqueue_set [simp]: "set (enqueue key queue) = insert key (set queue)"
  by (auto simp: enqueue_def)

lemma watcher_inv_step:
  assumes "watcher_inv k s" "watcher_do k a s = Some t"
  shows "watcher_inv k t"
proof (cases a)
  case Apply
  then obtain key obj where w: "wt_worker s = Found key obj"
      "t = s\<lparr>wt_worker := Idle, wt_cache := apply_object k key obj (wt_cache s)\<rparr>"
    using assms(2) by (auto split: worker.splits)
  have d: "distinct_names (wt_cache s)" using assms(1) by (simp add: watcher_inv_def)
  have "expected k x (wt_store t x) (lookup_config (wt_cache t) x) \<or> in_flight t x" for x
  proof (cases "x = key")
    case True
    have "obj = wt_store s key \<or> key \<in> set (wt_notices s) \<or> key \<in> set (wt_queue s)"
      using assms(1) w by (auto simp: watcher_inv_def)
    then show ?thesis using w True apply_object_expected [OF d, of k key obj] by (auto simp: in_flight_def)
  next
    case False
    have "expected k x (wt_store s x) (lookup_config (wt_cache s) x) \<or> in_flight s x"
      using assms(1) by (simp add: watcher_inv_def)
    then show ?thesis using w False by (auto simp: in_flight_def apply_object_other [OF d])
  qed
  then show ?thesis using w apply_object_distinct [OF d] by (simp add: watcher_inv_def)
qed (use assms in \<open>auto simp: watcher_inv_def in_flight_def split: list.splits worker.splits if_splits\<close>)

lemma watcher_reachable_inv: "watcher_reachable k s \<Longrightarrow> watcher_inv k s"
proof (induction rule: watcher_reachable.induct)
  case reach_start
  then show ?case
    by (simp add: watcher_inv_def watcher_start_def expected_def lookup_config_def distinct_names_def)
qed (rule watcher_inv_step)

section \<open>Progress\<close>

definition watcher_quiet :: "'c watcher \<Rightarrow> bool" where
  "watcher_quiet s \<longleftrightarrow> wt_notices s = [] \<and> wt_queue s = [] \<and> wt_worker s = Idle"

fun own_action :: "'c action \<Rightarrow> bool" where
  "own_action (Change key obj) = False"
| "own_action _ = True"

text \<open>How many actions the watcher can still take by itself.\<close>

definition work :: "'c watcher \<Rightarrow> nat" where
  "work s = 4 * length (wt_notices s) + 3 * length (wt_queue s) +
     (case wt_worker s of Idle \<Rightarrow> 0 | Taken _ \<Rightarrow> 2 | Found _ _ \<Rightarrow> 1)"

lemma work_decreases:
  assumes "watcher_do k a s = Some t" "own_action a"
  shows "work t < work s \<and> wt_store t = wt_store s"
proof (cases a)
  case (Get key)
  then have q: "wt_worker s = Idle" "key \<in> set (wt_queue s)"
      "t = s\<lparr>wt_queue := removeAll key (wt_queue s), wt_worker := Taken key\<rparr>"
    using assms(1) by (auto split: worker.splits if_splits)
  have "length (removeAll key (wt_queue s)) < length (wt_queue s)" using q(2) by (rule length_removeAll_less)
  then show ?thesis using q by (simp add: work_def)
qed (use assms in \<open>auto simp: work_def enqueue_def split: list.splits worker.splits\<close>)

lemma work_bounds_runs:
  "\<lbrakk>watcher_run k as s = Some t; list_all own_action as\<rbrakk> \<Longrightarrow>
   length as + work t \<le> work s \<and> wt_store t = wt_store s"
proof (induction as arbitrary: s)
  case (Cons a as)
  then obtain u where u: "watcher_do k a s = Some u" "watcher_run k as u = Some t"
    by (auto split: option.splits)
  have "work u < work s \<and> wt_store u = wt_store s" using work_decreases [OF u(1)] Cons.prems(2) by simp
  then show ?case using Cons.IH [OF u(2)] Cons.prems(2) by fastforce
qed simp

text \<open>Unless it is quiet, the watcher has an action to take that is not a failure.\<close>

lemma not_quiet_action:
  assumes "\<not> watcher_quiet s"
  obtains a t where "watcher_do k a s = Some t" "own_action a" "a \<noteq> ReadError" "wt_lost t = wt_lost s"
proof (cases "wt_worker s")
  case Idle
  show thesis
  proof (cases "wt_notices s")
    case Nil
    then obtain key rest where "wt_queue s = key # rest"
      using assms Idle by (cases "wt_queue s") (auto simp: watcher_quiet_def)
    then show thesis using that [of "Get key"] Idle by simp
  qed (use that [of Notify] in simp)
next
  case (Taken key)
  then show thesis using that [of Read] by simp
next
  case (Found key obj)
  then show thesis using that [of Apply] by simp
qed

lemma drains:
  "\<exists>as t. watcher_run k as s = Some t \<and> list_all own_action as \<and> watcher_quiet t \<and> wt_lost t = wt_lost s"
proof (induction "work s" arbitrary: s rule: less_induct)
  case less
  show ?case
  proof (cases "watcher_quiet s")
    case True
    then show ?thesis by (intro exI [of _ "[]"]) simp
  next
    case False
    then obtain a u where a: "watcher_do k a s = Some u" "own_action a" "wt_lost u = wt_lost s"
      using not_quiet_action [of s k] by metis
    then obtain as t where "watcher_run k as u = Some t" "list_all own_action as" "watcher_quiet t"
        "wt_lost t = wt_lost u"
      using less work_decreases [OF a(1,2)] by blast
    then show ?thesis using a by (intro exI [of _ "a # as"]) auto
  qed
qed

lemma quiet_synced:
  assumes "watcher_reachable k s" "watcher_quiet s" "key \<notin> wt_lost s"
  shows "expected k key (wt_store s key) (lookup_config (wt_cache s) key)"
  using watcher_reachable_inv [OF assms(1)] assms(2,3)
  by (auto simp: watcher_inv_def in_flight_def watcher_quiet_def)

section \<open>An example\<close>

definition example_logging_codecs :: "string logging_codecs" where
  "example_logging_codecs = \<lparr>lk_regex = \<lambda>s. if s = ''('' then None else Some (\<lambda>x. x = s),
     lk_glob = \<lambda>s. Some (\<lambda>x. x = s), lk_marshal = Some\<rparr>"

definition example_logging :: "string \<Rightarrow> string logging_config" where
  "example_logging re = \<lparr>lg_Selector = \<lparr>ls_NamespaceRegex = re, ls_PodRegex = [], ls_PodLabelSelector = [],
     ls_ContainerRegex = []\<rparr>, lg_PodTargetLabels = [], lg_Configs = ''[]''\<rparr>"

definition example_actions :: "string action list" where
  "example_actions = [Change ''a'' (Some (StoredConfig (example_logging ''ns''))), Notify, Get ''a'', Read,
     Change ''a'' (Some (StoredConfig (example_logging ''other''))), Apply, Notify, Get ''a'', Read, Apply]"

lemma example_watcher_run:
  "\<exists>s. watcher_run example_logging_codecs example_actions watcher_start = Some s \<and> watcher_quiet s \<and>
     ''a'' \<notin> wt_lost s \<and> wt_store s ''a'' = Some (StoredConfig (example_logging ''other''))"
  by (simp add: example_actions_def watcher_start_def watcher_quiet_def enqueue_def)

section \<open>Properties\<close>

text \<open>C30: convergence.  In every reachable state in which no notification, no key and no object is in flight,
  every key whose last read did not fail has in the cache what the informer's store says: no entry for a deleted
  configuration, the compiled form of one that exists, however changes and reads were interleaved.\<close>

theorem watcher_converges:
  assumes "watcher_reachable k s" "watcher_quiet s" "key \<notin> wt_lost s"
  shows "case wt_store s key of
      None \<Rightarrow> lookup_config (wt_cache s) key = None
    | Some ForeignObject \<Rightarrow> True
    | Some (StoredConfig config) \<Rightarrow>
        compile_config k key config = None \<or> lookup_config (wt_cache s) key = compile_config k key config"
  using quiet_synced [OF assms]
  by (auto simp: expected_def split: option.splits stored.splits) (metis not_None_eq)

lemma watcher_converges_witness:
  "\<exists>s. watcher_run example_logging_codecs example_actions watcher_start = Some s \<and>
     lookup_config (wt_cache s) ''a'' = compile_config example_logging_codecs ''a'' (example_logging ''other'')"
proof -
  obtain s where s: "watcher_run example_logging_codecs example_actions watcher_start = Some s" "watcher_quiet s"
      "''a'' \<notin> wt_lost s" "wt_store s ''a'' = Some (StoredConfig (example_logging ''other''))"
    using example_watcher_run by blast
  have "watcher_reachable example_logging_codecs s" by (rule reach_run [OF reach_start s(1)])
  moreover have "compile_config example_logging_codecs ''a'' (example_logging ''other'') \<noteq> None"
    by (simp add: compile_config_def example_logging_codecs_def Let_def)
  ultimately show ?thesis using watcher_converges [OF _ s(2,3)] s(1,4) by fastforce
qed

text \<open>C31: progress.  From every reachable state the watcher can empty its queue by itself, and whatever it does by
  itself takes at most \<open>work s\<close> actions and leaves the store alone; once it is quiet the cache agrees with the store.\<close>

theorem watcher_drains:
  assumes "watcher_reachable k s" "wt_lost s = {}"
  shows "(\<exists>as t. watcher_run k as s = Some t \<and> list_all own_action as \<and> watcher_quiet t \<and>
       (\<forall>key. expected k key (wt_store s key) (lookup_config (wt_cache t) key))) \<and>
     (\<forall>as t. watcher_run k as s = Some t \<longrightarrow> list_all own_action as \<longrightarrow> length as \<le> work s)"
proof (intro conjI allI impI)
  obtain as t where t: "watcher_run k as s = Some t" "list_all own_action as" "watcher_quiet t" "wt_lost t = {}"
    using drains [of k s] assms(2) by auto
  have "watcher_reachable k t" by (rule reach_run [OF assms(1) t(1)])
  then have "expected k key (wt_store t key) (lookup_config (wt_cache t) key)" for key
    using quiet_synced t(3,4) by blast
  moreover have "wt_store t = wt_store s" using work_bounds_runs [OF t(1,2)] by blast
  ultimately show "\<exists>as t. watcher_run k as s = Some t \<and> list_all own_action as \<and> watcher_quiet t \<and>
       (\<forall>key. expected k key (wt_store s key) (lookup_config (wt_cache t) key))"
    using t by metis
next
  fix as t
  assume "watcher_run k as s = Some t" "list_all own_action as"
  from work_bounds_runs [OF this] show "length as \<le> work s" by simp
qed

lemma watcher_drains_witness:
  "\<exists>s as t. watcher_run example_logging_codecs [Change ''a'' None] watcher_start = Some s \<and>
     watcher_run example_logging_codecs as s = Some t \<and> watcher_quiet t \<and> length as \<le> 4"
proof -
  obtain s where s: "watcher_run example_logging_codecs [Change ''a'' None] watcher_start = Some s"
      "wt_lost s = {}" "work s = 4"
    by (simp add: watcher_start_def work_def)
  have "watcher_reachable example_logging_codecs s" by (rule reach_run [OF reach_start s(1)])
  from watcher_drains [OF this s(2)] s(1,3) show ?thesis by (metis (no_types, lifting))
qed

end
