(* ===== verification/Cluster_Pods.thy ===== *)
theory Cluster_Pods
  imports Kube_Types
begin

text \<open>
  The Pod API for DataKit (\<open>apis/cluster/handle.go\<close>, \<open>apis/cluster/pod.go\<close>): three read-only
  handlers over the Pod informer, gated by its synchronisation, with a trimmed view.  The lister's
  answers are arguments.  A Pod has here the fields the trimmed view keeps; everything else of it is
  one JSON object.
\<close>

section \<open>Pods\<close>

record api_pod =
  ap_UID :: string
  ap_Name :: string
  ap_Namespace :: string
  ap_Labels :: go_map
  ap_OwnerReferences :: "json list"
  ap_Containers :: "container list"
  ap_HostNetwork :: bool
  ap_HostPID :: bool
  ap_HostIPC :: bool
  ap_HostIP :: string
  ap_PodIP :: string
  ap_PodIPs :: "string list"
  ap_StartTime :: "int option"
  ap_rest :: json_fields

definition no_api_pod :: api_pod where
  "no_api_pod = \<lparr>ap_UID = [], ap_Name = [], ap_Namespace = [], ap_Labels = fmempty, ap_OwnerReferences = [],
     ap_Containers = [], ap_HostNetwork = False, ap_HostPID = False, ap_HostIPC = False, ap_HostIP = [],
     ap_PodIP = [], ap_PodIPs = [], ap_StartTime = None, ap_rest = fmempty\<rparr>"

definition trim_container :: "container \<Rightarrow> container" where
  "trim_container c = no_container\<lparr>c_Name := c_Name c, c_Ports := c_Ports c\<rparr>"

text \<open>A nil Pod is \<open>None\<close>.\<close>

definition trimPodForEBPFV1 :: "api_pod option \<Rightarrow> api_pod" where
  "trimPodForEBPFV1 po = (case po of
       None \<Rightarrow> no_api_pod
     | Some p \<Rightarrow> no_api_pod\<lparr>
         ap_UID := ap_UID p, ap_Name := ap_Name p, ap_Namespace := ap_Namespace p, ap_Labels := ap_Labels p,
         ap_OwnerReferences := ap_OwnerReferences p,
         ap_Containers := map trim_container (ap_Containers p),
         ap_HostNetwork := ap_HostNetwork p, ap_HostPID := ap_HostPID p, ap_HostIPC := ap_HostIPC p,
         ap_HostIP := ap_HostIP p, ap_PodIP := ap_PodIP p, ap_PodIPs := ap_PodIPs p,
         ap_StartTime := ap_StartTime p\<rparr>)"

definition trimPodsForEBPFV1 :: "api_pod option list \<Rightarrow> api_pod list" where
  "trimPodsForEBPFV1 pods = map trimPodForEBPFV1 pods"

section \<open>The handler\<close>

definition podViewEBPFV1 :: string where "podViewEBPFV1 = ''ebpf-v1''"

record pod_handler =
  ph_ready :: bool

datatype start_result = Started | DeadlineExceeded

definition new_handler :: pod_handler where
  "new_handler = \<lparr>ph_ready = False\<rparr>"

text \<open>\<open>Start\<close>, with the answer of \<open>WaitForCacheSync\<close>.\<close>

definition handler_Start :: "bool \<Rightarrow> pod_handler \<Rightarrow> start_result \<times> pod_handler" where
  "handler_Start synced h = (if \<not> synced then (DeadlineExceeded, h) else (Started, h\<lparr>ph_ready := True\<rparr>))"

datatype pod_body =
    ErrorBody string
  | MessageBody string
  | OnePod "api_pod option"
  | ManyPods "api_pod option list"

definition requireReady :: "pod_handler \<Rightarrow> (nat \<times> pod_body) option" where
  "requireReady h = (if ph_ready h then None else Some (503, ErrorBody ''Pod informer cache is not ready''))"

text \<open>The lister's list for a namespace, or its error; the list of all Pods is that of the empty namespace.\<close>

definition ListPods ::
  "pod_handler \<Rightarrow> (string \<Rightarrow> string + api_pod option list) \<Rightarrow> string \<Rightarrow> string \<Rightarrow> nat \<times> pod_body" where
  "ListPods h lister ns view =
     (case requireReady h of
        Some answer \<Rightarrow> answer
      | None \<Rightarrow> (case lister ns of
            Inl err \<Rightarrow> (500, ErrorBody err)
          | Inr pods \<Rightarrow> if view = podViewEBPFV1 then (200, ManyPods (map Some (trimPodsForEBPFV1 pods)))
                        else (200, ManyPods pods)))"

definition ListAllPods ::
  "pod_handler \<Rightarrow> (string \<Rightarrow> string + api_pod option list) \<Rightarrow> string \<Rightarrow> nat \<times> pod_body" where
  "ListAllPods h lister view =
     (case requireReady h of
        Some answer \<Rightarrow> answer
      | None \<Rightarrow> (case lister [] of
            Inl err \<Rightarrow> (500, ErrorBody err)
          | Inr pods \<Rightarrow> if view = podViewEBPFV1 then (200, ManyPods (map Some (trimPodsForEBPFV1 pods)))
                        else (200, ManyPods pods)))"

definition GetPod ::
  "pod_handler \<Rightarrow> (string \<Rightarrow> string \<Rightarrow> string + api_pod option) \<Rightarrow> string \<Rightarrow> string \<Rightarrow> string \<Rightarrow> nat \<times> pod_body" where
  "GetPod h getter ns name view =
     (case requireReady h of
        Some answer \<Rightarrow> answer
      | None \<Rightarrow> (case getter ns name of
            Inl err \<Rightarrow> (404, MessageBody ''not found'')
          | Inr p \<Rightarrow> if view = podViewEBPFV1 then (200, OnePod (Some (trimPodForEBPFV1 p)))
                     else (200, OnePod p)))"

datatype pod_rbac = PodForbidden | PodUnauthorized | PodListFailed

text \<open>The probing List call: its error, if any, and the message the check returns.\<close>

datatype pod_rbac_error = MissingPodRBAC | CannotListPod

definition CheckPodRBAC :: "pod_rbac option \<Rightarrow> pod_rbac_error option" where
  "CheckPodRBAC err = (case err of
       None \<Rightarrow> None
     | Some e \<Rightarrow> if e = PodForbidden \<or> e = PodUnauthorized then Some MissingPodRBAC else Some CannotListPod)"

section \<open>Facts\<close>

lemma trim_container_again [simp]: "trim_container (trim_container c) = trim_container c"
  by (simp add: trim_container_def)

lemma trim_again: "trimPodForEBPFV1 (Some (trimPodForEBPFV1 po)) = trimPodForEBPFV1 po"
  by (cases po) (simp_all add: trimPodForEBPFV1_def no_api_pod_def comp_def)

definition hidden_equal :: "api_pod \<Rightarrow> api_pod \<Rightarrow> bool" where
  "hidden_equal p q \<longleftrightarrow> (\<exists>cs rest. q = p\<lparr>ap_Containers := cs, ap_rest := rest\<rparr> \<and>
     map (\<lambda>c. (c_Name c, c_Ports c)) cs = map (\<lambda>c. (c_Name c, c_Ports c)) (ap_Containers p))"

lemma trim_containers_eq:
  "map (\<lambda>c. (c_Name c, c_Ports c)) cs = map (\<lambda>c. (c_Name c, c_Ports c)) ds \<Longrightarrow>
   map trim_container cs = map trim_container ds"
proof -
  let ?shown = "\<lambda>c. (c_Name c, c_Ports c)"
  let ?mk = "\<lambda>x. no_container\<lparr>c_Name := fst x, c_Ports := snd x\<rparr>"
  have t: "map trim_container xs = map ?mk (map ?shown xs)" for xs by (simp add: trim_container_def)
  assume "map ?shown cs = map ?shown ds"
  then show ?thesis unfolding t by (rule arg_cong)
qed

section \<open>Properties\<close>

text \<open>C40: the trimmed view discloses nothing but the fields it names: Pods that differ only in other fields (the
  environment, mounts and images of containers, annotations, any other specification or status) have the same view; the
  view keeps the named fields, is a fixed point of trimming, and its containers have no environment and no mounts.\<close>

theorem trimmed_view_discloses:
  "(hidden_equal p q \<longrightarrow> trimPodForEBPFV1 (Some p) = trimPodForEBPFV1 (Some q)) \<and>
   hidden_equal (trimPodForEBPFV1 (Some p)) p \<and>
   trimPodForEBPFV1 (Some (trimPodForEBPFV1 (Some p))) = trimPodForEBPFV1 (Some p) \<and>
   list_all (\<lambda>c. c_Env c = [] \<and> c_VolumeMounts c = []) (ap_Containers (trimPodForEBPFV1 (Some p)))"
proof (intro conjI impI)
  assume "hidden_equal p q"
  then obtain cs rest where q: "q = p\<lparr>ap_Containers := cs, ap_rest := rest\<rparr>"
      "map trim_container cs = map trim_container (ap_Containers p)"
    unfolding hidden_equal_def using trim_containers_eq by blast
  show "trimPodForEBPFV1 (Some p) = trimPodForEBPFV1 (Some q)"
    unfolding trimPodForEBPFV1_def q(1) by (simp add: q(2))
next
  show "hidden_equal (trimPodForEBPFV1 (Some p)) p"
    unfolding hidden_equal_def
    by (rule exI [of _ "ap_Containers p"], rule exI [of _ "ap_rest p"])
      (simp add: trimPodForEBPFV1_def no_api_pod_def trim_container_def comp_def)
qed (simp_all add: trim_again, simp add: trimPodForEBPFV1_def trim_container_def no_container_def list_all_iff)

lemma trimmed_view_discloses_witness:
  "hidden_equal no_api_pod (no_api_pod\<lparr>ap_rest := fmupd ''status'' JNull fmempty\<rparr>) \<and>
   trimPodForEBPFV1 (Some no_api_pod) = trimPodForEBPFV1 (Some (no_api_pod\<lparr>ap_rest := fmupd ''status'' JNull fmempty\<rparr>))"
proof -
  have h: "hidden_equal no_api_pod (no_api_pod\<lparr>ap_rest := fmupd ''status'' JNull fmempty\<rparr>)"
    unfolding hidden_equal_def
    by (rule exI [of _ "[]"], rule exI [of _ "fmupd ''status'' JNull fmempty"]) (simp add: no_api_pod_def)
  with trimmed_view_discloses show ?thesis by blast
qed

text \<open>No Pod is served before the informer has synchronised: until a successful \<open>Start\<close> every handler answers 503,
  and afterwards none does.\<close>

theorem pods_served_when_synced:
  "(let h = snd (handler_Start synced new_handler) in
     (fst (ListAllPods h lister view) = 503 \<longleftrightarrow> \<not> synced) \<and> (fst (ListPods h lister ns view) = 503 \<longleftrightarrow> \<not> synced) \<and>
     (fst (GetPod h getter ns name view) = 503 \<longleftrightarrow> \<not> synced) \<and> (ph_ready h \<longleftrightarrow> fst (handler_Start synced new_handler) = Started))"
  by (auto simp: handler_Start_def new_handler_def ListAllPods_def ListPods_def GetPod_def requireReady_def
      split: sum.splits)

end
