(* ===== verification/Loggers.thy ===== *)
theory Loggers
  imports Go_Strings
begin

text \<open>
  The loggers of the packages.  Every package holds one in a variable, made by \<open>DefaultSLogger\<close> when the
  program is initialised and again by \<open>SLogger\<close> in the package's \<open>Setup\<close>; \<open>main\<close> sets the level of the log in
  between.  The part of the vendored library \<open>cliutils/logger\<close> which decides what a logger writes to is
  modelled too.  A logger of \<open>zap\<close> stands for the arguments it was built with; whether building succeeds is an
  argument, \<open>build\<close>, which gives the error if there is one.  \<open>None\<close> is a panic.
\<close>

section \<open>The library\<close>

definition OPT_STDOUT :: nat where "OPT_STDOUT = 4"

definition OPT_DEFAULT :: nat where "OPT_DEFAULT = or 1 (or 2 32)"

record zap_logger =
  zl_path :: string
  zl_level :: string
  zl_options :: nat

record log_option =
  lo_Path :: string
  lo_Level :: string
  lo_Flags :: nat

record sugared_logger =
  su_logger :: zap_logger
  su_name :: string

record log_lib =
  ll_root :: "zap_logger option"
  ll_stdout :: "zap_logger option"
  ll_slogs :: "string \<Rightarrow> sugared_logger option"

definition stdoutLogger :: "string \<Rightarrow> nat \<Rightarrow> zap_logger" where
  "stdoutLogger level options = \<lparr>zl_path = [], zl_level = level, zl_options = or options OPT_STDOUT\<rparr>"

definition set_stdout ::
  "(zap_logger \<Rightarrow> string option) \<Rightarrow> string \<Rightarrow> nat \<Rightarrow> log_lib \<Rightarrow> string option \<times> log_lib" where
  "set_stdout build level options lib =
     (let z = stdoutLogger level options
      in case build z of
           None \<Rightarrow> (None, lib\<lparr>ll_stdout := Some z\<rparr>)
         | Some err \<Rightarrow> (Some err, lib\<lparr>ll_stdout := None\<rparr>))"

definition doInitStdoutLogger :: "(zap_logger \<Rightarrow> string option) \<Rightarrow> log_lib \<Rightarrow> string option \<times> log_lib" where
  "doInitStdoutLogger build lib = set_stdout build ''debug'' OPT_DEFAULT lib"

definition doSetStdoutLogger ::
  "(zap_logger \<Rightarrow> string option) \<Rightarrow> log_option \<Rightarrow> log_lib \<Rightarrow> string option \<times> log_lib" where
  "doSetStdoutLogger build opt lib =
     (case set_stdout build (lo_Level opt) (lo_Flags opt) lib of
        (err, lib1) \<Rightarrow> (map_option (\<lambda>e. ''stdoutLogger: '' @ e) err, lib1))"

definition doSetGlobalRootLogger ::
  "(zap_logger \<Rightarrow> string option) \<Rightarrow> string \<Rightarrow> string \<Rightarrow> nat \<Rightarrow> log_lib \<Rightarrow> string option \<times> log_lib" where
  "doSetGlobalRootLogger build fpath level options lib =
     (if fpath = [] then (Some ''fpath should not empty'', lib)
      else if ll_root lib \<noteq> None then (None, lib)
      else let z = \<lparr>zl_path = fpath, zl_level = level, zl_options = options\<rparr>
        in case build z of
             None \<Rightarrow> (None, lib\<lparr>ll_root := Some z\<rparr>)
           | Some err \<Rightarrow> (Some err, lib\<lparr>ll_root := None\<rparr>))"

definition setRootLoggerFromEnv ::
  "(zap_logger \<Rightarrow> string option) \<Rightarrow> log_option \<Rightarrow> log_lib \<Rightarrow> string option \<times> log_lib" where
  "setRootLoggerFromEnv build opt lib =
     (if lo_Path opt = ''nul'' \<or> lo_Path opt = ''/dev/null''
      then doSetGlobalRootLogger build ''/dev/null'' (lo_Level opt) (lo_Flags opt) lib
      else if lo_Path opt = [] then doInitStdoutLogger build lib
      else doSetGlobalRootLogger build (lo_Path opt) (lo_Level opt) (lo_Flags opt) lib)"

definition log_levels :: "string list" where
  "log_levels = [''debug'', ''info'', ''warn'', ''error'', ''panic'', ''fatal'', ''dpanic'']"

text \<open>The option is not nil here; \<open>main\<close> is its one caller, and gives no path, so the error for a path
  together with the standard output is shortened.\<close>

definition InitRoot ::
  "(string \<Rightarrow> string option) \<Rightarrow> (zap_logger \<Rightarrow> string option) \<Rightarrow> log_option \<Rightarrow> log_lib \<Rightarrow>
   string option \<times> log_lib" where
  "InitRoot lookup_env build opt lib =
     (if lo_Level opt \<notin> set log_levels \<and> lo_Level opt \<noteq> []
      then (Some (''invalid log level `'' @ lo_Level opt @ [CHR 0x27]), lib)
      else
        let opt1 = (if lo_Level opt = [] then opt\<lparr>lo_Level := ''debug''\<rparr> else opt);
            opt2 = (if lo_Flags opt1 = 0 then opt1\<lparr>lo_Flags := OPT_DEFAULT\<rparr> else opt1)
        in if lo_Path opt2 \<noteq> [] \<and> and (lo_Flags opt2) OPT_STDOUT \<noteq> 0
           then (Some (''set stdout logging with log path '' @ lo_Path opt2), lib)
           else if lo_Path opt2 = [] then
             (case lookup_env ''LOGGER_PATH'' of
                Some v \<Rightarrow> setRootLoggerFromEnv build (opt2\<lparr>lo_Path := v\<rparr>) lib
              | None \<Rightarrow> doSetStdoutLogger build opt2 lib)
           else doSetGlobalRootLogger build (lo_Path opt2) (lo_Level opt2) (lo_Flags opt2) lib)"

text \<open>The initialisation of the library.\<close>

definition logger_init :: "(string \<Rightarrow> string option) \<Rightarrow> (zap_logger \<Rightarrow> string option) \<Rightarrow> log_lib option" where
  "logger_init lookup_env build =
     (case doInitStdoutLogger build \<lparr>ll_root = None, ll_stdout = None, ll_slogs = (\<lambda>_. None)\<rparr> of
        (Some err, lib) \<Rightarrow> None
      | (None, lib) \<Rightarrow>
          (case lookup_env ''LOGGER_PATH'' of
             None \<Rightarrow> Some lib
           | Some v \<Rightarrow>
               (case setRootLoggerFromEnv build \<lparr>lo_Path = v, lo_Level = ''debug'', lo_Flags = OPT_DEFAULT\<rparr> lib of
                  (Some err, lib1) \<Rightarrow> None
                | (None, lib1) \<Rightarrow> Some lib1)))"

definition slogger :: "string \<Rightarrow> log_lib \<Rightarrow> (sugared_logger \<times> log_lib) option" where
  "slogger name lib =
     (case (case ll_root lib of None \<Rightarrow> ll_stdout lib | Some z \<Rightarrow> Some z) of
        None \<Rightarrow> None
      | Some r \<Rightarrow>
          (let newlog = \<lparr>su_logger = r, su_name = name\<rparr>
           in if ll_root lib \<noteq> None then
                (case ll_slogs lib name of
                   Some l \<Rightarrow> Some (l, lib)
                 | None \<Rightarrow> Some (newlog, lib\<lparr>ll_slogs := (ll_slogs lib)(name := Some newlog)\<rparr>))
              else Some (newlog, lib)))"

definition SLogger :: "string \<Rightarrow> log_lib \<Rightarrow> (sugared_logger \<times> log_lib) option" where
  "SLogger name lib = (if ll_root lib = None \<and> ll_stdout lib = None then None else slogger name lib)"

definition DefaultSLogger :: "string \<Rightarrow> log_lib \<Rightarrow> (sugared_logger \<times> log_lib) option" where
  "DefaultSLogger name lib = slogger name lib"

section \<open>The variables of the packages\<close>

datatype log_package =
    MainLog | ConfigLog | ApisLog | AdmissionLog | InjectorLog | MutatorLog | LoggingLog | LoggingConfigLog
  | ClusterLog | ElectionLog

fun log_name :: "log_package \<Rightarrow> string" where
  "log_name MainLog = ''main''"
| "log_name ConfigLog = ''config''"
| "log_name ApisLog = ''apis''"
| "log_name AdmissionLog = ''admission''"
| "log_name InjectorLog = ''injector''"
| "log_name MutatorLog = ''mutator''"
| "log_name LoggingLog = ''logging''"
| "log_name LoggingConfigLog = ''logging-config''"
| "log_name ClusterLog = ''cluster''"
| "log_name ElectionLog = ''election''"

record log_state =
  ls_lib :: log_lib
  ls_log :: "log_package \<Rightarrow> sugared_logger option"

definition assign_log ::
  "(string \<Rightarrow> log_lib \<Rightarrow> (sugared_logger \<times> log_lib) option) \<Rightarrow> log_package \<Rightarrow> log_state \<Rightarrow> log_state option" where
  "assign_log get p st =
     map_option (\<lambda>(l, lib). \<lparr>ls_lib = lib, ls_log = (ls_log st)(p := Some l)\<rparr>) (get (log_name p) (ls_lib st))"

text \<open>The initialisation of the package variables, a package after the packages it imports.\<close>

definition package_order :: "log_package list" where
  "package_order = [ClusterLog, ElectionLog, LoggingConfigLog, LoggingLog, ConfigLog, InjectorLog, MutatorLog,
     AdmissionLog, ApisLog, MainLog]"

fun then_all :: "('s \<Rightarrow> 's option) list \<Rightarrow> 's \<Rightarrow> 's option" where
  "then_all [] st = Some st"
| "then_all (f # fs) st = (case f st of None \<Rightarrow> None | Some st1 \<Rightarrow> then_all fs st1)"

definition package_loggers :: "log_lib \<Rightarrow> log_state option" where
  "package_loggers lib = then_all (map (assign_log DefaultSLogger) package_order) \<lparr>ls_lib = lib, ls_log = (\<lambda>_. None)\<rparr>"

section \<open>The set-up of each package\<close>

definition initLog :: "log_state \<Rightarrow> log_state option" where
  "initLog = assign_log SLogger ConfigLog"

definition injector_Setup :: "log_state \<Rightarrow> log_state option" where
  "injector_Setup = assign_log SLogger InjectorLog"

definition mutator_Setup :: "log_state \<Rightarrow> log_state option" where
  "mutator_Setup = assign_log SLogger MutatorLog"

definition webhook_Setup :: "log_state \<Rightarrow> log_state option" where
  "webhook_Setup = then_all [assign_log SLogger AdmissionLog, injector_Setup, mutator_Setup]"

definition logging_config_Setup :: "log_state \<Rightarrow> log_state option" where
  "logging_config_Setup = assign_log SLogger LoggingConfigLog"

definition logging_Setup :: "log_state \<Rightarrow> log_state option" where
  "logging_Setup = then_all [assign_log SLogger LoggingLog, logging_config_Setup]"

definition cluster_Setup :: "log_state \<Rightarrow> log_state option" where
  "cluster_Setup = assign_log SLogger ClusterLog"

definition election_Setup :: "log_state \<Rightarrow> log_state option" where
  "election_Setup = assign_log SLogger ElectionLog"

text \<open>The set-up of \<open>main\<close>: the error is the one it ends the process with.\<close>

definition initLogger ::
  "(string \<Rightarrow> string option) \<Rightarrow> (zap_logger \<Rightarrow> string option) \<Rightarrow> string \<Rightarrow> log_state \<Rightarrow>
   (string option \<times> log_state) option" where
  "initLogger lookup_env build level st =
     (case InitRoot lookup_env build
             \<lparr>lo_Path = [], lo_Level = level, lo_Flags = or OPT_DEFAULT OPT_STDOUT\<rparr> (ls_lib st) of
        (Some err, lib) \<Rightarrow> Some (Some err, st\<lparr>ls_lib := lib\<rparr>)
      | (None, lib) \<Rightarrow> map_option (Pair None) (assign_log SLogger MainLog (st\<lparr>ls_lib := lib\<rparr>)))"

text \<open>\<open>Run\<close> assigns its own logger first and sets up the other packages once it has a client.\<close>

definition Run_loggers :: "bool \<Rightarrow> log_state \<Rightarrow> log_state option" where
  "Run_loggers has_client =
     then_all (assign_log SLogger ApisLog #
       (if \<not> has_client then [] else [webhook_Setup, logging_Setup, cluster_Setup, election_Setup]))"

section \<open>Lemmas\<close>

text \<open>What \<open>LOGGER_PATH\<close> makes the root, and what a logger writes to before and after \<open>main\<close> set the level.\<close>

definition env_root :: "(string \<Rightarrow> string option) \<Rightarrow> zap_logger option" where
  "env_root lookup_env =
     (case lookup_env ''LOGGER_PATH'' of
        None \<Rightarrow> None
      | Some v \<Rightarrow> if v = [] then None
          else Some \<lparr>zl_path = (if v = ''nul'' then ''/dev/null'' else v), zl_level = ''debug'', zl_options = OPT_DEFAULT\<rparr>)"

definition first_logger :: "(string \<Rightarrow> string option) \<Rightarrow> zap_logger" where
  "first_logger lookup_env =
     (case env_root lookup_env of None \<Rightarrow> stdoutLogger ''debug'' OPT_DEFAULT | Some z \<Rightarrow> z)"

definition final_logger :: "(string \<Rightarrow> string option) \<Rightarrow> string \<Rightarrow> zap_logger" where
  "final_logger lookup_env level =
     (if lookup_env ''LOGGER_PATH'' = None
      then stdoutLogger (if level = [] then ''debug'' else level) (or OPT_DEFAULT OPT_STDOUT)
      else first_logger lookup_env)"

definition valid_level :: "string \<Rightarrow> bool" where
  "valid_level level \<longleftrightarrow> level \<in> set log_levels \<or> level = []"

text \<open>A library with root \<open>rt\<close> whose loggers write to \<open>z\<close>.\<close>

definition lib_at :: "zap_logger option \<Rightarrow> zap_logger \<Rightarrow> log_lib \<Rightarrow> bool" where
  "lib_at rt z lib \<longleftrightarrow> ll_root lib = rt \<and> (case rt of None \<Rightarrow> ll_stdout lib = Some z | Some r \<Rightarrow> r = z) \<and>
     (\<forall>name l. ll_slogs lib name = Some l \<longrightarrow> rt = Some (su_logger l) \<and> su_name l = name)"

lemma slogger_at:
  assumes "lib_at rt z lib"
  shows "\<exists>lib'. slogger name lib = Some (\<lparr>su_logger = z, su_name = name\<rparr>, lib') \<and> lib_at rt z lib'"
proof (cases "ll_slogs lib name")
  case None
  then show ?thesis using assms by (auto simp: slogger_def lib_at_def Let_def split: option.splits)
next
  case (Some l)
  then have "rt = Some (su_logger l)" "su_name l = name" using assms by (simp_all add: lib_at_def)
  moreover from this have "su_logger l = z" using assms by (simp add: lib_at_def)
  ultimately have "l = \<lparr>su_logger = z, su_name = name\<rparr>" "ll_root lib = Some z"
    using assms by (simp_all add: lib_at_def)
  then show ?thesis using assms Some by (simp add: slogger_def Let_def)
qed

lemma SLogger_at: "lib_at rt z lib \<Longrightarrow> SLogger name lib = slogger name lib"
  by (auto simp: SLogger_def lib_at_def split: option.splits)

lemma then_all_append: "then_all (fs @ gs) st = (case then_all fs st of None \<Rightarrow> None | Some st1 \<Rightarrow> then_all gs st1)"
  by (induction fs arbitrary: st) (simp_all split: option.splits)

lemma then_all_nested: "then_all (then_all fs # gs) st = then_all (fs @ gs) st"
  by (simp add: then_all_append)

lemma assign_all:
  assumes "get \<in> {SLogger, DefaultSLogger}" "lib_at rt z (ls_lib st)"
  shows "\<exists>st'. then_all (map (assign_log get) ps) st = Some st' \<and> lib_at rt z (ls_lib st') \<and>
    ls_log st' = (\<lambda>p. if p \<in> set ps then Some \<lparr>su_logger = z, su_name = log_name p\<rparr> else ls_log st p)"
  using assms(2)
proof (induction ps arbitrary: st)
  case (Cons p ps)
  have "get (log_name p) (ls_lib st) = slogger (log_name p) (ls_lib st)"
    using assms(1) SLogger_at [OF Cons.prems] by (auto simp: DefaultSLogger_def)
  then obtain lib where lib: "get (log_name p) (ls_lib st) = Some (\<lparr>su_logger = z, su_name = log_name p\<rparr>, lib)"
      "lib_at rt z lib"
    using slogger_at [OF Cons.prems, of "log_name p"] by auto
  then show ?case
    using Cons.IH [of "\<lparr>ls_lib = lib, ls_log = (ls_log st)(p := Some \<lparr>su_logger = z, su_name = log_name p\<rparr>)\<rparr>"]
    by (auto simp: assign_log_def fun_eq_iff)
qed simp

lemma assign_one:
  assumes "lib_at rt z (ls_lib st)"
  shows "\<exists>st'. assign_log SLogger p st = Some st' \<and> lib_at rt z (ls_lib st') \<and>
    ls_log st' = (ls_log st)(p := Some \<lparr>su_logger = z, su_name = log_name p\<rparr>)"
  using assign_all [OF _ assms, of SLogger "[p]"] by (auto simp: fun_eq_iff split: option.splits)

lemma Run_loggers_flat:
  "Run_loggers True = then_all (map (assign_log SLogger)
     [ApisLog, AdmissionLog, InjectorLog, MutatorLog, LoggingLog, LoggingConfigLog, ClusterLog, ElectionLog])"
  "Run_loggers False = then_all (map (assign_log SLogger) [ApisLog])"
  by (simp_all add: Run_loggers_def webhook_Setup_def logging_Setup_def injector_Setup_def mutator_Setup_def
      logging_config_Setup_def cluster_Setup_def election_Setup_def fun_eq_iff then_all_nested then_all_append
      split: option.splits)

text \<open>Libraries whose loggers can all be built.\<close>

lemma logger_init_at:
  assumes "\<And>z. build z = None"
  shows "\<exists>lib. logger_init lookup_env build = Some lib \<and> lib_at (env_root lookup_env) (first_logger lookup_env) lib"
  using assms
  by (auto simp: logger_init_def doInitStdoutLogger_def set_stdout_def setRootLoggerFromEnv_def doSetGlobalRootLogger_def
      Let_def env_root_def first_logger_def lib_at_def split: option.splits)

lemma InitRoot_at:
  assumes "\<And>z. build z = None" "valid_level level" "lib_at (env_root lookup_env) (first_logger lookup_env) lib"
  shows "\<exists>lib'. InitRoot lookup_env build \<lparr>lo_Path = [], lo_Level = level, lo_Flags = or OPT_DEFAULT OPT_STDOUT\<rparr> lib =
      (None, lib') \<and> lib_at (env_root lookup_env) (final_logger lookup_env level) lib'"
  using assms
  by (auto simp: InitRoot_def doInitStdoutLogger_def doSetStdoutLogger_def set_stdout_def setRootLoggerFromEnv_def
      doSetGlobalRootLogger_def Let_def env_root_def first_logger_def final_logger_def lib_at_def valid_level_def
      stdoutLogger_def OPT_DEFAULT_def OPT_STDOUT_def split: option.splits)

lemma InitRoot_refuses:
  "\<not> valid_level level \<Longrightarrow> InitRoot lookup_env build \<lparr>lo_Path = p, lo_Level = level, lo_Flags = f\<rparr> lib =
     (Some (''invalid log level `'' @ level @ [CHR 0x27]), lib)"
  by (simp add: InitRoot_def valid_level_def)

lemma initLogger_at:
  assumes "\<And>z. build z = None" "valid_level level" "lib_at (env_root lookup_env) (first_logger lookup_env) (ls_lib st)"
  shows "\<exists>st'. initLogger lookup_env build level st = Some (None, st') \<and>
    lib_at (env_root lookup_env) (final_logger lookup_env level) (ls_lib st') \<and>
    ls_log st' = (ls_log st)(MainLog := Some \<lparr>su_logger = final_logger lookup_env level, su_name = ''main''\<rparr>)"
proof -
  obtain lib where lib: "InitRoot lookup_env build
        \<lparr>lo_Path = [], lo_Level = level, lo_Flags = or OPT_DEFAULT OPT_STDOUT\<rparr> (ls_lib st) = (None, lib)"
      "lib_at (env_root lookup_env) (final_logger lookup_env level) lib"
    using InitRoot_at [of build level lookup_env "ls_lib st"] assms by blast
  then show ?thesis using assign_one [of _ _ "st\<lparr>ls_lib := lib\<rparr>" MainLog] by (auto simp: initLogger_def)
qed

lemma package_loggers_at:
  assumes "lib_at rt z lib"
  shows "\<exists>st. package_loggers lib = Some st \<and> lib_at rt z (ls_lib st) \<and>
    ls_log st = (\<lambda>p. Some \<lparr>su_logger = z, su_name = log_name p\<rparr>)"
proof -
  have "p \<in> set package_order" for p by (cases p) (simp_all add: package_order_def)
  then show ?thesis
    using assign_all [of DefaultSLogger rt z "\<lparr>ls_lib = lib, ls_log = (\<lambda>_. None)\<rparr>" package_order] assms
    by (simp add: package_loggers_def)
qed

end
