(* ===== verification/Server.thy ===== *)
theory Server
  imports Webhook Logging_Watcher Cluster_Pods Election_Readiness Loggers
begin

text \<open>
  The start of the Operator (\<open>cmd/main.go\<close>, \<open>apis/server.go\<close>): the in-cluster client
  (\<open>pkg/kubernetes/client/client.go\<close>), the routes with the components behind them, the end of
  serving, and the two middleware functions of \<open>server.go\<close>.  The answers of the environment at start-up
  are one record.  The HTTP framework, the constructors of the Kubernetes clients and the validation of
  names are not part of the repository, so their answers are arguments.
\<close>

section \<open>The in-cluster client\<close>

definition TokenFile :: string where
  "TokenFile = ''/var/run/secrets/kubernetes.io/serviceaccount/token''"

record rest_config =
  rs_Host :: string
  rs_Insecure :: bool
  rs_BearerToken :: string
  rs_BearerTokenFile :: string
  rs_QPS :: nat
  rs_Burst :: nat

datatype client_error =
  NoInClusterConfig | TokenUnreadable string | ClientsetFailed string | LoggingClientFailed string

text \<open>\<open>net.JoinHostPort\<close>: a host with a colon is an IPv6 address.\<close>

definition JoinHostPort :: "string \<Rightarrow> string \<Rightarrow> string" where
  "JoinHostPort host port =
     (if CHR '':'' \<in> set host then ''['' @ host @ '']:'' @ port else host @ '':'' @ port)"

definition DefaultConfigInCluster ::
  "(string \<Rightarrow> string) \<Rightarrow> (string \<Rightarrow> string + string) \<Rightarrow> client_error + rest_config" where
  "DefaultConfigInCluster getenv read_file =
     (let host = getenv ''KUBERNETES_SERVICE_HOST''; port = getenv ''KUBERNETES_SERVICE_PORT''
      in if length host = 0 \<or> length port = 0 then Inl NoInClusterConfig
         else case read_file TokenFile of
             Inl err \<Rightarrow> Inl (TokenUnreadable err)
           | Inr token \<Rightarrow> Inr \<lparr>rs_Host = ''https://'' @ JoinHostPort host port, rs_Insecure = True,
               rs_BearerToken = token, rs_BearerTokenFile = TokenFile, rs_QPS = 1000, rs_Burst = 1000\<rparr>)"

definition NewClient ::
  "(rest_config \<Rightarrow> string + 'c) \<Rightarrow> (rest_config \<Rightarrow> string + 'l) \<Rightarrow> rest_config \<Rightarrow> client_error + 'c \<times> 'l" where
  "NewClient new_clientset new_logging cfg =
     (case new_clientset cfg of
        Inl err \<Rightarrow> Inl (ClientsetFailed err)
      | Inr clientset \<Rightarrow> (case new_logging cfg of
          Inl err \<Rightarrow> Inl (LoggingClientFailed err)
        | Inr loggingClient \<Rightarrow> Inr (clientset, loggingClient)))"

definition NewClientInCluster ::
  "(string \<Rightarrow> string) \<Rightarrow> (string \<Rightarrow> string + string) \<Rightarrow> (rest_config \<Rightarrow> string + 'c) \<Rightarrow>
   (rest_config \<Rightarrow> string + 'l) \<Rightarrow> client_error + 'c \<times> 'l" where
  "NewClientInCluster getenv read_file new_clientset new_logging =
     (case DefaultConfigInCluster getenv read_file of
        Inl err \<Rightarrow> Inl err
      | Inr cfg \<Rightarrow> NewClient new_clientset new_logging cfg)"

section \<open>Routes\<close>

datatype endpoint =
    Ping | ElectionCampaign | ElectionHeartbeat | ElectionStatus | ElectionMetrics | Inject
  | LoggingConfigs | AllPods | NamespacePods | NamespacePod

type_synonym route = "string \<times> string \<times> endpoint"

definition RegisterRoutes :: "route list \<Rightarrow> route list" where
  "RegisterRoutes router = router @
     [(''POST'', ''/v1/dk-election'', ElectionCampaign),
      (''POST'', ''/v1/dk-election/heartbeat'', ElectionHeartbeat),
      (''GET'', ''/v1/dk-election/status'', ElectionStatus),
      (''GET'', ''/metrics'', ElectionMetrics)]"

definition base_routes :: "route list" where
  "base_routes =
     RegisterRoutes [(''GET'', ''/v1/ping'', Ping), (''GET'', ''/v1/ready'', Ping)] @
     [(''POST'', ''/v1/webhooks/inject'', Inject)]"

definition logging_routes :: "route list" where
  "logging_routes = [(''GET'', ''/v1/logging/configs'', LoggingConfigs)]"

definition cluster_routes :: "route list" where
  "cluster_routes =
     (let group = ''/v1/cluster/api/v1''
      in [(''GET'', group @ ''/pods'', AllPods),
          (''GET'', group @ ''/namespaces/:namespace/pods'', NamespacePods),
          (''GET'', group @ ''/namespaces/:namespace/pods/:name'', NamespacePod)])"

section \<open>Start-up\<close>

text \<open>The answer of the watcher's own probing List, and whether its informer synchronises.\<close>

datatype watcher_end = WatcherRefused | WatcherUnsynced | WatcherServing

definition logging_watcher_start :: "list_outcome \<Rightarrow> bool \<Rightarrow> watcher_end" where
  "logging_watcher_start probe synced =
     (if probe \<noteq> ListOk then WatcherRefused else if \<not> synced then WatcherUnsynced else WatcherServing)"

record ('c, 'l) boot_world =
  bw_getenv :: "string \<Rightarrow> string"
  bw_read_file :: "string \<Rightarrow> string + string"
  bw_new_clientset :: "rest_config \<Rightarrow> string + 'c"
  bw_new_logging :: "rest_config \<Rightarrow> string + 'l"
  bw_name_problems :: "string \<Rightarrow> string list"
  bw_list_configs :: list_outcome
  bw_list_pods :: "pod_rbac option"

text \<open>A running server: its routes, the election's namespace and cache, whether the logging watcher was
  started, and the Pod handler, if any, which synchronises in the background.\<close>

record server =
  sv_routes :: "route list"
  sv_namespace :: string
  sv_cache :: lease_cache
  sv_watcher :: bool
  sv_pods :: "pod_handler option"

definition Run_boot :: "('c, 'l) boot_world \<Rightarrow> client_error + server" where
  "Run_boot w =
     (case NewClientInCluster (bw_getenv w) (bw_read_file w) (bw_new_clientset w) (bw_new_logging w) of
        Inl err \<Rightarrow> Inl err
      | Inr _ \<Rightarrow>
          let leaseNamespace = (case ResolveLeaseNamespace (bw_name_problems w) (bw_getenv w ''POD_NAMESPACE'')
                  (bw_read_file w ''/var/run/secrets/kubernetes.io/serviceaccount/namespace'') of
                Inl _ \<Rightarrow> [] | Inr ns \<Rightarrow> ns);
              logging_ok = CheckClusterLoggingConfigRBAC (Some (bw_list_configs w)) = None;
              pods_ok = CheckPodRBAC (bw_list_pods w) = None
          in Inr \<lparr>sv_routes = base_routes @ (if \<not> logging_ok then [] else logging_routes) @
                    (if \<not> pods_ok then [] else cluster_routes),
                  sv_namespace = leaseNamespace,
                  sv_cache = coordinator_Start leaseNamespace no_lease_cache,
                  sv_watcher = logging_ok,
                  sv_pods = (if \<not> pods_ok then None else Some new_handler)\<rparr>)"

section \<open>Serving\<close>

text \<open>What ends serving: the context is done, and \<open>Shutdown\<close> returns its error; or the listener returns.\<close>

datatype listen_error = ErrServerClosed | ListenFailed string

datatype server_event = ContextDone "string option" | ListenReturned "listen_error option"

definition listen_goroutine :: "listen_error option \<Rightarrow> string option" where
  "listen_goroutine err = (case err of Some (ListenFailed e) \<Rightarrow> Some e | _ \<Rightarrow> None)"

definition Run_wait :: "server_event \<Rightarrow> string option" where
  "Run_wait ev = (case ev of ContextDone shutdown \<Rightarrow> shutdown | ListenReturned err \<Rightarrow> listen_goroutine err)"

definition Run :: "('c, 'l) boot_world \<Rightarrow> server_event \<Rightarrow> (client_error + string) option" where
  "Run w ev = (case Run_boot w of Inl err \<Rightarrow> Some (Inl err) | Inr _ \<Rightarrow> map_option Inr (Run_wait ev))"

text \<open>The loggers during \<open>Run\<close>, which assigns its own and, when it has a client, sets up the packages.\<close>

definition Run_with_loggers ::
  "('c, 'l) boot_world \<Rightarrow> server_event \<Rightarrow> log_state \<Rightarrow> ((client_error + string) option \<times> log_state) option" where
  "Run_with_loggers w ev st =
     map_option (Pair (Run w ev)) (Run_loggers (case Run_boot w of Inl _ \<Rightarrow> False | Inr _ \<Rightarrow> True) st)"

text \<open>The messages \<open>main\<close> logs, the exit status and the loggers at the end: \<open>log.Fatal\<close> ends the process with
  status 1, every other way with status 0.  \<open>loaded\<close> is what \<open>LoadConfigWithEnv\<close> leaves in the configuration,
  if it succeeds, and \<open>None\<close> is a panic.\<close>

datatype main_log =
  ConfigError | ConfigParsed | LoggerFatal string | OperatorStart | RunError "client_error + string"

definition main_program ::
  "(string \<Rightarrow> string option) \<Rightarrow> (zap_logger \<Rightarrow> string option) \<Rightarrow> configuration option \<Rightarrow>
   (configuration \<Rightarrow> log_state \<Rightarrow> ((client_error + string) option \<times> log_state) option) \<Rightarrow> log_state \<Rightarrow>
   (main_log list \<times> nat \<times> log_state) option" where
  "main_program lookup_env build loaded run st =
     (case initLog st of None \<Rightarrow> None | Some st1 \<Rightarrow>
      (case loaded of
        None \<Rightarrow> Some ([ConfigError], 0, st1)
      | Some cfg \<Rightarrow>
          (case initLogger lookup_env build (cf_LogLevel cfg) st1 of
             None \<Rightarrow> None
           | Some (Some err, st2) \<Rightarrow> Some ([ConfigParsed, LoggerFatal err], 1, st2)
           | Some (None, st2) \<Rightarrow>
               (case run cfg st2 of
                  None \<Rightarrow> None
                | Some (err, st3) \<Rightarrow>
                    Some ([ConfigParsed, OperatorStart] @ (case err of None \<Rightarrow> [] | Some e \<Rightarrow> [RunError e]), 0, st3)))))"

text \<open>The process: the initialisation of the library and of the package variables, then \<open>main\<close>.\<close>

definition operator_process ::
  "(string \<Rightarrow> string option) \<Rightarrow> (zap_logger \<Rightarrow> string option) \<Rightarrow> configuration option \<Rightarrow>
   ('c, 'l) boot_world \<Rightarrow> server_event \<Rightarrow> (main_log list \<times> nat \<times> log_state) option" where
  "operator_process lookup_env build loaded w ev =
     (case logger_init lookup_env build of None \<Rightarrow> None | Some lib \<Rightarrow>
      (case package_loggers lib of None \<Rightarrow> None | Some st \<Rightarrow>
        main_program lookup_env build loaded (\<lambda>cfg. Run_with_loggers w ev) st))"

definition handlePing :: "nat \<times> string" where
  "handlePing = (200, ''ok'')"

section \<open>Middleware\<close>

text \<open>\<open>net/url.URL\<close>, with its escaped path, and the request fields the middleware reads or changes.\<close>

record go_url =
  ur_Scheme :: string
  ur_Opaque :: string
  ur_Path :: string
  ur_EscapedPath :: string
  ur_ForceQuery :: bool
  ur_RawQuery :: string

record http_request =
  hq_Method :: string
  hq_ClientIP :: string
  hq_UserAgent :: string
  hq_URL :: go_url
  hq_RequestURI :: string

definition URL_RequestURI :: "go_url \<Rightarrow> string" where
  "URL_RequestURI u =
     (let base = (if ur_Opaque u = [] then (if ur_EscapedPath u = [] then ''/'' else ur_EscapedPath u)
          else if has_prefix (ur_Opaque u) ''//'' then ur_Scheme u @ '':'' @ ur_Opaque u else ur_Opaque u)
      in if ur_ForceQuery u \<or> ur_RawQuery u \<noteq> [] then base @ ''?'' @ ur_RawQuery u else base)"

datatype handler_end = Answered nat | Panicked string

record access_line =
  al_ClientIP :: string
  al_Method :: string
  al_Path :: string
  al_Status :: nat
  al_Latency :: int
  al_UserAgent :: string

text \<open>A handler returns how it ended; a panic of it skips the rest of the middleware that called it.  The
  result is the access log, the end, and the request as the outer middleware sees it.\<close>

definition ginLogger ::
  "int \<Rightarrow> (http_request \<Rightarrow> handler_end) \<Rightarrow> http_request \<Rightarrow> access_line list \<times> handler_end \<times> http_request" where
  "ginLogger latency next_handler req =
     (let path = ur_Path (hq_URL req)
      in case next_handler req of
           Panicked v \<Rightarrow> ([], Panicked v, req)
         | Answered statusCode \<Rightarrow>
             ([\<lparr>al_ClientIP = hq_ClientIP req, al_Method = hq_Method req, al_Path = path,
                al_Status = statusCode, al_Latency = latency, al_UserAgent = hq_UserAgent req\<rparr>],
              Answered statusCode, req))"

definition redactTokenOnPanic ::
  "(http_request \<Rightarrow> access_line list \<times> handler_end \<times> http_request) \<Rightarrow>
   http_request \<Rightarrow> access_line list \<times> handler_end \<times> http_request" where
  "redactTokenOnPanic next_handler req =
     (case next_handler req of
        (logs, Panicked recovered, r) \<Rightarrow>
          let r1 = r\<lparr>hq_URL := (hq_URL r)\<lparr>ur_RawQuery := []\<rparr>\<rparr>;
              r2 = r1\<lparr>hq_RequestURI := URL_RequestURI (hq_URL r1)\<rparr>
          in (logs, Panicked recovered, r2)
      | answered \<Rightarrow> answered)"

text \<open>\<open>gin.Recovery\<close> is given the request and the value of the panic; it may log both and answers 500.\<close>

definition serve ::
  "(http_request \<Rightarrow> string \<Rightarrow> string list) \<Rightarrow> int \<Rightarrow> (http_request \<Rightarrow> handler_end) \<Rightarrow> http_request \<Rightarrow>
   nat \<times> access_line list \<times> string list" where
  "serve recovery_log latency handler req =
     (case redactTokenOnPanic (ginLogger latency handler) req of
        (logs, Answered statusCode, _) \<Rightarrow> (statusCode, logs, [])
      | (logs, Panicked v, r) \<Rightarrow> (500, logs, recovery_log r v))"

section \<open>Facts\<close>

lemma base_routes_unfold:
  "base_routes =
     [(''GET'', ''/v1/ping'', Ping), (''GET'', ''/v1/ready'', Ping),
      (''POST'', ''/v1/dk-election'', ElectionCampaign), (''POST'', ''/v1/dk-election/heartbeat'', ElectionHeartbeat),
      (''GET'', ''/v1/dk-election/status'', ElectionStatus), (''GET'', ''/metrics'', ElectionMetrics),
      (''POST'', ''/v1/webhooks/inject'', Inject)]"
  by (simp add: base_routes_def RegisterRoutes_def)


lemma routes_some_distinct:
  "distinct (map (\<lambda>(m, p, _). (m, p)) (base_routes @ (if a then [] else logging_routes) @ (if b then [] else cluster_routes)))"
  by (cases a; cases b) (simp_all add: base_routes_unfold logging_routes_def cluster_routes_def)

lemma endpoint_sets:
  "(\<lambda>(_, _, e). e) ` set base_routes =
     {Ping, ElectionCampaign, ElectionHeartbeat, ElectionStatus, ElectionMetrics, Inject}"
  "(\<lambda>(_, _, e). e) ` set logging_routes = {LoggingConfigs}"
  "(\<lambda>(_, _, e). e) ` set cluster_routes = {AllPods, NamespacePods, NamespacePod}"
  by (auto simp: base_routes_unfold logging_routes_def cluster_routes_def)

definition serves :: "server \<Rightarrow> endpoint \<Rightarrow> bool" where
  "serves sv e \<longleftrightarrow> e \<in> (\<lambda>(_, _, e). e) ` set (sv_routes sv)"

lemma logging_allowed: "CheckClusterLoggingConfigRBAC (Some a) = None \<longleftrightarrow> a = ListOk"
  by (cases a) (simp_all add: CheckClusterLoggingConfigRBAC_def)

lemma pods_allowed: "CheckPodRBAC a = None \<longleftrightarrow> a = None"
  by (cases a) (simp_all add: CheckPodRBAC_def)

lemma boot_result:
  assumes "Run_boot w = Inr sv"
  shows "sv_routes sv = base_routes @ (if bw_list_configs w \<noteq> ListOk then [] else logging_routes) @
      (if bw_list_pods w \<noteq> None then [] else cluster_routes)"
    "sv_watcher sv \<longleftrightarrow> bw_list_configs w = ListOk"
    "sv_pods sv = (if bw_list_pods w \<noteq> None then None else Some new_handler)"
    "sv_cache sv = coordinator_Start (sv_namespace sv) no_lease_cache"
    "\<And>ns. ns \<noteq> [] \<Longrightarrow> sv_namespace sv = ns \<longleftrightarrow>
       ResolveLeaseNamespace (bw_name_problems w) (bw_getenv w ''POD_NAMESPACE'')
         (bw_read_file w ''/var/run/secrets/kubernetes.io/serviceaccount/namespace'') = Inr ns"
  using assms
  by (auto simp: Run_boot_def Let_def logging_allowed pods_allowed split: sum.splits)

lemma endpoints_served:
  assumes "Run_boot w = Inr sv"
  shows "serves sv e \<longleftrightarrow> (case e of
      LoggingConfigs \<Rightarrow> bw_list_configs w = ListOk
    | AllPods \<Rightarrow> bw_list_pods w = None | NamespacePods \<Rightarrow> bw_list_pods w = None | NamespacePod \<Rightarrow> bw_list_pods w = None
    | _ \<Rightarrow> True)"
  unfolding serves_def boot_result(1) [OF assms] set_append image_Un endpoint_sets
  by (cases e) (auto simp: endpoint_sets)

lemma client_outcome:
  "NewClientInCluster getenv read_file cs lg = Inl err \<longleftrightarrow>
     (case DefaultConfigInCluster getenv read_file of
        Inl e \<Rightarrow> err = e
      | Inr cfg \<Rightarrow> (case cs cfg of Inl e \<Rightarrow> err = ClientsetFailed e
          | Inr _ \<Rightarrow> (case lg cfg of Inl e \<Rightarrow> err = LoggingClientFailed e | Inr _ \<Rightarrow> False)))"
  by (auto simp: NewClientInCluster_def NewClient_def split: sum.splits)

section \<open>Properties\<close>

text \<open>C35: whether the Operator starts depends on the Kubernetes client alone: without one \<open>Run\<close> returns the error of the
  client at once, whatever else holds, and with one it serves until it is stopped and returns what ended serving, whatever the
  other parts answer.  In every started server no method and path is registered twice, and the health, election,
  metrics and webhook endpoints are served; the logging endpoint is served exactly when its configurations can be
  listed (and then its watcher is started), the Pod endpoints exactly when Pods can be listed, answering 503 until the handler
  has synchronised; and the informer of the election runs exactly when a namespace was resolved, not counting as ready
  before it has synchronised.\<close>

theorem start_isolates_optional_parts:
  "case NewClientInCluster (bw_getenv w) (bw_read_file w) (bw_new_clientset w) (bw_new_logging w) of
     Inl err \<Rightarrow> Run_boot w = Inl err \<and> Run w ev = Some (Inl err)
   | Inr _ \<Rightarrow> \<exists>sv. Run_boot w = Inr sv \<and> Run w ev = map_option Inr (Run_wait ev) \<and>
       distinct (map (\<lambda>(m, p, _). (m, p)) (sv_routes sv)) \<and>
       list_all (serves sv) [Ping, ElectionCampaign, ElectionHeartbeat, ElectionStatus, ElectionMetrics, Inject] \<and>
       (serves sv LoggingConfigs \<longleftrightarrow> bw_list_configs w = ListOk) \<and> (sv_watcher sv \<longleftrightarrow> serves sv LoggingConfigs) \<and>
       (serves sv AllPods \<longleftrightarrow> bw_list_pods w = None) \<and> (serves sv NamespacePods \<longleftrightarrow> bw_list_pods w = None) \<and>
       (serves sv NamespacePod \<longleftrightarrow> bw_list_pods w = None) \<and>
       (case sv_pods sv of
          None \<Rightarrow> \<not> serves sv AllPods
        | Some h \<Rightarrow> serves sv AllPods \<and> fst (ListAllPods h lister view) = 503 \<and>
            (fst (ListAllPods (snd (handler_Start synced h)) lister view) = 503 \<longleftrightarrow> \<not> synced)) \<and>
       (lk_runs (sv_cache sv) = 1 \<longleftrightarrow>
          (\<exists>ns. ns \<noteq> [] \<and> ResolveLeaseNamespace (bw_name_problems w) (bw_getenv w ''POD_NAMESPACE'')
             (bw_read_file w ''/var/run/secrets/kubernetes.io/serviceaccount/namespace'') = Inr ns)) \<and>
       \<not> Ready (sv_cache sv)"
proof (cases "NewClientInCluster (bw_getenv w) (bw_read_file w) (bw_new_clientset w) (bw_new_logging w)")
  case (Inl err)
  then show ?thesis by (simp add: Run_boot_def Run_def)
next
  case (Inr client)
  then obtain sv where sv: "Run_boot w = Inr sv" by (simp add: Run_boot_def Let_def)
  note b = boot_result [OF sv] and s = endpoints_served [OF sv]
  have d: "distinct (map (\<lambda>(m, p, _). (m, p)) (sv_routes sv))" unfolding b(1) by (rule routes_some_distinct)
  have pods: "case sv_pods sv of None \<Rightarrow> \<not> serves sv AllPods
      | Some h \<Rightarrow> serves sv AllPods \<and> fst (ListAllPods h lister view) = 503 \<and>
          (fst (ListAllPods (snd (handler_Start synced h)) lister view) = 503 \<longleftrightarrow> \<not> synced)"
  proof (cases "bw_list_pods w")
    case None
    have "fst (ListAllPods new_handler lister view) = 503"
      by (simp add: ListAllPods_def requireReady_def new_handler_def)
    moreover have "fst (ListAllPods (snd (handler_Start synced new_handler)) lister view) = 503 \<longleftrightarrow> \<not> synced"
      using pods_served_when_synced [of synced lister view] by (simp add: Let_def)
    ultimately show ?thesis using None by (simp add: b(3) s)
  qed (simp add: b(3) s)
  have runs: "lk_runs (sv_cache sv) = 1 \<longleftrightarrow> sv_namespace sv \<noteq> []"
    by (simp add: b(4) coordinator_Start_def cache_Start_def no_lease_cache_def)
  have "\<not> Ready (sv_cache sv)"
    by (simp add: b(4) coordinator_Start_def cache_Start_def no_lease_cache_def Ready_def)
  then show ?thesis using d pods runs b(2,5) by (auto simp: Inr s sv Run_def)
qed

text \<open>Requests which differ only in the query, and in the request line it was read from.\<close>

definition differs_in_query :: "http_request \<Rightarrow> http_request \<Rightarrow> bool" where
  "differs_in_query r s \<longleftrightarrow>
     (\<exists>query uri. s = r\<lparr>hq_URL := (hq_URL r)\<lparr>ur_RawQuery := query\<rparr>, hq_RequestURI := uri\<rparr>)"

text \<open>C37: the query of a request, which may hold a workspace token, reaches neither the access log nor what the recovery
  of a panic logs: for requests which differ only in their query, and on which the handler ends in the same way, the status
  and everything logged are the same.\<close>

theorem query_never_logged:
  assumes "differs_in_query r s" "handler r = handler s"
  shows "serve recovery_log latency handler r = serve recovery_log latency handler s"
proof -
  obtain query uri where s: "s = r\<lparr>hq_URL := (hq_URL r)\<lparr>ur_RawQuery := query\<rparr>, hq_RequestURI := uri\<rparr>"
    using assms(1) by (auto simp: differs_in_query_def)
  show ?thesis
  proof (cases "handler s")
    case (Answered n)
    then show ?thesis using assms(2) by (simp add: serve_def redactTokenOnPanic_def ginLogger_def Let_def s)
  next
    case (Panicked v)
    then show ?thesis using assms(2)
      by (simp add: serve_def redactTokenOnPanic_def ginLogger_def URL_RequestURI_def Let_def s)
  qed
qed

definition example_http :: http_request where
  "example_http = \<lparr>hq_Method = ''POST'', hq_ClientIP = ''10.0.0.1'', hq_UserAgent = ''datakit'',
     hq_URL = \<lparr>ur_Scheme = [], ur_Opaque = [], ur_Path = ''/v1/dk-election'', ur_EscapedPath = ''/v1/dk-election'',
       ur_ForceQuery = False, ur_RawQuery = ''token=t1''\<rparr>,
     hq_RequestURI = ''/v1/dk-election?token=t1''\<rparr>"

lemma query_never_logged_witness:
  "serve (\<lambda>r v. [hq_RequestURI r, v]) 0 (\<lambda>_. Panicked ''boom'') example_http =
     serve (\<lambda>r v. [hq_RequestURI r, v]) 0 (\<lambda>_. Panicked ''boom'')
       (example_http\<lparr>hq_URL := (hq_URL example_http)\<lparr>ur_RawQuery := ''token=t2''\<rparr>,
          hq_RequestURI := ''/v1/dk-election?token=t2''\<rparr>) \<and>
   serve (\<lambda>r v. [hq_RequestURI r, v]) 0 (\<lambda>_. Panicked ''boom'') example_http = (500, [], [''/v1/dk-election'', ''boom''])"
proof -
  have d: "differs_in_query example_http (example_http\<lparr>hq_URL := (hq_URL example_http)\<lparr>ur_RawQuery := ''token=t2''\<rparr>,
      hq_RequestURI := ''/v1/dk-election?token=t2''\<rparr>)"
    by (auto simp: differs_in_query_def)
  have v: "serve (\<lambda>r v. [hq_RequestURI r, v]) 0 (\<lambda>_. Panicked ''boom'') example_http = (500, [], [''/v1/dk-election'', ''boom''])"
    by (simp add: serve_def redactTokenOnPanic_def ginLogger_def URL_RequestURI_def Let_def example_http_def)
  show ?thesis
    using query_never_logged [OF d, of "\<lambda>_. Panicked ''boom''" "\<lambda>r v. [hq_RequestURI r, v]" 0] v by simp
qed

section \<open>The loaded Operator\<close>

text \<open>The injectors and the mutator read the rules of the global configuration through the functions of
  \<open>apis/webhook/injector/var.go\<close> and \<open>apis/webhook/mutator/var.go\<close>.\<close>

definition webhook_config :: "configuration \<Rightarrow> admission_config" where
  "webhook_config c = \<lparr>ac_Inject = cf_AdmissionInject c, ac_Mutate = cf_AdmissionMutate c\<rparr>"

lemma loaded_resources_ok:
  assumes "resources_Verify pq defaultResourceRequirements"
    and "LoadConfigWithEnv unmarshal (Configuration_Setup compile glob pq) getenv read_file c = Some c'"
  shows "inject_resources_ok pq (ac_Inject (webhook_config c'))"
proof -
  obtain c0 where "c' = Configuration_Setup compile glob pq c0"
    using assms(2) by (auto simp: LoadConfigWithEnv_def parseConfig_def split: if_splits option.splits)
  then show ?thesis using setup_inject_resources_ok [OF assms(1)] by (simp add: webhook_config_def)
qed

text \<open>C2: whatever configuration text the Operator loads, from the file or from the environment variable, every admission
  review it is sent is answered: the response carries the UID of the request, always admits the Pod, and holds either a
  JSON patch or the reason why there is none, the latter exactly when the resource is not a Pod or its object cannot be
  decoded; and the HTTP handler sends that response with status 200 as soon as it can be marshalled.\<close>

theorem loaded_operator_admits:
  assumes "resources_Verify (wc_quantity wc) defaultResourceRequirements"
    and "LoadConfigWithEnv unmarshal (Configuration_Setup compile glob (wc_quantity wc)) getenv read_file c = Some c'"
    and "decode bytes = Inr (AdmissionReview (Some requ), admissionReviewKind)"
  shows "\<exists>r. review_response (webhook_config c') wc requ = Some r \<and> rs_UID r = ar_UID requ \<and> rs_Allowed r \<and>
     (rs_PatchType r = Some ''JSONPatch'' \<longleftrightarrow> rs_Patch r \<noteq> None) \<and> (rs_Patch r = None \<longleftrightarrow> rs_Result r \<noteq> None) \<and>
     (rs_Result r \<noteq> None \<longleftrightarrow> ar_Resource requ \<noteq> podResource \<or> isl (wc_pod wc (ar_Object requ))) \<and>
     HandleInject (webhook_config c') wc decode show_kind marshal ''application/json'' (Some bytes) =
       (case marshal r of Inl err \<Rightarrow> Some \<lparr>hr_Status = 500, hr_Body = TextBody err\<rparr>
        | Inr body \<Rightarrow> Some \<lparr>hr_Status = 200, hr_Body = DataBody body\<rparr>)"
proof -
  obtain r where r: "review_response (webhook_config c') wc requ = Some r \<and> rs_UID r = ar_UID requ \<and> rs_Allowed r \<and>
      (rs_PatchType r = Some ''JSONPatch'' \<longleftrightarrow> rs_Patch r \<noteq> None) \<and> (rs_Patch r = None \<longleftrightarrow> rs_Result r \<noteq> None) \<and>
      (rs_Result r \<noteq> None \<longleftrightarrow> ar_Resource requ \<noteq> podResource \<or> isl (wc_pod wc (ar_Object requ)))"
    using review_always_admits [OF loaded_resources_ok [OF assms(1,2)], of requ] ..
  moreover have "HandleInject (webhook_config c') wc decode show_kind marshal ''application/json'' (Some bytes) =
       (case marshal r of Inl err \<Rightarrow> Some \<lparr>hr_Status = 500, hr_Body = TextBody err\<rparr>
        | Inr body \<Rightarrow> Some \<lparr>hr_Status = 200, hr_Body = DataBody body\<rparr>)"
    using r assms(3) by (simp add: HandleInject_def)
  ultimately show ?thesis by (intro exI [of _ r] conjI) (simp_all only: )
qed

lemma loaded_operator_admits_witness:
  "\<exists>c' r. LoadConfigWithEnv (\<lambda>_ _. None) (Configuration_Setup example_glob example_glob example_quantity)
       (\<lambda>_. []) (\<lambda>_. None) initDefaultConfiguration = Some c' \<and>
     review_response (webhook_config c') example_codecs example_request = Some r \<and> rs_Allowed r"
proof -
  let ?c = "Configuration_Setup example_glob example_glob example_quantity initDefaultConfiguration"
  have quantities: "wc_quantity example_codecs = example_quantity" by (simp add: example_codecs_def)
  have load: "LoadConfigWithEnv (\<lambda>_ _. None) (Configuration_Setup example_glob example_glob (wc_quantity example_codecs))
      (\<lambda>_. []) (\<lambda>_. None) initDefaultConfiguration = Some ?c"
    by (simp add: LoadConfigWithEnv_def parseConfig_def quantities)
  have default: "resources_Verify (wc_quantity example_codecs) defaultResourceRequirements" by code_simp
  have "(\<lambda>_. Inr (AdmissionReview (Some example_request), admissionReviewKind)) [] =
      Inr (AdmissionReview (Some example_request), admissionReviewKind)" by simp
  from loaded_operator_admits [OF default load this, where show_kind = "\<lambda>_. []" and marshal = "\<lambda>_. Inr []"] load
  show ?thesis unfolding quantities by blast
qed

section \<open>The process\<close>

text \<open>The package \<open>p\<close> logs under its own name to \<open>z\<close>.\<close>

definition logs_to :: "log_state \<Rightarrow> zap_logger \<Rightarrow> log_package \<Rightarrow> bool" where
  "logs_to st z p \<longleftrightarrow> ls_log st p = Some \<lparr>su_logger = z, su_name = log_name p\<rparr>"

lemma main_started:
  assumes "\<And>z. build z = None"
  shows "\<exists>(st :: log_state) st1. logger_init lookup_env build = Some (ls_lib st) \<and> package_loggers (ls_lib st) = Some st1 \<and>
    (\<exists>st2. initLog st1 = Some st2 \<and> lib_at (env_root lookup_env) (first_logger lookup_env) (ls_lib st2) \<and>
      (\<forall>p. logs_to st2 (first_logger lookup_env) p))"
proof -
  obtain lib where lib: "logger_init lookup_env build = Some lib" "lib_at (env_root lookup_env) (first_logger lookup_env) lib"
    using logger_init_at [of build lookup_env] assms by blast
  obtain st1 where st1: "package_loggers lib = Some st1" "lib_at (env_root lookup_env) (first_logger lookup_env) (ls_lib st1)"
      "ls_log st1 = (\<lambda>p. Some \<lparr>su_logger = first_logger lookup_env, su_name = log_name p\<rparr>)"
    using package_loggers_at [OF lib(2)] by blast
  obtain st2 where "initLog st1 = Some st2" "lib_at (env_root lookup_env) (first_logger lookup_env) (ls_lib st2)"
      "\<forall>p. logs_to st2 (first_logger lookup_env) p"
    using assign_one [OF st1(2), of ConfigLog] st1(3) by (auto simp: initLog_def logs_to_def)
  then show ?thesis using lib(1) st1(1) by (metis log_state.select_convs(1))
qed

lemma Run_loggers_at:
  assumes "lib_at rt z (ls_lib st)"
  shows "\<exists>st'. Run_loggers has_client st = Some st' \<and>
    (\<forall>p. logs_to st' z p \<longleftrightarrow> logs_to st z p \<or> p = ApisLog \<or> (has_client \<and> p \<noteq> MainLog \<and> p \<noteq> ConfigLog)) \<and>
    (\<forall>p y. logs_to st y p \<longrightarrow> p \<in> {MainLog, ConfigLog} \<or> (\<not> has_client \<and> p \<noteq> ApisLog) \<longrightarrow> logs_to st' y p)"
proof -
  have "p \<in> set [ApisLog, AdmissionLog, InjectorLog, MutatorLog, LoggingLog, LoggingConfigLog, ClusterLog, ElectionLog]
      \<longleftrightarrow> p \<noteq> MainLog \<and> p \<noteq> ConfigLog" for p by (cases p) simp_all
  then show ?thesis
    using assign_all [of SLogger rt z st "[ApisLog, AdmissionLog, InjectorLog, MutatorLog, LoggingLog, LoggingConfigLog, ClusterLog, ElectionLog]"]
      assign_all [of SLogger rt z st "[ApisLog]"] assms
    by (cases has_client) (auto simp: Run_loggers_flat logs_to_def)
qed

text \<open>C15: How the Operator's process starts and ends, and where its packages log.  When loggers
  can be built, it never panics while it sets them up.  A configuration that cannot be loaded ends it with status 0, a log level
  which is not one of the seven names (in lower case) or empty with status 1, in both cases without running the server;
  otherwise it runs, and ends with status 0 whether or not \<open>Run\<close> failed.  Once the server has a client, every
  package logs under its own name at the configured level, except the package of the configuration, which
  logs at debug level; with \<open>LOGGER_PATH\<close> set, all of them log at debug level, whatever the configuration says.\<close>

theorem process_outcome:
  assumes "\<And>z. build z = None"
  shows "\<exists>out code st. operator_process lookup_env build loaded w ev = Some (out, code, st) \<and>
    logs_to st (first_logger lookup_env) ConfigLog \<and>
    (case loaded of
       None \<Rightarrow> out = [ConfigError] \<and> code = 0 \<and> (\<forall>p. logs_to st (first_logger lookup_env) p)
     | Some cfg \<Rightarrow>
         if \<not> valid_level (cf_LogLevel cfg)
         then (\<exists>err. out = [ConfigParsed, LoggerFatal err]) \<and> code = 1 \<and> (\<forall>p. logs_to st (first_logger lookup_env) p)
         else out = [ConfigParsed, OperatorStart] @ (case Run w ev of None \<Rightarrow> [] | Some e \<Rightarrow> [RunError e]) \<and> code = 0 \<and>
           (\<forall>p. p = ConfigLog \<or> (\<exists>err. Run_boot w = Inl err \<and> p \<noteq> MainLog \<and> p \<noteq> ApisLog) \<or>
              logs_to st (final_logger lookup_env (cf_LogLevel cfg)) p)) \<and>
    (lookup_env ''LOGGER_PATH'' = None \<or> final_logger lookup_env level = first_logger lookup_env)"
proof -
  obtain st0 :: log_state and st1 st2 where start: "logger_init lookup_env build = Some (ls_lib st0)" "package_loggers (ls_lib st0) = Some st1"
      "initLog st1 = Some st2" and lib2: "lib_at (env_root lookup_env) (first_logger lookup_env) (ls_lib st2)"
      and logs2: "\<And>p. logs_to st2 (first_logger lookup_env) p"
    using main_started [of build lookup_env] assms by blast
  have same: "lookup_env ''LOGGER_PATH'' = None \<or> final_logger lookup_env level = first_logger lookup_env"
    by (simp add: final_logger_def)
  note p = operator_process_def main_program_def start
  show ?thesis
  proof (cases loaded)
    case None
    then show ?thesis using same logs2 by (simp add: p) blast
  next
    case (Some cfg)
    show ?thesis
    proof (cases "valid_level (cf_LogLevel cfg)")
      case False
      then show ?thesis using same logs2 Some
        by (simp add: p initLogger_def InitRoot_refuses) blast
    next
      case True
      let ?z = "final_logger lookup_env (cf_LogLevel cfg)" and ?c = "case Run_boot w of Inl _ \<Rightarrow> False | Inr _ \<Rightarrow> True"
      obtain st3 where init: "initLogger lookup_env build (cf_LogLevel cfg) st2 = Some (None, st3)"
          and lib3: "lib_at (env_root lookup_env) ?z (ls_lib st3)"
          and log3: "ls_log st3 = (ls_log st2)(MainLog := Some \<lparr>su_logger = ?z, su_name = ''main''\<rparr>)"
        using initLogger_at [of build "cf_LogLevel cfg" lookup_env st2] assms True lib2 by blast
      obtain st4 where run: "Run_loggers ?c st3 = Some st4"
          and new: "\<And>p. logs_to st4 ?z p \<longleftrightarrow> logs_to st3 ?z p \<or> p = ApisLog \<or> (?c \<and> p \<noteq> MainLog \<and> p \<noteq> ConfigLog)"
          and kept: "\<And>p y. logs_to st3 y p \<Longrightarrow> p \<in> {MainLog, ConfigLog} \<Longrightarrow> logs_to st4 y p"
        using Run_loggers_at [OF lib3, of ?c] by blast
      have "logs_to st3 (first_logger lookup_env) ConfigLog" "logs_to st3 ?z MainLog"
        using logs2 [of ConfigLog] log3 by (simp_all add: logs_to_def)
      then have "logs_to st4 (first_logger lookup_env) ConfigLog" "logs_to st4 ?z MainLog" using kept by simp_all
      then show ?thesis using same Some True run new
        by (auto simp: p init Run_with_loggers_def split: sum.splits)
    qed
  qed
qed

definition example_boot :: "(unit, unit) boot_world" where
  "example_boot = \<lparr>bw_getenv = (\<lambda>_. ''10''), bw_read_file = (\<lambda>_. Inr ''kube''), bw_new_clientset = (\<lambda>_. Inr ()),
     bw_new_logging = (\<lambda>_. Inr ()), bw_name_problems = (\<lambda>_. []), bw_list_configs = ListOk, bw_list_pods = None\<rparr>"

lemma process_outcome_witness:
  "\<exists>st. operator_process (\<lambda>_. None) (\<lambda>_. None) (Some (initDefaultConfiguration\<lparr>cf_LogLevel := ''warn''\<rparr>)) example_boot
       (ContextDone None) = Some ([ConfigParsed, OperatorStart], 0, st) \<and>
     logs_to st (stdoutLogger ''debug'' OPT_DEFAULT) ConfigLog \<and>
     (\<forall>p. p \<noteq> ConfigLog \<longrightarrow> logs_to st (stdoutLogger ''warn'' (or OPT_DEFAULT OPT_STDOUT)) p)"
proof -
  have boot: "Run_boot example_boot \<noteq> Inl err" for err
    by (simp add: Run_boot_def example_boot_def NewClientInCluster_def DefaultConfigInCluster_def NewClient_def Let_def)
  then have run: "Run example_boot (ContextDone None) = None"
    by (auto simp: Run_def Run_wait_def split: sum.splits)
  show ?thesis
    using process_outcome [of "\<lambda>_. None" "\<lambda>_. None" "Some (initDefaultConfiguration\<lparr>cf_LogLevel := ''warn''\<rparr>)"
        example_boot "ContextDone None"] boot run
    by (auto simp: valid_level_def log_levels_def first_logger_def final_logger_def env_root_def)
qed

end
