(* ===== verification/Doc_Translation.thy ===== *)
theory Doc_Translation
  imports Go_Strings
begin

text \<open>
  The documentation checkers.  \<open>cmd/doctranslationcheck/main.go\<close> compares the translated Markdown
  documents with their source documents: the same files, up-to-date metadata, and the same protected
  syntax.  Its regular expressions are written out as scanners.  The file system, the JSON decoding of
  the metadata and the SHA-256 sum in hexadecimal are arguments; the file system does not change during
  a run.  \<open>cmd/doccheck/main.go\<close> prints the findings of a Markdown checker, an argument too.
\<close>

section \<open>Protected syntax\<close>

text \<open>\<open>split_at p s\<close>: what stands before the first occurrence of \<open>p\<close>, and what follows it.\<close>

fun split_at :: "string \<Rightarrow> string \<Rightarrow> (string \<times> string) option" where
  "split_at p [] = (if p = [] then Some ([], []) else None)"
| "split_at p (c # s) =
     (if has_prefix (c # s) p then Some ([], drop (length p) (c # s))
      else map_option (\<lambda>(b, a). (c # b, a)) (split_at p s))"

text \<open>The expression \<open>open .*? close\<close>, anchored: the matched text, and what follows.\<close>

definition match_delimited :: "string \<Rightarrow> string \<Rightarrow> string \<Rightarrow> (string \<times> string) option" where
  "match_delimited opening closing s =
     (if has_prefix s opening
      then map_option (\<lambda>(b, a). (opening @ b @ closing, a)) (split_at closing (drop (length opening) s))
      else None)"

definition is_blank :: "char \<Rightarrow> bool" where
  "is_blank c \<longleftrightarrow> c = CHR '' '' \<or> c = CHR 0x09"

definition attribute_char :: "char \<Rightarrow> bool" where
  "attribute_char c \<longleftrightarrow> c \<notin> {CHR ''{'', CHR ''}'', CHR 0x0A}"

text \<open>A brace, blanks, one of \<open># . :\<close>, and anything but braces and newlines up to the closing brace.\<close>

definition match_attribute :: "string \<Rightarrow> (string \<times> string) option" where
  "match_attribute s = (case s of
       [] \<Rightarrow> None
     | c # s1 \<Rightarrow>
         if c \<noteq> CHR ''{'' then None
         else (case dropWhile is_blank s1 of
             [] \<Rightarrow> None
           | k # s2 \<Rightarrow>
               if k \<notin> {CHR ''#'', CHR ''.'', CHR '':''} then None
               else (case dropWhile attribute_char s2 of
                   [] \<Rightarrow> None
                 | e # s3 \<Rightarrow>
                     if e \<noteq> CHR ''}'' then None
                     else Some (c # takeWhile is_blank s1 @ k # takeWhile attribute_char s2 @ [e], s3))))"

text \<open>\<open>FindAllString\<close> with \<open>-1\<close>: the leftmost matches, one after the other.  An expression that
  matched the empty text would make no progress; none of these does.\<close>

function find_all :: "(string \<Rightarrow> (string \<times> string) option) \<Rightarrow> string \<Rightarrow> string list" where
  "find_all m s = (case s of
       [] \<Rightarrow> []
     | c # cs \<Rightarrow> (case m s of
           None \<Rightarrow> find_all m cs
         | Some (t, rest) \<Rightarrow> if length rest < length s then t # find_all m rest else find_all m cs))"
  by pat_completeness auto
termination by (relation "measure (length \<circ> snd)") auto

declare find_all.simps [simp del]

definition protectedSyntax :: "(string \<times> (string \<Rightarrow> (string \<times> string) option)) list" where
  "protectedSyntax =
     [(''template placeholders'', match_delimited ''{{'' ''}}''),
      (''brand variables'', match_delimited ''<<<'' ''>>>''),
      (''markdown attributes'', match_attribute)]"

section \<open>Fenced code\<close>

text \<open>\<open>fenceLine\<close>: the marker and the length of the whole run of markers; a run is three or longer.\<close>

definition fenceLine :: "string \<Rightarrow> (char \<times> nat) option" where
  "fenceLine line = (case dropWhile is_blank line of
       [] \<Rightarrow> None
     | c # s \<Rightarrow>
         if c \<notin> {CHR 0x60, CHR ''~''} then None
         else (let n = length (takeWhile (\<lambda>d. d = c) (c # s)) in if n < 3 then None else Some (c, n)))"

definition is_bracket :: "char \<Rightarrow> bool" where
  "is_bracket c \<longleftrightarrow> c \<in> {CHR ''{'', CHR ''}'', CHR ''['', CHR '']''}"

definition closes_fence :: "char \<times> nat \<Rightarrow> string \<Rightarrow> bool" where
  "closes_fence fence line = (case fenceLine line of
     None \<Rightarrow> False | Some (marker, n) \<Rightarrow> marker = fst fence \<and> n \<ge> snd fence)"

text \<open>The loop of \<open>fencedCodeBracketSignatures\<close> over the lines: the open fence and the brackets
  collected since, if any, and the signatures so far.  \<open>None\<close> is the error of an unclosed fence.\<close>

fun scan_fences :: "((char \<times> nat) \<times> string) option \<Rightarrow> string list \<Rightarrow> string list \<Rightarrow> string list option" where
  "scan_fences None signatures [] = Some signatures"
| "scan_fences (Some _) signatures [] = None"
| "scan_fences None signatures (line # lines) =
     scan_fences (map_option (\<lambda>fence. (fence, [])) (fenceLine line)) signatures lines"
| "scan_fences (Some (fence, brackets)) signatures (line # lines) =
     (if closes_fence fence line then scan_fences None (signatures @ [brackets]) lines
      else scan_fences (Some (fence, brackets @ filter is_bracket line)) signatures lines)"

definition document_lines :: "string \<Rightarrow> string list" where
  "document_lines content = map (\<lambda>raw. trim_suffix raw [CHR 0x0D]) (split_on (CHR 0x0A) content)"

definition fencedCodeBracketSignatures :: "string \<Rightarrow> string list option" where
  "fencedCodeBracketSignatures content = scan_fences None [] (document_lines content)"

section \<open>The comparison of two documents\<close>

datatype check_error =
    ReadDirFailed string | NoDocuments string | ReadFailed string | MetadataUndecodable string
  | UnsupportedVersion int | WrongTarget string | EmptyLanguage | FilenamesDiffer string
  | HashFailed string | StaleMetadata string string | EmptyTranslation string
  | SyntaxDiffers string | SignaturesUnreadable string | SignaturesDiffer string

definition sameStrings :: "string list \<Rightarrow> string list \<Rightarrow> bool" where
  "sameStrings left right =
     (if length left \<noteq> length right then False
      else list_all (\<lambda>index. left ! index = right ! index) [0..<length left])"

fun first_difference ::
  "(string \<times> (string \<Rightarrow> (string \<times> string) option)) list \<Rightarrow> string \<Rightarrow> string \<Rightarrow> string option" where
  "first_difference [] source target = None"
| "first_difference ((name, expression) # rest) source target =
     (if \<not> sameStrings (find_all expression source) (find_all expression target) then Some name
      else first_difference rest source target)"

text \<open>\<open>None\<close> is a nil error.\<close>

definition checkProtectedSyntax ::
  "string \<Rightarrow> string \<Rightarrow> string \<Rightarrow> string \<Rightarrow> string \<Rightarrow> check_error option" where
  "checkProtectedSyntax sourceLanguage targetLanguage name source target =
     (case first_difference protectedSyntax source target of
        Some syntax \<Rightarrow> Some (SyntaxDiffers syntax)
      | None \<Rightarrow> (case fencedCodeBracketSignatures source of
          None \<Rightarrow> Some (SignaturesUnreadable sourceLanguage)
        | Some sourceSignatures \<Rightarrow> (case fencedCodeBracketSignatures target of
            None \<Rightarrow> Some (SignaturesUnreadable targetLanguage)
          | Some targetSignatures \<Rightarrow>
              if \<not> sameStrings sourceSignatures targetSignatures then Some (SignaturesDiffer name) else None)))"

section \<open>The file system\<close>

text \<open>A directory's entries in order of name, with whether each is a directory; the content of a file.
  \<open>Inl\<close> is an error.\<close>

record doc_files =
  df_dir :: "string \<Rightarrow> string + (string \<times> bool) list"
  df_read :: "string \<Rightarrow> string + string"

definition go_join :: "string list \<Rightarrow> string" where
  "go_join elems =
     (let parts = filter (\<lambda>e. e \<noteq> []) elems in if parts = [] then [] else path_clean (join ''/'' parts))"

definition go_ext :: "string \<Rightarrow> string" where
  "go_ext path =
     (let tail = takeWhile (\<lambda>c. c \<noteq> CHR ''.'' \<and> c \<noteq> CHR ''/'') (rev path)
      in case drop (length tail) (rev path) of
           [] \<Rightarrow> []
         | c # _ \<Rightarrow> if c = CHR ''.'' then c # rev tail else [])"

definition listMarkdownDocuments :: "doc_files \<Rightarrow> string \<Rightarrow> check_error + string list" where
  "listMarkdownDocuments fs dir =
     (case df_dir fs dir of
        Inl _ \<Rightarrow> Inl (ReadDirFailed dir)
      | Inr entries \<Rightarrow>
          let found = sort (map fst (filter (\<lambda>(name, is_dir). \<not> is_dir \<and> go_ext name = ''.md'') entries))
          in if length found = 0 then Inl (NoDocuments dir) else Inr found)"

record translation_metadata =
  tm_Version :: int
  tm_TargetLanguage :: string
  tm_SourceHashes :: "(string, string) fmap"

definition loadMetadata ::
  "doc_files \<Rightarrow> (string \<Rightarrow> translation_metadata option) \<Rightarrow> string \<Rightarrow> string \<Rightarrow>
   check_error + translation_metadata" where
  "loadMetadata fs decode root language =
     (let path = go_join [root, language, ''.translation'', ''metadata.json'']
      in case df_read fs path of
           Inl _ \<Rightarrow> Inl (ReadFailed path)
         | Inr data \<Rightarrow> (case decode data of
             None \<Rightarrow> Inl (MetadataUndecodable path)
           | Some metadata \<Rightarrow>
               if tm_Version metadata \<noteq> 1 then Inl (UnsupportedVersion (tm_Version metadata))
               else if tm_TargetLanguage metadata \<noteq> language then Inl (WrongTarget (tm_TargetLanguage metadata))
               else Inr metadata))"

definition hashDocument :: "doc_files \<Rightarrow> (string \<Rightarrow> string) \<Rightarrow> string \<Rightarrow> string option" where
  "hashDocument fs sha256_hex path =
     (case df_read fs path of Inl _ \<Rightarrow> None | Inr data \<Rightarrow> Some (sha256_hex data))"

text \<open>The body of the loop over the documents of a language.\<close>

definition check_document ::
  "doc_files \<Rightarrow> (string \<Rightarrow> string) \<Rightarrow> string \<Rightarrow> string \<Rightarrow> string \<Rightarrow> translation_metadata \<Rightarrow> string \<Rightarrow>
   check_error option" where
  "check_document fs sha256_hex root sourceLanguage language metadata name =
     (let sourcePath = go_join [go_join [root, sourceLanguage], name];
          targetPath = go_join [go_join [root, language], name]
      in case hashDocument fs sha256_hex sourcePath of
           None \<Rightarrow> Some (HashFailed sourcePath)
         | Some sourceHash \<Rightarrow>
             if fmlookup (tm_SourceHashes metadata) name \<noteq> Some sourceHash
             then Some (StaleMetadata language name)
             else (case df_read fs sourcePath of
                 Inl _ \<Rightarrow> Some (ReadFailed sourcePath)
               | Inr source \<Rightarrow> (case df_read fs targetPath of
                   Inl _ \<Rightarrow> Some (ReadFailed targetPath)
                 | Inr target \<Rightarrow>
                     if trim_space target = [] then Some (EmptyTranslation targetPath)
                     else checkProtectedSyntax sourceLanguage language name source target)))"

fun first_error :: "('a \<Rightarrow> check_error option) \<Rightarrow> 'a list \<Rightarrow> check_error option" where
  "first_error f [] = None"
| "first_error f (x # xs) = (case f x of Some e \<Rightarrow> Some e | None \<Rightarrow> first_error f xs)"

definition check_language ::
  "doc_files \<Rightarrow> (string \<Rightarrow> translation_metadata option) \<Rightarrow> (string \<Rightarrow> string) \<Rightarrow> string \<Rightarrow> string \<Rightarrow>
   string list \<Rightarrow> string \<Rightarrow> check_error option" where
  "check_language fs decode sha256_hex root sourceLanguage sourceDocuments language =
     (if language = [] then Some EmptyLanguage
      else case listMarkdownDocuments fs (go_join [root, language]) of
          Inl e \<Rightarrow> Some e
        | Inr targetDocuments \<Rightarrow>
            if \<not> sameStrings sourceDocuments targetDocuments then Some (FilenamesDiffer language)
            else (case loadMetadata fs decode root language of
                Inl e \<Rightarrow> Some e
              | Inr metadata \<Rightarrow>
                  first_error (check_document fs sha256_hex root sourceLanguage language metadata) sourceDocuments))"

definition checkTranslations ::
  "doc_files \<Rightarrow> (string \<Rightarrow> translation_metadata option) \<Rightarrow> (string \<Rightarrow> string) \<Rightarrow> string \<Rightarrow> string \<Rightarrow>
   string list \<Rightarrow> check_error option" where
  "checkTranslations fs decode sha256_hex root sourceLanguage targetLanguages =
     (case listMarkdownDocuments fs (go_join [root, sourceLanguage]) of
        Inl e \<Rightarrow> Some e
      | Inr sourceDocuments \<Rightarrow>
          first_error (check_language fs decode sha256_hex root sourceLanguage sourceDocuments) targetLanguages)"

text \<open>The exit status of the program.\<close>

definition translationcheck_main ::
  "doc_files \<Rightarrow> (string \<Rightarrow> translation_metadata option) \<Rightarrow> (string \<Rightarrow> string) \<Rightarrow> nat" where
  "translationcheck_main fs decode sha256_hex =
     (case checkTranslations fs decode sha256_hex ''export'' ''zh'' [''en'', ''ja'', ''ko''] of
        Some _ \<Rightarrow> 1 | None \<Rightarrow> 0)"

section \<open>The Markdown checker\<close>

record check_finding =
  fi_Path :: string
  fi_Err :: string
  fi_Warn :: string
  fi_Text :: string

datatype markdown_error = StatFailed string | NotADirectory string | CheckFailed string | WriteFailed string
  | IssuesFound nat

text \<open>Whether the path is a directory, or the error of asking; the answer of the checker; the writer, which
  is given the path, the message and the quoted text of each finding in turn and may fail.\<close>

fun print_findings ::
  "(string \<Rightarrow> string \<Rightarrow> string option \<Rightarrow> string option) \<Rightarrow> check_finding list \<Rightarrow> markdown_error option" where
  "print_findings write [] = None"
| "print_findings write (f # fs) =
     (let message = (if fi_Err f = [] then fi_Warn f else fi_Err f)
      in case write (fi_Path f) message (if fi_Text f = [] then None else Some (fi_Text f)) of
           Some err \<Rightarrow> Some (WriteFailed err)
         | None \<Rightarrow> print_findings write fs)"

definition checkMarkdown ::
  "string + bool \<Rightarrow> (bool \<Rightarrow> string + check_finding list) \<Rightarrow>
   (string \<Rightarrow> string \<Rightarrow> string option \<Rightarrow> string option) \<Rightarrow> string \<Rightarrow> bool \<Rightarrow> markdown_error option" where
  "checkMarkdown stat check write dir checkSection =
     (case stat of
        Inl err \<Rightarrow> Some (StatFailed err)
      | Inr is_dir \<Rightarrow>
          if \<not> is_dir then Some (NotADirectory dir)
          else (case check checkSection of
              Inl err \<Rightarrow> Some (CheckFailed err)
            | Inr results \<Rightarrow> (case print_findings write results of
                Some err \<Rightarrow> Some err
              | None \<Rightarrow> if length results > 0 then Some (IssuesFound (length results)) else None)))"

definition doccheck_main ::
  "string \<Rightarrow> nat \<Rightarrow> bool \<Rightarrow> string + bool \<Rightarrow> (bool \<Rightarrow> string + check_finding list) \<Rightarrow>
   (string \<Rightarrow> string \<Rightarrow> string option \<Rightarrow> string option) \<Rightarrow> nat" where
  "doccheck_main dir narg checkSection stat check write =
     (if dir = [] \<or> narg \<noteq> 0 then 2
      else case checkMarkdown stat check write dir checkSection of Some _ \<Rightarrow> 1 | None \<Rightarrow> 0)"

section \<open>The fences of a document\<close>

text \<open>
  What the loop over the lines recognises: text outside fences, and blocks of an opening line, lines
  which do not close it, and a closing line, each with the brackets of the lines between.
\<close>

inductive fenced :: "string list \<Rightarrow> string list \<Rightarrow> bool" where
  at_end: "fenced [] []"
| outside: "\<lbrakk>fenceLine line = None; fenced lines signatures\<rbrakk> \<Longrightarrow> fenced (line # lines) signatures"
| block: "\<lbrakk>fenceLine opening = Some fence; \<forall>c \<in> set code. \<not> closes_fence fence c; closes_fence fence closing;
    fenced lines signatures\<rbrakk> \<Longrightarrow>
    fenced (opening # code @ closing # lines) (filter is_bracket (concat code) # signatures)"

lemma scan_code:
  "\<forall>c \<in> set code. \<not> closes_fence fence c \<Longrightarrow>
   scan_fences (Some (fence, b)) ss (code @ lines) = scan_fences (Some (fence, b @ filter is_bracket (concat code))) ss lines"
  by (induction code arbitrary: b) auto

lemma fenced_scanned: "fenced lines signatures \<Longrightarrow> scan_fences None ss lines = Some (ss @ signatures)"
  by (induction lines signatures arbitrary: ss rule: fenced.induct) (auto simp: scan_code)

lemma scanned_fenced:
  "scan_fences None ss lines = Some out \<Longrightarrow> \<exists>signatures. out = ss @ signatures \<and> fenced lines signatures"
proof (induction "length lines" arbitrary: lines ss rule: less_induct)
  case less
  show ?case
  proof (cases lines)
    case (Cons line rest)
    show ?thesis
    proof (cases "fenceLine line")
      case None
      then show ?thesis using less.hyps [of rest ss] less.prems Cons by (auto intro: fenced.outside)
    next
      case (Some fence)
      define code where "code = takeWhile (\<lambda>l. \<not> closes_fence fence l) rest"
      have code: "\<forall>c \<in> set code. \<not> closes_fence fence c" unfolding code_def by (auto dest: set_takeWhileD)
      have rest: "rest = code @ dropWhile (\<lambda>l. \<not> closes_fence fence l) rest" by (simp add: code_def)
      have "scan_fences (Some (fence, [])) ss (code @ dropWhile (\<lambda>l. \<not> closes_fence fence l) rest) = Some out"
        using less.prems Cons Some by (simp add: code_def)
      then have run: "scan_fences (Some (fence, filter is_bracket (concat code))) ss
          (dropWhile (\<lambda>l. \<not> closes_fence fence l) rest) = Some out" by (simp add: scan_code [OF code])
      then obtain closing lines' where d: "dropWhile (\<lambda>l. \<not> closes_fence fence l) rest = closing # lines'"
        by (cases "dropWhile (\<lambda>l. \<not> closes_fence fence l) rest") auto
      then have c: "closes_fence fence closing" by (metis dropWhile_eq_Cons_conv)
      have "length lines' < length lines" using rest d Cons by (metis length_append length_Cons less_add_Suc2 less_SucI add_Suc_right)
      moreover have "scan_fences None (ss @ [filter is_bracket (concat code)]) lines' = Some out" using run d c by simp
      ultimately obtain sigs where "out = ss @ filter is_bracket (concat code) # sigs" "fenced lines' sigs"
        using less.hyps [of lines' "ss @ [filter is_bracket (concat code)]"] by auto
      then show ?thesis using fenced.block [OF Some code c] rest d Cons by auto
    qed
  qed (use less.prems in \<open>auto intro: fenced.at_end\<close>)
qed

lemma signatures_fenced:
  "fencedCodeBracketSignatures content = Some signatures \<longleftrightarrow> fenced (document_lines content) signatures"
  unfolding fencedCodeBracketSignatures_def using fenced_scanned scanned_fenced [of "[]"] by force

section \<open>What the check accepts\<close>

definition same_protected :: "string \<Rightarrow> string \<Rightarrow> bool" where
  "same_protected source target \<longleftrightarrow>
     (\<forall>(_, expression) \<in> set protectedSyntax. find_all expression source = find_all expression target) \<and>
     (\<exists>signatures. fenced (document_lines source) signatures \<and> fenced (document_lines target) signatures)"

definition document_current ::
  "doc_files \<Rightarrow> (string \<Rightarrow> string) \<Rightarrow> string \<Rightarrow> string \<Rightarrow> string \<Rightarrow> translation_metadata \<Rightarrow> string \<Rightarrow> bool" where
  "document_current fs sha256_hex root sourceLanguage language metadata name \<longleftrightarrow>
     (\<exists>source target. df_read fs (go_join [go_join [root, sourceLanguage], name]) = Inr source \<and>
        df_read fs (go_join [go_join [root, language], name]) = Inr target \<and>
        fmlookup (tm_SourceHashes metadata) name = Some (sha256_hex source) \<and>
        trim_space target \<noteq> [] \<and> same_protected source target)"

definition language_current ::
  "doc_files \<Rightarrow> (string \<Rightarrow> translation_metadata option) \<Rightarrow> (string \<Rightarrow> string) \<Rightarrow> string \<Rightarrow> string \<Rightarrow>
   string list \<Rightarrow> string \<Rightarrow> bool" where
  "language_current fs decode sha256_hex root sourceLanguage names language \<longleftrightarrow>
     language \<noteq> [] \<and> listMarkdownDocuments fs (go_join [root, language]) = Inr names \<and>
     (\<exists>data metadata. df_read fs (go_join [root, language, ''.translation'', ''metadata.json'']) = Inr data \<and>
        decode data = Some metadata \<and> tm_Version metadata = 1 \<and> tm_TargetLanguage metadata = language \<and>
        (\<forall>name \<in> set names. document_current fs sha256_hex root sourceLanguage language metadata name))"

lemma sameStrings_eq [simp]: "sameStrings xs ys \<longleftrightarrow> xs = ys"
  unfolding sameStrings_def list_eq_iff_nth_eq [of xs ys] by (simp add: list_all_length)

lemma first_error_None: "first_error f xs = None \<longleftrightarrow> (\<forall>x \<in> set xs. f x = None)"
  by (induction xs) (auto split: option.splits)

lemma first_difference_None:
  "first_difference syn source target = None \<longleftrightarrow> (\<forall>(_, e) \<in> set syn. find_all e source = find_all e target)"
  by (induction syn source target rule: first_difference.induct) auto

lemma checkProtectedSyntax_None: "checkProtectedSyntax sl la name source target = None \<longleftrightarrow> same_protected source target"
proof -
  have "(\<exists>sigs. fenced (document_lines source) sigs \<and> fenced (document_lines target) sigs) \<longleftrightarrow>
      (\<exists>sigs. fencedCodeBracketSignatures source = Some sigs \<and> fencedCodeBracketSignatures target = Some sigs)"
    by (simp add: signatures_fenced)
  then show ?thesis unfolding same_protected_def first_difference_None [symmetric]
    by (auto simp: checkProtectedSyntax_def split: option.splits)
qed

lemma check_document_None:
  "check_document fs h root sl language metadata name = None \<longleftrightarrow> document_current fs h root sl language metadata name"
  by (auto simp: check_document_def document_current_def hashDocument_def Let_def checkProtectedSyntax_None
      split: sum.splits option.splits)

lemma check_language_None:
  "check_language fs decode h root sl names language = None \<longleftrightarrow> language_current fs decode h root sl names language"
  by (auto simp: check_language_def language_current_def loadMetadata_def Let_def first_error_None check_document_None
      split: sum.splits option.splits)

text \<open>The translation check passes exactly when the source directory has documents and every target language has the
  same documents, metadata of version 1 for it, and for each document the digest of the current source, a translation
  that is not blank, the same placeholders, brand variables and attributes in the same order, and code fences whose
  brackets agree, as the grammar of fences reads both documents.\<close>

theorem translations_accepted:
  "checkTranslations fs decode sha256_hex root sourceLanguage targetLanguages = None \<longleftrightarrow>
     (\<exists>names. listMarkdownDocuments fs (go_join [root, sourceLanguage]) = Inr names \<and> names \<noteq> [] \<and>
        list_all (language_current fs decode sha256_hex root sourceLanguage names) targetLanguages)"
  by (auto simp: checkTranslations_def first_error_None check_language_None list_all_iff listMarkdownDocuments_def Let_def
      split: sum.splits)

end
