(* ===== verification/Go_Store.thy ===== *)
theory Go_Store
  imports Prelude
begin

text \<open>
  An explicit store for the parts of the code whose point is aliasing: the generated deep copies.  A
  pointer, a map value and the array behind a slice are addresses; a cell holds one value of one of the
  client's cell types, and addresses are handed out in increasing order.  A slice is a window of an
  array.  The locale \<open>deep_copy\<close> states the contract of every \<open>DeepCopyInto\<close> in the code, and the lemmas
  after it build the contract of a struct, a slice and a pointer from those of its parts.
\<close>

section \<open>Stores\<close>

type_synonym addr = nat

record 'c store =
  st_cell :: "addr \<Rightarrow> 'c option"
  st_next :: addr

definition store_alloc :: "'c \<Rightarrow> 'c store \<Rightarrow> addr \<times> 'c store" where
  "store_alloc c h = (st_next h, h\<lparr>st_cell := (st_cell h)(st_next h \<mapsto> c), st_next := st_next h + 1\<rparr>)"

definition store_write :: "addr \<Rightarrow> 'c \<Rightarrow> 'c store \<Rightarrow> 'c store" where
  "store_write a c h = h\<lparr>st_cell := (st_cell h)(a \<mapsto> c)\<rparr>"

definition store_empty :: "'c store" where
  "store_empty = \<lparr>st_cell = Map.empty, st_next = 0\<rparr>"

text \<open>Two stores agree on a set of addresses; a store extends another when it has only new cells.  Extension
  is a preorder, so chains of it are the library's.\<close>

definition agree_on :: "addr set \<Rightarrow> 'c store \<Rightarrow> 'c store \<Rightarrow> bool" where
  "agree_on A h h' \<longleftrightarrow> (\<forall>a\<in>A. st_cell h' a = st_cell h a)"

instantiation store_ext :: (type, type) preorder
begin

definition less_eq_store_ext :: "('a, 'b) store_scheme \<Rightarrow> ('a, 'b) store_scheme \<Rightarrow> bool" where
  "h \<le> h' \<longleftrightarrow> st_next h \<le> st_next h' \<and> (\<forall>a < st_next h. st_cell h' a = st_cell h a)"

definition less_store_ext :: "('a, 'b) store_scheme \<Rightarrow> ('a, 'b) store_scheme \<Rightarrow> bool" where
  "h < h' \<longleftrightarrow> h \<le> h' \<and> \<not> h' \<le> (h :: ('a, 'b) store_scheme)"

instance by standard (auto simp: less_eq_store_ext_def less_store_ext_def)

end

abbreviation extends :: "'c store \<Rightarrow> 'c store \<Rightarrow> bool" where
  "extends h h' \<equiv> h \<le> h'"

lemma extends_def: "extends h h' \<longleftrightarrow> st_next h \<le> st_next h' \<and> agree_on {..<st_next h} h h'"
  by (auto simp: less_eq_store_ext_def agree_on_def)

abbreviation new_between :: "'c store \<Rightarrow> 'c store \<Rightarrow> addr set" where
  "new_between h h' \<equiv> {st_next h ..< st_next h'}"

lemma agree_refl [simp]: "agree_on A h h"
  by (simp add: agree_on_def)

lemma agree_mono: "\<lbrakk>agree_on B h h'; A \<subseteq> B\<rbrakk> \<Longrightarrow> agree_on A h h'"
  by (auto simp: agree_on_def)

lemma agree_Un [simp]: "agree_on (A \<union> B) h h' \<longleftrightarrow> agree_on A h h' \<and> agree_on B h h'"
  by (auto simp: agree_on_def)

lemma agree_insert [simp]: "agree_on (insert a A) h h' \<longleftrightarrow> st_cell h' a = st_cell h a \<and> agree_on A h h'"
  by (auto simp: agree_on_def)

lemma agree_empty [simp]: "agree_on {} h h'"
  by (simp add: agree_on_def)

lemma agree_trans: "\<lbrakk>agree_on A h k; agree_on A k l\<rbrakk> \<Longrightarrow> agree_on A h l"
  by (simp add: agree_on_def)

lemma extends_agree: "\<lbrakk>extends h h'; A \<subseteq> {..<st_next h}\<rbrakk> \<Longrightarrow> agree_on A h h'"
  by (auto simp: extends_def agree_on_def)

lemma extends_next: "extends h h' \<Longrightarrow> st_next h \<le> st_next h'"
  by (simp add: extends_def)

lemma alloc_extends [simp]: "extends h (snd (store_alloc c h))"
  by (simp add: store_alloc_def extends_def agree_on_def)

lemma alloc_simps [simp]:
  "fst (store_alloc c h) = st_next h"
  "st_next (snd (store_alloc c h)) = st_next h + 1"
  "st_cell (snd (store_alloc c h)) = (st_cell h)(st_next h \<mapsto> c)"
  by (simp_all add: store_alloc_def)

lemma write_simps [simp]:
  "st_next (store_write a c h) = st_next h"
  "st_cell (store_write a c h) = (st_cell h)(a \<mapsto> c)"
  by (simp_all add: store_write_def)

lemma write_extends: "\<lbrakk>extends h k; st_next h \<le> a\<rbrakk> \<Longrightarrow> extends h (store_write a c k)"
  by (auto simp: extends_def agree_on_def)

section \<open>Holders of references\<close>

text \<open>
  Code that holds a set of addresses can overwrite the cells at them and allocate new ones; the
  addresses it stores are again ones it holds.  \<open>refs c\<close> are the addresses in a cell.
\<close>

inductive holder_run :: "('c \<Rightarrow> addr set) \<Rightarrow> addr set \<times> 'c store \<Rightarrow> addr set \<times> 'c store \<Rightarrow> bool"
  for refs where
  run_done: "holder_run refs s s"
| run_write: "\<lbrakk>holder_run refs s (K, h); a \<in> K; refs c \<subseteq> K\<rbrakk> \<Longrightarrow> holder_run refs s (K, store_write a c h)"
| run_alloc: "\<lbrakk>holder_run refs s (K, h); refs c \<subseteq> K\<rbrakk> \<Longrightarrow>
    holder_run refs s (insert (st_next h) K, snd (store_alloc c h))"

text \<open>What it holds is closed: a read from a cell it holds gives an address it holds.\<close>

definition closed_under :: "('c \<Rightarrow> addr set) \<Rightarrow> addr set \<Rightarrow> 'c store \<Rightarrow> bool" where
  "closed_under refs K h \<longleftrightarrow> K \<subseteq> {..<st_next h} \<and> (\<forall>a\<in>K. \<forall>c. st_cell h a = Some c \<longrightarrow> refs c \<subseteq> K)"

lemma closed_write: "\<lbrakk>closed_under refs K h; a \<in> K; refs c \<subseteq> K\<rbrakk> \<Longrightarrow> closed_under refs K (store_write a c h)"
  by (simp add: closed_under_def)

lemma closed_alloc:
  "\<lbrakk>closed_under refs K h; refs c \<subseteq> K\<rbrakk> \<Longrightarrow> closed_under refs (insert (st_next h) K) (snd (store_alloc c h))"
  unfolding closed_under_def by (force simp: less_Suc_eq split: if_splits)

lemma closed_run:
  "\<lbrakk>holder_run refs s t; closed_under refs (fst s) (snd s)\<rbrakk> \<Longrightarrow> closed_under refs (fst t) (snd t)"
  by (induction rule: holder_run.induct) (simp_all add: closed_write closed_alloc)

text \<open>A holder leaves every allocated cell alone that it does not hold.\<close>

lemma holder_frame:
  assumes "holder_run refs s t" "A \<inter> fst s = {}" "A \<subseteq> {..<st_next (snd s)}"
  shows "agree_on A (snd s) (snd t) \<and> A \<inter> fst t = {} \<and> A \<subseteq> {..<st_next (snd t)}"
  using assms by (induction rule: holder_run.induct) (auto simp: agree_on_def)

lemma holder_next: "holder_run refs s t \<Longrightarrow> st_next (snd s) \<le> st_next (snd t)"
  by (induction rule: holder_run.induct) auto

section \<open>Slices, pointers and maps\<close>

record slice =
  sl_array :: addr
  sl_off :: nat
  sl_len :: nat
  sl_cap :: nat

record pointer =
  pt_array :: addr
  pt_index :: nat

text \<open>
  A pointer to a struct is an element of an array, because \<open>&xs[i]\<close> is one; \<open>new(T)\<close> is an array of
  length one.  \<open>mk\<close> and \<open>un\<close> are the cell constructor of the element type and its inverse.
\<close>

definition array_at :: "('c \<Rightarrow> 'a list) \<Rightarrow> 'c store \<Rightarrow> addr \<Rightarrow> 'a list" where
  "array_at un h a = (case st_cell h a of None \<Rightarrow> [] | Some c \<Rightarrow> un c)"

definition window :: "slice \<Rightarrow> 'a list \<Rightarrow> 'a list" where
  "window s xs = take (sl_len s) (drop (sl_off s) xs)"

definition store_elem ::
  "('c \<Rightarrow> 'a list) \<Rightarrow> ('a list \<Rightarrow> 'c) \<Rightarrow> addr \<Rightarrow> nat \<Rightarrow> 'a \<Rightarrow> 'c store \<Rightarrow> 'c store" where
  "store_elem un mk b i y h = store_write b (mk ((array_at un h b)[i := y])) h"

text \<open>\<open>make([]T, n)\<close>, and the builtin \<open>copy(dst, src)\<close>.\<close>

definition make_slice :: "('a list \<Rightarrow> 'c) \<Rightarrow> 'a \<Rightarrow> nat \<Rightarrow> 'c store \<Rightarrow> slice \<times> 'c store" where
  "make_slice mk zero n h =
     (case store_alloc (mk (replicate n zero)) h of
        (b, h1) \<Rightarrow> (\<lparr>sl_array = b, sl_off = 0, sl_len = n, sl_cap = n\<rparr>, h1))"

definition go_copy ::
  "('c \<Rightarrow> 'a list) \<Rightarrow> ('a list \<Rightarrow> 'c) \<Rightarrow> slice \<Rightarrow> slice \<Rightarrow> 'c store \<Rightarrow> 'c store" where
  "go_copy un mk dst src h =
     (let n = min (sl_len dst) (sl_len src); ds = array_at un h (sl_array dst)
      in store_write (sl_array dst)
           (mk (take (sl_off dst) ds @ take n (window src (array_at un h (sl_array src))) @
                drop (sl_off dst + n) ds)) h)"

text \<open>The copying of a slice of structs: \<open>make\<close>, then element by element.\<close>

fun copy_elems ::
  "('c \<Rightarrow> 'a list) \<Rightarrow> ('a list \<Rightarrow> 'c) \<Rightarrow> ('a \<Rightarrow> 'c store \<Rightarrow> 'a \<times> 'c store) \<Rightarrow> slice \<Rightarrow> slice \<Rightarrow>
   nat list \<Rightarrow> 'c store \<Rightarrow> 'c store" where
  "copy_elems un mk cp src dst [] h = h"
| "copy_elems un mk cp src dst (i # is) h =
     (case cp (window src (array_at un h (sl_array src)) ! i) h of
        (y, h1) \<Rightarrow> copy_elems un mk cp src dst is (store_elem un mk (sl_array dst) (sl_off dst + i) y h1))"

definition copy_slice ::
  "('c \<Rightarrow> 'a list) \<Rightarrow> ('a list \<Rightarrow> 'c) \<Rightarrow> 'a \<Rightarrow> ('a \<Rightarrow> 'c store \<Rightarrow> 'a \<times> 'c store) \<Rightarrow>
   slice option \<Rightarrow> 'c store \<Rightarrow> slice option \<times> 'c store" where
  "copy_slice un mk zero cp s h =
     (case s of
        None \<Rightarrow> (None, h)
      | Some src \<Rightarrow> (case make_slice mk zero (sl_len src) h of
          (dst, h1) \<Rightarrow> (Some dst, copy_elems un mk cp src dst [0..<sl_len src] h1)))"

text \<open>The copying of a slice of flat values: \<open>make\<close>, then \<open>copy\<close>.\<close>

definition copy_flat_slice ::
  "('c \<Rightarrow> 'a list) \<Rightarrow> ('a list \<Rightarrow> 'c) \<Rightarrow> 'a \<Rightarrow> slice option \<Rightarrow> 'c store \<Rightarrow> slice option \<times> 'c store" where
  "copy_flat_slice un mk zero s h =
     (case s of
        None \<Rightarrow> (None, h)
      | Some src \<Rightarrow> (case make_slice mk zero (sl_len src) h of
          (dst, h1) \<Rightarrow> (Some dst, go_copy un mk dst src h1)))"

text \<open>\<open>out := new(T); in.DeepCopyInto(out)\<close> behind a test for nil.\<close>

definition copy_new ::
  "('c \<Rightarrow> 'a list) \<Rightarrow> ('a list \<Rightarrow> 'c) \<Rightarrow> 'a \<Rightarrow> ('a \<Rightarrow> 'c store \<Rightarrow> 'a \<times> 'c store) \<Rightarrow>
   pointer option \<Rightarrow> 'c store \<Rightarrow> pointer option \<times> 'c store" where
  "copy_new un mk zero cp p h =
     (case p of
        None \<Rightarrow> (None, h)
      | Some q \<Rightarrow> (case store_alloc (mk [zero]) h of
          (b, h1) \<Rightarrow> (case cp (array_at un h1 (pt_array q) ! pt_index q) h1 of
            (y, h2) \<Rightarrow> (Some \<lparr>pt_array = b, pt_index = 0\<rparr>, store_elem un mk b 0 y h2))))"

text \<open>A map is copied entry by entry; the order in which the entries are visited does not matter.\<close>

definition map_at :: "('c \<Rightarrow> go_map) \<Rightarrow> 'c store \<Rightarrow> addr \<Rightarrow> go_map" where
  "map_at un h a = (case st_cell h a of None \<Rightarrow> fmempty | Some c \<Rightarrow> un c)"

fun range_copy ::
  "('c \<Rightarrow> go_map) \<Rightarrow> (go_map \<Rightarrow> 'c) \<Rightarrow> addr \<Rightarrow> (string \<times> string) list \<Rightarrow> 'c store \<Rightarrow> 'c store" where
  "range_copy un mk b [] h = h"
| "range_copy un mk b ((k, v) # kvs) h =
     range_copy un mk b kvs (store_write b (mk (fmupd k v (map_at un h b))) h)"

definition copy_map ::
  "('c \<Rightarrow> go_map) \<Rightarrow> (go_map \<Rightarrow> 'c) \<Rightarrow> addr option \<Rightarrow> 'c store \<Rightarrow> addr option \<times> 'c store" where
  "copy_map un mk m h =
     (case m of
        None \<Rightarrow> (None, h)
      | Some a \<Rightarrow> (case store_alloc (mk fmempty) h of
          (b, h1) \<Rightarrow> (Some b, range_copy un mk b (sorted_list_of_fmap (map_at un h1 a)) h1)))"

section \<open>The contract of a deep copy\<close>

text \<open>
  \<open>ok h x\<close>: what \<open>x\<close> refers to is allocated and of the right type.  \<open>foot h x\<close> are the addresses that
  reading \<open>x\<close> visits, and \<open>view h x\<close> what it reads.  \<open>refs\<close> are the addresses in a cell, \<open>vrefs\<close> those
  directly in a value.  A copy reads like the original, allocates without touching an existing cell,
  and everything it refers to, as well as every cell it allocates, stays among the new addresses.
\<close>

locale deep_copy =
  fixes refs :: "'c \<Rightarrow> addr set"
    and vrefs :: "'a \<Rightarrow> addr set"
    and ok :: "'c store \<Rightarrow> 'a \<Rightarrow> bool"
    and foot :: "'c store \<Rightarrow> 'a \<Rightarrow> addr set"
    and view :: "'c store \<Rightarrow> 'a \<Rightarrow> 'v"
    and copy :: "'a \<Rightarrow> 'c store \<Rightarrow> 'a \<times> 'c store"
  assumes allocated: "ok h x \<Longrightarrow> foot h x \<subseteq> {..<st_next h}"
    and direct: "ok h x \<Longrightarrow> vrefs x \<subseteq> foot h x"
    and local: "\<lbrakk>ok h x; agree_on (foot h x) h h'; st_next h \<le> st_next h'\<rbrakk> \<Longrightarrow>
      ok h' x \<and> foot h' x = foot h x \<and> view h' x = view h x"
    and copies: "\<lbrakk>ok h x; copy x h = (y, h')\<rbrakk> \<Longrightarrow>
      extends h h' \<and> ok h' y \<and> foot h' y \<subseteq> new_between h h' \<and> view h' y = view h x \<and>
      closed_under refs (new_between h h') h'"

lemma closed_join:
  assumes "closed_under refs (new_between h k) k" "closed_under refs (new_between k l) l"
    and "extends h k" "extends k l"
  shows "closed_under refs (new_between h l) l"
  unfolding closed_under_def
proof (intro conjI ballI allI impI)
  show "new_between h l \<subseteq> {..<st_next l}" by auto
next
  fix a c
  assume a: "a \<in> new_between h l" and c: "st_cell l a = Some c"
  show "refs c \<subseteq> new_between h l"
  proof (cases "a < st_next k")
    case True
    then have "st_cell k a = Some c" using assms(4) c by (simp add: extends_def agree_on_def)
    then have "refs c \<subseteq> new_between h k" using assms(1) a True unfolding closed_under_def by force
    then show ?thesis using extends_next[OF assms(4)] by auto
  next
    case False
    then have "refs c \<subseteq> new_between k l" using assms(2) a c unfolding closed_under_def by force
    then show ?thesis using extends_next[OF assms(3)] by auto
  qed
qed

lemma closed_fresh:
  "refs c = {} \<Longrightarrow> closed_under refs (new_between h (snd (store_alloc c h))) (snd (store_alloc c h))"
  unfolding closed_under_def by auto

lemma closed_new_refl [simp]: "closed_under refs {a..<a} h"
  by (simp add: closed_under_def)

context deep_copy
begin

lemma preserved:
  assumes "ok h x" "extends h h'"
  shows "ok h' x \<and> foot h' x = foot h x \<and> view h' x = view h x"
  using local[OF assms(1) extends_agree[OF assms(2) allocated[OF assms(1)]]] assms(2) by (simp add: extends_next)

text \<open>What a holder of the copy only, or of the original only, can do to the other.\<close>

lemma isolated:
  assumes "ok h x" "copy x h = (y, h')"
  shows "holder_run refs (K, h') (K', h'') \<Longrightarrow> K \<inter> new_between h h' = {} \<Longrightarrow> view h'' y = view h x"
    and "holder_run refs (new_between h h', h') (K', h'') \<Longrightarrow> agree_on {..<st_next h} h h'' \<and> view h'' x = view h x"
proof -
  note cp = copies[OF assms]
  {
    assume "holder_run refs (K, h') (K', h'')" "K \<inter> new_between h h' = {}"
    moreover have "foot h' y \<subseteq> {..<st_next h'}" using cp allocated by blast
    moreover have "foot h' y \<inter> K = {}" using cp calculation(2) by blast
    ultimately have "agree_on (foot h' y) h' h'' \<and> st_next h' \<le> st_next h''"
      using holder_frame[of refs "(K, h')" "(K', h'')" "foot h' y"] holder_next[of refs "(K, h')" "(K', h'')"]
      by simp
    then show "view h'' y = view h x" using local[of h' y h''] cp by simp
  next
    assume run: "holder_run refs (new_between h h', h') (K', h'')"
    have "agree_on {..<st_next h} h' h'' \<and> st_next h' \<le> st_next h''"
      using holder_frame[OF run, of "{..<st_next h}"] holder_next[OF run] cp
      by (simp add: extends_def ivl_disj_int_one(2)[of "st_next h"])
    then have e: "extends h h''" using cp by (auto simp: extends_def agree_on_def)
    then show "agree_on {..<st_next h} h h'' \<and> view h'' x = view h x"
      using preserved[OF assms(1) e] by (simp add: extends_def)
  }
qed

end

section \<open>Composing contracts\<close>

definition copy_flat :: "'a \<Rightarrow> 'c store \<Rightarrow> 'a \<times> 'c store" where
  "copy_flat x h = (x, h)"

lemma deep_flat: "deep_copy refs (\<lambda>_. {}) (\<lambda>_ _. True) (\<lambda>_ _. {}) (\<lambda>_ x. f x) copy_flat"
  by unfold_locales (auto simp: copy_flat_def closed_under_def)

definition copy_pair ::
  "('a \<Rightarrow> 'c store \<Rightarrow> 'a \<times> 'c store) \<Rightarrow> ('b \<Rightarrow> 'c store \<Rightarrow> 'b \<times> 'c store) \<Rightarrow>
   'a \<times> 'b \<Rightarrow> 'c store \<Rightarrow> ('a \<times> 'b) \<times> 'c store" where
  "copy_pair cp1 cp2 x h = (case cp1 (fst x) h of (y, h1) \<Rightarrow> case cp2 (snd x) h1 of (z, h2) \<Rightarrow> ((y, z), h2))"

lemma deep_pair:
  assumes "deep_copy refs vr1 ok1 foot1 view1 cp1" "deep_copy refs vr2 ok2 foot2 view2 cp2"
  shows "deep_copy refs (\<lambda>x. vr1 (fst x) \<union> vr2 (snd x)) (\<lambda>h x. ok1 h (fst x) \<and> ok2 h (snd x))
    (\<lambda>h x. foot1 h (fst x) \<union> foot2 h (snd x)) (\<lambda>h x. (view1 h (fst x), view2 h (snd x))) (copy_pair cp1 cp2)"
proof -
  note D1 = assms(1) note D2 = assms(2)
  show ?thesis
  proof (unfold_locales, goal_cases)
    case (1 h x) then show ?case using deep_copy.allocated[OF D1] deep_copy.allocated[OF D2] by blast
  next
    case (2 h x) then show ?case using deep_copy.direct[OF D1] deep_copy.direct[OF D2] by blast
  next
    case (3 h x h') then show ?case
      using deep_copy.local[OF D1, of h "fst x" h'] deep_copy.local[OF D2, of h "snd x" h'] by simp
  next
    case (4 h x y h')
    then obtain y1 h1 y2 where s: "cp1 (fst x) h = (y1, h1)" "cp2 (snd x) h1 = (y2, h')" "y = (y1, y2)"
      by (auto simp: copy_pair_def split: prod.splits)
    have ok: "ok1 h (fst x)" "ok2 h (snd x)" using 4 by auto
    note c1 = deep_copy.copies[OF D1 ok(1) s(1)]
    have p2: "ok2 h1 (snd x)" "view2 h1 (snd x) = view2 h (snd x)"
      using deep_copy.preserved[OF D2 ok(2), of h1] c1 by auto
    note c2 = deep_copy.copies[OF D2 p2(1) s(2)]
    have p1: "ok1 h' y1" "foot1 h' y1 = foot1 h1 y1" "view1 h' y1 = view1 h1 y1"
      using deep_copy.preserved[OF D1, of h1 y1 h'] c1 c2 by auto
    have e: "extends h h1" "extends h1 h'" using c1 c2 by auto
    have "foot1 h' y1 \<union> foot2 h' y2 \<subseteq> new_between h h'"
      using c1 c2 p1(2) extends_next[OF e(1)] extends_next[OF e(2)] by (fastforce simp: subset_iff)
    then show ?case using c1 c2 p1 p2 s(3) e order_trans[OF e] closed_join[of refs h h1 h'] by simp
  qed
qed

text \<open>A struct is the tuple of its fields that refer to something, with the others around it.\<close>

lemma deep_via:
  assumes "deep_copy refs vr ok foot view cp"
    and "\<And>x h. cpr x h = (case cp (proj x) h of (t, h') \<Rightarrow> (put x t, h'))"
    and "\<And>x t. proj (put x t) = t" and "\<And>x t v. vw (put x t) v = vw x v"
  shows "deep_copy refs (\<lambda>x. vr (proj x)) (\<lambda>h x. ok h (proj x)) (\<lambda>h x. foot h (proj x))
    (\<lambda>h x. vw x (view h (proj x))) cpr"
proof -
  note D = assms(1)
  show ?thesis
  proof (unfold_locales, goal_cases)
    case (1 h x) then show ?case using deep_copy.allocated[OF D] by blast
  next
    case (2 h x) then show ?case using deep_copy.direct[OF D] by blast
  next
    case (3 h x h') then show ?case using deep_copy.local[OF D, of h "proj x" h'] by simp
  next
    case (4 h x y h')
    then obtain t where t: "cp (proj x) h = (t, h')" "y = put x t"
      by (auto simp: assms(2) split: prod.splits)
    show ?case unfolding t(2) assms(3,4) using deep_copy.copies[OF D 4(1) t(1)] by simp
  qed
qed

section \<open>Arrays\<close>

locale deep_array = deep_copy refs vrefs ok foot view copy
  for refs :: "'c \<Rightarrow> addr set" and vrefs :: "'a \<Rightarrow> addr set" and ok :: "'c store \<Rightarrow> 'a \<Rightarrow> bool"
    and foot :: "'c store \<Rightarrow> 'a \<Rightarrow> addr set" and view :: "'c store \<Rightarrow> 'a \<Rightarrow> 'v"
    and copy :: "'a \<Rightarrow> 'c store \<Rightarrow> 'a \<times> 'c store" +
  fixes mk :: "'a list \<Rightarrow> 'c" and un :: "'c \<Rightarrow> 'a list" and zero :: 'a
  assumes un_mk: "un (mk xs) = xs"
    and refs_mk: "refs (mk xs) = (\<Union>x\<in>set xs. vrefs x)"
    and zero_refs: "vrefs zero = {}"

definition slice_ok ::
  "('a list \<Rightarrow> 'c) \<Rightarrow> ('c store \<Rightarrow> 'a \<Rightarrow> bool) \<Rightarrow> 'c store \<Rightarrow> slice \<Rightarrow> bool" where
  "slice_ok mk ok h s \<longleftrightarrow> sl_array s < st_next h \<and>
     (\<exists>xs. st_cell h (sl_array s) = Some (mk xs) \<and> sl_len s \<le> sl_cap s \<and> sl_off s + sl_cap s \<le> length xs \<and>
       list_all (ok h) (window s xs))"

definition slice_elems :: "('c \<Rightarrow> 'a list) \<Rightarrow> 'c store \<Rightarrow> slice \<Rightarrow> 'a list" where
  "slice_elems un h s = window s (array_at un h (sl_array s))"

definition slice_foot ::
  "('c \<Rightarrow> 'a list) \<Rightarrow> ('c store \<Rightarrow> 'a \<Rightarrow> addr set) \<Rightarrow> 'c store \<Rightarrow> slice \<Rightarrow> addr set" where
  "slice_foot un foot h s = insert (sl_array s) (\<Union>x\<in>set (slice_elems un h s). foot h x)"

text \<open>The contract of what may be nil.\<close>

definition opt_ok :: "('c store \<Rightarrow> 'a \<Rightarrow> bool) \<Rightarrow> 'c store \<Rightarrow> 'a option \<Rightarrow> bool" where
  "opt_ok ok h x = (case x of None \<Rightarrow> True | Some y \<Rightarrow> ok h y)"

definition opt_foot :: "('c store \<Rightarrow> 'a \<Rightarrow> addr set) \<Rightarrow> 'c store \<Rightarrow> 'a option \<Rightarrow> addr set" where
  "opt_foot foot h x = (case x of None \<Rightarrow> {} | Some y \<Rightarrow> foot h y)"

definition opt_refs :: "('a \<Rightarrow> addr set) \<Rightarrow> 'a option \<Rightarrow> addr set" where
  "opt_refs r x = (case x of None \<Rightarrow> {} | Some y \<Rightarrow> r y)"

definition copy_opt :: "('a \<Rightarrow> 'c store \<Rightarrow> 'a \<times> 'c store) \<Rightarrow> 'a option \<Rightarrow> 'c store \<Rightarrow> 'a option \<times> 'c store" where
  "copy_opt cp x h = (case x of None \<Rightarrow> (None, h) | Some y \<Rightarrow> (case cp y h of (z, h') \<Rightarrow> (Some z, h')))"

lemma deep_opt:
  assumes D: "deep_copy refs vr ok foot view cp"
  shows "deep_copy refs (opt_refs vr) (opt_ok ok) (opt_foot foot) (\<lambda>h. map_option (view h)) (copy_opt cp)"
proof (unfold_locales, goal_cases)
  case (1 h x) then show ?case using deep_copy.allocated[OF D]
    by (cases x) (auto simp: opt_ok_def opt_foot_def)
next
  case (2 h x) then show ?case using deep_copy.direct[OF D]
    by (cases x) (auto simp: opt_ok_def opt_foot_def opt_refs_def)
next
  case (3 h x h') then show ?case using deep_copy.local[OF D, of h "the x" h']
    by (cases x) (simp_all add: opt_ok_def opt_foot_def)
next
  case (4 h x y h')
  show ?case
  proof (cases x)
    case None
    then show ?thesis using 4 by (auto simp: copy_opt_def opt_ok_def opt_foot_def closed_under_def)
  next
    case (Some x')
    then obtain y' where "cp x' h = (y', h')" "y = Some y'" "ok h x'"
      using 4 by (auto simp: copy_opt_def opt_ok_def split: prod.splits)
    then show ?thesis using deep_copy.copies[OF D, of h x' y' h'] Some by (simp add: opt_ok_def opt_foot_def)
  qed
qed

definition pointer_ok ::
  "('a list \<Rightarrow> 'c) \<Rightarrow> ('c store \<Rightarrow> 'a \<Rightarrow> bool) \<Rightarrow> 'c store \<Rightarrow> pointer \<Rightarrow> bool" where
  "pointer_ok mk ok h p \<longleftrightarrow> pt_array p < st_next h \<and>
     (\<exists>xs. st_cell h (pt_array p) = Some (mk xs) \<and> pt_index p < length xs \<and> ok h (xs ! pt_index p))"

definition deref :: "('c \<Rightarrow> 'a list) \<Rightarrow> 'c store \<Rightarrow> pointer \<Rightarrow> 'a" where
  "deref un h p = array_at un h (pt_array p) ! pt_index p"

definition pointer_foot ::
  "('c \<Rightarrow> 'a list) \<Rightarrow> ('c store \<Rightarrow> 'a \<Rightarrow> addr set) \<Rightarrow> 'c store \<Rightarrow> pointer \<Rightarrow> addr set" where
  "pointer_foot un foot h p = insert (pt_array p) (foot h (deref un h p))"

lemma length_window: "sl_off s + sl_len s \<le> length xs \<Longrightarrow> length (window s xs) = sl_len s"
  by (simp add: window_def)

lemma set_window: "set (window s xs) \<subseteq> set xs"
  unfolding window_def by (meson order_trans set_drop_subset set_take_subset)

lemma copy_slice_opt:
  "copy_slice un mk zero cp = copy_opt (\<lambda>src h. case make_slice mk zero (sl_len src) h of
     (dst, h1) \<Rightarrow> (dst, copy_elems un mk cp src dst [0..<sl_len src] h1))"
  by (intro ext) (auto simp: copy_slice_def copy_opt_def split: option.splits prod.splits)

lemma copy_flat_slice_opt:
  "copy_flat_slice un mk zero = copy_opt (\<lambda>src h. case make_slice mk zero (sl_len src) h of
     (dst, h1) \<Rightarrow> (dst, go_copy un mk dst src h1))"
  by (intro ext) (auto simp: copy_flat_slice_def copy_opt_def split: option.splits prod.splits)

lemma copy_new_opt:
  "copy_new un mk zero cp = copy_opt (\<lambda>q h. case store_alloc (mk [zero]) h of
     (b, h1) \<Rightarrow> (case cp (deref un h1 q) h1 of
       (y, h2) \<Rightarrow> (\<lparr>pt_array = b, pt_index = 0\<rparr>, store_elem un mk b 0 y h2)))"
  by (intro ext) (auto simp: copy_new_def copy_opt_def deref_def split: option.splits prod.splits)

context deep_array
begin

lemma array_at_mk: "st_cell h a = Some (mk xs) \<Longrightarrow> array_at un h a = xs"
  by (simp add: array_at_def un_mk)

lemma slice_okD:
  assumes "slice_ok mk ok h s"
  shows "sl_array s < st_next h" "length (slice_elems un h s) = sl_len s"
    "x \<in> set (slice_elems un h s) \<Longrightarrow> ok h x"
    "st_cell h (sl_array s) = Some (mk (array_at un h (sl_array s)))"
  using assms by (auto simp: slice_ok_def slice_elems_def array_at_mk length_window list_all_iff)

text \<open>While an array is being filled at \<open>b\<close> from the values \<open>ws\<close>: \<open>ys\<close> are the copies made so far, the rest
  of the array is zero, and every new cell refers to new cells only.\<close>

definition copied :: "'c store \<Rightarrow> addr \<Rightarrow> 'a list \<Rightarrow> 'a list \<Rightarrow> 'c store \<Rightarrow> bool" where
  "copied h0 b ws ys h \<longleftrightarrow> extends h0 h \<and> st_next h0 \<le> b \<and> b < st_next h \<and> length ys \<le> length ws \<and>
     st_cell h b = Some (mk (ys @ replicate (length ws - length ys) zero)) \<and>
     (\<forall>y\<in>set ys. ok h y \<and> foot h y \<subseteq> new_between h0 h - {b}) \<and>
     map (view h) ys = map (view h0) (take (length ys) ws) \<and> closed_under refs (new_between h0 h) h"

lemma copiedD:
  assumes "copied h0 b ws ys h"
  shows "extends h0 h" "st_next h0 \<le> b" "b < st_next h" "length ys \<le> length ws"
    "st_cell h b = Some (mk (ys @ replicate (length ws - length ys) zero))"
    "y \<in> set ys \<Longrightarrow> ok h y \<and> foot h y \<subseteq> new_between h0 h - {b}"
    "map (view h) ys = map (view h0) (take (length ys) ws)" "closed_under refs (new_between h0 h) h"
  using assms by (auto simp: copied_def)

lemma copied_start: "copied h (st_next h) ws [] (snd (store_alloc (mk (replicate (length ws) zero)) h))"
  using closed_fresh[of refs "mk (replicate (length ws) zero)" h] zero_refs
  by (auto simp: copied_def refs_mk set_replicate_conv_if)

text \<open>The cells after the next element is stored.\<close>

lemma copied_cells:
  assumes c: "copied h0 b ws ys h" and i: "length ys < length ws" and e: "extends h h1"
    and h2_def: "h2 = store_elem un mk b (length ys) y h1"
  shows "st_next h2 = st_next h1"
    "st_cell h2 = (st_cell h1)(b \<mapsto> mk ((ys @ [y]) @ replicate (length ws - Suc (length ys)) zero))"
    "extends h0 h2"
proof -
  have b1: "st_cell h1 b = Some (mk (ys @ zero # replicate (length ws - Suc (length ys)) zero))"
    using copiedD(3,5)[OF c] e i by (simp add: extends_def agree_on_def Suc_diff_Suc replicate_Suc[symmetric])
  show "st_next h2 = st_next h1"
    "st_cell h2 = (st_cell h1)(b \<mapsto> mk ((ys @ [y]) @ replicate (length ws - Suc (length ys)) zero))"
    by (simp_all add: h2_def store_elem_def array_at_mk[OF b1] list_update_append)
  show "extends h0 h2"
    unfolding h2_def store_elem_def
    by (rule write_extends[OF order_trans[OF copiedD(1)[OF c] e] copiedD(2)[OF c]])
qed

text \<open>What the elements copied before refer to stays as it is.\<close>

lemma copied_kept:
  assumes c: "copied h0 b ws ys h" and e: "extends h h1" and z: "z \<in> set ys"
    and h2: "st_next h2 = st_next h1" "st_cell h2 = (st_cell h1)(b \<mapsto> x)"
  shows "ok h2 z \<and> foot h2 z = foot h z \<and> view h2 z = view h z"
proof (rule local)
  show "ok h z" using copiedD(6)[OF c z] by blast
  show "agree_on (foot h z) h h2" using copiedD(6)[OF c z] e h2 by (auto simp: agree_on_def extends_def)
  show "st_next h \<le> st_next h2" using e h2 by (simp add: extends_next)
qed

lemma copied_closed:
  assumes c: "copied h0 b ws ys h" and cp: "extends h h1" "ok h1 y" "foot h1 y \<subseteq> new_between h h1"
      "closed_under refs (new_between h h1) h1"
    and h2: "st_next h2 = st_next h1" "st_cell h2 = (st_cell h1)(b \<mapsto> mk ((ys @ [y]) @ replicate n zero))"
  shows "closed_under refs (new_between h0 h2) h2"
proof -
  have nx: "st_next h0 \<le> st_next h" "st_next h \<le> st_next h1" using copiedD(1)[OF c] cp(1) by (simp_all add: extends_next)
  have vy: "vrefs y \<subseteq> new_between h0 h1" using direct[OF cp(2)] cp(3) nx(1) by fastforce
  have vz: "vrefs z \<subseteq> new_between h0 h1" if "z \<in> set ys" for z
    using direct[of h z] copiedD(6)[OF c that] nx(2) by fastforce
  have "refs (mk ((ys @ [y]) @ replicate n zero)) \<subseteq> new_between h0 h1"
    unfolding refs_mk set_append using vy vz zero_refs by (auto simp: set_replicate_conv_if)
  then show ?thesis
    using closed_join[OF copiedD(8)[OF c] cp(4) copiedD(1)[OF c] cp(1)] unfolding closed_under_def h2 by simp
qed

lemma copied_step:
  assumes c: "copied h0 b ws ys h" and ws: "\<And>w. w \<in> set ws \<Longrightarrow> ok h0 w" and i: "length ys < length ws"
    and y: "copy (ws ! length ys) h = (y, h1)"
  shows "copied h0 b ws (ys @ [y]) (store_elem un mk b (length ys) y h1)"
proof -
  let ?h2 = "store_elem un mk b (length ys) y h1"
  have w: "ok h (ws ! length ys)" "view h (ws ! length ys) = view h0 (ws ! length ys)"
    using preserved[OF ws[OF nth_mem[OF i]] copiedD(1)[OF c]] by simp_all
  note cp = copies[OF w(1) y]
  then have e: "extends h h1" by blast
  note h2 = copied_cells[OF c i e refl, of y]
  have new: "ok ?h2 y \<and> foot ?h2 y = foot h1 y \<and> view ?h2 y = view h1 y"
    by (rule local) (use cp copiedD(3)[OF c] h2 in \<open>auto simp: agree_on_def\<close>)
  note old = copied_kept[OF c e _ h2(1,2)]
  have nx: "st_next h0 \<le> st_next h" "st_next h \<le> st_next h1" "st_next h0 \<le> b" "b < st_next h"
    using copiedD(1-3)[OF c] e by (simp_all add: extends_next)
  have oks: "ok ?h2 z \<and> foot ?h2 z \<subseteq> new_between h0 ?h2 - {b}" if "z \<in> set (ys @ [y])" for z
    using that new old cp copiedD(6)[OF c] nx h2(1) by (auto simp: subset_iff) (fastforce+)
  have views: "map (view ?h2) (ys @ [y]) = map (view h0) (take (Suc (length ys)) ws)"
    using copiedD(7)[OF c] new old w(2) cp i by (simp add: take_Suc_conv_app_nth cong: map_cong)
  have "closed_under refs (new_between h0 ?h2) ?h2"
    by (rule copied_closed[OF c e _ _ _ h2(1,2)]) (use cp in auto)
  then show ?thesis unfolding copied_def using h2 nx i oks views by simp
qed

lemma copy_elems_copied:
  assumes "copied h0 b (slice_elems un h0 src) ys h" "slice_ok mk ok h0 src" "sl_array dst = b" "sl_off dst = 0"
  shows "\<exists>zs. copied h0 b (slice_elems un h0 src) zs (copy_elems un mk copy src dst [length ys..<sl_len src] h) \<and>
    length zs = sl_len src"
  using assms(1)
proof (induction "sl_len src - length ys" arbitrary: ys h)
  case 0
  then show ?case using copiedD(4)[OF 0(2)] slice_okD(2)[OF assms(2)] by auto
next
  case (Suc n)
  let ?ws = "slice_elems un h0 src"
  have i: "length ys < sl_len src" "length ys < length ?ws" using Suc.hyps(2) slice_okD(2)[OF assms(2)] by simp_all
  have same: "st_cell h (sl_array src) = st_cell h0 (sl_array src)"
    using copiedD(1)[OF Suc.prems] slice_okD(1)[OF assms(2)] by (simp add: extends_def agree_on_def)
  then have elem: "window src (array_at un h (sl_array src)) ! length ys = ?ws ! length ys"
    by (simp add: slice_elems_def array_at_def)
  obtain y h1 where y: "copy (?ws ! length ys) h = (y, h1)" by fastforce
  show ?case
    using Suc.hyps(1)[OF _ copied_step[OF Suc.prems slice_okD(3)[OF assms(2)] i(2) y]] Suc.hyps(2)
    by (simp add: upt_conv_Cons[OF i(1)] elem y assms(3,4))
qed

lemma slice_local:
  assumes s: "slice_ok mk ok h s" and ag: "agree_on (slice_foot un foot h s) h h'" and n: "st_next h \<le> st_next h'"
  shows "slice_ok mk ok h' s \<and> slice_foot un foot h' s = slice_foot un foot h s \<and>
    map (view h') (slice_elems un h' s) = map (view h) (slice_elems un h s)"
proof -
  have cell: "st_cell h' (sl_array s) = st_cell h (sl_array s)" using ag by (simp add: slice_foot_def)
  then have el: "slice_elems un h' s = slice_elems un h s" by (simp add: slice_elems_def array_at_def)
  have each: "ok h' x \<and> foot h' x = foot h x \<and> view h' x = view h x" if "x \<in> set (slice_elems un h s)" for x
    by (rule local[OF slice_okD(3)[OF s that] _ n]) (use ag that in \<open>auto simp: slice_foot_def agree_on_def\<close>)
  have "list_all (ok h') (slice_elems un h s)" using each by (simp add: list_all_iff)
  then have "slice_ok mk ok h' s" using s n cell
    by (auto simp: slice_ok_def slice_elems_def array_at_mk)
  then show ?thesis using each el by (simp add: slice_foot_def cong: map_cong SUP_cong)
qed

lemma deep_slice:
  "deep_copy refs (\<lambda>s. {sl_array s}) (slice_ok mk ok) (slice_foot un foot)
    (\<lambda>h s. map (view h) (slice_elems un h s))
    (\<lambda>src h. case make_slice mk zero (sl_len src) h of
      (dst, h1) \<Rightarrow> (dst, copy_elems un mk copy src dst [0..<sl_len src] h1))"
proof (unfold_locales, goal_cases)
  case (1 h s)
  then show ?case using slice_okD[OF 1] allocated by (fastforce simp: slice_foot_def)
next
  case (2 h s)
  then show ?case by (simp add: slice_foot_def)
next
  case (3 h s h')
  then show ?case by (rule slice_local)
next
  case (4 h src dst h')
  let ?ws = "slice_elems un h src"
  define h1 where "h1 = snd (store_alloc (mk (replicate (sl_len src) zero)) h)"
  have dst: "dst = \<lparr>sl_array = st_next h, sl_off = 0, sl_len = sl_len src, sl_cap = sl_len src\<rparr>"
    and h': "h' = copy_elems un mk copy src dst [0..<sl_len src] h1"
    using 4(2) by (auto simp: make_slice_def h1_def store_alloc_def)
  note len = slice_okD(2)[OF 4(1)]
  obtain ys where ys: "copied h (st_next h) ?ws ys h'" "length ys = sl_len src"
    using copy_elems_copied[OF copied_start[of h ?ws] 4(1), of dst] by (auto simp: len h' h1_def dst)
  note c = copiedD[OF ys(1)]
  have el: "slice_elems un h' dst = ys"
    using c(5) ys(2) by (simp add: slice_elems_def array_at_mk len dst window_def)
  have "slice_ok mk ok h' dst"
    unfolding slice_ok_def using c(3,5,6) ys(2)
    by (intro conjI exI[of _ ys]) (simp_all add: dst window_def list_all_iff len)
  moreover have "slice_foot un foot h' dst \<subseteq> new_between h h'"
    using c(3,6) by (auto simp: slice_foot_def el) (auto simp: dst)
  ultimately show ?case using c(1,7,8) ys(2) len by (simp add: el)
qed

lemma pointer_local:
  assumes p: "pointer_ok mk ok h p" and ag: "agree_on (pointer_foot un foot h p) h h'" and n: "st_next h \<le> st_next h'"
  shows "pointer_ok mk ok h' p \<and> pointer_foot un foot h' p = pointer_foot un foot h p \<and>
    view h' (deref un h' p) = view h (deref un h p)"
proof -
  have cell: "st_cell h' (pt_array p) = st_cell h (pt_array p)" using ag by (simp add: pointer_foot_def)
  then have d: "deref un h' p = deref un h p" by (simp add: deref_def array_at_def)
  have "ok h (deref un h p)" using p by (auto simp: pointer_ok_def deref_def array_at_mk)
  then have "ok h' (deref un h p) \<and> foot h' (deref un h p) = foot h (deref un h p) \<and>
      view h' (deref un h p) = view h (deref un h p)"
    by (rule local) (use ag n in \<open>auto simp: pointer_foot_def\<close>)
  then show ?thesis using p n cell d by (auto simp: pointer_ok_def pointer_foot_def deref_def array_at_mk)
qed

lemma deep_pointer:
  "deep_copy refs (\<lambda>p. {pt_array p}) (pointer_ok mk ok) (pointer_foot un foot) (\<lambda>h p. view h (deref un h p))
    (\<lambda>q h. case store_alloc (mk [zero]) h of
      (b, h1) \<Rightarrow> (case copy (deref un h1 q) h1 of
        (y, h2) \<Rightarrow> (\<lparr>pt_array = b, pt_index = 0\<rparr>, store_elem un mk b 0 y h2)))"
proof (unfold_locales, goal_cases)
  case (1 h p)
  then show ?case using allocated[of h "deref un h p"]
    by (auto simp: pointer_foot_def pointer_ok_def deref_def array_at_mk)
next
  case (2 h p)
  then show ?case by (simp add: pointer_foot_def)
next
  case (3 h p h')
  then show ?case by (rule pointer_local)
next
  case (4 h q p h')
  let ?w = "deref un h q"
  define h1 where "h1 = snd (store_alloc (mk [zero]) h)"
  have d: "deref un h1 q = ?w" using 4(1) by (simp add: deref_def array_at_def h1_def pointer_ok_def)
  have ok: "ok h ?w" using 4(1) by (auto simp: pointer_ok_def deref_def array_at_mk)
  obtain y h2 where y: "copy ?w h1 = (y, h2)" by fastforce
  have p: "p = \<lparr>pt_array = st_next h, pt_index = 0\<rparr>" and h': "h' = store_elem un mk (st_next h) 0 y h2"
    using 4(2) y by (auto simp: store_alloc_def h1_def[symmetric] d[symmetric] split: prod.splits)
       (simp_all add: h1_def store_alloc_def)
  have "copied h (st_next h) [?w] [y] h'"
    using copied_step[OF copied_start[of h "[?w]"], of y h2] ok y by (simp add: h' h1_def)
  note c = copiedD[OF this]
  have dp: "deref un h' p = y" using c(5) by (simp add: deref_def p array_at_mk)
  have "pointer_ok mk ok h' p" using c(3,5,6) by (auto simp: pointer_ok_def p)
  moreover have "pointer_foot un foot h' p \<subseteq> new_between h h'"
    using c(3,6) by (auto simp: pointer_foot_def dp) (auto simp: p)
  ultimately show ?case using c(1,7,8) by (simp add: dp)
qed

end

section \<open>Flat arrays and maps\<close>

locale flat_array =
  fixes refs :: "'c \<Rightarrow> addr set" and mk :: "'a list \<Rightarrow> 'c" and un :: "'c \<Rightarrow> 'a list" and zero :: 'a
  assumes un_mk: "un (mk xs) = xs" and refs_mk: "refs (mk xs) = {}"

sublocale flat_array \<subseteq> elems: deep_array refs "\<lambda>_. {}" "\<lambda>_ _. True" "\<lambda>_ _. {}" "\<lambda>_ x. x" copy_flat mk un zero
  by (intro deep_array.intro deep_array_axioms.intro deep_flat) (simp_all add: un_mk refs_mk)

definition flat_ok :: "('a list \<Rightarrow> 'c) \<Rightarrow> 'c store \<Rightarrow> slice \<Rightarrow> bool" where
  "flat_ok mk = slice_ok mk (\<lambda>_ _. True)"

definition flat_foot :: "'c store \<Rightarrow> slice \<Rightarrow> addr set" where
  "flat_foot h s = {sl_array s}"

context flat_array
begin

lemma deep_flat_slice:
  "deep_copy refs (\<lambda>s. {sl_array s}) (flat_ok mk) flat_foot (slice_elems un)
    (\<lambda>src h. case make_slice mk zero (sl_len src) h of (dst, h1) \<Rightarrow> (dst, go_copy un mk dst src h1))"
proof (unfold_locales, goal_cases)
  case (1 h s) then show ?case by (simp add: flat_ok_def flat_foot_def slice_ok_def)
next
  case (2 h s) then show ?case by (simp add: flat_foot_def)
next
  case (3 h s h') then show ?case
    by (auto simp: flat_ok_def flat_foot_def slice_ok_def slice_elems_def array_at_def)
next
  case (4 h src dst h')
  let ?w = "slice_elems un h src"
  have dst: "dst = \<lparr>sl_array = st_next h, sl_off = 0, sl_len = sl_len src, sl_cap = sl_len src\<rparr>"
    using 4(2) by (auto simp: make_slice_def store_alloc_def)
  have len: "length ?w = sl_len src" and src: "sl_array src < st_next h"
    using elems.slice_okD(1,2)[of h src] 4(1) by (simp_all add: flat_ok_def)
  define h1 where "h1 = snd (store_alloc (mk (replicate (sl_len src) zero)) h)"
  have c1: "array_at un h1 (st_next h) = replicate (sl_len src) zero"
    by (simp add: h1_def array_at_def un_mk)
  have sw: "window src (array_at un h1 (sl_array src)) = ?w"
    using src by (simp add: h1_def array_at_def slice_elems_def)
  have "h' = go_copy un mk dst src h1" using 4(2) by (auto simp: make_slice_def h1_def store_alloc_def)
  then have "h' = store_write (st_next h) (mk ?w) h1"
    by (simp add: go_copy_def dst sw c1 len)
  then have h': "st_next h' = st_next h + 1" "st_cell h' = (st_cell h)(st_next h \<mapsto> mk ?w)"
    by (simp_all add: h1_def)
  have "slice_elems un h' dst = ?w" using len by (simp add: slice_elems_def dst array_at_def h' un_mk window_def)
  moreover have "flat_ok mk h' dst" using len by (auto simp: flat_ok_def slice_ok_def dst h' list_all_iff)
  ultimately show ?case by (simp add: flat_foot_def dst h' extends_def agree_on_def closed_under_def refs_mk)
qed

end

text \<open>A flat array of its own: the cell behind a pointer to a number, a flag or a time.\<close>

locale map_cell =
  fixes refs :: "'c \<Rightarrow> addr set" and mk :: "go_map \<Rightarrow> 'c" and un :: "'c \<Rightarrow> go_map"
  assumes un_mk: "un (mk m) = m" and refs_mk: "refs (mk m) = {}"

definition map_ok :: "(go_map \<Rightarrow> 'c) \<Rightarrow> 'c store \<Rightarrow> addr \<Rightarrow> bool" where
  "map_ok mk h a \<longleftrightarrow> a < st_next h \<and> (\<exists>m. st_cell h a = Some (mk m))"

definition map_foot :: "'c store \<Rightarrow> addr \<Rightarrow> addr set" where
  "map_foot h a = {a}"

lemma copy_map_opt:
  "copy_map un mk = copy_opt (\<lambda>a h. case store_alloc (mk fmempty) h of
     (b, h1) \<Rightarrow> (b, range_copy un mk b (sorted_list_of_fmap (map_at un h1 a)) h1))"
  by (intro ext) (auto simp: copy_map_def copy_opt_def split: option.splits prod.splits)

lemma fold_fmupd_lookup:
  "fmlookup (fold (\<lambda>(k, v). fmupd k v) kvs m) j =
    (case map_of (rev kvs) j of None \<Rightarrow> fmlookup m j | Some v \<Rightarrow> Some v)"
  by (induction kvs arbitrary: m) (auto simp: map_add_def split: option.splits if_splits)

text \<open>The entries are copied whatever the order in which the map is ranged over.\<close>

lemma fold_fmupd_any_order:
  assumes "distinct (map fst kvs)" "fmap_of_list kvs = m"
  shows "fold (\<lambda>(k, v). fmupd k v) kvs fmempty = m"
proof (rule fmap_ext)
  fix j
  have "distinct (map fst (rev kvs))" using assms(1) by (simp add: rev_map[symmetric])
  then have "map_of (rev kvs) = map_of kvs" by (simp add: map_of_eq_Some_iff assms(1) map_of_inject_set)
  then show "fmlookup (fold (\<lambda>(k, v). fmupd k v) kvs fmempty) j = fmlookup m j"
    using assms(2)[symmetric] by (auto simp: fold_fmupd_lookup fmlookup_of_list split: option.splits)
qed

lemma fold_fmupd_sorted: "fold (\<lambda>(k, v). fmupd k v) (sorted_list_of_fmap m) fmempty = m"
proof (rule fold_fmupd_any_order)
  show "distinct (map fst (sorted_list_of_fmap m))"
    by (simp add: sorted_list_of_fmap_def comp_def sorted_list_of_fset.rep_eq)
  show "fmap_of_list (sorted_list_of_fmap m) = m"
    by (rule fmap_ext) (simp add: fmlookup_of_list)
qed

context map_cell
begin

lemma range_copy_fold:
  "st_cell h b = Some (mk m) \<Longrightarrow>
   range_copy un mk b kvs h =
     (if kvs = [] then h else store_write b (mk (fold (\<lambda>(k, v). fmupd k v) kvs m)) h)"
proof (induction kvs arbitrary: h m)
  case Nil then show ?case by simp
next
  case (Cons kv kvs)
  then show ?case by (cases kv) (simp add: map_at_def store_write_def un_mk)
qed

lemma deep_map:
  "deep_copy refs (\<lambda>a. {a}) (map_ok mk) map_foot (map_at un)
    (\<lambda>a h. case store_alloc (mk fmempty) h of
      (b, h1) \<Rightarrow> (b, range_copy un mk b (sorted_list_of_fmap (map_at un h1 a)) h1))"
proof (unfold_locales, goal_cases)
  case (1 h a) then show ?case by (simp add: map_ok_def map_foot_def)
next
  case (2 h a) then show ?case by (simp add: map_foot_def)
next
  case (3 h a h') then show ?case by (auto simp: map_ok_def map_foot_def map_at_def)
next
  case (4 h a b h')
  define h1 where "h1 = snd (store_alloc (mk fmempty) h)"
  have b: "b = st_next h" using 4(2) by (simp add: store_alloc_def)
  have same: "map_at un h1 a = map_at un h a" using 4(1) by (simp add: h1_def map_at_def map_ok_def)
  have cell: "st_cell h1 b = Some (mk fmempty)" by (simp add: h1_def b)
  have "h' = range_copy un mk b (sorted_list_of_fmap (map_at un h a)) h1"
    using 4(2) by (auto simp: h1_def same[symmetric] store_alloc_def)
  also have "\<dots> = h1\<lparr>st_cell := (st_cell h1)(b \<mapsto> mk (map_at un h a))\<rparr>"
    using range_copy_fold[OF cell, of "sorted_list_of_fmap (map_at un h a)"] fold_fmupd_sorted[of "map_at un h a"] cell
    by (auto simp: store_write_def map_upd_triv split: if_splits)
  finally have h': "st_next h' = st_next h + 1" "st_cell h' = (st_cell h)(b \<mapsto> mk (map_at un h a))"
    by (simp_all add: h1_def b)
  show ?case
    by (auto simp: map_ok_def map_foot_def map_at_def h' b un_mk extends_def agree_on_def closed_under_def refs_mk)
qed

end

end
