(* ===== verification/Labels_Store.thy ===== *)
theory Labels_Store
  imports Go_Store Labels
begin

text \<open>
  Label selectors (\<open>pkg/labels/selector.go\<close>) in memory.  \<open>Labels\<close> models a requirement and a selector
  as values; here a requirement refers to the array of its values and a selector is a slice of
  requirements, and the methods that copy, print or extend a selector allocate and write.  The theory
  shows that the methods read like those of \<open>Labels\<close> and never change a cell that existed before, as
  their comments promise.
\<close>

section \<open>Requirements and selectors in memory\<close>

record mem_requirement =
  q_key :: string
  q_operator :: operator
  q_strValues :: "slice option"
  q_globMatcher :: "(string \<Rightarrow> bool) option"

datatype sel_cell = Strs "string list" | Reqs "mem_requirement list"

fun un_Strs where "un_Strs (Strs xs) = xs" | "un_Strs _ = []"
fun un_Reqs where "un_Reqs (Reqs xs) = xs" | "un_Reqs _ = []"

definition slice_list :: "('c \<Rightarrow> 'a list) \<Rightarrow> 'c store \<Rightarrow> slice option \<Rightarrow> 'a list" where
  "slice_list un h s = (case s of None \<Rightarrow> [] | Some t \<Rightarrow> slice_elems un h t)"

definition slice_len :: "slice option \<Rightarrow> nat" where
  "slice_len s = (case s of None \<Rightarrow> 0 | Some t \<Rightarrow> sl_len t)"

definition requirement_at :: "sel_cell store \<Rightarrow> mem_requirement \<Rightarrow> requirement" where
  "requirement_at h r = \<lparr>r_key = q_key r, r_operator = q_operator r,
     r_strValues = slice_list un_Strs h (q_strValues r), r_globMatcher = q_globMatcher r\<rparr>"

definition selector_at :: "sel_cell store \<Rightarrow> slice option \<Rightarrow> selector" where
  "selector_at h s = map (requirement_at h) (slice_list un_Reqs h s)"

section \<open>The methods\<close>

text \<open>\<open>safeSort\<close>: a sorted slice is returned as it is, another one is copied first.\<close>

definition safeSort :: "slice option \<Rightarrow> sel_cell store \<Rightarrow> slice option \<times> sel_cell store" where
  "safeSort vals h =
     (if sorted (slice_list un_Strs h vals) then (vals, h)
      else case vals of
        None \<Rightarrow> (None, h)
      | Some src \<Rightarrow> (case make_slice Strs [] (sl_len src) h of
          (out, h1) \<Rightarrow> let h2 = go_copy un_Strs Strs out src h1
            in (Some out, store_write (sl_array out) (Strs (sort (slice_elems un_Strs h2 out))) h2)))"

definition mem_Requirement_String :: "mem_requirement \<Rightarrow> sel_cell store \<Rightarrow> string \<times> sel_cell store" where
  "mem_Requirement_String r h =
     (let neg = (if q_operator r = OpDoesNotExist then ''!'' else []) @ q_key r
      in if q_operator r = OpExists \<or> q_operator r = OpDoesNotExist then (neg, h)
         else let op = neg @ op_text (q_operator r);
                  parens = q_operator r = OpIn \<or> q_operator r = OpNotIn;
                  open = (if parens then ''('' else []); close = (if parens then '')'' else [])
              in if slice_len (q_strValues r) = 1
                 then (op @ open @ slice_list un_Strs h (q_strValues r) ! 0 @ close, h)
                 else (case safeSort (q_strValues r) h of
                   (vs, h1) \<Rightarrow> (op @ open @ join '','' (slice_list un_Strs h1 vs) @ close, h1)))"

fun mem_strings :: "slice option \<Rightarrow> nat list \<Rightarrow> sel_cell store \<Rightarrow> string list \<times> sel_cell store" where
  "mem_strings s [] h = ([], h)"
| "mem_strings s (ix # ixs) h =
     (case mem_Requirement_String (slice_list un_Reqs h s ! ix) h of
        (t, h1) \<Rightarrow> (case mem_strings s ixs h1 of (ts, h2) \<Rightarrow> (t # ts, h2)))"

definition mem_selector_String :: "slice option \<Rightarrow> sel_cell store \<Rightarrow> string \<times> sel_cell store" where
  "mem_selector_String s h = (case mem_strings s [0..<slice_len s] h of (reqs, h1) \<Rightarrow> (join '','' reqs, h1))"

text \<open>\<open>append(s, xs...)\<close>: in place when the capacity allows it, else into a new array, whose capacity the
  runtime chooses.\<close>

definition go_append ::
  "(nat \<Rightarrow> nat) \<Rightarrow> ('c \<Rightarrow> 'a list) \<Rightarrow> ('a list \<Rightarrow> 'c) \<Rightarrow> 'a \<Rightarrow> slice \<Rightarrow> 'a list \<Rightarrow> 'c store \<Rightarrow> slice \<times> 'c store" where
  "go_append grow un mk zero s xs h =
     (let n = sl_len s + length xs; arr = array_at un h (sl_array s); e = sl_off s + sl_len s
      in if n \<le> sl_cap s
         then (s\<lparr>sl_len := n\<rparr>,
           store_write (sl_array s) (mk (take e arr @ xs @ drop (e + length xs) arr)) h)
         else (case store_alloc (mk (window s arr @ xs @ replicate (grow n - n) zero)) h of
           (b, h1) \<Rightarrow> (\<lparr>sl_array = b, sl_off = 0, sl_len = n, sl_cap = max n (grow n)\<rparr>, h1)))"

text \<open>The zero value; Go's zero operator is the empty string, which no requirement has.  The element is
  overwritten before it is read.\<close>

definition zero_requirement :: mem_requirement where
  "zero_requirement = \<lparr>q_key = [], q_operator = OpIn, q_strValues = None, q_globMatcher = None\<rparr>"

text \<open>\<open>sort.Sort(ByKey(ret))\<close> swaps elements of the array behind the slice.\<close>

definition sort_ByKey :: "slice \<Rightarrow> sel_cell store \<Rightarrow> sel_cell store" where
  "sort_ByKey s h =
     (let arr = array_at un_Reqs h (sl_array s)
      in store_write (sl_array s) (Reqs (take (sl_off s) arr @ sort_key q_key (window s arr) @
           drop (sl_off s + sl_len s) arr)) h)"

definition mem_selector_Add ::
  "(nat \<Rightarrow> nat) \<Rightarrow> slice option \<Rightarrow> slice option \<Rightarrow> sel_cell store \<Rightarrow> slice option \<times> sel_cell store" where
  "mem_selector_Add grow s reqs h =
     (case make_slice Reqs zero_requirement (slice_len s + slice_len reqs) h of
        (made, h1) \<Rightarrow>
      case go_append grow un_Reqs Reqs zero_requirement (made\<lparr>sl_len := 0\<rparr>) (slice_list un_Reqs h1 s) h1 of
        (ret1, h2) \<Rightarrow>
      case go_append grow un_Reqs Reqs zero_requirement ret1 (slice_list un_Reqs h2 reqs) h2 of
        (ret, h3) \<Rightarrow> (Some ret, sort_ByKey ret h3))"

definition Requirement_DeepCopyInto :: "mem_requirement \<Rightarrow> sel_cell store \<Rightarrow> mem_requirement \<times> sel_cell store" where
  "Requirement_DeepCopyInto x h =
     (case copy_flat_slice un_Strs Strs [] (q_strValues x) h of (v, h1) \<Rightarrow> (x\<lparr>q_strValues := v\<rparr>, h1))"

definition Requirement_DeepCopy :: "pointer option \<Rightarrow> sel_cell store \<Rightarrow> pointer option \<times> sel_cell store" where
  "Requirement_DeepCopy = copy_new un_Reqs Reqs zero_requirement Requirement_DeepCopyInto"

definition internalSelector_DeepCopy :: "slice option \<Rightarrow> sel_cell store \<Rightarrow> slice option \<times> sel_cell store" where
  "internalSelector_DeepCopy = copy_slice un_Reqs Reqs zero_requirement Requirement_DeepCopyInto"

text \<open>The interface: \<open>internalSelector\<close>, or \<open>nothingSelector\<close>, which returns itself.\<close>

datatype mem_selector = MemInternal "slice option" | MemNothing

definition DeepCopySelector :: "mem_selector \<Rightarrow> sel_cell store \<Rightarrow> mem_selector \<times> sel_cell store" where
  "DeepCopySelector s h = (case s of
      MemInternal t \<Rightarrow> (case internalSelector_DeepCopy t h of (u, h1) \<Rightarrow> (MemInternal u, h1))
    | MemNothing \<Rightarrow> (MemNothing, h))"

definition mem_sel_Add ::
  "(nat \<Rightarrow> nat) \<Rightarrow> mem_selector \<Rightarrow> slice option \<Rightarrow> sel_cell store \<Rightarrow> mem_selector \<times> sel_cell store" where
  "mem_sel_Add grow s reqs h = (case s of
      MemInternal t \<Rightarrow> (case mem_selector_Add grow t reqs h of (u, h1) \<Rightarrow> (MemInternal u, h1))
    | MemNothing \<Rightarrow> (MemNothing, h))"

definition mem_sel_String :: "mem_selector \<Rightarrow> sel_cell store \<Rightarrow> string \<times> sel_cell store" where
  "mem_sel_String s h = (case s of MemInternal t \<Rightarrow> mem_selector_String t h | MemNothing \<Rightarrow> ([], h))"

definition any_selector_at :: "sel_cell store \<Rightarrow> mem_selector \<Rightarrow> any_selector" where
  "any_selector_at h s = (case s of MemInternal t \<Rightarrow> InternalSelector (selector_at h t) | MemNothing \<Rightarrow> NothingSelector)"

section \<open>The contract of the deep copies\<close>

fun sel_refs :: "sel_cell \<Rightarrow> addr set" where
  "sel_refs (Strs xs) = {}"
| "sel_refs (Reqs xs) = (\<Union>r\<in>set xs. opt_refs (\<lambda>s. {sl_array s}) (q_strValues r))"

definition vals_ok :: "sel_cell store \<Rightarrow> slice option \<Rightarrow> bool" where
  "vals_ok = opt_ok (flat_ok Strs)"

definition requirement_ok :: "sel_cell store \<Rightarrow> mem_requirement \<Rightarrow> bool" where
  "requirement_ok h r = vals_ok h (q_strValues r)"

definition selector_ok :: "sel_cell store \<Rightarrow> slice option \<Rightarrow> bool" where
  "selector_ok = opt_ok (slice_ok Reqs requirement_ok)"

definition requirement_foot :: "sel_cell store \<Rightarrow> mem_requirement \<Rightarrow> addr set" where
  "requirement_foot h r = opt_foot flat_foot h (q_strValues r)"

text \<open>A requirement reads as its value, with the nil slice of values told from the empty one.\<close>

definition requirement_view :: "sel_cell store \<Rightarrow> mem_requirement \<Rightarrow> requirement \<times> bool" where
  "requirement_view h r = (requirement_at h r, q_strValues r = None)"

interpretation strs: flat_array sel_refs Strs un_Strs "[]" by unfold_locales simp_all

lemma deep_vals: "deep_copy sel_refs (opt_refs (\<lambda>s. {sl_array s})) vals_ok (opt_foot flat_foot)
    (\<lambda>h. map_option (slice_elems un_Strs h)) (copy_flat_slice un_Strs Strs [])"
  unfolding vals_ok_def copy_flat_slice_opt by (rule deep_opt[OF strs.deep_flat_slice])

lemma deep_requirement:
  "deep_copy sel_refs (\<lambda>r. opt_refs (\<lambda>s. {sl_array s}) (q_strValues r)) requirement_ok requirement_foot
    requirement_view Requirement_DeepCopyInto"
proof -
  have view: "requirement_view = (\<lambda>h r. (\<lambda>r v. (\<lparr>r_key = q_key r, r_operator = q_operator r,
      r_strValues = (case v of None \<Rightarrow> [] | Some vs \<Rightarrow> vs), r_globMatcher = q_globMatcher r\<rparr>, v = None)) r
      (map_option (slice_elems un_Strs h) (q_strValues r)))"
    by (intro ext) (auto simp: requirement_view_def requirement_at_def slice_list_def split: option.splits)
  show ?thesis
    unfolding view requirement_ok_def[abs_def] requirement_foot_def[abs_def]
    by (rule deep_via[OF deep_vals, where put = "\<lambda>r v. r\<lparr>q_strValues := v\<rparr>"])
       (simp_all add: Requirement_DeepCopyInto_def)
qed

interpretation reqs: deep_array sel_refs "\<lambda>r. opt_refs (\<lambda>s. {sl_array s}) (q_strValues r)" requirement_ok
    requirement_foot requirement_view Requirement_DeepCopyInto Reqs un_Reqs zero_requirement
  by (intro deep_array.intro deep_requirement deep_array_axioms.intro)
     (simp_all add: zero_requirement_def opt_refs_def)

interpretation selectors: deep_copy sel_refs "opt_refs (\<lambda>s. {sl_array s})" selector_ok
    "opt_foot (slice_foot un_Reqs requirement_foot)"
    "\<lambda>h. map_option (\<lambda>s. map (requirement_view h) (slice_elems un_Reqs h s))" internalSelector_DeepCopy
  unfolding selector_ok_def internalSelector_DeepCopy_def copy_slice_opt
  by (rule deep_opt[OF reqs.deep_slice])

section \<open>Reading after an allocation\<close>

lemma requirement_at_extends: "\<lbrakk>requirement_ok h r; extends h k\<rbrakk> \<Longrightarrow> requirement_ok k r \<and> requirement_at k r = requirement_at h r"
  using reqs.preserved[of h r k] by (simp add: requirement_view_def)

lemma slice_list_extends:
  assumes "selector_ok h s" "extends h k"
  shows "slice_list un_Reqs k s = slice_list un_Reqs h s" "length (slice_list un_Reqs h s) = slice_len s"
    "r \<in> set (slice_list un_Reqs h s) \<Longrightarrow> requirement_ok h r"
proof -
  have "slice_list un_Reqs k s = slice_list un_Reqs h s \<and> length (slice_list un_Reqs h s) = slice_len s \<and>
    (r \<in> set (slice_list un_Reqs h s) \<longrightarrow> requirement_ok h r)"
  proof (cases s)
    case (Some t)
    then have t: "slice_ok Reqs requirement_ok h t" using assms(1) by (simp add: selector_ok_def opt_ok_def)
    have "st_cell k (sl_array t) = st_cell h (sl_array t)"
      using reqs.slice_okD(1)[OF t] assms(2) by (simp add: extends_def agree_on_def)
    then show ?thesis using reqs.slice_okD(2,3)[OF t] Some
      by (simp add: slice_list_def slice_len_def slice_elems_def array_at_def)
  qed (simp add: slice_list_def slice_len_def)
  then show "slice_list un_Reqs k s = slice_list un_Reqs h s" "length (slice_list un_Reqs h s) = slice_len s"
    "r \<in> set (slice_list un_Reqs h s) \<Longrightarrow> requirement_ok h r" by simp_all
qed

lemma selector_at_extends:
  assumes "selector_ok h s" "extends h k"
  shows "selector_ok k s \<and> selector_at k s = selector_at h s"
  using selectors.preserved[OF assms] slice_list_extends[OF assms] requirement_at_extends[OF _ assms(2)]
  by (simp add: selector_at_def cong: map_cong)

section \<open>Printing and extending leave every existing cell alone\<close>

lemma safeSort_spec:
  assumes "vals_ok h vs" "safeSort vs h = (t, h')"
  shows "extends h h' \<and> slice_list un_Strs h' t = sort (slice_list un_Strs h vs)"
proof (cases "sorted (slice_list un_Strs h vs)")
  case True
  then show ?thesis using assms(2) by (auto simp: safeSort_def sorted_sort_id)
next
  case False
  then obtain src where src: "vs = Some src" by (cases vs) (auto simp: slice_list_def)
  obtain out h1 where m: "make_slice Strs [] (sl_len src) h = (out, h1)" by fastforce
  define h2 where "h2 = go_copy un_Strs Strs out src h1"
  have ok: "flat_ok Strs h src" using assms(1) src by (simp add: vals_ok_def opt_ok_def)
  have c: "(case make_slice Strs [] (sl_len src) h of (dst, h1) \<Rightarrow> (dst, go_copy un_Strs Strs dst src h1)) = (out, h2)"
    by (simp add: m h2_def)
  note d = deep_copy.copies[OF strs.deep_flat_slice ok c]
  have out: "out = \<lparr>sl_array = st_next h, sl_off = 0, sl_len = sl_len src, sl_cap = sl_len src\<rparr>"
    using m by (auto simp: make_slice_def store_alloc_def)
  have t: "t = Some out" "h' = store_write (sl_array out) (Strs (sort (slice_elems un_Strs h2 out))) h2"
    using assms(2) False src m by (auto simp: safeSort_def Let_def h2_def)
  have "length (slice_elems un_Strs h2 out) = sl_len src"
    using strs.elems.slice_okD(2)[of h2 out] d out by (simp add: flat_ok_def)
  then have "slice_elems un_Strs h' out = sort (slice_elems un_Strs h2 out)"
    unfolding t(2) by (simp add: slice_elems_def array_at_def out window_def)
  then show ?thesis using d t write_extends[of h h2 "sl_array out"] src by (simp add: slice_list_def out)
qed

lemma mem_Requirement_String_spec:
  assumes ok: "requirement_ok h r" and s: "mem_Requirement_String r h = (t, h')"
  shows "extends h h' \<and> t = Requirement_String (requirement_at h r)"
proof -
  obtain vs h1 where v: "safeSort (q_strValues r) h = (vs, h1)" by fastforce
  have len: "length (slice_list un_Strs h (q_strValues r)) = slice_len (q_strValues r)"
    using ok strs.elems.slice_okD(2)[of h]
    by (auto simp: requirement_ok_def vals_ok_def opt_ok_def flat_ok_def slice_list_def slice_len_def split: option.splits)
  let ?vs = "slice_list un_Strs h (q_strValues r)"
  note sorted = safeSort_spec[OF ok[unfolded requirement_ok_def] v]
  have one: "?vs ! 0 = values_text ?vs" if "slice_len (q_strValues r) = 1"
    using len that by (cases ?vs) (simp_all add: values_text_def)
  have many: "join '','' (slice_list un_Strs h1 vs) = values_text ?vs" if "slice_len (q_strValues r) \<noteq> 1"
    using len that sorted by (simp add: values_text_def)
  show ?thesis
  proof (cases "q_operator r = OpExists \<or> q_operator r = OpDoesNotExist")
    case True
    then show ?thesis using s
      by (simp add: mem_Requirement_String_def Requirement_String_def requirement_at_def Let_def)
  next
    case False
    show ?thesis
    proof (cases "slice_len (q_strValues r) = 1")
      case True
      then have "h' = h" "t = Requirement_String (requirement_at h r)"
        using s False unfolding mem_Requirement_String_def Requirement_String_def requirement_at_def Let_def
        by (simp_all add: one split: if_splits) (auto simp: one)
      then show ?thesis by simp
    next
      case more: False
      then have "h' = h1" "t = Requirement_String (requirement_at h r)"
        using s False unfolding mem_Requirement_String_def Requirement_String_def requirement_at_def Let_def
        by (simp_all add: v many split: if_splits) (auto simp: many)
      then show ?thesis using sorted by simp
    qed
  qed
qed

lemma mem_strings_spec:
  assumes "selector_ok h s" "\<forall>i\<in>set ixs. i < slice_len s" "mem_strings s ixs h = (ts, h')"
  shows "extends h h' \<and> ts = map (\<lambda>i. Requirement_String (selector_at h s ! i)) ixs"
  using assms
proof (induction ixs arbitrary: h ts)
  case Nil
  then show ?case by simp
next
  case (Cons i ixs)
  obtain t h1 us where t: "mem_Requirement_String (slice_list un_Reqs h s ! i) h = (t, h1)"
    "mem_strings s ixs h1 = (us, h')" "ts = t # us"
    using Cons.prems(3) by (auto split: prod.splits)
  have i: "i < length (slice_list un_Reqs h s)" using Cons.prems(2) slice_list_extends(2)[OF Cons.prems(1) order_refl] by simp
  then have "requirement_ok h (slice_list un_Reqs h s ! i)"
    using slice_list_extends(3)[OF Cons.prems(1) order_refl] by simp
  note one = mem_Requirement_String_spec[OF this t(1)]
  have sel: "selector_ok h1 s" "selector_at h1 s = selector_at h s"
    using selector_at_extends[OF Cons.prems(1) one[THEN conjunct1]] by simp_all
  have rest: "extends h1 h' \<and> us = map (\<lambda>i. Requirement_String (selector_at h s ! i)) ixs"
    using Cons.IH[OF sel(1) _ t(2)] Cons.prems(2) unfolding sel(2) by simp
  then have "extends h h'" using one order_trans by blast
  moreover have "t = Requirement_String (selector_at h s ! i)" using one i by (simp add: selector_at_def)
  ultimately show ?case using rest t(3) by simp
qed

lemma mem_selector_String_spec:
  assumes "selector_ok h s" "mem_selector_String s h = (t, h')"
  shows "extends h h' \<and> t = selector_String (selector_at h s)"
proof -
  obtain ts where ts: "mem_strings s [0..<slice_len s] h = (ts, h')" "t = join '','' ts"
    using assms(2) by (auto simp: mem_selector_String_def split: prod.splits)
  have "length (selector_at h s) = slice_len s" using slice_list_extends(2)[OF assms(1) order_refl] by (simp add: selector_at_def)
  then have "map (\<lambda>i. Requirement_String (selector_at h s ! i)) [0..<slice_len s] = map Requirement_String (selector_at h s)"
    by (intro nth_equalityI) simp_all
  then show ?thesis using mem_strings_spec[OF assms(1) _ ts(1)] ts(2) by (simp add: selector_String_def)
qed

lemma map_sort_key: "(\<And>x. g (f x) = k x) \<Longrightarrow> map f (sort_key k xs) = sort_key g (map f xs)"
proof (induction xs)
  case (Cons x xs)
  have "map f (insort_key k x ys) = insort_key g (f x) (map f ys)" for ys
    by (induction ys) (simp_all add: Cons.prems)
  then show ?case using Cons by simp
qed simp

lemma mem_selector_Add_array:
  assumes s: "selector_ok h s" and reqs: "selector_ok h reqs" and r: "mem_selector_Add grow s reqs h = (t, h')"
  defines "zs \<equiv> slice_list un_Reqs h s @ slice_list un_Reqs h reqs"
  shows "t = Some \<lparr>sl_array = st_next h, sl_off = 0, sl_len = length zs, sl_cap = length zs\<rparr> \<and>
    st_next h' = st_next h + 1 \<and> st_cell h' = (st_cell h)(st_next h \<mapsto> Reqs (sort_key q_key zs))"
proof -
  define xs where "xs = slice_list un_Reqs h s"
  define ys where "ys = slice_list un_Reqs h reqs"
  have len: "slice_len s = length xs" "slice_len reqs = length ys"
    using slice_list_extends(2)[OF s order_refl] slice_list_extends(2)[OF reqs order_refl]
    by (simp_all add: xs_def ys_def)
  let ?a = "st_next h" and ?n = "length xs + length ys"
  define h1 where "h1 = snd (store_alloc (Reqs (replicate ?n zero_requirement)) h)"
  have made: "make_slice Reqs zero_requirement (slice_len s + slice_len reqs) h =
      (\<lparr>sl_array = ?a, sl_off = 0, sl_len = ?n, sl_cap = ?n\<rparr>, h1)"
    by (simp add: make_slice_def h1_def len store_alloc_def)
  have e1: "extends h h1" by (simp add: h1_def)
  have xs1: "slice_list un_Reqs h1 s = xs" by (simp add: slice_list_extends(1)[OF s e1] xs_def)
  define h2 where "h2 = store_write ?a (Reqs (xs @ replicate (length ys) zero_requirement)) h1"
  have ap1: "go_append grow un_Reqs Reqs zero_requirement \<lparr>sl_array = ?a, sl_off = 0, sl_len = 0, sl_cap = ?n\<rparr> xs h1 =
      (\<lparr>sl_array = ?a, sl_off = 0, sl_len = length xs, sl_cap = ?n\<rparr>, h2)"
    by (simp add: go_append_def h2_def array_at_def Let_def) (simp add: h1_def)
  have e2: "extends h h2" unfolding h2_def by (rule write_extends[OF e1]) simp
  have ys2: "slice_list un_Reqs h2 reqs = ys" by (simp add: slice_list_extends(1)[OF reqs e2] ys_def)
  define h3 where "h3 = store_write ?a (Reqs (xs @ ys)) h2"
  have ap2: "go_append grow un_Reqs Reqs zero_requirement \<lparr>sl_array = ?a, sl_off = 0, sl_len = length xs, sl_cap = ?n\<rparr> ys h2 =
      (\<lparr>sl_array = ?a, sl_off = 0, sl_len = ?n, sl_cap = ?n\<rparr>, h3)"
    by (simp add: go_append_def h3_def array_at_def Let_def) (simp add: h2_def)
  have "t = Some \<lparr>sl_array = ?a, sl_off = 0, sl_len = ?n, sl_cap = ?n\<rparr>"
    "h' = sort_ByKey \<lparr>sl_array = ?a, sl_off = 0, sl_len = ?n, sl_cap = ?n\<rparr> h3"
    using r by (simp_all add: mem_selector_Add_def made xs1 ap1 ys2 ap2)
  moreover have "sort_ByKey \<lparr>sl_array = ?a, sl_off = 0, sl_len = ?n, sl_cap = ?n\<rparr> h3 =
      store_write ?a (Reqs (sort_key q_key (xs @ ys))) h3"
    by (simp add: sort_ByKey_def Let_def array_at_def window_def h3_def)
  ultimately show ?thesis by (simp add: zs_def xs_def[symmetric] ys_def[symmetric] h3_def h2_def h1_def)
qed

lemma mem_selector_Add_spec:
  assumes s: "selector_ok h s" and reqs: "selector_ok h reqs" and r: "mem_selector_Add grow s reqs h = (t, h')"
  shows "extends h h' \<and> selector_ok h' t \<and> selector_at h' t = selector_Add (selector_at h s) (selector_at h reqs)"
proof -
  define zs where "zs = slice_list un_Reqs h s @ slice_list un_Reqs h reqs"
  have t: "t = Some \<lparr>sl_array = st_next h, sl_off = 0, sl_len = length zs, sl_cap = length zs\<rparr>"
    and h': "st_next h' = st_next h + 1" "st_cell h' = (st_cell h)(st_next h \<mapsto> Reqs (sort_key q_key zs))"
    using mem_selector_Add_array[OF s reqs r] by (simp_all add: zs_def)
  have e: "extends h h'" by (simp add: extends_def agree_on_def h')
  have each: "requirement_ok h' z \<and> requirement_at h' z = requirement_at h z" if "z \<in> set zs" for z
    using that slice_list_extends(3)[OF s order_refl] slice_list_extends(3)[OF reqs order_refl] requirement_at_extends[OF _ e]
    by (auto simp: zs_def)
  have l: "slice_list un_Reqs h' t = sort_key q_key zs"
    by (simp add: t slice_list_def slice_elems_def array_at_def h' window_def)
  have "selector_ok h' t"
    using each by (simp add: t selector_ok_def opt_ok_def slice_ok_def h' window_def list_all_iff)
  moreover have "selector_at h' t = map (requirement_at h) (sort_key q_key zs)"
    unfolding selector_at_def l using each by simp
  moreover have "\<dots> = sort_key r_key (map (requirement_at h) zs)"
    by (rule map_sort_key) (simp add: requirement_at_def)
  ultimately show ?thesis using e
    by (simp add: selector_Add_def sort_by_key_def selector_at_def zs_def)
qed

lemma selector_at_view:
  "selector_at k u = (case map_option (\<lambda>s. map (requirement_view k) (slice_elems un_Reqs k s)) u of
      None \<Rightarrow> [] | Some vs \<Rightarrow> map fst vs)"
  by (cases u) (simp_all add: selector_at_def slice_list_def requirement_view_def)

lemma internalSelector_DeepCopy_spec:
  assumes "selector_ok h s" "internalSelector_DeepCopy s h = (t, h')"
  shows "extends h h' \<and> selector_ok h' t \<and> selector_at h' t = selector_at h s \<and> (t = None \<longleftrightarrow> s = None)"
proof -
  note c = selectors.copies[OF assms]
  have v: "map_option (\<lambda>s. map (requirement_view h') (slice_elems un_Reqs h' s)) t =
      map_option (\<lambda>s. map (requirement_view h) (slice_elems un_Reqs h s)) s" using c by blast
  have "selector_at h' t = selector_at h s" by (simp only: selector_at_view v)
  moreover have "t = None \<longleftrightarrow> s = None" using v by (cases t; cases s) simp_all
  ultimately show ?thesis using c by simp
qed

text \<open>The methods of the interface.\<close>

definition mem_selector_ok :: "sel_cell store \<Rightarrow> mem_selector \<Rightarrow> bool" where
  "mem_selector_ok h s = (case s of MemInternal t \<Rightarrow> selector_ok h t | MemNothing \<Rightarrow> True)"

text \<open>C20: The methods of a selector in memory give what their models on values give, and none of them
  changes a cell that existed before the call, so neither the receiver, nor the requirements passed to
  \<open>Add\<close>, nor a slice of values that they share with another selector is disturbed: \<open>String\<close> sorts a copy
  of unsorted values, \<open>Add\<close> sorts a new array, and \<open>DeepCopySelector\<close> gives a selector that no holder of
  old references can change, and whose holders can change nothing else.\<close>

theorem selector_methods_refine:
  assumes "mem_selector_ok h s" "selector_ok h reqs"
  shows "(case mem_sel_String s h of (t, h') \<Rightarrow> extends h h' \<and> t = sel_String (any_selector_at h s)) \<and>
    (case mem_sel_Add grow s reqs h of (t, h') \<Rightarrow> extends h h' \<and> mem_selector_ok h' t \<and>
      any_selector_at h' t = sel_Add (any_selector_at h s) (selector_at h reqs)) \<and>
    (case DeepCopySelector s h of (t, h') \<Rightarrow> extends h h' \<and> mem_selector_ok h' t \<and>
      any_selector_at h' t = any_selector_at h s \<and>
      (\<forall>K K' h''. K \<inter> {st_next h..<st_next h'} = {} \<longrightarrow> holder_run sel_refs (K, h') (K', h'') \<longrightarrow>
         any_selector_at h'' t = any_selector_at h s) \<and>
      (\<forall>K' h''. holder_run sel_refs ({st_next h..<st_next h'}, h') (K', h'') \<longrightarrow> agree_on {..<st_next h} h h''))"
proof (cases s)
  case MemNothing
  have frame: "agree_on {..<st_next h} h h''" if "holder_run sel_refs ({st_next h..<st_next h}, h) (K', h'')" for K' h''
    using holder_frame[OF that, of "{..<st_next h}"] by simp
  show ?thesis using frame
    by (simp add: MemNothing mem_sel_String_def mem_sel_Add_def DeepCopySelector_def any_selector_at_def
        sel_String_def sel_Add_def mem_selector_ok_def)
next
  case (MemInternal u)
  then have ok: "selector_ok h u" using assms(1) by (simp add: mem_selector_ok_def)
  obtain t1 h1 where r1: "mem_selector_String u h = (t1, h1)" by fastforce
  obtain t2 h2 where r2: "mem_selector_Add grow u reqs h = (t2, h2)" by fastforce
  obtain t3 h3 where r3: "internalSelector_DeepCopy u h = (t3, h3)" by fastforce
  have iso: "selector_at h'' t3 = selector_at h u"
    if "K \<inter> {st_next h..<st_next h3} = {}" "holder_run sel_refs (K, h3) (K', h'')" for K K' h''
    using selectors.isolated(1)[OF ok r3 that(2,1)] by (simp only: selector_at_view)
  have frame: "agree_on {..<st_next h} h h''" if "holder_run sel_refs ({st_next h..<st_next h3}, h3) (K', h'')" for K' h''
    using selectors.isolated(2)[OF ok r3 that] by blast
  show ?thesis
    using mem_selector_String_spec[OF ok r1] mem_selector_Add_spec[OF ok assms(2) r2]
      internalSelector_DeepCopy_spec[OF ok r3] iso frame
    by (simp add: MemInternal mem_sel_String_def mem_sel_Add_def DeepCopySelector_def any_selector_at_def
        sel_String_def sel_Add_def mem_selector_ok_def r1 r2 r3)
qed

text \<open>Two requirements that share the array of one unsorted pair of values.\<close>

definition example_values :: slice where
  "example_values = \<lparr>sl_array = 0, sl_off = 0, sl_len = 2, sl_cap = 2\<rparr>"

definition example_selector :: slice where
  "example_selector = \<lparr>sl_array = 1, sl_off = 0, sl_len = 2, sl_cap = 2\<rparr>"

definition example_sel_store :: "sel_cell store" where
  "example_sel_store = \<lparr>st_cell = [0 \<mapsto> Strs [''web'', ''db''],
     1 \<mapsto> Reqs [\<lparr>q_key = ''tier'', q_operator = OpIn, q_strValues = Some example_values, q_globMatcher = None\<rparr>,
               \<lparr>q_key = ''app'', q_operator = OpNotIn, q_strValues = Some example_values, q_globMatcher = None\<rparr>]],
     st_next = 2\<rparr>"

lemma selector_methods_refine_witness:
  "(case mem_sel_String (MemInternal (Some example_selector)) example_sel_store of
      (t, h') \<Rightarrow> t = ''tier in (db,web),app notin (db,web)'' \<and> st_cell h' 0 = Some (Strs [''web'', ''db'']))"
proof -
  have ok: "mem_selector_ok example_sel_store (MemInternal (Some example_selector))" "selector_ok example_sel_store None"
    by (simp_all add: mem_selector_ok_def selector_ok_def opt_ok_def slice_ok_def example_sel_store_def
        example_selector_def example_values_def window_def requirement_ok_def vals_ok_def flat_ok_def)
  have "sel_String (any_selector_at example_sel_store (MemInternal (Some example_selector))) =
      ''tier in (db,web),app notin (db,web)''"
    by (simp add: any_selector_at_def sel_String_def selector_String_def selector_at_def slice_list_def slice_elems_def
        example_selector_def array_at_def example_sel_store_def window_def requirement_at_def example_values_def
        Requirement_String_def values_text_def op_text_def)
  moreover have "st_cell example_sel_store 0 = Some (Strs [''web'', ''db''])" "0 < st_next example_sel_store"
    by (simp_all add: example_sel_store_def)
  ultimately show ?thesis
    using selector_methods_refine[OF ok, of "\<lambda>n. n"]
    by (auto simp: extends_def agree_on_def split: prod.splits)
qed

end
