(* ===== verification/CRD_Types.thy ===== *)
theory CRD_Types
  imports Go_Store Logging_Cache
begin

text \<open>
  The custom resource (\<open>pkg/kubernetes/pkg/apis/datakits/v1alpha1/types.go\<close>) and its deep copies
  (\<open>zz_generated.deepcopy.go\<close>) over the store of \<open>Go_Store\<close>.  Every record has its pointer, slice and
  map fields as type parameters: at addresses it is the struct in memory, at values it is what reading
  the struct gives, with nil distinct from empty.  The copies of the embedded metadata
  (\<open>vendor/k8s.io/apimachinery\<close>) are modelled too, so that nothing is assumed about them.  A receiver and
  its destination are different variables, as in every call of the code.
\<close>

section \<open>Types\<close>

text \<open>A point in time; the copied value is never changed in place.\<close>

type_synonym go_time = int

record type_meta =
  ty_Kind :: string
  ty_APIVersion :: string

record 'i list_meta =
  lm_SelfLink :: string
  lm_ResourceVersion :: string
  lm_Continue :: string
  lm_RemainingItemCount :: 'i

record 'b owner_reference =
  ow_APIVersion :: string
  ow_Kind :: string
  ow_Name :: string
  ow_UID :: string
  ow_Controller :: 'b
  ow_BlockOwnerDeletion :: 'b

record ('t, 'f) managed_fields_entry =
  mf_Manager :: string
  mf_Operation :: string
  mf_APIVersion :: string
  mf_Time :: 't
  mf_FieldsType :: string
  mf_FieldsV1 :: 'f
  mf_Subresource :: string

record ('t, 'i, 'm, 'o, 's, 'g) crd_meta =
  me_Name :: string
  me_GenerateName :: string
  me_Namespace :: string
  me_SelfLink :: string
  me_UID :: string
  me_ResourceVersion :: string
  me_Generation :: "64 word"
  me_CreationTimestamp :: go_time
  me_DeletionTimestamp :: 't
  me_DeletionGracePeriodSeconds :: 'i
  me_Labels :: 'm
  me_Annotations :: 'm
  me_OwnerReferences :: 'o
  me_Finalizers :: 's
  me_ManagedFields :: 'g

text \<open>\<open>Config\<close>, \<open>ClusterLoggingConfigSpec\<close>, \<open>ClusterLoggingConfig\<close> and \<open>ClusterLoggingConfigList\<close>;
  \<open>Selector\<close> is the \<open>logging_selector\<close> of \<open>Logging_Cache\<close>.\<close>

record 'm crd_config =
  cg_Type :: string
  cg_Source :: string
  cg_Disable :: bool
  cg_Path :: string
  cg_StorageIndex :: string
  cg_Service :: string
  cg_CharacterEncoding :: string
  cg_Pipeline :: string
  cg_Multiline :: string
  cg_RemoveAnsiEscapeCodes :: bool
  cg_FromBeginning :: bool
  cg_FromBeginningThresholdSize :: "64 word"
  cg_Tags :: 'm

record ('s, 'c) crd_spec =
  sp_Selector :: logging_selector
  sp_PodTargetLabels :: 's
  sp_Configs :: 'c

record ('o, 'p) crd_object =
  cl_TypeMeta :: type_meta
  cl_ObjectMeta :: 'o
  cl_Spec :: 'p

record ('l, 'i) crd_list =
  li_TypeMeta :: type_meta
  li_ListMeta :: 'l
  li_Items :: 'i

section \<open>Cells\<close>

type_synonym mem_owner = "pointer option owner_reference"
type_synonym mem_managed = "(pointer option, pointer option) managed_fields_entry"
type_synonym mem_meta =
  "(pointer option, pointer option, addr option, slice option, slice option, slice option) crd_meta"
type_synonym mem_list_meta = "pointer option list_meta"
type_synonym mem_config = "addr option crd_config"
type_synonym mem_spec = "(slice option, slice option) crd_spec"
type_synonym mem_object = "(mem_meta, mem_spec) crd_object"
type_synonym mem_list = "(mem_list_meta, slice option) crd_list"

text \<open>\<open>FieldsV1\<close> is a struct with one field, the slice of its bytes.\<close>

datatype cell =
    Times "go_time list"
  | Ints "64 word list"
  | Bools "bool list"
  | Bytes "8 word list"
  | Strings "string list"
  | Dict go_map
  | Owners "mem_owner list"
  | Fields "slice option list"
  | Managed "mem_managed list"
  | Configs "mem_config list"
  | Selectors "logging_selector list"
  | Specs "mem_spec list"
  | Objects "mem_object list"
  | Lists "mem_list list"

definition ptr_refs :: "pointer option \<Rightarrow> addr set" where
  "ptr_refs = opt_refs (\<lambda>p. {pt_array p})"

definition slc_refs :: "slice option \<Rightarrow> addr set" where
  "slc_refs = opt_refs (\<lambda>s. {sl_array s})"

definition dict_refs :: "addr option \<Rightarrow> addr set" where
  "dict_refs = opt_refs (\<lambda>a. {a})"

definition owner_refs :: "mem_owner \<Rightarrow> addr set" where
  "owner_refs x = ptr_refs (ow_Controller x) \<union> ptr_refs (ow_BlockOwnerDeletion x)"

definition managed_refs :: "mem_managed \<Rightarrow> addr set" where
  "managed_refs x = ptr_refs (mf_Time x) \<union> ptr_refs (mf_FieldsV1 x)"

definition meta_refs :: "mem_meta \<Rightarrow> addr set" where
  "meta_refs x = ptr_refs (me_DeletionTimestamp x) \<union> (ptr_refs (me_DeletionGracePeriodSeconds x) \<union>
     (dict_refs (me_Labels x) \<union> (dict_refs (me_Annotations x) \<union> (slc_refs (me_OwnerReferences x) \<union>
     (slc_refs (me_Finalizers x) \<union> slc_refs (me_ManagedFields x))))))"

definition config_refs :: "mem_config \<Rightarrow> addr set" where
  "config_refs x = dict_refs (cg_Tags x)"

definition spec_refs :: "mem_spec \<Rightarrow> addr set" where
  "spec_refs x = slc_refs (sp_PodTargetLabels x) \<union> slc_refs (sp_Configs x)"

definition object_refs :: "mem_object \<Rightarrow> addr set" where
  "object_refs x = meta_refs (cl_ObjectMeta x) \<union> spec_refs (cl_Spec x)"

definition list_refs :: "mem_list \<Rightarrow> addr set" where
  "list_refs x = ptr_refs (lm_RemainingItemCount (li_ListMeta x)) \<union> slc_refs (li_Items x)"

fun cell_refs :: "cell \<Rightarrow> addr set" where
  "cell_refs (Owners xs) = (\<Union>x\<in>set xs. owner_refs x)"
| "cell_refs (Fields xs) = (\<Union>x\<in>set xs. slc_refs x)"
| "cell_refs (Managed xs) = (\<Union>x\<in>set xs. managed_refs x)"
| "cell_refs (Configs xs) = (\<Union>x\<in>set xs. config_refs x)"
| "cell_refs (Specs xs) = (\<Union>x\<in>set xs. spec_refs x)"
| "cell_refs (Objects xs) = (\<Union>x\<in>set xs. object_refs x)"
| "cell_refs (Lists xs) = (\<Union>x\<in>set xs. list_refs x)"
| "cell_refs _ = {}"

fun un_Times where "un_Times (Times xs) = xs" | "un_Times _ = []"
fun un_Ints where "un_Ints (Ints xs) = xs" | "un_Ints _ = []"
fun un_Bools where "un_Bools (Bools xs) = xs" | "un_Bools _ = []"
fun un_Bytes where "un_Bytes (Bytes xs) = xs" | "un_Bytes _ = []"
fun un_Strings where "un_Strings (Strings xs) = xs" | "un_Strings _ = []"
fun un_Dict where "un_Dict (Dict m) = m" | "un_Dict _ = fmempty"
fun un_Owners where "un_Owners (Owners xs) = xs" | "un_Owners _ = []"
fun un_Fields where "un_Fields (Fields xs) = xs" | "un_Fields _ = []"
fun un_Managed where "un_Managed (Managed xs) = xs" | "un_Managed _ = []"
fun un_Configs where "un_Configs (Configs xs) = xs" | "un_Configs _ = []"
fun un_Selectors where "un_Selectors (Selectors xs) = xs" | "un_Selectors _ = []"
fun un_Specs where "un_Specs (Specs xs) = xs" | "un_Specs _ = []"
fun un_Objects where "un_Objects (Objects xs) = xs" | "un_Objects _ = []"
fun un_Lists where "un_Lists (Lists xs) = xs" | "un_Lists _ = []"

interpretation times: flat_array cell_refs Times un_Times 0 by unfold_locales simp_all
interpretation ints: flat_array cell_refs Ints un_Ints 0 by unfold_locales simp_all
interpretation bools: flat_array cell_refs Bools un_Bools False by unfold_locales simp_all
interpretation bytes: flat_array cell_refs Bytes un_Bytes 0 by unfold_locales simp_all
interpretation strings: flat_array cell_refs Strings un_Strings "[]" by unfold_locales simp_all
interpretation dict: map_cell cell_refs Dict un_Dict by unfold_locales simp_all

section \<open>The embedded metadata\<close>

text \<open>Pointers to flat values: \<open>*bool\<close>, \<open>*int64\<close> and \<open>*Time\<close>.\<close>

definition copy_bool :: "pointer option \<Rightarrow> cell store \<Rightarrow> pointer option \<times> cell store" where
  "copy_bool = copy_new un_Bools Bools False copy_flat"

definition copy_int64 :: "pointer option \<Rightarrow> cell store \<Rightarrow> pointer option \<times> cell store" where
  "copy_int64 = copy_new un_Ints Ints 0 copy_flat"

definition copy_time :: "pointer option \<Rightarrow> cell store \<Rightarrow> pointer option \<times> cell store" where
  "copy_time = copy_new un_Times Times 0 copy_flat"

definition copy_tags :: "addr option \<Rightarrow> cell store \<Rightarrow> addr option \<times> cell store" where
  "copy_tags = copy_map un_Dict Dict"

definition copy_strings :: "slice option \<Rightarrow> cell store \<Rightarrow> slice option \<times> cell store" where
  "copy_strings = copy_flat_slice un_Strings Strings []"

definition OwnerReference_DeepCopyInto :: "mem_owner \<Rightarrow> cell store \<Rightarrow> mem_owner \<times> cell store" where
  "OwnerReference_DeepCopyInto x h =
     (case copy_bool (ow_Controller x) h of
        (c, h1) \<Rightarrow> (case copy_bool (ow_BlockOwnerDeletion x) h1 of
          (b, h2) \<Rightarrow> (x\<lparr>ow_Controller := c, ow_BlockOwnerDeletion := b\<rparr>, h2)))"

definition FieldsV1_DeepCopyInto :: "slice option \<Rightarrow> cell store \<Rightarrow> slice option \<times> cell store" where
  "FieldsV1_DeepCopyInto = copy_flat_slice un_Bytes Bytes 0"

definition ManagedFieldsEntry_DeepCopyInto :: "mem_managed \<Rightarrow> cell store \<Rightarrow> mem_managed \<times> cell store" where
  "ManagedFieldsEntry_DeepCopyInto x h =
     (case copy_time (mf_Time x) h of
        (t, h1) \<Rightarrow> (case copy_new un_Fields Fields None FieldsV1_DeepCopyInto (mf_FieldsV1 x) h1 of
          (f, h2) \<Rightarrow> (x\<lparr>mf_Time := t, mf_FieldsV1 := f\<rparr>, h2)))"

definition zero_owner :: mem_owner where
  "zero_owner = \<lparr>ow_APIVersion = [], ow_Kind = [], ow_Name = [], ow_UID = [], ow_Controller = None,
     ow_BlockOwnerDeletion = None\<rparr>"

definition zero_managed :: mem_managed where
  "zero_managed = \<lparr>mf_Manager = [], mf_Operation = [], mf_APIVersion = [], mf_Time = None, mf_FieldsType = [],
     mf_FieldsV1 = None, mf_Subresource = []\<rparr>"

definition ObjectMeta_DeepCopyInto :: "mem_meta \<Rightarrow> cell store \<Rightarrow> mem_meta \<times> cell store" where
  "ObjectMeta_DeepCopyInto x h =
     (case copy_time (me_DeletionTimestamp x) h of (dt, h1) \<Rightarrow>
      case copy_int64 (me_DeletionGracePeriodSeconds x) h1 of (gp, h2) \<Rightarrow>
      case copy_tags (me_Labels x) h2 of (la, h3) \<Rightarrow>
      case copy_tags (me_Annotations x) h3 of (an, h4) \<Rightarrow>
      case copy_slice un_Owners Owners zero_owner OwnerReference_DeepCopyInto (me_OwnerReferences x) h4 of (ow, h5) \<Rightarrow>
      case copy_strings (me_Finalizers x) h5 of (fi, h6) \<Rightarrow>
      case copy_slice un_Managed Managed zero_managed ManagedFieldsEntry_DeepCopyInto (me_ManagedFields x) h6 of
        (mf, h7) \<Rightarrow>
          (x\<lparr>me_DeletionTimestamp := dt, me_DeletionGracePeriodSeconds := gp, me_Labels := la,
             me_Annotations := an, me_OwnerReferences := ow, me_Finalizers := fi, me_ManagedFields := mf\<rparr>, h7))"

definition ListMeta_DeepCopyInto :: "mem_list_meta \<Rightarrow> cell store \<Rightarrow> mem_list_meta \<times> cell store" where
  "ListMeta_DeepCopyInto x h =
     (case copy_int64 (lm_RemainingItemCount x) h of (n, h1) \<Rightarrow> (x\<lparr>lm_RemainingItemCount := n\<rparr>, h1))"

section \<open>The custom resource\<close>

definition zero_selector :: logging_selector where
  "zero_selector = \<lparr>ls_NamespaceRegex = [], ls_PodRegex = [], ls_PodLabelSelector = [], ls_ContainerRegex = []\<rparr>"

definition zero_config :: mem_config where
  "zero_config = \<lparr>cg_Type = [], cg_Source = [], cg_Disable = False, cg_Path = [], cg_StorageIndex = [],
     cg_Service = [], cg_CharacterEncoding = [], cg_Pipeline = [], cg_Multiline = [],
     cg_RemoveAnsiEscapeCodes = False, cg_FromBeginning = False, cg_FromBeginningThresholdSize = 0,
     cg_Tags = None\<rparr>"

definition zero_spec :: mem_spec where
  "zero_spec = \<lparr>sp_Selector = zero_selector, sp_PodTargetLabels = None, sp_Configs = None\<rparr>"

definition zero_type_meta :: type_meta where
  "zero_type_meta = \<lparr>ty_Kind = [], ty_APIVersion = []\<rparr>"

definition zero_meta :: mem_meta where
  "zero_meta = \<lparr>me_Name = [], me_GenerateName = [], me_Namespace = [], me_SelfLink = [], me_UID = [],
     me_ResourceVersion = [], me_Generation = 0, me_CreationTimestamp = 0, me_DeletionTimestamp = None,
     me_DeletionGracePeriodSeconds = None, me_Labels = None, me_Annotations = None, me_OwnerReferences = None,
     me_Finalizers = None, me_ManagedFields = None\<rparr>"

definition zero_object :: mem_object where
  "zero_object = \<lparr>cl_TypeMeta = zero_type_meta, cl_ObjectMeta = zero_meta, cl_Spec = zero_spec\<rparr>"

definition zero_list :: mem_list where
  "zero_list = \<lparr>li_TypeMeta = zero_type_meta, li_ListMeta = \<lparr>lm_SelfLink = [], lm_ResourceVersion = [],
     lm_Continue = [], lm_RemainingItemCount = None\<rparr>, li_Items = None\<rparr>"

definition Selector_DeepCopyInto :: "logging_selector \<Rightarrow> cell store \<Rightarrow> logging_selector \<times> cell store" where
  "Selector_DeepCopyInto x h = (x, h)"

definition Config_DeepCopyInto :: "mem_config \<Rightarrow> cell store \<Rightarrow> mem_config \<times> cell store" where
  "Config_DeepCopyInto x h = (case copy_tags (cg_Tags x) h of (t, h1) \<Rightarrow> (x\<lparr>cg_Tags := t\<rparr>, h1))"

definition Spec_DeepCopyInto :: "mem_spec \<Rightarrow> cell store \<Rightarrow> mem_spec \<times> cell store" where
  "Spec_DeepCopyInto x h =
     (case copy_strings (sp_PodTargetLabels x) h of (l, h1) \<Rightarrow>
      case copy_slice un_Configs Configs zero_config Config_DeepCopyInto (sp_Configs x) h1 of (c, h2) \<Rightarrow>
        (x\<lparr>sp_PodTargetLabels := l, sp_Configs := c\<rparr>, h2))"

definition Object_DeepCopyInto :: "mem_object \<Rightarrow> cell store \<Rightarrow> mem_object \<times> cell store" where
  "Object_DeepCopyInto x h =
     (case ObjectMeta_DeepCopyInto (cl_ObjectMeta x) h of (m, h1) \<Rightarrow>
      case Spec_DeepCopyInto (cl_Spec x) h1 of (s, h2) \<Rightarrow> (x\<lparr>cl_ObjectMeta := m, cl_Spec := s\<rparr>, h2))"

definition List_DeepCopyInto :: "mem_list \<Rightarrow> cell store \<Rightarrow> mem_list \<times> cell store" where
  "List_DeepCopyInto x h =
     (case ListMeta_DeepCopyInto (li_ListMeta x) h of (m, h1) \<Rightarrow>
      case copy_slice un_Objects Objects zero_object Object_DeepCopyInto (li_Items x) h1 of (i, h2) \<Rightarrow>
        (x\<lparr>li_ListMeta := m, li_Items := i\<rparr>, h2))"

definition Selector_DeepCopy :: "pointer option \<Rightarrow> cell store \<Rightarrow> pointer option \<times> cell store" where
  "Selector_DeepCopy = copy_new un_Selectors Selectors zero_selector Selector_DeepCopyInto"

definition Config_DeepCopy :: "pointer option \<Rightarrow> cell store \<Rightarrow> pointer option \<times> cell store" where
  "Config_DeepCopy = copy_new un_Configs Configs zero_config Config_DeepCopyInto"

definition Spec_DeepCopy :: "pointer option \<Rightarrow> cell store \<Rightarrow> pointer option \<times> cell store" where
  "Spec_DeepCopy = copy_new un_Specs Specs zero_spec Spec_DeepCopyInto"

definition Object_DeepCopy :: "pointer option \<Rightarrow> cell store \<Rightarrow> pointer option \<times> cell store" where
  "Object_DeepCopy = copy_new un_Objects Objects zero_object Object_DeepCopyInto"

definition List_DeepCopy :: "pointer option \<Rightarrow> cell store \<Rightarrow> pointer option \<times> cell store" where
  "List_DeepCopy = copy_new un_Lists Lists zero_list List_DeepCopyInto"

text \<open>A value of the interface \<open>runtime.Object\<close>: \<open>None\<close> is the nil interface, which a nil pointer of
  one of the two types is not.\<close>

datatype runtime_object = ConfigObject "pointer option" | ConfigListObject "pointer option"

definition Object_DeepCopyObject :: "pointer option \<Rightarrow> cell store \<Rightarrow> runtime_object option \<times> cell store" where
  "Object_DeepCopyObject p h =
     (case Object_DeepCopy p h of (c, h1) \<Rightarrow> if c \<noteq> None then (Some (ConfigObject c), h1) else (None, h1))"

definition List_DeepCopyObject :: "pointer option \<Rightarrow> cell store \<Rightarrow> runtime_object option \<times> cell store" where
  "List_DeepCopyObject p h =
     (case List_DeepCopy p h of (c, h1) \<Rightarrow> if c \<noteq> None then (Some (ConfigListObject c), h1) else (None, h1))"

section \<open>What a struct in memory reads as\<close>

type_synonym val_owner = "bool option owner_reference"
type_synonym val_managed = "(go_time option, 8 word list option option) managed_fields_entry"
type_synonym val_meta =
  "(go_time option, 64 word option, go_map option, val_owner list option, string list option,
    val_managed list option) crd_meta"
type_synonym val_config = "go_map option crd_config"
type_synonym val_spec = "(string list option, val_config list option) crd_spec"
type_synonym val_object = "(val_meta, val_spec) crd_object"
type_synonym val_list = "(64 word option list_meta, val_object list option) crd_list"

abbreviation read_ptr :: "(cell \<Rightarrow> 'a list) \<Rightarrow> cell store \<Rightarrow> pointer option \<Rightarrow> 'a option" where
  "read_ptr un h \<equiv> map_option (deref un h)"

abbreviation read_slice :: "(cell \<Rightarrow> 'a list) \<Rightarrow> cell store \<Rightarrow> slice option \<Rightarrow> 'a list option" where
  "read_slice un h \<equiv> map_option (slice_elems un h)"

abbreviation read_map :: "cell store \<Rightarrow> addr option \<Rightarrow> go_map option" where
  "read_map h \<equiv> map_option (map_at un_Dict h)"

definition owner_view :: "cell store \<Rightarrow> mem_owner \<Rightarrow> val_owner" where
  "owner_view h x = \<lparr>ow_APIVersion = ow_APIVersion x, ow_Kind = ow_Kind x, ow_Name = ow_Name x, ow_UID = ow_UID x,
     ow_Controller = read_ptr un_Bools h (ow_Controller x),
     ow_BlockOwnerDeletion = read_ptr un_Bools h (ow_BlockOwnerDeletion x)\<rparr>"

definition managed_view :: "cell store \<Rightarrow> mem_managed \<Rightarrow> val_managed" where
  "managed_view h x = \<lparr>mf_Manager = mf_Manager x, mf_Operation = mf_Operation x, mf_APIVersion = mf_APIVersion x,
     mf_Time = read_ptr un_Times h (mf_Time x), mf_FieldsType = mf_FieldsType x,
     mf_FieldsV1 = map_option (read_slice un_Bytes h) (read_ptr un_Fields h (mf_FieldsV1 x)),
     mf_Subresource = mf_Subresource x\<rparr>"

definition meta_view :: "cell store \<Rightarrow> mem_meta \<Rightarrow> val_meta" where
  "meta_view h x = \<lparr>me_Name = me_Name x, me_GenerateName = me_GenerateName x, me_Namespace = me_Namespace x,
     me_SelfLink = me_SelfLink x, me_UID = me_UID x, me_ResourceVersion = me_ResourceVersion x,
     me_Generation = me_Generation x, me_CreationTimestamp = me_CreationTimestamp x,
     me_DeletionTimestamp = read_ptr un_Times h (me_DeletionTimestamp x),
     me_DeletionGracePeriodSeconds = read_ptr un_Ints h (me_DeletionGracePeriodSeconds x),
     me_Labels = read_map h (me_Labels x), me_Annotations = read_map h (me_Annotations x),
     me_OwnerReferences = map_option (map (owner_view h)) (read_slice un_Owners h (me_OwnerReferences x)),
     me_Finalizers = read_slice un_Strings h (me_Finalizers x),
     me_ManagedFields = map_option (map (managed_view h)) (read_slice un_Managed h (me_ManagedFields x))\<rparr>"

definition list_meta_view :: "cell store \<Rightarrow> mem_list_meta \<Rightarrow> 64 word option list_meta" where
  "list_meta_view h x = \<lparr>lm_SelfLink = lm_SelfLink x, lm_ResourceVersion = lm_ResourceVersion x,
     lm_Continue = lm_Continue x, lm_RemainingItemCount = read_ptr un_Ints h (lm_RemainingItemCount x)\<rparr>"

definition config_view :: "cell store \<Rightarrow> mem_config \<Rightarrow> val_config" where
  "config_view h x = \<lparr>cg_Type = cg_Type x, cg_Source = cg_Source x, cg_Disable = cg_Disable x, cg_Path = cg_Path x,
     cg_StorageIndex = cg_StorageIndex x, cg_Service = cg_Service x,
     cg_CharacterEncoding = cg_CharacterEncoding x, cg_Pipeline = cg_Pipeline x, cg_Multiline = cg_Multiline x,
     cg_RemoveAnsiEscapeCodes = cg_RemoveAnsiEscapeCodes x, cg_FromBeginning = cg_FromBeginning x,
     cg_FromBeginningThresholdSize = cg_FromBeginningThresholdSize x, cg_Tags = read_map h (cg_Tags x)\<rparr>"

definition spec_view :: "cell store \<Rightarrow> mem_spec \<Rightarrow> val_spec" where
  "spec_view h x = \<lparr>sp_Selector = sp_Selector x, sp_PodTargetLabels = read_slice un_Strings h (sp_PodTargetLabels x),
     sp_Configs = map_option (map (config_view h)) (read_slice un_Configs h (sp_Configs x))\<rparr>"

definition object_view :: "cell store \<Rightarrow> mem_object \<Rightarrow> val_object" where
  "object_view h x = \<lparr>cl_TypeMeta = cl_TypeMeta x, cl_ObjectMeta = meta_view h (cl_ObjectMeta x),
     cl_Spec = spec_view h (cl_Spec x)\<rparr>"

definition list_view :: "cell store \<Rightarrow> mem_list \<Rightarrow> val_list" where
  "list_view h x = \<lparr>li_TypeMeta = li_TypeMeta x, li_ListMeta = list_meta_view h (li_ListMeta x),
     li_Items = map_option (map (object_view h)) (read_slice un_Objects h (li_Items x))\<rparr>"

section \<open>Well-formed structs and what they reach\<close>

definition ptr_ok :: "('a list \<Rightarrow> cell) \<Rightarrow> cell store \<Rightarrow> pointer option \<Rightarrow> bool" where
  "ptr_ok mk = opt_ok (pointer_ok mk (\<lambda>_ _. True))"

definition ptr_foot :: "(cell \<Rightarrow> 'a list) \<Rightarrow> cell store \<Rightarrow> pointer option \<Rightarrow> addr set" where
  "ptr_foot un = opt_foot (pointer_foot un (\<lambda>_ _. {}))"

definition dict_ok :: "cell store \<Rightarrow> addr option \<Rightarrow> bool" where
  "dict_ok = opt_ok (map_ok Dict)"

definition dict_foot :: "cell store \<Rightarrow> addr option \<Rightarrow> addr set" where
  "dict_foot = opt_foot map_foot"

definition strings_ok :: "cell store \<Rightarrow> slice option \<Rightarrow> bool" where
  "strings_ok = opt_ok (flat_ok Strings)"

definition bytes_ok :: "cell store \<Rightarrow> slice option \<Rightarrow> bool" where
  "bytes_ok = opt_ok (flat_ok Bytes)"

definition flats_foot :: "cell store \<Rightarrow> slice option \<Rightarrow> addr set" where
  "flats_foot = opt_foot flat_foot"

definition owner_ok :: "cell store \<Rightarrow> mem_owner \<Rightarrow> bool" where
  "owner_ok h x \<longleftrightarrow> ptr_ok Bools h (ow_Controller x) \<and> ptr_ok Bools h (ow_BlockOwnerDeletion x)"

definition owner_foot :: "cell store \<Rightarrow> mem_owner \<Rightarrow> addr set" where
  "owner_foot h x = ptr_foot un_Bools h (ow_Controller x) \<union> ptr_foot un_Bools h (ow_BlockOwnerDeletion x)"

definition managed_ok :: "cell store \<Rightarrow> mem_managed \<Rightarrow> bool" where
  "managed_ok h x \<longleftrightarrow> ptr_ok Times h (mf_Time x) \<and> opt_ok (pointer_ok Fields bytes_ok) h (mf_FieldsV1 x)"

definition managed_foot :: "cell store \<Rightarrow> mem_managed \<Rightarrow> addr set" where
  "managed_foot h x = ptr_foot un_Times h (mf_Time x) \<union> opt_foot (pointer_foot un_Fields flats_foot) h (mf_FieldsV1 x)"

definition meta_ok :: "cell store \<Rightarrow> mem_meta \<Rightarrow> bool" where
  "meta_ok h x \<longleftrightarrow> ptr_ok Times h (me_DeletionTimestamp x) \<and> ptr_ok Ints h (me_DeletionGracePeriodSeconds x) \<and>
     dict_ok h (me_Labels x) \<and> dict_ok h (me_Annotations x) \<and>
     opt_ok (slice_ok Owners owner_ok) h (me_OwnerReferences x) \<and> strings_ok h (me_Finalizers x) \<and>
     opt_ok (slice_ok Managed managed_ok) h (me_ManagedFields x)"

definition meta_foot :: "cell store \<Rightarrow> mem_meta \<Rightarrow> addr set" where
  "meta_foot h x = ptr_foot un_Times h (me_DeletionTimestamp x) \<union>
     (ptr_foot un_Ints h (me_DeletionGracePeriodSeconds x) \<union> (dict_foot h (me_Labels x) \<union>
     (dict_foot h (me_Annotations x) \<union> (opt_foot (slice_foot un_Owners owner_foot) h (me_OwnerReferences x) \<union>
     (flats_foot h (me_Finalizers x) \<union> opt_foot (slice_foot un_Managed managed_foot) h (me_ManagedFields x))))))"

definition config_ok :: "cell store \<Rightarrow> mem_config \<Rightarrow> bool" where
  "config_ok h x = dict_ok h (cg_Tags x)"

definition config_foot :: "cell store \<Rightarrow> mem_config \<Rightarrow> addr set" where
  "config_foot h x = dict_foot h (cg_Tags x)"

definition spec_ok :: "cell store \<Rightarrow> mem_spec \<Rightarrow> bool" where
  "spec_ok h x \<longleftrightarrow> strings_ok h (sp_PodTargetLabels x) \<and> opt_ok (slice_ok Configs config_ok) h (sp_Configs x)"

definition spec_foot :: "cell store \<Rightarrow> mem_spec \<Rightarrow> addr set" where
  "spec_foot h x = flats_foot h (sp_PodTargetLabels x) \<union> opt_foot (slice_foot un_Configs config_foot) h (sp_Configs x)"

definition object_ok :: "cell store \<Rightarrow> mem_object \<Rightarrow> bool" where
  "object_ok h x \<longleftrightarrow> meta_ok h (cl_ObjectMeta x) \<and> spec_ok h (cl_Spec x)"

definition object_foot :: "cell store \<Rightarrow> mem_object \<Rightarrow> addr set" where
  "object_foot h x = meta_foot h (cl_ObjectMeta x) \<union> spec_foot h (cl_Spec x)"

definition list_ok :: "cell store \<Rightarrow> mem_list \<Rightarrow> bool" where
  "list_ok h x \<longleftrightarrow> ptr_ok Ints h (lm_RemainingItemCount (li_ListMeta x)) \<and>
     opt_ok (slice_ok Objects object_ok) h (li_Items x)"

definition list_foot :: "cell store \<Rightarrow> mem_list \<Rightarrow> addr set" where
  "list_foot h x = ptr_foot un_Ints h (lm_RemainingItemCount (li_ListMeta x)) \<union>
     opt_foot (slice_foot un_Objects object_foot) h (li_Items x)"

section \<open>Every copy keeps the contract\<close>

lemma deep_bool: "deep_copy cell_refs ptr_refs (ptr_ok Bools) (ptr_foot un_Bools) (read_ptr un_Bools) copy_bool"
  unfolding ptr_refs_def ptr_ok_def ptr_foot_def copy_bool_def copy_new_opt
  by (rule deep_opt[OF bools.elems.deep_pointer])

lemma deep_int64: "deep_copy cell_refs ptr_refs (ptr_ok Ints) (ptr_foot un_Ints) (read_ptr un_Ints) copy_int64"
  unfolding ptr_refs_def ptr_ok_def ptr_foot_def copy_int64_def copy_new_opt
  by (rule deep_opt[OF ints.elems.deep_pointer])

lemma deep_time: "deep_copy cell_refs ptr_refs (ptr_ok Times) (ptr_foot un_Times) (read_ptr un_Times) copy_time"
  unfolding ptr_refs_def ptr_ok_def ptr_foot_def copy_time_def copy_new_opt
  by (rule deep_opt[OF times.elems.deep_pointer])

lemma deep_tags: "deep_copy cell_refs dict_refs dict_ok dict_foot read_map copy_tags"
  unfolding dict_refs_def dict_ok_def dict_foot_def copy_tags_def copy_map_opt
  by (rule deep_opt[OF dict.deep_map])

lemma deep_strings: "deep_copy cell_refs slc_refs strings_ok flats_foot (read_slice un_Strings) copy_strings"
  unfolding slc_refs_def strings_ok_def flats_foot_def copy_strings_def copy_flat_slice_opt
  by (rule deep_opt[OF strings.deep_flat_slice])

interpretation fields: deep_copy cell_refs slc_refs bytes_ok flats_foot "read_slice un_Bytes" FieldsV1_DeepCopyInto
  unfolding slc_refs_def bytes_ok_def flats_foot_def FieldsV1_DeepCopyInto_def copy_flat_slice_opt
  by (rule deep_opt[OF bytes.deep_flat_slice])

lemma deep_owner: "deep_copy cell_refs owner_refs owner_ok owner_foot owner_view OwnerReference_DeepCopyInto"
  unfolding owner_refs_def[abs_def] owner_ok_def[abs_def] owner_foot_def[abs_def] owner_view_def[abs_def]
  using deep_via[OF deep_pair[OF deep_bool deep_bool], where cpr = OwnerReference_DeepCopyInto
    and proj = "\<lambda>x. (ow_Controller x, ow_BlockOwnerDeletion x)"
    and put = "\<lambda>x t. x\<lparr>ow_Controller := fst t, ow_BlockOwnerDeletion := snd t\<rparr>"
    and vw = "\<lambda>x v. \<lparr>ow_APIVersion = ow_APIVersion x, ow_Kind = ow_Kind x, ow_Name = ow_Name x, ow_UID = ow_UID x,
     ow_Controller = fst v, ow_BlockOwnerDeletion = snd v\<rparr>"]
  by (simp add: OwnerReference_DeepCopyInto_def copy_pair_def split: prod.splits)

lemmas ref_defs = ptr_refs_def slc_refs_def dict_refs_def opt_refs_def

interpretation owners: deep_array cell_refs owner_refs owner_ok owner_foot owner_view OwnerReference_DeepCopyInto
    Owners un_Owners zero_owner
  by (intro deep_array.intro deep_owner deep_array_axioms.intro) (simp_all add: owner_refs_def zero_owner_def ref_defs)

interpretation field_arrays: deep_array cell_refs slc_refs bytes_ok flats_foot "read_slice un_Bytes"
    FieldsV1_DeepCopyInto Fields un_Fields None
  by (intro deep_array.intro fields.deep_copy_axioms deep_array_axioms.intro) (simp_all add: ref_defs)

lemma deep_owners:
  "deep_copy cell_refs slc_refs (opt_ok (slice_ok Owners owner_ok)) (opt_foot (slice_foot un_Owners owner_foot))
    (\<lambda>h s. map_option (map (owner_view h)) (read_slice un_Owners h s))
    (copy_slice un_Owners Owners zero_owner OwnerReference_DeepCopyInto)"
  unfolding slc_refs_def copy_slice_opt using deep_opt[OF owners.deep_slice] by (simp add: option.map_comp comp_def)

lemma deep_fields:
  "deep_copy cell_refs ptr_refs (opt_ok (pointer_ok Fields bytes_ok)) (opt_foot (pointer_foot un_Fields flats_foot))
    (\<lambda>h p. map_option (read_slice un_Bytes h) (read_ptr un_Fields h p))
    (copy_new un_Fields Fields None FieldsV1_DeepCopyInto)"
  unfolding ptr_refs_def copy_new_opt using deep_opt[OF field_arrays.deep_pointer] by (simp add: option.map_comp comp_def)

lemma deep_managed:
  "deep_copy cell_refs managed_refs managed_ok managed_foot managed_view ManagedFieldsEntry_DeepCopyInto"
  unfolding managed_refs_def[abs_def] managed_ok_def[abs_def] managed_foot_def[abs_def] managed_view_def[abs_def]
  using deep_via[OF deep_pair[OF deep_time deep_fields], where cpr = ManagedFieldsEntry_DeepCopyInto
    and proj = "\<lambda>x. (mf_Time x, mf_FieldsV1 x)" and put = "\<lambda>x t. x\<lparr>mf_Time := fst t, mf_FieldsV1 := snd t\<rparr>"
    and vw = "\<lambda>x v. \<lparr>mf_Manager = mf_Manager x, mf_Operation = mf_Operation x, mf_APIVersion = mf_APIVersion x,
     mf_Time = fst v, mf_FieldsType = mf_FieldsType x, mf_FieldsV1 = snd v, mf_Subresource = mf_Subresource x\<rparr>"]
  by (simp add: ManagedFieldsEntry_DeepCopyInto_def copy_pair_def split: prod.splits)

interpretation managed: deep_array cell_refs managed_refs managed_ok managed_foot managed_view
    ManagedFieldsEntry_DeepCopyInto Managed un_Managed zero_managed
  by (intro deep_array.intro deep_managed deep_array_axioms.intro) (simp_all add: managed_refs_def zero_managed_def ref_defs)

lemma deep_manageds:
  "deep_copy cell_refs slc_refs (opt_ok (slice_ok Managed managed_ok)) (opt_foot (slice_foot un_Managed managed_foot))
    (\<lambda>h s. map_option (map (managed_view h)) (read_slice un_Managed h s))
    (copy_slice un_Managed Managed zero_managed ManagedFieldsEntry_DeepCopyInto)"
  unfolding slc_refs_def copy_slice_opt using deep_opt[OF managed.deep_slice] by (simp add: option.map_comp comp_def)

lemma deep_meta: "deep_copy cell_refs meta_refs meta_ok meta_foot meta_view ObjectMeta_DeepCopyInto"
  unfolding meta_refs_def[abs_def] meta_ok_def[abs_def] meta_foot_def[abs_def] meta_view_def[abs_def]
  using deep_via[OF deep_pair[OF deep_time deep_pair[OF deep_int64 deep_pair[OF deep_tags deep_pair[OF deep_tags
      deep_pair[OF deep_owners deep_pair[OF deep_strings deep_manageds]]]]]], where cpr = ObjectMeta_DeepCopyInto
    and proj = "\<lambda>x. (me_DeletionTimestamp x, me_DeletionGracePeriodSeconds x, me_Labels x, me_Annotations x,
      me_OwnerReferences x, me_Finalizers x, me_ManagedFields x)"
    and put = "\<lambda>x (dt, gp, la, an, ow, fi, mf). x\<lparr>me_DeletionTimestamp := dt, me_DeletionGracePeriodSeconds := gp,
      me_Labels := la, me_Annotations := an, me_OwnerReferences := ow, me_Finalizers := fi, me_ManagedFields := mf\<rparr>"
    and vw = "\<lambda>x v. \<lparr>me_Name = me_Name x, me_GenerateName = me_GenerateName x, me_Namespace = me_Namespace x,
     me_SelfLink = me_SelfLink x, me_UID = me_UID x, me_ResourceVersion = me_ResourceVersion x,
     me_Generation = me_Generation x, me_CreationTimestamp = me_CreationTimestamp x,
     me_DeletionTimestamp = fst v, me_DeletionGracePeriodSeconds = fst (snd v), me_Labels = fst (snd (snd v)),
     me_Annotations = fst (snd (snd (snd v))), me_OwnerReferences = fst (snd (snd (snd (snd v)))),
     me_Finalizers = fst (snd (snd (snd (snd (snd v))))), me_ManagedFields = snd (snd (snd (snd (snd (snd v)))))\<rparr>"]
  by (simp add: ObjectMeta_DeepCopyInto_def copy_pair_def split: prod.splits)

lemma deep_list_meta:
  "deep_copy cell_refs (\<lambda>x. ptr_refs (lm_RemainingItemCount x)) (\<lambda>h x. ptr_ok Ints h (lm_RemainingItemCount x))
    (\<lambda>h x. ptr_foot un_Ints h (lm_RemainingItemCount x)) list_meta_view ListMeta_DeepCopyInto"
  unfolding list_meta_view_def[abs_def]
  by (rule deep_via[OF deep_int64, where put = "\<lambda>x t. x\<lparr>lm_RemainingItemCount := t\<rparr>"
      and vw = "\<lambda>x v. \<lparr>lm_SelfLink = lm_SelfLink x, lm_ResourceVersion = lm_ResourceVersion x,
       lm_Continue = lm_Continue x, lm_RemainingItemCount = v\<rparr>"])
     (simp_all add: ListMeta_DeepCopyInto_def)

lemma deep_config: "deep_copy cell_refs config_refs config_ok config_foot config_view Config_DeepCopyInto"
  unfolding config_refs_def[abs_def] config_ok_def[abs_def] config_foot_def[abs_def] config_view_def[abs_def]
  by (rule deep_via[OF deep_tags, where put = "\<lambda>x t. x\<lparr>cg_Tags := t\<rparr>"
      and vw = "\<lambda>x v. \<lparr>cg_Type = cg_Type x, cg_Source = cg_Source x, cg_Disable = cg_Disable x, cg_Path = cg_Path x,
       cg_StorageIndex = cg_StorageIndex x, cg_Service = cg_Service x,
       cg_CharacterEncoding = cg_CharacterEncoding x, cg_Pipeline = cg_Pipeline x, cg_Multiline = cg_Multiline x,
       cg_RemoveAnsiEscapeCodes = cg_RemoveAnsiEscapeCodes x, cg_FromBeginning = cg_FromBeginning x,
       cg_FromBeginningThresholdSize = cg_FromBeginningThresholdSize x, cg_Tags = v\<rparr>"])
     (simp_all add: Config_DeepCopyInto_def)

interpretation configs: deep_array cell_refs config_refs config_ok config_foot config_view Config_DeepCopyInto
    Configs un_Configs zero_config
  by (intro deep_array.intro deep_config deep_array_axioms.intro) (simp_all add: config_refs_def zero_config_def ref_defs)

lemma deep_configs:
  "deep_copy cell_refs slc_refs (opt_ok (slice_ok Configs config_ok)) (opt_foot (slice_foot un_Configs config_foot))
    (\<lambda>h s. map_option (map (config_view h)) (read_slice un_Configs h s))
    (copy_slice un_Configs Configs zero_config Config_DeepCopyInto)"
  unfolding slc_refs_def copy_slice_opt using deep_opt[OF configs.deep_slice] by (simp add: option.map_comp comp_def)

lemma deep_spec: "deep_copy cell_refs spec_refs spec_ok spec_foot spec_view Spec_DeepCopyInto"
  unfolding spec_refs_def[abs_def] spec_ok_def[abs_def] spec_foot_def[abs_def] spec_view_def[abs_def]
  using deep_via[OF deep_pair[OF deep_strings deep_configs], where cpr = Spec_DeepCopyInto
    and proj = "\<lambda>x. (sp_PodTargetLabels x, sp_Configs x)"
    and put = "\<lambda>x t. x\<lparr>sp_PodTargetLabels := fst t, sp_Configs := snd t\<rparr>"
    and vw = "\<lambda>x v. \<lparr>sp_Selector = sp_Selector x, sp_PodTargetLabels = fst v, sp_Configs = snd v\<rparr>"]
  by (simp add: Spec_DeepCopyInto_def copy_pair_def split: prod.splits)

interpretation specs: deep_array cell_refs spec_refs spec_ok spec_foot spec_view Spec_DeepCopyInto
    Specs un_Specs zero_spec
  by (intro deep_array.intro deep_spec deep_array_axioms.intro) (simp_all add: spec_refs_def zero_spec_def ref_defs)

lemma deep_object: "deep_copy cell_refs object_refs object_ok object_foot object_view Object_DeepCopyInto"
  unfolding object_refs_def[abs_def] object_ok_def[abs_def] object_foot_def[abs_def] object_view_def[abs_def]
  using deep_via[OF deep_pair[OF deep_meta deep_spec], where cpr = Object_DeepCopyInto
    and proj = "\<lambda>x. (cl_ObjectMeta x, cl_Spec x)" and put = "\<lambda>x t. x\<lparr>cl_ObjectMeta := fst t, cl_Spec := snd t\<rparr>"
    and vw = "\<lambda>x v. \<lparr>cl_TypeMeta = cl_TypeMeta x, cl_ObjectMeta = fst v, cl_Spec = snd v\<rparr>"]
  by (simp add: Object_DeepCopyInto_def copy_pair_def split: prod.splits)

interpretation objects: deep_array cell_refs object_refs object_ok object_foot object_view Object_DeepCopyInto
    Objects un_Objects zero_object
  by (intro deep_array.intro deep_object deep_array_axioms.intro)
     (simp_all add: object_refs_def meta_refs_def spec_refs_def zero_object_def zero_meta_def zero_spec_def ref_defs)

lemma deep_objects:
  "deep_copy cell_refs slc_refs (opt_ok (slice_ok Objects object_ok)) (opt_foot (slice_foot un_Objects object_foot))
    (\<lambda>h s. map_option (map (object_view h)) (read_slice un_Objects h s))
    (copy_slice un_Objects Objects zero_object Object_DeepCopyInto)"
  unfolding slc_refs_def copy_slice_opt using deep_opt[OF objects.deep_slice] by (simp add: option.map_comp comp_def)

lemma deep_list: "deep_copy cell_refs list_refs list_ok list_foot list_view List_DeepCopyInto"
  unfolding list_refs_def[abs_def] list_ok_def[abs_def] list_foot_def[abs_def] list_view_def[abs_def]
  using deep_via[OF deep_pair[OF deep_list_meta deep_objects], where cpr = List_DeepCopyInto
    and proj = "\<lambda>x. (li_ListMeta x, li_Items x)" and put = "\<lambda>x t. x\<lparr>li_ListMeta := fst t, li_Items := snd t\<rparr>"
    and vw = "\<lambda>x v. \<lparr>li_TypeMeta = li_TypeMeta x, li_ListMeta = fst v, li_Items = snd v\<rparr>"]
  by (simp add: List_DeepCopyInto_def copy_pair_def split: prod.splits)

interpretation lists: deep_array cell_refs list_refs list_ok list_foot list_view List_DeepCopyInto
    Lists un_Lists zero_list
  by (intro deep_array.intro deep_list deep_array_axioms.intro) (simp_all add: list_refs_def zero_list_def ref_defs)

interpretation selectors: flat_array cell_refs Selectors un_Selectors zero_selector by unfold_locales simp_all

lemma Selector_copy_flat: "Selector_DeepCopyInto = copy_flat"
  by (intro ext) (simp add: Selector_DeepCopyInto_def copy_flat_def)

section \<open>Copies through pointers\<close>

lemma deep_copy_nil [simp]:
  "copy_new un mk zero cp None h = (None, h)"
  by (simp add: copy_new_def)

lemma copy_new_some:
  assumes "deep_array refs vrefs ok foot view cp mk un zero" "copy_new un mk zero cp (Some p) h = (r, h')"
  obtains q where "r = Some q" "(case store_alloc (mk [zero]) h of (b, h1) \<Rightarrow> (case cp (deref un h1 p) h1 of
       (y, h2) \<Rightarrow> (\<lparr>pt_array = b, pt_index = 0\<rparr>, store_elem un mk b 0 y h2))) = (q, h')"
  using assms(2) unfolding copy_new_opt by (auto simp: copy_opt_def split: prod.splits)

text \<open>What \<open>DeepCopy\<close> of a non-nil pointer gives, for each of the five types.\<close>

definition isolated_copy ::
  "(cell \<Rightarrow> 'a list) \<Rightarrow> (cell store \<Rightarrow> 'a \<Rightarrow> 'v) \<Rightarrow> pointer \<Rightarrow> cell store \<Rightarrow> pointer \<Rightarrow> cell store \<Rightarrow> bool" where
  "isolated_copy un view p h q h' \<longleftrightarrow>
     extends h h' \<and> closed_under cell_refs (new_between h h') h' \<and> pt_array q \<in> new_between h h' \<and>
     view h' (deref un h' q) = view h (deref un h p) \<and>
     (\<forall>K K' h''. K \<inter> new_between h h' = {} \<longrightarrow> holder_run cell_refs (K, h') (K', h'') \<longrightarrow>
        view h'' (deref un h'' q) = view h (deref un h p)) \<and>
     (\<forall>K' h''. holder_run cell_refs (new_between h h', h') (K', h'') \<longrightarrow>
        agree_on {..<st_next h} h h'' \<and> view h'' (deref un h'' p) = view h (deref un h p))"

lemma copy_new_isolated:
  assumes D: "deep_array cell_refs vrefs ok foot view cp mk un zero"
    and p: "pointer_ok mk ok h p" and r: "copy_new un mk zero cp (Some p) h = (r, h')"
  shows "\<exists>q. r = Some q \<and> isolated_copy un view p h q h'"
proof -
  obtain q where q: "r = Some q" "(case store_alloc (mk [zero]) h of (b, h1) \<Rightarrow> (case cp (deref un h1 p) h1 of
       (y, h2) \<Rightarrow> (\<lparr>pt_array = b, pt_index = 0\<rparr>, store_elem un mk b 0 y h2))) = (q, h')"
    by (rule copy_new_some[OF D r])
  note P = deep_array.deep_pointer[OF D]
  note c = deep_copy.copies[OF P p q(2)] and i = deep_copy.isolated[OF P p q(2)]
  have "pt_array q \<in> new_between h h'" using c by (auto simp: pointer_foot_def)
  then show ?thesis using q(1) c i unfolding isolated_copy_def by blast
qed

lemma Object_DeepCopy_isolated:
  "\<lbrakk>pointer_ok Objects object_ok h p; Object_DeepCopy (Some p) h = (r, h')\<rbrakk> \<Longrightarrow>
   \<exists>q. r = Some q \<and> isolated_copy un_Objects object_view p h q h'"
  unfolding Object_DeepCopy_def by (rule copy_new_isolated[OF objects.deep_array_axioms])

lemma Spec_DeepCopy_isolated:
  "\<lbrakk>pointer_ok Specs spec_ok h p; Spec_DeepCopy (Some p) h = (r, h')\<rbrakk> \<Longrightarrow>
   \<exists>q. r = Some q \<and> isolated_copy un_Specs spec_view p h q h'"
  unfolding Spec_DeepCopy_def by (rule copy_new_isolated[OF specs.deep_array_axioms])

lemma Config_DeepCopy_isolated:
  "\<lbrakk>pointer_ok Configs config_ok h p; Config_DeepCopy (Some p) h = (r, h')\<rbrakk> \<Longrightarrow>
   \<exists>q. r = Some q \<and> isolated_copy un_Configs config_view p h q h'"
  unfolding Config_DeepCopy_def by (rule copy_new_isolated[OF configs.deep_array_axioms])

lemma Selector_DeepCopy_isolated:
  "\<lbrakk>pointer_ok Selectors (\<lambda>_ _. True) h p; Selector_DeepCopy (Some p) h = (r, h')\<rbrakk> \<Longrightarrow>
   \<exists>q. r = Some q \<and> isolated_copy un_Selectors (\<lambda>_ x. x) p h q h'"
  unfolding Selector_DeepCopy_def Selector_copy_flat
  by (rule copy_new_isolated[OF selectors.elems.deep_array_axioms])

lemma List_DeepCopy_isolated:
  "\<lbrakk>pointer_ok Lists list_ok h p; List_DeepCopy (Some p) h = (r, h')\<rbrakk> \<Longrightarrow>
   \<exists>q. r = Some q \<and> isolated_copy un_Lists list_view p h q h'"
  unfolding List_DeepCopy_def by (rule copy_new_isolated[OF lists.deep_array_axioms])

text \<open>C33: The deep copy of a list of custom resources reads like the original, whatever it is made of; no
  cell that existed before changes.  Afterwards no code that held references to anything but the new
  cells, by any sequence of writes and allocations, can change what the copy reads as, and no code that
  holds only the copy can change the original or any other old cell.  The copy of a nil pointer is the
  nil interface, and of another pointer never a typed nil.\<close>

theorem list_copies_isolated:
  assumes "List_DeepCopyObject p h = (r, h')" "p \<noteq> None \<longrightarrow> pointer_ok Lists list_ok h (the p)"
  shows "case p of
      None \<Rightarrow> r = None \<and> h' = h
    | Some p \<Rightarrow> \<exists>q. r = Some (ConfigListObject (Some q)) \<and>
        extends h h' \<and> pt_array q \<notin> {..<st_next h} \<and>
        list_view h' (deref un_Lists h' q) = list_view h (deref un_Lists h p) \<and>
        (\<forall>K K' h''. K \<inter> {st_next h..<st_next h'} = {} \<longrightarrow> holder_run cell_refs (K, h') (K', h'') \<longrightarrow>
           list_view h'' (deref un_Lists h'' q) = list_view h (deref un_Lists h p)) \<and>
        (\<forall>K' h''. holder_run cell_refs ({st_next h..<st_next h'}, h') (K', h'') \<longrightarrow>
           agree_on {..<st_next h} h h'' \<and> list_view h'' (deref un_Lists h'' p) = list_view h (deref un_Lists h p))"
proof (cases p)
  case None
  then show ?thesis using assms(1) by (simp add: List_DeepCopyObject_def List_DeepCopy_def)
next
  case (Some p')
  obtain c h1 where c: "List_DeepCopy (Some p') h = (c, h1)" by fastforce
  obtain q where q: "c = Some q" "isolated_copy un_Lists list_view p' h q h1"
    using List_DeepCopy_isolated[OF _ c] assms(2) Some by auto
  then have "r = Some (ConfigListObject (Some q))" "h' = h1"
    using assms(1) Some c by (simp_all add: List_DeepCopyObject_def)
  then show ?thesis using q(2) Some by (simp add: isolated_copy_def)
qed

lemma Object_DeepCopyObject_isolated:
  assumes "Object_DeepCopyObject p h = (r, h')" "p \<noteq> None \<longrightarrow> pointer_ok Objects object_ok h (the p)"
  shows "case p of
      None \<Rightarrow> r = None \<and> h' = h
    | Some p \<Rightarrow> \<exists>q. r = Some (ConfigObject (Some q)) \<and> isolated_copy un_Objects object_view p h q h'"
proof (cases p)
  case None
  then show ?thesis using assms(1) by (simp add: Object_DeepCopyObject_def Object_DeepCopy_def)
next
  case (Some p')
  obtain c h1 where c: "Object_DeepCopy (Some p') h = (c, h1)" by fastforce
  obtain q where q: "c = Some q" "isolated_copy un_Objects object_view p' h q h1"
    using Object_DeepCopy_isolated[OF _ c] assms(2) Some by auto
  have "r = Some (ConfigObject (Some q)) \<and> h1 = h'"
    using assms(1) Some c q(1) by (simp add: Object_DeepCopyObject_def)
  then show ?thesis using q(2) Some by simp
qed

text \<open>A list of one resource with one configuration, whose tags are the map at address 0.\<close>

definition example_store :: "cell store" where
  "example_store = \<lparr>st_cell = [0 \<mapsto> Dict (fmap_of_list [(''env'', ''prod'')]),
      1 \<mapsto> Configs [zero_config\<lparr>cg_Type := ''stdout'', cg_Tags := Some 0\<rparr>],
      2 \<mapsto> Objects [zero_object\<lparr>cl_Spec := zero_spec\<lparr>sp_Configs :=
             Some \<lparr>sl_array = 1, sl_off = 0, sl_len = 1, sl_cap = 1\<rparr>\<rparr>\<rparr>],
      3 \<mapsto> Lists [zero_list\<lparr>li_Items := Some \<lparr>sl_array = 2, sl_off = 0, sl_len = 1, sl_cap = 1\<rparr>\<rparr>]],
     st_next = 4\<rparr>"

definition example_list :: pointer where
  "example_list = \<lparr>pt_array = 3, pt_index = 0\<rparr>"

lemma example_list_ok: "pointer_ok Lists list_ok example_store example_list"
  by (simp add: pointer_ok_def list_ok_def example_store_def example_list_def zero_list_def zero_object_def
      zero_spec_def zero_meta_def zero_config_def ptr_ok_def opt_ok_def slice_ok_def window_def object_ok_def meta_ok_def
      spec_ok_def strings_ok_def dict_ok_def config_ok_def map_ok_def)

text \<open>The holder of the original empties the tags; the original changes and the copy does not.\<close>

lemma list_copies_isolated_witness:
  "\<exists>q h'. List_DeepCopyObject (Some example_list) example_store = (Some (ConfigListObject (Some q)), h') \<and>
     list_view (store_write 0 (Dict fmempty) h') (deref un_Lists (store_write 0 (Dict fmempty) h') q) =
       list_view example_store (deref un_Lists example_store example_list)"
proof -
  obtain r h' where r: "List_DeepCopyObject (Some example_list) example_store = (r, h')" by fastforce
  have "holder_run cell_refs ({0}, h') ({0}, store_write 0 (Dict fmempty) h')"
    by (rule run_write[OF run_done]) simp_all
  moreover have "{0} \<inter> {st_next example_store..<st_next h'} = {}" by (simp add: example_store_def)
  moreover obtain q where "r = Some (ConfigListObject (Some q))"
    and q: "\<And>K K' h''. K \<inter> {st_next example_store..<st_next h'} = {} \<Longrightarrow> holder_run cell_refs (K, h') (K', h'') \<Longrightarrow>
       list_view h'' (deref un_Lists h'' q) = list_view example_store (deref un_Lists example_store example_list)"
    using list_copies_isolated[OF r] example_list_ok by (simp only: option.sel option.case simp_thms) blast
  ultimately show ?thesis using r by blast
qed

lemma example_original_changes:
  "list_view (store_write 0 (Dict fmempty) example_store) (deref un_Lists (store_write 0 (Dict fmempty) example_store) example_list) \<noteq>
   list_view example_store (deref un_Lists example_store example_list)"
  by (simp add: list_view_def example_store_def example_list_def zero_list_def zero_object_def zero_spec_def
      zero_meta_def zero_config_def deref_def array_at_def slice_elems_def window_def object_view_def spec_view_def
      config_view_def map_at_def)

end
