(* ===== verification/CRD_Client.thy ===== *)
theory CRD_Client
  imports Complex_Main CRD_Types Server
begin

text \<open>
  The generated client of the custom resource (\<open>pkg/kubernetes/pkg/client/clientset\<close>,
  \<open>pkg/kubernetes/pkg/client/listers\<close>) and the registration of its types
  (\<open>pkg/kubernetes/pkg/apis/datakits/v1alpha1/register.go\<close>).  A call builds one request and sends it; the
  transport, the decoder and the constructors of \<open>client-go\<close> are parameters.
\<close>

section \<open>Registration of the types\<close>

definition GroupName :: string where "GroupName = ''logging.datakits.io''"
definition Version :: string where "Version = ''v1alpha1''"

type_synonym group_version = "string \<times> string"
type_synonym group_resource = "string \<times> string"

definition SchemeGroupVersion :: group_version where
  "SchemeGroupVersion = (GroupName, Version)"

definition CRD_Resource :: "string \<Rightarrow> group_resource" where
  "CRD_Resource resource = (fst SchemeGroupVersion, resource)"

text \<open>A scheme is the kinds it knows, by group and version, and the versions whose meta types it has.\<close>

record type_scheme =
  sc_kinds :: "(group_version \<times> string) list"
  sc_meta :: "group_version list"

type_synonym scheme_step = "type_scheme \<Rightarrow> string option \<times> type_scheme"

definition addKnownTypes :: scheme_step where
  "addKnownTypes s =
     (None, s\<lparr>sc_kinds := sc_kinds s @ [(SchemeGroupVersion, ''ClusterLoggingConfig''),
                                       (SchemeGroupVersion, ''ClusterLoggingConfigList'')],
              sc_meta := sc_meta s @ [SchemeGroupVersion]\<rparr>)"

text \<open>\<open>runtime.SchemeBuilder\<close>: the first error stops, and what was added stays.\<close>

fun builder_AddToScheme :: "scheme_step list \<Rightarrow> scheme_step" where
  "builder_AddToScheme [] s = (None, s)"
| "builder_AddToScheme (f # fs) s =
     (case f s of (Some err, t) \<Rightarrow> (Some err, t) | (None, t) \<Rightarrow> builder_AddToScheme fs t)"

definition builder_Register :: "scheme_step list \<Rightarrow> scheme_step list \<Rightarrow> scheme_step list" where
  "builder_Register fs sb = sb @ fs"

text \<open>
  The package variable \<open>SchemeBuilder\<close> starts empty; \<open>AddToScheme\<close> is bound to its address, so it runs the
  functions registered when it is called, not when it was bound; \<open>init\<close> registers \<open>addKnownTypes\<close>.
\<close>

definition v1alpha1_init :: "scheme_step list \<Rightarrow> scheme_step list" where
  "v1alpha1_init sb = builder_Register [addKnownTypes] sb"

text \<open>\<open>init\<close> of the packages \<open>scheme\<close> and \<open>fake\<close>, after that of \<open>v1alpha1\<close>; \<open>None\<close> is the panic of \<open>Must\<close>.\<close>

definition scheme_init :: "scheme_step list \<Rightarrow> type_scheme option" where
  "scheme_init sb =
     (let s0 = \<lparr>sc_kinds = [], sc_meta = []\<rparr>;
          s1 = s0\<lparr>sc_meta := sc_meta s0 @ [([], ''v1'')]\<rparr>
      in case builder_AddToScheme [builder_AddToScheme sb] s1 of
           (None, s) \<Rightarrow> Some s
         | (Some _, _) \<Rightarrow> None)"

lemma scheme_knows_types:
  "scheme_init (v1alpha1_init []) =
     Some \<lparr>sc_kinds = [(SchemeGroupVersion, ''ClusterLoggingConfig''), (SchemeGroupVersion, ''ClusterLoggingConfigList'')],
           sc_meta = [([], ''v1''), SchemeGroupVersion]\<rparr>"
  by (simp add: scheme_init_def v1alpha1_init_def builder_Register_def addKnownTypes_def)

section \<open>Requests\<close>

record list_options =
  lo_LabelSelector :: string
  lo_FieldSelector :: string
  lo_Watch :: bool
  lo_AllowWatchBookmarks :: bool
  lo_ResourceVersion :: string
  lo_ResourceVersionMatch :: string
  lo_TimeoutSeconds :: "64 word option"
  lo_Limit :: "64 word"
  lo_Continue :: string

record write_options =
  wo_DryRun :: "string list"
  wo_FieldManager :: string
  wo_FieldValidation :: string

record delete_options =
  do_GracePeriodSeconds :: "64 word option"
  do_Preconditions :: "(string option \<times> string option) option"
  do_OrphanDependents :: "bool option"
  do_PropagationPolicy :: "string option"
  do_DryRun :: "string list"

datatype call_params =
    NoParams | GetParams string | ListParams list_options | CreateParams write_options
  | UpdateParams write_options | PatchParams write_options "bool option"

datatype call_body = NoBody | ObjectBody val_object | DeleteBody delete_options | RawBody string

datatype verb = GET | POST | PUT | DELETE | PATCH string

text \<open>A request while it is built; an error in one of the calls is kept and stops the later ones.  Without a
  timeout of its own it has the one of the HTTP client.\<close>

record rest_request =
  rq_verb :: verb
  rq_resource :: string
  rq_name :: string
  rq_subresources :: "string list"
  rq_params :: call_params
  rq_timeout :: "64 word option"
  rq_body :: call_body
  rq_error :: "string option"

definition new_request :: "verb \<Rightarrow> string \<Rightarrow> rest_request" where
  "new_request v resource = \<lparr>rq_verb = v, rq_resource = resource, rq_name = [], rq_subresources = [],
     rq_params = NoParams, rq_timeout = None, rq_body = NoBody, rq_error = None\<rparr>"

text \<open>\<open>IsValidPathSegmentName\<close> of \<open>client-go\<close>.\<close>

definition valid_segment :: "string \<Rightarrow> bool" where
  "valid_segment s \<longleftrightarrow> s \<noteq> ''.'' \<and> s \<noteq> ''..'' \<and> CHR ''/'' \<notin> set s \<and> CHR ''%'' \<notin> set s"

definition with_name :: "string \<Rightarrow> rest_request \<Rightarrow> rest_request" where
  "with_name name r =
     (if rq_error r \<noteq> None then r
      else if length name = 0 then r\<lparr>rq_error := Some ''resource name may not be empty''\<rparr>
      else if length (rq_name r) \<noteq> 0 then r\<lparr>rq_error := Some ''resource name already set''\<rparr>
      else if \<not> valid_segment name then r\<lparr>rq_error := Some ''invalid resource name''\<rparr>
      else r\<lparr>rq_name := name\<rparr>)"

definition with_subresources :: "string list \<Rightarrow> rest_request \<Rightarrow> rest_request" where
  "with_subresources ss r =
     (if rq_error r \<noteq> None then r
      else if rq_subresources r \<noteq> [] then r\<lparr>rq_error := Some ''subresource already set''\<rparr>
      else if \<not> list_all valid_segment ss then r\<lparr>rq_error := Some ''invalid subresource''\<rparr>
      else r\<lparr>rq_subresources := filter (\<lambda>s. s \<noteq> []) ss\<rparr>)"

definition with_params :: "call_params \<Rightarrow> rest_request \<Rightarrow> rest_request" where
  "with_params p r = (if rq_error r \<noteq> None then r else r\<lparr>rq_params := p\<rparr>)"

definition with_timeout :: "64 word \<Rightarrow> rest_request \<Rightarrow> rest_request" where
  "with_timeout d r = (if rq_error r \<noteq> None then r else r\<lparr>rq_timeout := Some d\<rparr>)"

definition with_body :: "call_body \<Rightarrow> rest_request \<Rightarrow> rest_request" where
  "with_body b r = (if rq_error r \<noteq> None then r else r\<lparr>rq_body := b\<rparr>)"

text \<open>
  \<open>send\<close> is the transport, and \<open>decode\<close> fills the result from a response body; what a failed decoding
  leaves in the result is the decoder's business.
\<close>

record ('b, 'w) transport =
  tr_send :: "rest_request \<Rightarrow> string + 'b"
  tr_watch :: "rest_request \<Rightarrow> string + 'w"
  tr_object :: "val_object \<Rightarrow> 'b \<Rightarrow> val_object \<times> string option"
  tr_list :: "val_list \<Rightarrow> 'b \<Rightarrow> val_list \<times> string option"

definition do_request :: "('b, 'w) transport \<Rightarrow> rest_request \<Rightarrow> string + 'b" where
  "do_request tr r = (case rq_error r of Some err \<Rightarrow> Inl err | None \<Rightarrow> tr_send tr r)"

definition result_Into :: "('o \<Rightarrow> 'b \<Rightarrow> 'o \<times> string option) \<Rightarrow> 'o \<Rightarrow> string + 'b \<Rightarrow> 'o \<times> string option" where
  "result_Into decode result res = (case res of Inl err \<Rightarrow> (result, Some err) | Inr body \<Rightarrow> decode result body)"

definition result_Error :: "string + 'b \<Rightarrow> string option" where
  "result_Error res = (case res of Inl err \<Rightarrow> Some err | Inr _ \<Rightarrow> None)"

section \<open>The typed client\<close>

definition blank_object :: val_object where
  "blank_object = \<lparr>cl_TypeMeta = zero_type_meta, cl_ObjectMeta = meta_view store_empty zero_meta,
     cl_Spec = spec_view store_empty zero_spec\<rparr>"

definition blank_list :: val_list where
  "blank_list = list_view store_empty zero_list"

definition plural :: string where "plural = ''clusterloggingconfigs''"

text \<open>\<open>time.Duration(*opts.TimeoutSeconds) * time.Second\<close>, in 64 bits.\<close>

definition list_timeout :: "list_options \<Rightarrow> 64 word" where
  "list_timeout opts = (case lo_TimeoutSeconds opts of None \<Rightarrow> 0 | Some t \<Rightarrow> t * 1000000000)"

definition get_request :: "string \<Rightarrow> string \<Rightarrow> rest_request" where
  "get_request name options = with_params (GetParams options) (with_name name (new_request GET plural))"

definition list_request :: "list_options \<Rightarrow> rest_request" where
  "list_request opts = with_timeout (list_timeout opts) (with_params (ListParams opts) (new_request GET plural))"

definition watch_request :: "list_options \<Rightarrow> rest_request" where
  "watch_request opts =
     with_timeout (list_timeout opts) (with_params (ListParams (opts\<lparr>lo_Watch := True\<rparr>)) (new_request GET plural))"

definition create_request :: "val_object \<Rightarrow> write_options \<Rightarrow> rest_request" where
  "create_request c opts = with_body (ObjectBody c) (with_params (CreateParams opts) (new_request POST plural))"

definition update_request :: "val_object \<Rightarrow> write_options \<Rightarrow> rest_request" where
  "update_request c opts = with_body (ObjectBody c) (with_params (UpdateParams opts)
     (with_name (me_Name (cl_ObjectMeta c)) (new_request PUT plural)))"

definition delete_request :: "string \<Rightarrow> delete_options \<Rightarrow> rest_request" where
  "delete_request name opts = with_body (DeleteBody opts) (with_name name (new_request DELETE plural))"

definition delete_collection_request :: "delete_options \<Rightarrow> list_options \<Rightarrow> rest_request" where
  "delete_collection_request opts listOpts = with_body (DeleteBody opts)
     (with_timeout (list_timeout listOpts) (with_params (ListParams listOpts) (new_request DELETE plural)))"

definition patch_request ::
  "string \<Rightarrow> string \<Rightarrow> string \<Rightarrow> write_options \<Rightarrow> bool option \<Rightarrow> string list \<Rightarrow> rest_request" where
  "patch_request name pt data opts force subresources = with_body (RawBody data)
     (with_params (PatchParams opts force) (with_subresources subresources
       (with_name name (new_request (PATCH pt) plural))))"

definition clc_Get :: "('b, 'w) transport \<Rightarrow> string \<Rightarrow> string \<Rightarrow> val_object \<times> string option" where
  "clc_Get tr name options = result_Into (tr_object tr) blank_object (do_request tr (get_request name options))"

definition clc_List :: "('b, 'w) transport \<Rightarrow> list_options \<Rightarrow> val_list \<times> string option" where
  "clc_List tr opts = result_Into (tr_list tr) blank_list (do_request tr (list_request opts))"

definition clc_Watch :: "('b, 'w) transport \<Rightarrow> list_options \<Rightarrow> string + 'w" where
  "clc_Watch tr opts =
     (case rq_error (watch_request opts) of Some err \<Rightarrow> Inl err | None \<Rightarrow> tr_watch tr (watch_request opts))"

definition clc_Create :: "('b, 'w) transport \<Rightarrow> val_object \<Rightarrow> write_options \<Rightarrow> val_object \<times> string option" where
  "clc_Create tr c opts = result_Into (tr_object tr) blank_object (do_request tr (create_request c opts))"

definition clc_Update :: "('b, 'w) transport \<Rightarrow> val_object \<Rightarrow> write_options \<Rightarrow> val_object \<times> string option" where
  "clc_Update tr c opts = result_Into (tr_object tr) blank_object (do_request tr (update_request c opts))"

definition clc_Delete :: "('b, 'w) transport \<Rightarrow> string \<Rightarrow> delete_options \<Rightarrow> string option" where
  "clc_Delete tr name opts = result_Error (do_request tr (delete_request name opts))"

definition clc_DeleteCollection :: "('b, 'w) transport \<Rightarrow> delete_options \<Rightarrow> list_options \<Rightarrow> string option" where
  "clc_DeleteCollection tr opts listOpts = result_Error (do_request tr (delete_collection_request opts listOpts))"

definition clc_Patch ::
  "('b, 'w) transport \<Rightarrow> string \<Rightarrow> string \<Rightarrow> string \<Rightarrow> write_options \<Rightarrow> bool option \<Rightarrow> string list \<Rightarrow>
   val_object \<times> string option" where
  "clc_Patch tr name pt data opts force subresources =
     result_Into (tr_object tr) blank_object (do_request tr (patch_request name pt data opts force subresources))"

text \<open>The path of a request, in segments; \<open>path.Join\<close> leaves valid segments as they are.\<close>

definition collection_path :: "string list" where
  "collection_path = [''apis'', GroupName, Version, plural]"

definition request_path :: "rest_request \<Rightarrow> string list" where
  "request_path r = [''apis'', GroupName, Version, rq_resource r] @ (if rq_name r = [] then [] else [rq_name r]) @
     rq_subresources r"

definition names_object :: "string \<Rightarrow> bool" where
  "names_object name \<longleftrightarrow> name \<noteq> [] \<and> valid_segment name"

lemmas request_defs = get_request_def list_request_def watch_request_def create_request_def update_request_def
  delete_request_def delete_collection_request_def patch_request_def with_name_def with_subresources_def
  with_params_def with_timeout_def with_body_def new_request_def

lemma request_error:
  "rq_error (get_request name v) = None \<longleftrightarrow> names_object name"
  "rq_error (list_request o1) = None" "rq_error (watch_request o1) = None" "rq_error (create_request c wo) = None"
  "rq_error (update_request c wo) = None \<longleftrightarrow> names_object (me_Name (cl_ObjectMeta c))"
  "rq_error (delete_request name d) = None \<longleftrightarrow> names_object name"
  "rq_error (delete_collection_request d o1) = None"
  "rq_error (patch_request name pt data wo force ss) = None \<longleftrightarrow> names_object name \<and> list_all valid_segment ss"
  by (simp_all add: request_defs names_object_def)

lemma request_paths:
  "names_object name \<Longrightarrow> request_path (get_request name v) = collection_path @ [name]"
  "request_path (list_request o1) = collection_path" "request_path (watch_request o1) = collection_path"
  "request_path (create_request c wo) = collection_path"
  "names_object (me_Name (cl_ObjectMeta c)) \<Longrightarrow>
     request_path (update_request c wo) = collection_path @ [me_Name (cl_ObjectMeta c)]"
  "names_object name \<Longrightarrow> request_path (delete_request name d) = collection_path @ [name]"
  "request_path (delete_collection_request d o1) = collection_path"
  "\<lbrakk>names_object name; list_all valid_segment ss\<rbrakk> \<Longrightarrow>
     request_path (patch_request name pt data wo force ss) = collection_path @ [name] @ filter (\<lambda>s. s \<noteq> []) ss"
  by (simp_all add: request_defs names_object_def request_path_def collection_path_def plural_def)

text \<open>A call on one resource sends exactly one request, whose path is that of the collection and one
  more segment, the name as given; a name that is empty, or could be read as another path, sends nothing
  and is an error.  So no name turns a deletion into the deletion of the collection.  \<open>List\<close>,
  \<open>DeleteCollection\<close> and \<open>Create\<close> address the collection itself.\<close>

theorem named_calls_address_one_object:
  "(if names_object name
    then clc_Delete tr name d = result_Error (tr_send tr (delete_request name d)) \<and>
         rq_verb (delete_request name d) = DELETE \<and> request_path (delete_request name d) = collection_path @ [name] \<and>
         clc_Get tr name v = result_Into (tr_object tr) blank_object (tr_send tr (get_request name v)) \<and>
         rq_verb (get_request name v) = GET \<and> request_path (get_request name v) = collection_path @ [name] \<and>
         request_path (delete_request name d) \<noteq> request_path (delete_collection_request d listOpts)
    else \<exists>err. \<forall>tr. clc_Delete tr name d = Some err \<and> clc_Get tr name v = (blank_object, Some err)) \<and>
   clc_DeleteCollection tr d listOpts = result_Error (tr_send tr (delete_collection_request d listOpts)) \<and>
   request_path (delete_collection_request d listOpts) = collection_path \<and>
   clc_List tr listOpts = result_Into (tr_list tr) blank_list (tr_send tr (list_request listOpts)) \<and>
   request_path (list_request listOpts) = collection_path"
proof (cases "names_object name")
  case True
  then show ?thesis
    using request_error(1,6)[of name] request_error(2,7) request_paths(1,6)[of name] request_paths(2,7)
    by (simp add: clc_Delete_def clc_Get_def clc_DeleteCollection_def clc_List_def do_request_def)
       (simp add: request_defs)
next
  case False
  then obtain e1 where "rq_error (get_request name v) = Some e1" using request_error(1)[of name v] by blast
  moreover have "rq_error (delete_request name d) = rq_error (get_request name v)" by (simp add: request_defs)
  ultimately have e1: "rq_error (delete_request name d) = Some e1" "rq_error (get_request name v) = Some e1" by simp_all
  then show ?thesis using False request_error(2,7) request_paths(2,7)
    by (simp add: clc_Delete_def clc_Get_def clc_DeleteCollection_def clc_List_def do_request_def result_Into_def
        result_Error_def)
qed

text \<open>The timeout of a List or a Watch is the number of seconds asked for exactly as long as that number
  fits: up to 9223372036 seconds either way.  Beyond it the multiplication wraps, and the request carries
  a different duration.\<close>

theorem list_timeout_exact:
  "lo_TimeoutSeconds opts = Some t \<Longrightarrow>
   rq_timeout (list_request opts) = Some (list_timeout opts) \<and> rq_timeout (watch_request opts) = Some (list_timeout opts) \<and>
   (sint (list_timeout opts) = sint t * 1000000000 \<longleftrightarrow> \<bar>sint t\<bar> \<le> 9223372036)"
proof -
  assume t: "lo_TimeoutSeconds opts = Some t"
  have "sint (t * 1000000000) = signed_take_bit 63 (sint t * 1000000000)"
    by (simp add: sint_word_ariths)
  moreover have "signed_take_bit 63 (sint t * 1000000000) = sint t * 1000000000 \<longleftrightarrow> \<bar>sint t\<bar> \<le> 9223372036"
    unfolding signed_take_bit_int_eq_self_iff by auto
  ultimately show ?thesis using t by (simp add: list_timeout_def request_defs)
qed

definition default_list_options :: list_options where
  "default_list_options = \<lparr>lo_LabelSelector = [], lo_FieldSelector = [], lo_Watch = False, lo_AllowWatchBookmarks = False,
     lo_ResourceVersion = [], lo_ResourceVersionMatch = [], lo_TimeoutSeconds = None, lo_Limit = 0, lo_Continue = []\<rparr>"

lemma list_timeout_exact_witness:
  "sint (list_timeout (default_list_options\<lparr>lo_TimeoutSeconds := Some 9223372037\<rparr>)) \<noteq> 9223372037000000000 \<and>
   sint (list_timeout (default_list_options\<lparr>lo_TimeoutSeconds := Some 30\<rparr>)) = 30000000000"
  using list_timeout_exact[of "default_list_options\<lparr>lo_TimeoutSeconds := Some 9223372037\<rparr>" 9223372037]
    list_timeout_exact[of "default_list_options\<lparr>lo_TimeoutSeconds := Some 30\<rparr>" 30]
  by simp

section \<open>The clientset\<close>

datatype rate_limiter = TokenBucket rat int

datatype serializer = WithoutConversion type_scheme

text \<open>\<open>rest.Config\<close>: the connection, and what the constructors read and set.\<close>

record api_config =
  ac_rest :: rest_config
  ac_UserAgent :: string
  ac_RateLimiter :: "rate_limiter option"
  ac_QPS :: rat
  ac_Burst :: int
  ac_GroupVersion :: "group_version option"
  ac_APIPath :: string
  ac_Serializer :: "serializer option"

text \<open>The configuration that \<open>DefaultConfigInCluster\<close> returns has only a rate limiter.\<close>

definition in_cluster_config :: "rest_config \<Rightarrow> api_config" where
  "in_cluster_config cfg = \<lparr>ac_rest = cfg, ac_UserAgent = [],
     ac_RateLimiter = Some (TokenBucket (of_nat (rs_QPS cfg)) (int (rs_Burst cfg))), ac_QPS = 0, ac_Burst = 0,
     ac_GroupVersion = None, ac_APIPath = [], ac_Serializer = None\<rparr>"

text \<open>The constructors of \<open>client-go\<close>: of the HTTP client, of a REST client and of a discovery client.\<close>

record ('h, 'r, 'd) client_go =
  go_user_agent :: string
  go_http_client :: "api_config \<Rightarrow> string + 'h"
  go_rest_client :: "api_config \<Rightarrow> 'h \<Rightarrow> string + 'r"
  go_discovery :: "api_config \<Rightarrow> 'h \<Rightarrow> string + 'd"
  go_discovery_of :: "'r \<Rightarrow> 'd"

text \<open>\<open>LoggingV1alpha1Client\<close> is its REST client.\<close>

definition setConfigDefaults ::
  "type_scheme \<Rightarrow> ('h, 'r, 'd) client_go \<Rightarrow> api_config \<Rightarrow> string option \<times> api_config" where
  "setConfigDefaults Scheme g config =
     (let c1 = config\<lparr>ac_GroupVersion := Some SchemeGroupVersion\<rparr>;
          c2 = c1\<lparr>ac_APIPath := ''/apis''\<rparr>;
          c3 = c2\<lparr>ac_Serializer := Some (WithoutConversion Scheme)\<rparr>;
          c4 = (if ac_UserAgent c3 = [] then c3\<lparr>ac_UserAgent := go_user_agent g\<rparr> else c3)
      in (None, c4))"

definition typed_NewForConfigAndClient ::
  "type_scheme \<Rightarrow> ('h, 'r, 'd) client_go \<Rightarrow> api_config \<Rightarrow> 'h \<Rightarrow> string + 'r" where
  "typed_NewForConfigAndClient Scheme g c h =
     (case setConfigDefaults Scheme g c of
        (Some err, _) \<Rightarrow> Inl err
      | (None, config) \<Rightarrow> (case go_rest_client g config h of Inl err \<Rightarrow> Inl err | Inr client \<Rightarrow> Inr client))"

definition typed_NewForConfig :: "type_scheme \<Rightarrow> ('h, 'r, 'd) client_go \<Rightarrow> api_config \<Rightarrow> string + 'r" where
  "typed_NewForConfig Scheme g c =
     (case setConfigDefaults Scheme g c of
        (Some err, _) \<Rightarrow> Inl err
      | (None, config) \<Rightarrow> (case go_http_client g config of
          Inl err \<Rightarrow> Inl err
        | Inr httpClient \<Rightarrow> typed_NewForConfigAndClient Scheme g config httpClient))"

text \<open>\<open>NewForConfigOrDie\<close> panics on an error: \<open>None\<close>.\<close>

definition or_die :: "string + 'a \<Rightarrow> 'a option" where
  "or_die r = (case r of Inl _ \<Rightarrow> None | Inr x \<Rightarrow> Some x)"

definition typed_NewForConfigOrDie :: "type_scheme \<Rightarrow> ('h, 'r, 'd) client_go \<Rightarrow> api_config \<Rightarrow> 'r option" where
  "typed_NewForConfigOrDie Scheme g c = or_die (typed_NewForConfig Scheme g c)"

text \<open>The receiver may be nil, and then the REST client is.\<close>

definition RESTClient :: "'r option \<Rightarrow> 'r option" where
  "RESTClient c = (case c of None \<Rightarrow> None | Some r \<Rightarrow> Some r)"

record ('r, 'd) logging_clientset =
  lc_logging :: 'r
  lc_discovery :: 'd

definition burst_error :: string where
  "burst_error = ''burst is required to be greater than 0 when RateLimiter is not set and QPS is set to greater than 0''"

definition NewForConfigAndClient ::
  "type_scheme \<Rightarrow> ('h, 'r, 'd) client_go \<Rightarrow> api_config \<Rightarrow> 'h \<Rightarrow> string + ('r, 'd) logging_clientset" where
  "NewForConfigAndClient Scheme g c httpClient =
     (if ac_RateLimiter c = None \<and> ac_QPS c > 0 \<and> ac_Burst c \<le> 0 then Inl burst_error
      else let configShallowCopy =
                 (if ac_RateLimiter c = None \<and> ac_QPS c > 0
                  then c\<lparr>ac_RateLimiter := Some (TokenBucket (ac_QPS c) (ac_Burst c))\<rparr> else c)
           in case typed_NewForConfigAndClient Scheme g configShallowCopy httpClient of
                Inl err \<Rightarrow> Inl err
              | Inr logging \<Rightarrow> (case go_discovery g configShallowCopy httpClient of
                  Inl err \<Rightarrow> Inl err
                | Inr discovery \<Rightarrow> Inr \<lparr>lc_logging = logging, lc_discovery = discovery\<rparr>))"

definition NewForConfig ::
  "type_scheme \<Rightarrow> ('h, 'r, 'd) client_go \<Rightarrow> api_config \<Rightarrow> string + ('r, 'd) logging_clientset" where
  "NewForConfig Scheme g c =
     (let configShallowCopy = (if ac_UserAgent c = [] then c\<lparr>ac_UserAgent := go_user_agent g\<rparr> else c)
      in case go_http_client g configShallowCopy of
           Inl err \<Rightarrow> Inl err
         | Inr httpClient \<Rightarrow> NewForConfigAndClient Scheme g configShallowCopy httpClient)"

definition NewForConfigOrDie ::
  "type_scheme \<Rightarrow> ('h, 'r, 'd) client_go \<Rightarrow> api_config \<Rightarrow> ('r, 'd) logging_clientset option" where
  "NewForConfigOrDie Scheme g c = or_die (NewForConfig Scheme g c)"

definition New_clientset :: "('h, 'r, 'd) client_go \<Rightarrow> 'r \<Rightarrow> ('r, 'd) logging_clientset" where
  "New_clientset g c = \<lparr>lc_logging = c, lc_discovery = go_discovery_of g c\<rparr>"

definition clientset_LoggingV1alpha1 :: "('r, 'd) logging_clientset \<Rightarrow> 'r" where
  "clientset_LoggingV1alpha1 c = lc_logging c"

definition clientset_Discovery :: "('r, 'd) logging_clientset option \<Rightarrow> 'd option" where
  "clientset_Discovery c = (case c of None \<Rightarrow> None | Some cs \<Rightarrow> Some (lc_discovery cs))"

text \<open>The configuration the typed client is built with.\<close>

definition typed_config :: "type_scheme \<Rightarrow> ('h, 'r, 'd) client_go \<Rightarrow> rest_config \<Rightarrow> api_config" where
  "typed_config Scheme g cfg = \<lparr>ac_rest = cfg, ac_UserAgent = go_user_agent g,
     ac_RateLimiter = Some (TokenBucket (of_nat (rs_QPS cfg)) (int (rs_Burst cfg))), ac_QPS = 0, ac_Burst = 0,
     ac_GroupVersion = Some SchemeGroupVersion, ac_APIPath = ''/apis'', ac_Serializer = Some (WithoutConversion Scheme)\<rparr>"

text \<open>Without a limiter, a rate needs a burst; with one, the limiter made of both is shared by the clients.\<close>

lemma missing_burst_refused:
  "\<lbrakk>ac_RateLimiter c = None; ac_QPS c > 0\<rbrakk> \<Longrightarrow>
   NewForConfigAndClient Scheme g c h =
     (if ac_Burst c \<le> 0 then Inl burst_error
      else NewForConfigAndClient Scheme g (c\<lparr>ac_RateLimiter := Some (TokenBucket (ac_QPS c) (ac_Burst c))\<rparr>) h)"
  by (simp add: NewForConfigAndClient_def Let_def)

lemma typed_client_config:
  "typed_NewForConfigAndClient Scheme g ((in_cluster_config cfg)\<lparr>ac_UserAgent := go_user_agent g\<rparr>) h = go_rest_client g (typed_config Scheme g cfg) h"
  by (simp add: typed_NewForConfigAndClient_def setConfigDefaults_def in_cluster_config_def typed_config_def Let_def
      split: sum.splits)

text \<open>With the configuration read in the cluster, the custom resource's client never fails for its rate
  limit.  It fails only when \<open>client-go\<close> does; otherwise the Operator has a client whose requests go to the
  group and version of the custom resource under \<open>/apis\<close>, decoded with a scheme that knows both kinds, at the
  rate of the shared limiter of 1000 requests, over the same HTTP client as discovery.\<close>

theorem in_cluster_logging_client:
  assumes "DefaultConfigInCluster getenv read_file = Inr cfg" "scheme_init (v1alpha1_init []) = Some Scheme"
  shows "case NewForConfig Scheme g (in_cluster_config cfg) of
      Inr cs \<Rightarrow> \<exists>h. go_http_client g ((in_cluster_config cfg)\<lparr>ac_UserAgent := go_user_agent g\<rparr>) = Inr h \<and>
        go_rest_client g (typed_config Scheme g cfg) h = Inr (clientset_LoggingV1alpha1 cs) \<and>
        go_discovery g ((in_cluster_config cfg)\<lparr>ac_UserAgent := go_user_agent g\<rparr>) h = Inr (lc_discovery cs) \<and>
        ac_RateLimiter (typed_config Scheme g cfg) = Some (TokenBucket 1000 1000) \<and>
        ac_GroupVersion (typed_config Scheme g cfg) = Some (''logging.datakits.io'', ''v1alpha1'') \<and>
        (SchemeGroupVersion, ''ClusterLoggingConfigList'') \<in> set (sc_kinds Scheme)
    | Inl err \<Rightarrow> go_http_client g ((in_cluster_config cfg)\<lparr>ac_UserAgent := go_user_agent g\<rparr>) = Inl err \<or>
        (\<exists>h. go_rest_client g (typed_config Scheme g cfg) h = Inl err \<or>
             go_discovery g ((in_cluster_config cfg)\<lparr>ac_UserAgent := go_user_agent g\<rparr>) h = Inl err)"
proof -
  let ?c = "(in_cluster_config cfg)\<lparr>ac_UserAgent := go_user_agent g\<rparr>"
  have cfg: "rs_QPS cfg = 1000" "rs_Burst cfg = 1000"
    using assms(1) by (auto simp: DefaultConfigInCluster_def Let_def split: if_splits sum.splits)
  have sch: "(SchemeGroupVersion, ''ClusterLoggingConfigList'') \<in> set (sc_kinds Scheme)"
    using assms(2) by (auto simp: scheme_knows_types)
  have new: "NewForConfig Scheme g (in_cluster_config cfg) = (case go_http_client g ?c of
      Inl err \<Rightarrow> Inl err | Inr h \<Rightarrow> NewForConfigAndClient Scheme g ?c h)"
    by (simp add: NewForConfig_def in_cluster_config_def Let_def split: sum.splits)
  have lim: "ac_RateLimiter (in_cluster_config cfg) = Some (TokenBucket (of_nat (rs_QPS cfg)) (int (rs_Burst cfg)))"
    by (simp add: in_cluster_config_def)
  have client: "NewForConfigAndClient Scheme g ?c h = (case go_rest_client g (typed_config Scheme g cfg) h of
      Inl err \<Rightarrow> Inl err
    | Inr l \<Rightarrow> (case go_discovery g ?c h of Inl err \<Rightarrow> Inl err | Inr d \<Rightarrow> Inr \<lparr>lc_logging = l, lc_discovery = d\<rparr>))" for h
    using lim typed_client_config[of Scheme g cfg h] by (simp add: NewForConfigAndClient_def Let_def)
  have t: "ac_RateLimiter (typed_config Scheme g cfg) = Some (TokenBucket 1000 1000)"
    "ac_GroupVersion (typed_config Scheme g cfg) = Some (''logging.datakits.io'', ''v1alpha1'')"
    by (simp_all add: typed_config_def cfg SchemeGroupVersion_def GroupName_def Version_def)
  show ?thesis unfolding new
    using t sch by (auto simp: client clientset_LoggingV1alpha1_def split: sum.splits)
qed

definition example_client_go :: "(unit, string, unit) client_go" where
  "example_client_go = \<lparr>go_user_agent = ''operator'', go_http_client = (\<lambda>_. Inr ()),
     go_rest_client = (\<lambda>c _. case ac_GroupVersion c of None \<Rightarrow> Inl ''GroupVersion is required'' | Some gv \<Rightarrow> Inr (snd gv)),
     go_discovery = (\<lambda>_ _. Inr ()), go_discovery_of = (\<lambda>_. ())\<rparr>"

definition example_getenv :: "string \<Rightarrow> string" where
  "example_getenv x = (if x = ''KUBERNETES_SERVICE_HOST'' then ''10.0.0.1'' else ''443'')"

definition example_scheme :: type_scheme where
  "example_scheme = the (scheme_init (v1alpha1_init []))"

lemma in_cluster_logging_client_witness:
  "\<exists>cfg. DefaultConfigInCluster example_getenv (\<lambda>_. Inr ''token'') = Inr cfg \<and>
     (case NewForConfig example_scheme example_client_go (in_cluster_config cfg) of
        Inr cs \<Rightarrow> clientset_LoggingV1alpha1 cs = ''v1alpha1'' | Inl err \<Rightarrow> False)"
proof -
  have "DefaultConfigInCluster example_getenv (\<lambda>_. Inr ''token'') \<noteq> Inl e" for e
    by (simp add: DefaultConfigInCluster_def example_getenv_def Let_def)
  then obtain cfg where cfg: "DefaultConfigInCluster example_getenv (\<lambda>_. Inr ''token'') = Inr cfg"
    by (metis old.sum.exhaust)
  have sch: "scheme_init (v1alpha1_init []) = Some example_scheme" by (simp add: example_scheme_def scheme_knows_types)
  show ?thesis
    using in_cluster_logging_client[OF cfg sch, of example_client_go] cfg
    by (auto simp: example_client_go_def typed_config_def SchemeGroupVersion_def Version_def split: sum.splits)
qed

section \<open>The lister\<close>

text \<open>An object of the indexer: a resource, or another type, whose labels can be read or not.\<close>

datatype indexed = IndexedConfig val_object | IndexedOther "go_map option"

definition indexed_labels :: "indexed \<Rightarrow> go_map option" where
  "indexed_labels m = (case m of
      IndexedConfig x \<Rightarrow> Some (case me_Labels (cl_ObjectMeta x) of None \<Rightarrow> fmempty | Some ls \<Rightarrow> ls)
    | IndexedOther ls \<Rightarrow> ls)"

text \<open>\<open>cache.ListAll\<close> with the function that the lister passes, which appends the asserted object; a failed
  assertion panics.  The selector is one of \<open>k8s.io/apimachinery\<close>.\<close>

datatype 'a or_panic = Returned 'a | Panicked

record k8s_selector =
  ks_Empty :: bool
  ks_Matches :: "go_map \<Rightarrow> bool"

fun ListAll :: "k8s_selector \<Rightarrow> indexed list \<Rightarrow> val_object list \<Rightarrow> (val_object list \<times> string option) or_panic" where
  "ListAll sel [] ret = Returned (ret, None)"
| "ListAll sel (m # ms) ret =
     (case (if ks_Empty sel then Some True else map_option (ks_Matches sel) (indexed_labels m)) of
        None \<Rightarrow> Returned (ret, Some ''object does not implement the Object interfaces'')
      | Some False \<Rightarrow> ListAll sel ms ret
      | Some True \<Rightarrow> (case m of IndexedConfig x \<Rightarrow> ListAll sel ms (ret @ [x]) | IndexedOther _ \<Rightarrow> Panicked))"

definition lister_List :: "indexed list \<Rightarrow> k8s_selector \<Rightarrow> (val_object list \<times> string option) or_panic" where
  "lister_List indexer selector = ListAll selector indexer []"

datatype lister_error = IndexerFailed string | NotFound group_resource string

definition lister_Get ::
  "(string \<Rightarrow> string + indexed option) \<Rightarrow> string \<Rightarrow> (lister_error + val_object) or_panic" where
  "lister_Get GetByKey name =
     (case GetByKey name of
        Inl err \<Rightarrow> Returned (Inl (IndexerFailed err))
      | Inr None \<Rightarrow> Returned (Inl (NotFound (CRD_Resource ''clusterloggingconfig'') name))
      | Inr (Some (IndexedConfig x)) \<Rightarrow> Returned (Inr x)
      | Inr (Some (IndexedOther _)) \<Rightarrow> Panicked)"

text \<open>An indexer of the custom resource's informer holds only resources: then no call panics.\<close>

lemma ListAll_configs:
  "ListAll sel (map IndexedConfig xs) ret =
     Returned (ret @ filter (\<lambda>x. ks_Empty sel \<or> ks_Matches sel (the (indexed_labels (IndexedConfig x)))) xs, None)"
  by (induction xs arbitrary: ret) (auto simp: indexed_labels_def split: bool.splits)

lemma lister_List_configs:
  "lister_List (map IndexedConfig xs) sel =
     Returned (filter (\<lambda>x. ks_Empty sel \<or> ks_Matches sel (the (indexed_labels (IndexedConfig x)))) xs, None)"
  by (simp add: lister_List_def ListAll_configs)

lemma lister_Get_configs:
  "GetByKey name = Inr (map_option IndexedConfig r) \<Longrightarrow>
   lister_Get GetByKey name = Returned (case r of
      None \<Rightarrow> Inl (NotFound (GroupName, ''clusterloggingconfig'') name) | Some x \<Rightarrow> Inr x)"
  by (cases r) (simp_all add: lister_Get_def CRD_Resource_def SchemeGroupVersion_def)

end
