(* ===== verification/CRD_Fake.thy ===== *)
theory CRD_Fake
  imports CRD_Client
begin

text \<open>
  The fake client for tests (\<open>clientset/versioned/fake\<close>, \<open>typed/datakits/v1alpha1/fake\<close>): every call
  becomes one action for the reactors of \<open>testing.Fake\<close>, which are a parameter, as is the object tracker.
  The resource and the kind of every action are those of the custom resource.
\<close>

section \<open>Actions\<close>

type_synonym gvr = "string \<times> string \<times> string"

definition clusterloggingconfigsResource :: gvr where
  "clusterloggingconfigsResource = (''logging.datakits.io'', ''v1alpha1'', ''clusterloggingconfigs'')"

definition clusterloggingconfigsKind :: gvr where
  "clusterloggingconfigsKind = (''logging.datakits.io'', ''v1alpha1'', ''ClusterLoggingConfig'')"

datatype fake_action =
    RootGet gvr string
  | RootList gvr gvr list_options
  | RootWatch gvr list_options
  | RootCreate gvr val_object
  | RootUpdate gvr val_object
  | RootDelete gvr string delete_options
  | RootDeleteCollection gvr list_options
  | RootPatch gvr string string string "string list"

datatype fake_object = FakeConfig val_object | FakeList val_list | FakeOther

fun action_resource :: "fake_action \<Rightarrow> gvr" where
  "action_resource (RootGet g _) = g"
| "action_resource (RootList g _ _) = g"
| "action_resource (RootWatch g _) = g"
| "action_resource (RootCreate g _) = g"
| "action_resource (RootUpdate g _) = g"
| "action_resource (RootDelete g _ _) = g"
| "action_resource (RootDeleteCollection g _) = g"
| "action_resource (RootPatch g _ _ _ _) = g"

text \<open>\<open>Invokes\<close> answers an action with an object, nil or not, and an error, nil or not; so does
  \<open>InvokesWatch\<close>.  The parsers of selectors are those of \<open>k8s.io/apimachinery\<close>.\<close>

record 'w fake =
  fk_Invokes :: "fake_action \<Rightarrow> fake_object \<Rightarrow> fake_object option \<times> string option"
  fk_InvokesWatch :: "fake_action \<Rightarrow> 'w option \<times> string option"
  fk_labels :: "string \<Rightarrow> k8s_selector option"
  fk_fields_ok :: "string \<Rightarrow> bool"

section \<open>The typed client\<close>

definition as_config :: "fake_object option \<times> string option \<Rightarrow> (val_object option \<times> string option) or_panic" where
  "as_config r = (case r of
      (None, err) \<Rightarrow> Returned (None, err)
    | (Some (FakeConfig x), err) \<Rightarrow> Returned (Some x, err)
    | (Some _, _) \<Rightarrow> Panicked)"

definition fake_Get :: "'w fake \<Rightarrow> string \<Rightarrow> (val_object option \<times> string option) or_panic" where
  "fake_Get c name = as_config (fk_Invokes c (RootGet clusterloggingconfigsResource name) (FakeConfig blank_object))"

definition fake_label_selector :: "'w fake \<Rightarrow> list_options \<Rightarrow> k8s_selector option" where
  "fake_label_selector c opts =
     (case fk_labels c (lo_LabelSelector opts) of
        None \<Rightarrow> None
      | Some label \<Rightarrow> if fk_fields_ok c (lo_FieldSelector opts) then Some label else None)"

definition item_labels :: "val_object \<Rightarrow> go_map" where
  "item_labels x = (case me_Labels (cl_ObjectMeta x) of None \<Rightarrow> fmempty | Some ls \<Rightarrow> ls)"

fun keep_matching :: "k8s_selector \<Rightarrow> val_object list \<Rightarrow> val_object list option \<Rightarrow> val_object list option" where
  "keep_matching label [] acc = acc"
| "keep_matching label (x # xs) acc =
     (if ks_Matches label (item_labels x)
      then keep_matching label xs (Some ((case acc of None \<Rightarrow> [] | Some ys \<Rightarrow> ys) @ [x]))
      else keep_matching label xs acc)"

definition fake_List :: "'w fake \<Rightarrow> list_options \<Rightarrow> (val_list option \<times> string option) or_panic" where
  "fake_List c opts =
     (case fk_Invokes c (RootList clusterloggingconfigsResource clusterloggingconfigsKind opts) (FakeList blank_list) of
        (None, err) \<Rightarrow> Returned (None, err)
      | (Some found, err) \<Rightarrow>
          (case fake_label_selector c opts of
             None \<Rightarrow> Panicked
           | Some label \<Rightarrow> (case found of
               FakeList l \<Rightarrow> Returned (Some (blank_list\<lparr>li_ListMeta := li_ListMeta l,
                   li_Items := keep_matching label (case li_Items l of None \<Rightarrow> [] | Some xs \<Rightarrow> xs) None\<rparr>), err)
             | _ \<Rightarrow> Panicked)))"

definition fake_Watch :: "'w fake \<Rightarrow> list_options \<Rightarrow> 'w option \<times> string option" where
  "fake_Watch c opts = fk_InvokesWatch c (RootWatch clusterloggingconfigsResource opts)"

definition fake_Create :: "'w fake \<Rightarrow> val_object \<Rightarrow> (val_object option \<times> string option) or_panic" where
  "fake_Create c x = as_config (fk_Invokes c (RootCreate clusterloggingconfigsResource x) (FakeConfig blank_object))"

definition fake_Update :: "'w fake \<Rightarrow> val_object \<Rightarrow> (val_object option \<times> string option) or_panic" where
  "fake_Update c x = as_config (fk_Invokes c (RootUpdate clusterloggingconfigsResource x) (FakeConfig blank_object))"

definition fake_Delete :: "'w fake \<Rightarrow> string \<Rightarrow> delete_options \<Rightarrow> string option" where
  "fake_Delete c name opts =
     snd (fk_Invokes c (RootDelete clusterloggingconfigsResource name opts) (FakeConfig blank_object))"

definition fake_DeleteCollection :: "'w fake \<Rightarrow> list_options \<Rightarrow> string option" where
  "fake_DeleteCollection c listOpts =
     snd (fk_Invokes c (RootDeleteCollection clusterloggingconfigsResource listOpts) (FakeList blank_list))"

definition fake_Patch ::
  "'w fake \<Rightarrow> string \<Rightarrow> string \<Rightarrow> string \<Rightarrow> string list \<Rightarrow> (val_object option \<times> string option) or_panic" where
  "fake_Patch c name pt data subresources =
     as_config (fk_Invokes c (RootPatch clusterloggingconfigsResource name pt data subresources) (FakeConfig blank_object))"

section \<open>The fake clientset\<close>

text \<open>\<open>NewSimpleClientset\<close>: every object is added to the tracker, and an error panics.\<close>

fun NewSimpleClientset :: "('k \<Rightarrow> fake_object \<Rightarrow> string + 'k) \<Rightarrow> 'k \<Rightarrow> fake_object list \<Rightarrow> 'k or_panic" where
  "NewSimpleClientset add tracker [] = Returned tracker"
| "NewSimpleClientset add tracker (x # objs) =
     (case add tracker x of Inl err \<Rightarrow> Panicked | Inr t \<Rightarrow> NewSimpleClientset add t objs)"

text \<open>Its watch reactor: handled, unless the tracker refuses.\<close>

definition watch_reactor ::
  "('k \<Rightarrow> gvr \<Rightarrow> string \<Rightarrow> string + 'w) \<Rightarrow> 'k \<Rightarrow> fake_action \<Rightarrow> bool \<times> 'w option \<times> string option" where
  "watch_reactor tracker_watch tracker action =
     (case tracker_watch tracker (action_resource action) [] of
        Inl err \<Rightarrow> (False, None, Some err)
      | Inr w \<Rightarrow> (True, Some w, None))"

text \<open>The list of the fake client: the tracker's items that match, in order, nil when none does, with the
  metadata of the tracker's list and its error.\<close>

lemma keep_matching_filter:
  "keep_matching label xs acc =
     (let ys = (case acc of None \<Rightarrow> [] | Some zs \<Rightarrow> zs) @ filter (\<lambda>x. ks_Matches label (item_labels x)) xs
      in if acc = None \<and> ys = [] then None else Some ys)"
  by (induction label xs acc rule: keep_matching.induct) (auto simp: Let_def split: option.splits)

lemma fake_List_filters:
  assumes "fk_Invokes c (RootList clusterloggingconfigsResource clusterloggingconfigsKind opts) (FakeList blank_list) =
      (Some (FakeList l), err)" "fake_label_selector c opts = Some label"
  shows "\<exists>r. fake_List c opts = Returned (Some r, err) \<and> li_ListMeta r = li_ListMeta l \<and>
    (case li_Items r of None \<Rightarrow> [] | Some ys \<Rightarrow> ys) =
      filter (\<lambda>x. ks_Matches label (item_labels x)) (case li_Items l of None \<Rightarrow> [] | Some xs \<Rightarrow> xs)"
  using assms by (simp add: fake_List_def keep_matching_filter Let_def)

lemma NewSimpleClientset_adds_all:
  "NewSimpleClientset add tracker objs = Returned t \<Longrightarrow>
   foldl (\<lambda>s x. case s of Inl e \<Rightarrow> Inl e | Inr k \<Rightarrow> add k x) (Inr tracker) objs = Inr t"
proof (induction add tracker objs rule: NewSimpleClientset.induct)
  case (2 add tracker x objs)
  then show ?case by (cases "add tracker x") simp_all
qed simp

end
