(* ===== verification/Informer_Factory.thy ===== *)
theory Informer_Factory
  imports CRD_Client
begin

text \<open>
  The generated informers of the custom resource (\<open>pkg/kubernetes/pkg/client/informers/externalversions\<close>):
  the shared factory, its options, and the informer that the logging watcher builds with it
  (\<open>setupInformer\<close> in \<open>apis/logging/config/crd_watcher.go\<close>).  Every method of the factory holds its lock,
  so a method is one step.  A shared informer of \<open>client-go\<close> is what it was made of; its identity is its
  index in the order of creation, and a run of it is recorded in the order of the \<open>go\<close> statements.
\<close>

section \<open>Informers\<close>

text \<open>The object type, the client, the resync period (a \<open>time.Duration\<close>), the names of the indexers and the
  function that tweaks the options of every list and watch.\<close>

type_synonym tweak = "(list_options \<Rightarrow> list_options) option"

record 'k informer =
  in_type :: string
  in_client :: 'k
  in_resync :: "64 word"
  in_indexers :: "string list"
  in_tweak :: tweak

definition NewFilteredClusterLoggingConfigInformer ::
  "'k \<Rightarrow> 64 word \<Rightarrow> string list \<Rightarrow> tweak \<Rightarrow> 'k informer" where
  "NewFilteredClusterLoggingConfigInformer client resyncPeriod indexers tw =
     \<lparr>in_type = ''ClusterLoggingConfig'', in_client = client, in_resync = resyncPeriod, in_indexers = indexers,
      in_tweak = tw\<rparr>"

definition NewClusterLoggingConfigInformer :: "'k \<Rightarrow> 64 word \<Rightarrow> string list \<Rightarrow> 'k informer" where
  "NewClusterLoggingConfigInformer client resyncPeriod indexers =
     NewFilteredClusterLoggingConfigInformer client resyncPeriod indexers None"

text \<open>The \<open>ListFunc\<close> and \<open>WatchFunc\<close> of the informer.\<close>

definition tweaked :: "tweak \<Rightarrow> list_options \<Rightarrow> list_options" where
  "tweaked tw options = (case tw of None \<Rightarrow> options | Some f \<Rightarrow> f options)"

definition ListFunc :: "('b, 'w) transport informer \<Rightarrow> list_options \<Rightarrow> val_list \<times> string option" where
  "ListFunc i options = clc_List (in_client i) (tweaked (in_tweak i) options)"

definition WatchFunc :: "('b, 'w) transport informer \<Rightarrow> list_options \<Rightarrow> string + 'w" where
  "WatchFunc i options = clc_Watch (in_client i) (tweaked (in_tweak i) options)"

section \<open>The shared factory\<close>

record 'k informer_factory =
  fa_client :: 'k
  fa_namespace :: string
  fa_tweakListOptions :: tweak
  fa_defaultResync :: "64 word"
  fa_customResync :: "(string, 64 word) fmap"
  fa_informers :: "(string, nat) fmap"
  fa_startedInformers :: "(string, bool) fmap"

type_synonym 'k informer_option = "'k informer_factory \<Rightarrow> 'k informer_factory"

definition WithCustomResyncConfig :: "(string \<times> 64 word) list \<Rightarrow> 'k informer_option" where
  "WithCustomResyncConfig resyncConfig factory =
     factory\<lparr>fa_customResync := fold (\<lambda>(k, v). fmupd k v) resyncConfig (fa_customResync factory)\<rparr>"

definition WithTweakListOptions :: "tweak \<Rightarrow> 'k informer_option" where
  "WithTweakListOptions tw factory = factory\<lparr>fa_tweakListOptions := tw\<rparr>"

definition WithNamespace :: "string \<Rightarrow> 'k informer_option" where
  "WithNamespace namespace factory = factory\<lparr>fa_namespace := namespace\<rparr>"

definition NewSharedInformerFactoryWithOptions ::
  "'k \<Rightarrow> 64 word \<Rightarrow> 'k informer_option list \<Rightarrow> 'k informer_factory" where
  "NewSharedInformerFactoryWithOptions client defaultResync options =
     fold (\<lambda>opt factory. opt factory) options
       \<lparr>fa_client = client, fa_namespace = [], fa_tweakListOptions = None, fa_defaultResync = defaultResync,
        fa_customResync = fmempty, fa_informers = fmempty, fa_startedInformers = fmempty\<rparr>"

definition NewSharedInformerFactory :: "'k \<Rightarrow> 64 word \<Rightarrow> 'k informer_factory" where
  "NewSharedInformerFactory client defaultResync = NewSharedInformerFactoryWithOptions client defaultResync []"

definition NewFilteredSharedInformerFactory ::
  "'k \<Rightarrow> 64 word \<Rightarrow> string \<Rightarrow> tweak \<Rightarrow> 'k informer_factory" where
  "NewFilteredSharedInformerFactory client defaultResync namespace tw =
     NewSharedInformerFactoryWithOptions client defaultResync [WithNamespace namespace, WithTweakListOptions tw]"

text \<open>The factory with every informer created so far and the runs started so far.\<close>

record 'k informer_state =
  is_factory :: "'k informer_factory"
  is_informers :: "'k informer list"
  is_runs :: "nat list"

definition InformerFor ::
  "string \<Rightarrow> ('k \<Rightarrow> 64 word \<Rightarrow> 'k informer) \<Rightarrow> 'k informer_state \<Rightarrow> nat \<times> 'k informer_state" where
  "InformerFor informerType newFunc s =
     (let f = is_factory s
      in case fmlookup (fa_informers f) informerType of
           Some informer \<Rightarrow> (informer, s)
         | None \<Rightarrow>
             let resyncPeriod = (case fmlookup (fa_customResync f) informerType of
                   None \<Rightarrow> fa_defaultResync f | Some d \<Rightarrow> d);
                 informer = length (is_informers s)
             in (informer, s\<lparr>is_informers := is_informers s @ [newFunc (fa_client f) resyncPeriod],
                   is_factory := f\<lparr>fa_informers := fmupd informerType informer (fa_informers f)\<rparr>\<rparr>))"

text \<open>\<open>Start\<close> ranges over the map of informers, in an order that the runtime chooses.\<close>

definition start_one :: "string \<times> nat \<Rightarrow> 'k informer_state \<Rightarrow> 'k informer_state" where
  "start_one ti s =
     (let f = is_factory s
      in if fmlookup (fa_startedInformers f) (fst ti) = Some True then s
         else s\<lparr>is_runs := is_runs s @ [snd ti],
               is_factory := f\<lparr>fa_startedInformers := fmupd (fst ti) True (fa_startedInformers f)\<rparr>\<rparr>)"

definition range_of :: "(string, nat) fmap \<Rightarrow> (string \<times> nat) list \<Rightarrow> bool" where
  "range_of m order \<longleftrightarrow> distinct (map fst order) \<and> fmap_of_list order = m"

definition factory_Start :: "(string \<times> nat) list \<Rightarrow> 'k informer_state \<Rightarrow> 'k informer_state" where
  "factory_Start order s = fold start_one order s"

text \<open>\<open>WaitForCacheSync\<close> waits for the started informers and reports each; \<open>synced\<close> is what waiting gives.\<close>

definition WaitForCacheSync :: "(nat \<Rightarrow> bool) \<Rightarrow> 'k informer_state \<Rightarrow> (string, bool) fmap" where
  "WaitForCacheSync synced s =
     fmmap synced (fmfilter (\<lambda>t. fmlookup (fa_startedInformers (is_factory s)) t = Some True)
       (fa_informers (is_factory s)))"

section \<open>The way to the informer of the custom resource\<close>

record informer_group =
  gr_namespace :: string
  gr_tweakListOptions :: tweak

definition Logging_group :: "'k informer_factory \<Rightarrow> informer_group" where
  "Logging_group f = \<lparr>gr_namespace = fa_namespace f, gr_tweakListOptions = fa_tweakListOptions f\<rparr>"

definition V1alpha1 :: "informer_group \<Rightarrow> informer_group" where
  "V1alpha1 g = \<lparr>gr_namespace = gr_namespace g, gr_tweakListOptions = gr_tweakListOptions g\<rparr>"

text \<open>The resource has no namespace, so only the tweak is passed on.\<close>

definition ClusterLoggingConfigs :: "informer_group \<Rightarrow> tweak" where
  "ClusterLoggingConfigs v = gr_tweakListOptions v"

definition defaultInformer :: "tweak \<Rightarrow> 'k \<Rightarrow> 64 word \<Rightarrow> 'k informer" where
  "defaultInformer tw client resyncPeriod =
     NewFilteredClusterLoggingConfigInformer client resyncPeriod [''namespace''] tw"

definition ClusterLoggingConfig_Informer :: "tweak \<Rightarrow> 'k informer_state \<Rightarrow> nat \<times> 'k informer_state" where
  "ClusterLoggingConfig_Informer tw s = InformerFor ''ClusterLoggingConfig'' (defaultInformer tw) s"

definition logging_informer :: "'k informer_state \<Rightarrow> nat \<times> 'k informer_state" where
  "logging_informer s =
     ClusterLoggingConfig_Informer (ClusterLoggingConfigs (V1alpha1 (Logging_group (is_factory s)))) s"

text \<open>A generic informer is an informer with its group and resource.\<close>

type_synonym generic_informer = "nat \<times> string \<times> string"

definition ForResource ::
  "string \<times> string \<times> string \<Rightarrow> 'k informer_state \<Rightarrow> (string + generic_informer) \<times> 'k informer_state" where
  "ForResource resource s =
     (if resource = (fst SchemeGroupVersion, snd SchemeGroupVersion, ''clusterloggingconfigs'')
      then (case logging_informer s of (i, t) \<Rightarrow> (Inr (i, fst resource, snd (snd resource)), t))
      else (Inl ''no informer found for the resource'', s))"

text \<open>A lister reads the indexer of an informer.\<close>

datatype indexer = IndexerOf nat

definition ClusterLoggingConfig_Lister :: "tweak \<Rightarrow> 'k informer_state \<Rightarrow> indexer \<times> 'k informer_state" where
  "ClusterLoggingConfig_Lister tw s = (case ClusterLoggingConfig_Informer tw s of (i, t) \<Rightarrow> (IndexerOf i, t))"

definition genericInformer_Lister :: "generic_informer \<Rightarrow> indexer \<times> string \<times> string" where
  "genericInformer_Lister g = (IndexerOf (fst g), snd g)"

section \<open>The watcher's informer\<close>

definition watcher_tweak :: "list_options \<Rightarrow> list_options" where
  "watcher_tweak v = v\<lparr>lo_Limit := 50\<rparr>"

definition setupInformer :: "'k \<Rightarrow> nat \<times> 'k informer_state" where
  "setupInformer clientset =
     logging_informer \<lparr>is_factory = NewSharedInformerFactoryWithOptions clientset 0 [WithTweakListOptions (Some watcher_tweak)],
       is_informers = [], is_runs = []\<rparr>"

text \<open>The probe before the informer is set up asks for at most one object.\<close>

definition probe_options :: list_options where
  "probe_options = default_list_options\<lparr>lo_Limit := 1\<rparr>"

definition watcher_probe :: "('b, 'w) transport \<Rightarrow> string option" where
  "watcher_probe clientset = snd (clc_List clientset probe_options)"

section \<open>Runs of the factory\<close>

inductive factory_reachable :: "'k informer_state \<Rightarrow> 'k informer_state \<Rightarrow> bool" for s0 where
  fr_new: "factory_reachable s0 s0"
| fr_for: "\<lbrakk>factory_reachable s0 s; InformerFor t newFunc s = (i, s')\<rbrakk> \<Longrightarrow> factory_reachable s0 s'"
| fr_start: "\<lbrakk>factory_reachable s0 s; range_of (fa_informers (is_factory s)) order\<rbrakk> \<Longrightarrow>
    factory_reachable s0 (factory_Start order s)"

definition new_state :: "'k \<Rightarrow> 64 word \<Rightarrow> 'k informer_option list \<Rightarrow> 'k informer_state" where
  "new_state client resync options =
     \<lparr>is_factory = NewSharedInformerFactoryWithOptions client resync options, is_informers = [], is_runs = []\<rparr>"

text \<open>An option of this package sets no informer.\<close>

inductive package_option :: "'k informer_option \<Rightarrow> bool" where
  "package_option (WithCustomResyncConfig r)"
| "package_option (WithTweakListOptions tw)"
| "package_option (WithNamespace ns)"

section \<open>The invariant\<close>

definition started :: "'k informer_state \<Rightarrow> string \<Rightarrow> bool" where
  "started s t \<longleftrightarrow> fmlookup (fa_startedInformers (is_factory s)) t = Some True"

definition informer_of :: "'k informer_state \<Rightarrow> string \<Rightarrow> nat option" where
  "informer_of s t = fmlookup (fa_informers (is_factory s)) t"

definition factory_inv :: "'k informer_state \<Rightarrow> bool" where
  "factory_inv s \<longleftrightarrow>
     (\<forall>t i. informer_of s t = Some i \<longrightarrow> i < length (is_informers s)) \<and>
     (\<forall>t t' i. informer_of s t = Some i \<longrightarrow> informer_of s t' = Some i \<longrightarrow> t = t') \<and>
     distinct (is_runs s) \<and>
     set (is_runs s) = {i. \<exists>t. started s t \<and> informer_of s t = Some i} \<and>
     (\<forall>t. started s t \<longrightarrow> informer_of s t \<noteq> None)"

lemma start_one_simps [simp]:
  "fa_informers (is_factory (start_one ti s)) = fa_informers (is_factory s)"
  "is_informers (start_one ti s) = is_informers s"
  "started (start_one ti s) t \<longleftrightarrow> t = fst ti \<or> started s t"
  "is_runs (start_one ti s) = (if started s (fst ti) then is_runs s else is_runs s @ [snd ti])"
  by (auto simp: start_one_def started_def Let_def)

lemma informer_of_start_one [simp]: "informer_of (start_one ti s) = informer_of s"
  by (simp add: informer_of_def fun_eq_iff)

lemma start_one_inv:
  assumes inv: "factory_inv s" and ti: "informer_of s (fst ti) = Some (snd ti)"
  shows "factory_inv (start_one ti s)"
proof (cases "started s (fst ti)")
  case True
  then have "start_one ti s = s" by (simp add: start_one_def started_def Let_def)
  then show ?thesis using inv by simp
next
  case False
  have "snd ti \<notin> set (is_runs s)"
    using inv ti False unfolding factory_inv_def by blast
  moreover have "{i. \<exists>t. (t = fst ti \<or> started s t) \<and> informer_of s t = Some i} =
      insert (snd ti) {i. \<exists>t. started s t \<and> informer_of s t = Some i}" using ti by auto
  ultimately show ?thesis using inv ti False unfolding factory_inv_def by simp
qed

lemma fold_start_informers [simp]: "informer_of (fold start_one order s) = informer_of s"
  by (induction order arbitrary: s) simp_all

lemma fold_start_started: "started (fold start_one order s) t \<longleftrightarrow> t \<in> set (map fst order) \<or> started s t"
  by (induction order arbitrary: s) auto

lemma range_of_lookup: "range_of m order \<Longrightarrow> (\<forall>ti\<in>set order. fmlookup m (fst ti) = Some (snd ti)) \<and> fst ` set order = fset (fmdom m)"
  by (auto simp: range_of_def fmlookup_of_list map_of_is_SomeI fset_of_list.rep_eq) force

lemma factory_Start_inv:
  assumes "factory_inv s" "range_of (fa_informers (is_factory s)) order"
  shows "factory_inv (factory_Start order s)"
proof -
  have "\<forall>ti\<in>set order. informer_of s (fst ti) = Some (snd ti)"
    using range_of_lookup[OF assms(2)] by (simp add: informer_of_def)
  with assms(1) have "factory_inv (fold start_one order s)"
    by (induction order arbitrary: s) (simp_all add: start_one_inv)
  then show ?thesis by (simp add: factory_Start_def)
qed

lemma InformerFor_inv:
  assumes inv: "factory_inv s" and r: "InformerFor t newFunc s = (i, s')"
  shows "factory_inv s'"
proof (cases "informer_of s t")
  case (Some j)
  then show ?thesis using inv r by (simp add: InformerFor_def informer_of_def)
next
  case None
  then have s': "informer_of s' = (informer_of s)(t \<mapsto> length (is_informers s))" "is_runs s' = is_runs s"
    "started s' = started s" "length (is_informers s') = Suc (length (is_informers s))"
    using r by (auto simp: InformerFor_def informer_of_def started_def Let_def fun_eq_iff)
  have lt: "\<And>u j. informer_of s u = Some j \<Longrightarrow> j < length (is_informers s)" and st: "\<And>u. started s u \<Longrightarrow> u \<noteq> t"
    using inv None unfolding factory_inv_def by (blast, metis)
  show ?thesis
    unfolding factory_inv_def s'
  proof (intro conjI allI impI)
    fix u u' j
    assume "((informer_of s)(t \<mapsto> length (is_informers s))) u = Some j"
      "((informer_of s)(t \<mapsto> length (is_informers s))) u' = Some j"
    then show "u = u'" using inv lt[of u] lt[of u'] unfolding factory_inv_def
      by (auto split: if_splits)
  next
    show "set (is_runs s) = {i. \<exists>u. started s u \<and> ((informer_of s)(t \<mapsto> length (is_informers s))) u = Some i}"
      using inv st unfolding factory_inv_def by auto
  qed (use inv lt st in \<open>auto simp: factory_inv_def less_Suc_eq split: if_splits\<close>)
qed

lemma factory_reachable_inv: "\<lbrakk>factory_reachable s0 s; factory_inv s0\<rbrakk> \<Longrightarrow> factory_inv s"
  by (induction rule: factory_reachable.induct) (auto intro: InformerFor_inv factory_Start_inv)

lemma InformerFor_keeps: "\<lbrakk>InformerFor t newFunc s = (i, s'); informer_of s u = Some j\<rbrakk> \<Longrightarrow> informer_of s' u = Some j"
  by (auto simp: InformerFor_def informer_of_def Let_def split: option.splits)

lemma factory_reachable_keeps: "\<lbrakk>factory_reachable s0 s; informer_of s0 t = Some i\<rbrakk> \<Longrightarrow> informer_of s t = Some i"
  by (induction rule: factory_reachable.induct) (auto simp: factory_Start_def intro: InformerFor_keeps)

lemma InformerFor_result: "InformerFor t newFunc s = (i, s') \<Longrightarrow> informer_of s' t = Some i"
  by (auto simp: InformerFor_def informer_of_def Let_def split: option.splits)

lemma package_option_fresh:
  "\<lbrakk>package_option opt; fa_informers f = fmempty; fa_startedInformers f = fmempty\<rbrakk> \<Longrightarrow>
   fa_informers (opt f) = fmempty \<and> fa_startedInformers (opt f) = fmempty"
  by (induction rule: package_option.induct)
     (simp_all add: WithCustomResyncConfig_def WithTweakListOptions_def WithNamespace_def)

lemma new_state_inv:
  assumes "\<forall>opt\<in>set options. package_option opt"
  shows "factory_inv (new_state client resync options)"
proof -
  have "fa_informers (fold (\<lambda>opt f. opt f) options f) = fmempty \<and> fa_startedInformers (fold (\<lambda>opt f. opt f) options f) = fmempty"
    if "fa_informers f = fmempty" "fa_startedInformers f = fmempty" for f
    using assms that by (induction options arbitrary: f) (simp_all add: package_option_fresh)
  then show ?thesis
    by (simp add: factory_inv_def new_state_def informer_of_def started_def NewSharedInformerFactoryWithOptions_def)
qed

text \<open>C32: Whatever the calls on a factory and in whatever order its maps are ranged over, an informer runs at
  most once, the informers that run are those of the started types, and no two types share one.  The
  informer first returned for a type is the one returned for it ever after, with any constructor, and
  nothing is built then.  After a \<open>Start\<close> every informer of the factory runs, and \<open>WaitForCacheSync\<close>
  reports on exactly those that do.\<close>

theorem informers_run_once:
  assumes "\<forall>opt\<in>set options. package_option opt" "factory_reachable (new_state client resync options) s"
  shows "distinct (is_runs s) \<and> set (is_runs s) = {i. \<exists>t. started s t \<and> informer_of s t = Some i} \<and>
    (\<forall>t t' i. informer_of s t = Some i \<and> informer_of s t' = Some i \<longrightarrow> t = t') \<and>
    (\<forall>t newFunc i s1 s2 newFunc'. InformerFor t newFunc s = (i, s1) \<and> factory_reachable s1 s2 \<longrightarrow>
       InformerFor t newFunc' s2 = (i, s2)) \<and>
    (\<forall>order. range_of (fa_informers (is_factory s)) order \<longrightarrow>
       set (is_runs (factory_Start order s)) = {i. \<exists>t. informer_of s t = Some i} \<and>
       (\<forall>synced t. fmlookup (WaitForCacheSync synced (factory_Start order s)) t = map_option synced (informer_of s t)))"
proof -
  have inv: "factory_inv s" by (rule factory_reachable_inv[OF assms(2) new_state_inv[OF assms(1)]])
  have same: "InformerFor t newFunc' s2 = (i, s2)"
    if "InformerFor t newFunc s = (i, s1)" "factory_reachable s1 s2" for t newFunc i s1 s2 newFunc'
    using factory_reachable_keeps[OF that(2) InformerFor_result[OF that(1)]] by (simp add: InformerFor_def informer_of_def)
  have start: "set (is_runs (factory_Start order s)) = {i. \<exists>t. informer_of s t = Some i} \<and>
      (\<forall>synced t. fmlookup (WaitForCacheSync synced (factory_Start order s)) t = map_option synced (informer_of s t))"
    if o: "range_of (fa_informers (is_factory s)) order" for order
  proof -
    let ?s = "factory_Start order s"
    have inv': "factory_inv ?s" by (rule factory_Start_inv[OF inv o])
    have kept: "informer_of ?s = informer_of s" by (simp add: factory_Start_def)
    have all: "started ?s t" if "informer_of s t = Some i" for t i
      using range_of_lookup[OF o] fmdomI[of "fa_informers (is_factory s)" t i] that
      by (auto simp: factory_Start_def fold_start_started informer_of_def)
    have "set (is_runs ?s) = {i. \<exists>t. informer_of s t = Some i}"
      using inv' all unfolding factory_inv_def kept by blast
    moreover have "fmlookup (WaitForCacheSync synced ?s) t = map_option synced (informer_of s t)" for synced t
    proof (cases "informer_of s t")
      case None
      then have "fmlookup (fa_informers (is_factory ?s)) t = None" using kept by (simp add: informer_of_def fun_eq_iff)
      then show ?thesis using None by (simp add: WaitForCacheSync_def)
    next
      case (Some i)
      then have "fmlookup (fa_informers (is_factory ?s)) t = Some i" using kept by (simp add: informer_of_def fun_eq_iff)
      then show ?thesis using Some all[OF Some] by (simp add: WaitForCacheSync_def started_def)
    qed
    ultimately show ?thesis by blast
  qed
  show ?thesis using inv same start unfolding factory_inv_def by blast
qed

lemma informers_run_once_witness:
  "\<exists>s. is_runs (s :: unit informer_state) = [0] \<and> distinct (is_runs s)"
proof -
  define s0 :: "unit informer_state" where "s0 = new_state () 0 []"
  define s1 where "s1 = snd (logging_informer s0)"
  have look: "fa_informers (is_factory s1) = fmap_of_list [(''ClusterLoggingConfig'', 0)]" "is_runs s1 = []"
    "fa_startedInformers (is_factory s1) = fmempty"
    by (simp_all add: s1_def s0_def logging_informer_def ClusterLoggingConfig_Informer_def InformerFor_def new_state_def
        NewSharedInformerFactoryWithOptions_def Let_def)
  have r1: "factory_reachable s0 s1"
    unfolding s1_def logging_informer_def ClusterLoggingConfig_Informer_def
    by (rule fr_for[OF fr_new, of "''ClusterLoggingConfig''" _ _ "fst (logging_informer s0)"])
       (simp add: logging_informer_def ClusterLoggingConfig_Informer_def)
  define order where "order = [(''ClusterLoggingConfig'', 0::nat)]"
  have o: "range_of (fa_informers (is_factory s1)) order" by (simp add: range_of_def look order_def)
  define s2 where "s2 = factory_Start order (factory_Start order s1)"
  have "factory_reachable s0 s2" unfolding s2_def
    by (rule fr_start[OF fr_start[OF r1 o]]) (simp add: factory_Start_def range_of_def look order_def)
  moreover have "is_runs s2 = [0]"
    by (simp add: s2_def factory_Start_def order_def start_one_def Let_def look)
  ultimately show ?thesis
    using informers_run_once[of "[]" "()" 0 s2] by (auto simp: s0_def)
qed

text \<open>Every way to the informer of the resource gives the same one.\<close>

lemma lister_reads_shared_informer:
  "logging_informer s = (i, s') \<Longrightarrow>
   ClusterLoggingConfig_Informer tw s' = (i, s') \<and> ClusterLoggingConfig_Lister tw s' = (IndexerOf i, s') \<and>
   ForResource (''logging.datakits.io'', ''v1alpha1'', ''clusterloggingconfigs'') s' =
     (Inr (i, ''logging.datakits.io'', ''clusterloggingconfigs''), s')"
proof -
  assume l: "logging_informer s = (i, s')"
  then have "informer_of s' ''ClusterLoggingConfig'' = Some i"
    unfolding logging_informer_def ClusterLoggingConfig_Informer_def by (rule InformerFor_result)
  then have same: "InformerFor ''ClusterLoggingConfig'' f s' = (i, s')" for f
    by (simp add: InformerFor_def informer_of_def)
  then show ?thesis
    by (simp add: ClusterLoggingConfig_Lister_def ClusterLoggingConfig_Informer_def ForResource_def logging_informer_def
        SchemeGroupVersion_def GroupName_def Version_def)
qed

text \<open>The informer of the logging watcher lists and watches the custom resource itself, at most 50
  objects a time and otherwise with the options its reflector chose, with the clientset the Operator made,
  without periodic resynchronisation, and the probe before it for one object; every list and every watch is one request of the typed client to the
  path of the collection, and the factory has no other informer.\<close>

theorem watcher_informer_requests:
  "case setupInformer tr of (i, s) \<Rightarrow>
     length (is_informers s) = 1 \<and> i = 0 \<and>
     (let inf = is_informers s ! i
      in in_resync inf = 0 \<and> in_type inf = ''ClusterLoggingConfig'' \<and>
         ListFunc inf opts =
           result_Into (tr_list tr) blank_list (tr_send tr (list_request (opts\<lparr>lo_Limit := 50\<rparr>))) \<and>
         WatchFunc inf opts = tr_watch tr (watch_request (opts\<lparr>lo_Limit := 50\<rparr>)) \<and>
         request_path (list_request (opts\<lparr>lo_Limit := 50\<rparr>)) =
           [''apis'', ''logging.datakits.io'', ''v1alpha1'', ''clusterloggingconfigs''] \<and>
         rq_params (list_request (opts\<lparr>lo_Limit := 50\<rparr>)) = ListParams (opts\<lparr>lo_Limit := 50\<rparr>) \<and>
         rq_params (watch_request (opts\<lparr>lo_Limit := 50\<rparr>)) = ListParams (opts\<lparr>lo_Limit := 50, lo_Watch := True\<rparr>) \<and>
         rq_verb (list_request (opts\<lparr>lo_Limit := 50\<rparr>)) = GET) \<and>
     watcher_probe tr = snd (result_Into (tr_list tr) blank_list (tr_send tr (list_request probe_options))) \<and>
     lo_Limit probe_options = 1"
  by (simp add: setupInformer_def logging_informer_def ClusterLoggingConfig_Informer_def InformerFor_def Let_def
      NewSharedInformerFactoryWithOptions_def WithTweakListOptions_def ClusterLoggingConfigs_def V1alpha1_def
      Logging_group_def defaultInformer_def NewFilteredClusterLoggingConfigInformer_def ListFunc_def WatchFunc_def
      clc_List_def clc_Watch_def do_request_def tweaked_def watcher_tweak_def request_defs request_path_def plural_def
      GroupName_def Version_def watcher_probe_def probe_options_def)

lemma ForResource_shares_informer:
  "ForResource (''logging.datakits.io'', ''v1alpha1'', ''clusterloggingconfigs'') s =
     (Inr (fst (logging_informer s), ''logging.datakits.io'', ''clusterloggingconfigs''), snd (logging_informer s))"
  by (simp add: ForResource_def SchemeGroupVersion_def GroupName_def Version_def split: prod.splits)

end
