(* ===== verification/Logging_Resource.thy ===== *)
theory Logging_Resource
  imports CRD_Types Logging_Watcher Json_Patch
begin

text \<open>
  From the custom resource to DataKit: what the cache marshals (\<open>json.Marshal(config.Spec.Configs)\<close> in
  \<open>apis/logging/config/cache.go\<close>, with the struct tags of
  \<open>pkg/kubernetes/pkg/apis/datakits/v1alpha1/types.go\<close>), and the configuration that the watcher, the cache
  and the handler together answer for the resources of the informer's store.
\<close>

section \<open>The JSON of the log configurations\<close>

definition config_fields :: "val_config \<Rightarrow> (string \<times> json option) list" where
  "config_fields c =
     [(''type'', Some (JStr (cg_Type c))), (''source'', Some (JStr (cg_Source c))),
      (''disable'', omit_bool (cg_Disable c)), (''path'', omit_str (cg_Path c)),
      (''storage_index'', omit_str (cg_StorageIndex c)), (''service'', omit_str (cg_Service c)),
      (''character_encoding'', omit_str (cg_CharacterEncoding c)), (''pipeline'', omit_str (cg_Pipeline c)),
      (''multiline_match'', omit_str (cg_Multiline c)),
      (''remove_ansi_escape_codes'', omit_bool (cg_RemoveAnsiEscapeCodes c)),
      (''from_beginning'', omit_bool (cg_FromBeginning c)),
      (''from_beginning_threshold_size'', omit_int (sint (cg_FromBeginningThresholdSize c))),
      (''tags'', case cg_Tags c of None \<Rightarrow> None | Some m \<Rightarrow> omit_map JStr m)]"

definition config_json :: "val_config \<Rightarrow> json" where
  "config_json c = obj (config_fields c) fmempty"

text \<open>A nil slice is \<open>null\<close>.\<close>

definition configs_json :: "val_config list option \<Rightarrow> json" where
  "configs_json cs = (case cs of None \<Rightarrow> JNull | Some xs \<Rightarrow> JArr (map config_json xs))"

text \<open>What the cache reads of a resource, and the codecs: marshalling strings, flags, numbers and maps of
  strings never fails; \<open>text\<close> writes a JSON value.\<close>

definition crd_logging_config :: "val_object \<Rightarrow> val_config list option logging_config" where
  "crd_logging_config x = \<lparr>lg_Selector = sp_Selector (cl_Spec x),
     lg_PodTargetLabels = (case sp_PodTargetLabels (cl_Spec x) of None \<Rightarrow> [] | Some ls \<Rightarrow> ls),
     lg_Configs = sp_Configs (cl_Spec x)\<rparr>"

definition resource_codecs ::
  "(string \<Rightarrow> (string \<Rightarrow> bool) option) \<Rightarrow> (string \<Rightarrow> (string \<Rightarrow> bool) option) \<Rightarrow> (json \<Rightarrow> string) \<Rightarrow>
   val_config list option logging_codecs" where
  "resource_codecs re glob json_text =
     \<lparr>lk_regex = re, lk_glob = glob, lk_marshal = (\<lambda>cs. Some (json_text (configs_json cs)))\<rparr>"

section \<open>Nothing is lost in the JSON\<close>

text \<open>A field is present or not; the empty map of tags is not.\<close>

definition same_config :: "val_config \<Rightarrow> val_config \<Rightarrow> bool" where
  "same_config c d \<longleftrightarrow> c\<lparr>cg_Tags := None\<rparr> = d\<lparr>cg_Tags := None\<rparr> \<and>
     (case cg_Tags c of None \<Rightarrow> fmempty | Some m \<Rightarrow> m) = (case cg_Tags d of None \<Rightarrow> fmempty | Some m \<Rightarrow> m)"

lemma put_lookup: "fmlookup (put k v m) j = (if j = k then v else fmlookup m j)"
  by (auto simp: put_def split: option.splits)

lemma fields_lookup:
  "fmlookup (foldr (\<lambda>(k, v). put k v) kvs m) j = (case map_of kvs j of None \<Rightarrow> fmlookup m j | Some v \<Rightarrow> v)"
  by (induction kvs) (auto simp: put_lookup)

lemma obj_inject:
  assumes keys: "map fst kvs = map fst kvs'" "distinct (map fst kvs)" and eq: "obj kvs fmempty = obj kvs' fmempty"
  shows "kvs = kvs'"
proof (rule nth_equalityI)
  show len: "length kvs = length kvs'" using arg_cong[OF keys(1), of length] by simp
  fix i assume i: "i < length kvs"
  have k: "fst (kvs ! i) = fst (kvs' ! i)" using i len arg_cong[OF keys(1), of "\<lambda>ks. ks ! i"] by simp
  have "map_of kvs (fst (kvs ! i)) = Some (snd (kvs ! i))" using keys(2) i by (simp add: map_of_eq_Some_iff)
  moreover have "map_of kvs' (fst (kvs ! i)) = Some (snd (kvs' ! i))"
    using keys i len by (simp add: k map_of_eq_Some_iff)
  ultimately have "snd (kvs ! i) = snd (kvs' ! i)"
    using eq fields_lookup[of kvs fmempty "fst (kvs ! i)"] fields_lookup[of kvs' fmempty "fst (kvs ! i)"]
    by (simp add: obj_def)
  then show "kvs ! i = kvs' ! i" using k by (simp add: prod_eq_iff)
qed

lemma config_fields_keys:
  "map fst (config_fields c) = [''type'', ''source'', ''disable'', ''path'', ''storage_index'', ''service'',
     ''character_encoding'', ''pipeline'', ''multiline_match'', ''remove_ansi_escape_codes'', ''from_beginning'',
     ''from_beginning_threshold_size'', ''tags'']"
  by (simp add: config_fields_def)

lemma config_keys_distinct: "distinct (map fst (config_fields c))"
  unfolding config_fields_keys by simp

lemma omit_inj:
  "omit_str s = omit_str t \<longleftrightarrow> s = t" "omit_bool a = omit_bool b \<longleftrightarrow> a = b" "omit_int i = omit_int j \<longleftrightarrow> i = j"
  by (auto simp: omit_str_def omit_bool_def omit_int_def)

lemma omit_map_inj: "omit_map JStr m = omit_map JStr n \<longleftrightarrow> m = n"
proof
  have e: "fmdom p = {||} \<longleftrightarrow> p = fmempty" for p :: go_map by (metis fmdom_empty fmrestrict_fset_dom fmrestrict_fset_null)
  have i: "p = q" if "fmmap JStr p = fmmap JStr q" for p q :: go_map
  proof (rule fmap_ext)
    fix k show "fmlookup p k = fmlookup q k"
      using arg_cong[OF that, of "\<lambda>f. fmlookup f k"] by (cases "fmlookup p k"; cases "fmlookup q k") simp_all
  qed
  assume "omit_map JStr m = omit_map JStr n"
  then show "m = n" using i by (auto simp: omit_map_def e split: if_splits)
qed simp

lemma sint_inject: "sint v = sint w \<longleftrightarrow> v = w"
  by (rule iffI[OF signed_word_eqI]) auto

lemma omit_tags: "(case t of None \<Rightarrow> None | Some m \<Rightarrow> omit_map JStr m) =
    omit_map JStr (case t of None \<Rightarrow> fmempty | Some m \<Rightarrow> m)"
  by (cases t) (simp_all add: omit_map_def)

text \<open>C34: The JSON of a log configuration determines it: two configurations with the same JSON agree in every
  field, in all 64 bits of the threshold and in every tag; only a nil map of tags and an empty one are the
  same.  So do two lists of configurations, and no list has the JSON of a missing one.\<close>

theorem configs_json_faithful:
  "configs_json cs = configs_json ds \<longleftrightarrow>
     (case (cs, ds) of (None, None) \<Rightarrow> True | (Some xs, Some ys) \<Rightarrow> list_all2 same_config xs ys | _ \<Rightarrow> False)"
proof -
  have one: "config_json c = config_json d \<longleftrightarrow> same_config c d" for c d
  proof -
    have "config_json c = config_json d \<longleftrightarrow> config_fields c = config_fields d"
      unfolding config_json_def
      using obj_inject[of "config_fields c" "config_fields d"] config_keys_distinct by (auto simp: config_fields_keys)
    also have "\<dots> \<longleftrightarrow> same_config c d"
      by (cases c; cases d) (simp add: config_fields_def same_config_def omit_tags omit_inj omit_map_inj sint_inject)
    finally show ?thesis .
  qed
  have "map config_json xs = map config_json ys \<longleftrightarrow> list_all2 same_config xs ys" for xs ys
    by (simp add: list_eq_iff_nth_eq list_all2_conv_all_nth one cong: conj_cong)
  then show ?thesis by (simp add: configs_json_def split: option.splits)
qed

section \<open>What DataKit is answered\<close>

text \<open>A selector of a resource accepts a Pod: an expression that is empty, does not compile or does not apply
  accepts everything.\<close>

definition resource_accepts ::
  "(string \<Rightarrow> (string \<Rightarrow> bool) option) \<Rightarrow> (string \<Rightarrow> (string \<Rightarrow> bool) option) \<Rightarrow> logging_selector \<Rightarrow>
   string \<Rightarrow> string \<Rightarrow> string \<Rightarrow> bool" where
  "resource_accepts re glob sel namespace podName podLabels \<longleftrightarrow>
     (ls_NamespaceRegex sel = [] \<or> (case re (ls_NamespaceRegex sel) of None \<Rightarrow> True | Some f \<Rightarrow> f namespace)) \<and>
     (ls_PodRegex sel = [] \<or> (case re (ls_PodRegex sel) of None \<Rightarrow> True | Some f \<Rightarrow> f podName)) \<and>
     (podLabels = [] \<or> ls_PodLabelSelector sel = [] \<or>
        (case Parse glob (ls_PodLabelSelector sel) of
           POk l _ \<Rightarrow> selector_Matches l (parseLabels podLabels) | _ \<Rightarrow> True))"

lemma compile_resource:
  "compile_config (resource_codecs re glob json_text) key cfg = Some \<lparr>cc_name = key,
     cc_podTargetLabels = lg_PodTargetLabels cfg, cc_configs = json_text (configs_json (lg_Configs cfg)),
     cc_namespaceRegex = compile_regex re (ls_NamespaceRegex (lg_Selector cfg)),
     cc_podRegex = compile_regex re (ls_PodRegex (lg_Selector cfg)),
     cc_podLabelSelector = compile_selector glob (ls_PodLabelSelector (lg_Selector cfg))\<rparr>"
  by (simp add: compile_config_def resource_codecs_def Let_def)

text \<open>The container expression of a resource changes nothing in what is cached.\<close>

lemma container_regex_unread:
  "compile_config (resource_codecs re glob json_text) key
     (cfg\<lparr>lg_Selector := (lg_Selector cfg)\<lparr>ls_ContainerRegex := x\<rparr>\<rparr>) =
   compile_config (resource_codecs re glob json_text) key cfg"
  by (simp add: compile_resource)

lemma compiled_matches:
  "compile_config (resource_codecs re glob json_text) key cfg = Some c \<Longrightarrow>
   matchesSelector c ns pod labels \<longleftrightarrow> resource_accepts re glob (lg_Selector cfg) ns pod labels"
  unfolding compile_resource option.inject matchesSelector_def resource_accepts_def compile_regex_def compile_selector_def
  by (drule sym, cases "re (ls_NamespaceRegex (lg_Selector cfg))"; cases "re (ls_PodRegex (lg_Selector cfg))";
      cases "Parse glob (ls_PodLabelSelector (lg_Selector cfg))") simp_all

lemma synced_entries:
  assumes "watcher_reachable k s" "watcher_quiet s" "wt_lost s = {}" "\<forall>key. wt_store s key \<noteq> Some ForeignObject"
    and total: "\<And>key cfg. compile_config k key cfg \<noteq> None"
  shows "c \<in> set (wt_cache s) \<longleftrightarrow>
    (\<exists>cfg. wt_store s (cc_name c) = Some (StoredConfig cfg) \<and> compile_config k (cc_name c) cfg = Some c)"
proof -
  have dist: "distinct_names (wt_cache s)" using watcher_reachable_inv[OF assms(1)] by (simp add: watcher_inv_def)
  have look: "lookup_config (wt_cache s) n = Some d \<longleftrightarrow> d \<in> set (wt_cache s) \<and> cc_name d = n" for n d
    using dist unfolding lookup_config_def distinct_names_def
    by (induction "wt_cache s" rule: list.induct) (auto simp: find_Some_iff in_set_conv_nth distinct_conv_nth)
  have exp: "expected k (cc_name c) (wt_store s (cc_name c)) (lookup_config (wt_cache s) (cc_name c))"
    by (rule quiet_synced[OF assms(1,2)]) (simp add: assms(3))
  show ?thesis
  proof (cases "wt_store s (cc_name c)")
    case None
    then show ?thesis using exp look[of "cc_name c" c] by (simp add: expected_def)
  next
    case (Some x)
    then obtain cfg where x: "wt_store s (cc_name c) = Some (StoredConfig cfg)" using assms(4) by (cases x) auto
    obtain d where d: "compile_config k (cc_name c) cfg = Some d" using total by blast
    then have "lookup_config (wt_cache s) (cc_name c) = Some d" using exp x by (simp add: expected_def)
    then have "c \<in> set (wt_cache s) \<longleftrightarrow> d = c" using look[of "cc_name c" c] look[of "cc_name c" d] by auto
    then show ?thesis using x d by simp
  qed
qed

text \<open>So the cache matches a Pod exactly when a resource does.\<close>

lemma served_entry:
  assumes "watcher_reachable (resource_codecs re glob json_text) s" "watcher_quiet s" "wt_lost s = {}"
    and "\<forall>key. wt_store s key \<noteq> Some ForeignObject"
  shows "(\<exists>c \<in> set (wt_cache s). matchesSelector c ns pod labels) \<longleftrightarrow>
      (\<exists>key cfg. wt_store s key = Some (StoredConfig cfg) \<and> resource_accepts re glob (lg_Selector cfg) ns pod labels)"
    and "\<lbrakk>c \<in> set (wt_cache s); matchesSelector c ns pod labels\<rbrakk> \<Longrightarrow>
      \<exists>cfg. wt_store s (cc_name c) = Some (StoredConfig cfg) \<and> resource_accepts re glob (lg_Selector cfg) ns pod labels \<and>
        cc_podTargetLabels c = lg_PodTargetLabels cfg \<and> cc_configs c = json_text (configs_json (lg_Configs cfg))"
proof -
  let ?k = "resource_codecs re glob json_text"
  have entry: "c \<in> set (wt_cache s) \<longleftrightarrow> (\<exists>cfg. wt_store s (cc_name c) = Some (StoredConfig cfg) \<and>
      compile_config ?k (cc_name c) cfg = Some c)" for c
    by (rule synced_entries[OF assms]) (simp add: compile_resource)
  show one: "\<exists>cfg. wt_store s (cc_name c) = Some (StoredConfig cfg) \<and> resource_accepts re glob (lg_Selector cfg) ns pod labels \<and>
        cc_podTargetLabels c = lg_PodTargetLabels cfg \<and> cc_configs c = json_text (configs_json (lg_Configs cfg))"
    if c: "c \<in> set (wt_cache s)" "matchesSelector c ns pod labels" for c
  proof -
    obtain cfg where cfg: "wt_store s (cc_name c) = Some (StoredConfig cfg)" "compile_config ?k (cc_name c) cfg = Some c"
      using entry c(1) by blast
    moreover have "cc_podTargetLabels c = lg_PodTargetLabels cfg" "cc_configs c = json_text (configs_json (lg_Configs cfg))"
      using cfg(2) unfolding compile_resource option.inject by (metis cached_config.select_convs)+
    ultimately show ?thesis using compiled_matches[OF cfg(2)] c(2) by blast
  qed
  have "\<exists>c \<in> set (wt_cache s). matchesSelector c ns pod labels"
    if "wt_store s key = Some (StoredConfig cfg)" "resource_accepts re glob (lg_Selector cfg) ns pod labels" for key cfg
  proof -
    obtain c where c: "compile_config ?k key cfg = Some c" by (simp add: compile_resource)
    then have "cc_name c = key" by (rule compile_name)
    then show ?thesis using entry[of c] compiled_matches[OF c] that c by blast
  qed
  then show "(\<exists>c \<in> set (wt_cache s). matchesSelector c ns pod labels) \<longleftrightarrow>
      (\<exists>key cfg. wt_store s key = Some (StoredConfig cfg) \<and> resource_accepts re glob (lg_Selector cfg) ns pod labels)"
    using one by blast
qed

text \<open>C13: Once the watcher is quiet, DataKit is answered by the resources of the API server.  A Pod gets 200
  exactly when some resource in the informer's store accepts it, and 404 otherwise; what it gets is the name,
  the target labels and the JSON of the configurations of one of those resources, unchanged, however the
  resources were created, changed and deleted before.\<close>

theorem resources_served:
  assumes "watcher_reachable (resource_codecs re glob json_text) s" "watcher_quiet s" "wt_lost s = {}"
    and "\<forall>key. wt_store s key \<noteq> Some ForeignObject" "\<forall>j. json_text j \<noteq> []" "namespace \<noteq> []" "podName \<noteq> []"
  shows "case HandleConfigs (wt_cache s) namespace podName podLabels of (status, r) \<Rightarrow>
     status = (if \<exists>key cfg. wt_store s key = Some (StoredConfig cfg) \<and>
                  resource_accepts re glob (lg_Selector cfg) namespace podName podLabels then 200 else 404) \<and>
     (status = 200 \<longrightarrow> (\<exists>cfg. wt_store s (lr_Name r) = Some (StoredConfig cfg) \<and>
        resource_accepts re glob (lg_Selector cfg) namespace podName podLabels \<and>
        lr_PodTargetLabels r = lg_PodTargetLabels cfg \<and> lr_Configs r = json_text (configs_json (lg_Configs cfg))))"
proof (cases "find (\<lambda>c. matchesSelector c namespace podName podLabels) (wt_cache s)")
  case None
  then have "\<not> (\<exists>c \<in> set (wt_cache s). matchesSelector c namespace podName podLabels)" by (auto simp: find_None_iff)
  then have "\<not> (\<exists>key cfg. wt_store s key = Some (StoredConfig cfg) \<and>
      resource_accepts re glob (lg_Selector cfg) namespace podName podLabels)"
    by (simp add: served_entry(1)[OF assms(1-4)])
  then show ?thesis using None assms(6,7) by (simp add: HandleConfigs_def findMatchingConfigs_def)
next
  case (Some c)
  then have c: "c \<in> set (wt_cache s)" "matchesSelector c namespace podName podLabels"
    using find_SomeD by (fastforce dest: find_SomeD)+
  obtain cfg where cfg: "wt_store s (cc_name c) = Some (StoredConfig cfg)"
      "resource_accepts re glob (lg_Selector cfg) namespace podName podLabels"
      "cc_podTargetLabels c = lg_PodTargetLabels cfg" "cc_configs c = json_text (configs_json (lg_Configs cfg))"
    using served_entry(2)[OF assms(1-4) c] by blast
  then have "HandleConfigs (wt_cache s) namespace podName podLabels = (200, \<lparr>lr_Name = cc_name c,
      lr_PodTargetLabels = lg_PodTargetLabels cfg, lr_Configs = json_text (configs_json (lg_Configs cfg)), lr_Error = []\<rparr>)"
    using Some assms(5-7) by (simp add: HandleConfigs_def findMatchingConfigs_def)
  then show ?thesis using cfg(1,2) by auto
qed

text \<open>A resource for the namespace \<open>prod\<close>, stored, notified, read and compiled.\<close>

definition example_resource :: val_object where
  "example_resource = \<lparr>cl_TypeMeta = zero_type_meta, cl_ObjectMeta = meta_view store_empty zero_meta,
     cl_Spec = \<lparr>sp_Selector = zero_selector\<lparr>ls_NamespaceRegex := ''prod''\<rparr>, sp_PodTargetLabels = Some [''app''],
       sp_Configs = None\<rparr>\<rparr>"

definition example_re :: "string \<Rightarrow> (string \<Rightarrow> bool) option" where
  "example_re s = Some (\<lambda>x. x = s)"

lemma resources_served_witness:
  "\<exists>s. watcher_run (resource_codecs example_re example_re (\<lambda>_. ''null''))
       [Change ''a'' (Some (StoredConfig (crd_logging_config example_resource))), Notify, Get ''a'', Read, Apply]
       watcher_start = Some s \<and>
     fst (HandleConfigs (wt_cache s) ''prod'' ''p'' []) = 200 \<and> fst (HandleConfigs (wt_cache s) ''dev'' ''p'' []) = 404"
proof -
  let ?k = "resource_codecs example_re example_re (\<lambda>_. ''null'')"
  obtain s where s: "watcher_run ?k [Change ''a'' (Some (StoredConfig (crd_logging_config example_resource))), Notify,
        Get ''a'', Read, Apply] watcher_start = Some s" "watcher_quiet s" "wt_lost s = {}"
      "wt_store s = (\<lambda>_. None)(''a'' := Some (StoredConfig (crd_logging_config example_resource)))"
    by (simp add: watcher_start_def watcher_quiet_def enqueue_def)
  have "watcher_reachable ?k s" by (rule reach_run[OF reach_start s(1)])
  note served = resources_served[OF this s(2,3), of _ "''p''" "[]"]
  have acc: "resource_accepts example_re example_re (lg_Selector (crd_logging_config example_resource)) ns ''p'' [] \<longleftrightarrow> ns = ''prod''" for ns
    by (simp add: resource_accepts_def crd_logging_config_def example_resource_def zero_selector_def example_re_def)
  have none: "\<not> (\<exists>key cfg. wt_store s key = Some (StoredConfig cfg) \<and>
      resource_accepts example_re example_re (lg_Selector cfg) ''dev'' ''p'' [])"
    and one: "\<exists>key cfg. wt_store s key = Some (StoredConfig cfg) \<and>
      resource_accepts example_re example_re (lg_Selector cfg) ''prod'' ''p'' []"
    using acc by (auto simp: s(4))
  have "\<forall>key. wt_store s key \<noteq> Some ForeignObject" by (simp add: s(4))
  then have "fst (HandleConfigs (wt_cache s) ''dev'' ''p'' []) = 404" "fst (HandleConfigs (wt_cache s) ''prod'' ''p'' []) = 200"
    using served[of "''dev''"] served[of "''prod''"] none one by (simp_all add: case_prod_beta)
  then show ?thesis using s(1) by blast
qed

end
