(* ===== verification/Spec2Isabelle.thy ===== *)
theory Spec2Isabelle
  imports Election_System Labels_Sorting Config_Log OTel_Log Election_Metrics Election_Readiness Webhook Logging_Watcher Cluster_Pods
    Server Doc_Translation Labels_Store CRD_Fake Informer_Factory Logging_Resource
begin

text \<open>
  A verification development for DataKit Operator, the Kubernetes operator which injects DataKit
  components into Pods and coordinates DataKit elections.

  \<^bold>\<open>The program.\<close>  One process (\<open>cmd/main.go\<close>, \<open>apis/server.go\<close>) serves four independent APIs:

  \<^item> the admission webhook (\<open>apis/webhook\<close>), which runs every new Pod through a chain of mutations
    (tracing, logfwd, flameshot, profiler, logging) chosen by the rules of the configuration
    (\<open>config\<close>), and answers with a JSON patch;
  \<^item> the election API (\<open>apis/election\<close>), which keeps one Kubernetes Lease per scope and hands out
    fencing epochs;
  \<^item> the logging configuration API (\<open>apis/logging\<close>), a cache of custom resources kept up to date by a
    watcher;
  \<^item> the Pod API (\<open>apis/cluster\<close>), read-only views of an informer's store.

  \<^bold>\<open>Theories, from the bottom.\<close>

  \<^item> \<open>Prelude\<close> has generic lemmas on lists and relations; \<open>Go_Strings\<close> has the functions of Go's
    standard library on strings, numbers and paths (strings are byte lists); \<open>Kube_Types\<close> has the Pod
    with its containers, volumes and environment, and JSON values.
  \<^item> \<open>Pod_Manager\<close> models \<open>pkg/manager\<close> and \<open>pkg/podcompare\<close>; the locale \<open>named_items\<close> is the contract
    of its four lists.  \<open>Pod_Extends\<close> defines what a mutation may do (\<open>pod_le\<close>), well-formed Pods
    (\<open>wf_pod\<close>) and the locales \<open>pod_mutation\<close> and \<open>safe_mutation\<close>, the interface between the
    injectors and the webhook.
  \<^item> \<open>Json_Patch\<close> is RFC 6902 with an interpreter; \<open>Pod_Patch\<close> models \<open>apis/webhook/pod_patch.go\<close>.
  \<^item> \<open>Env_Builder\<close> models \<open>pkg/envbuilder\<close>, with \<open>env_reference\<close>, the spellings of references, as its specification.
  \<^item> \<open>Labels\<close>, \<open>Labels_Parser\<close>, \<open>Labels_Roundtrip\<close> and \<open>Labels_Sorting\<close> model \<open>pkg/labels\<close>: requirements and
    selectors, the lexer and the parser, that printed selectors are read back, and that nothing but the order
    of requirements of one key depends on the sort; the locale \<open>key_sort\<close> is the contract of \<open>sort.Sort\<close>.
  \<^item> \<open>Go_Store\<close> is an explicit store for the code in which aliases matter: slices, pointers and maps
    are references, and what code holds is the set of cells it can reach.  Its locales are the contract of
    a deep copy: \<open>deep_copy\<close> of a value, \<open>deep_array\<close> of an array of such values, \<open>flat_array\<close> and
    \<open>map_cell\<close> of values without references.  \<open>CRD_Types\<close> has the custom resource with its generated
    \<open>DeepCopyInto\<close>, \<open>DeepCopy\<close> and \<open>DeepCopyObject\<close> functions, an interpretation for every type of
    cell; \<open>Labels_Store\<close> has the selectors of \<open>Labels\<close> with their slices in memory.
  \<^item> \<open>Config\<close> models \<open>config\<close>: rules, their set-up and matching, deprecated sections, loading;
    \<open>Config_Log\<close> has the entries which its set-up logs.
  \<^item> \<open>Injector_Utils\<close>, \<open>DDTrace\<close>, \<open>OTel\<close>, \<open>Tracing\<close>, \<open>Sidecar\<close>, \<open>Logfwd\<close>, \<open>Flameshot\<close> and \<open>Profiler\<close>
    model the files of \<open>apis/webhook/injector\<close>; \<open>Mutate_Logging\<close> models \<open>apis/webhook/mutator\<close>.  The
    locale \<open>sidecar\<close> holds what the three sidecar injectors share.  \<open>OTel_Log\<close> has the entries of \<open>OTel\<close>.
  \<^item> \<open>Webhook\<close> composes them as \<open>apis/webhook/mutate.go\<close> and \<open>handle.go\<close> do.  Every injector is an
    interpretation of \<open>safe_mutation\<close>; the locale \<open>chained\<close>, with a \<open>sublocale\<close>, gives the chain.
  \<^item> \<open>Lease\<close>, \<open>Lease_Observation\<close> and \<open>Coordinator\<close> model \<open>apis/election\<close>: the Lease with its 32-bit
    epoch, the observation table, and a request as a program over reads and writes of the cluster.
    \<open>Election_Traces\<close> states what one request does in any environment; \<open>Election_System\<close> runs many
    requests, interleaved at every access, against one cluster; \<open>Election_Metrics\<close> and
    \<open>Election_Readiness\<close> have the counters, the informer's flag and the namespace.
  \<^item> \<open>Logging_Cache\<close> and \<open>Logging_Watcher\<close> model \<open>apis/logging\<close>: the cache as a keyed store, and the
    watcher as a step system.  \<open>Cluster_Pods\<close> models \<open>apis/cluster\<close>.
  \<^item> \<open>CRD_Client\<close>, \<open>CRD_Fake\<close> and \<open>Informer_Factory\<close> model \<open>pkg/kubernetes/pkg/client\<close>: the typed client
    and its requests, the clientset, the fake client, and the shared informers that the watcher of
    \<open>apis/logging\<close> is built on.  \<open>Logging_Resource\<close> ties the custom resource to the cache: its JSON, and
    what DataKit is answered for the resources in the informer's store.
  \<^item> \<open>Loggers\<close> models the logger of every package (the \<open>setup.go\<close> files, \<open>initLogger\<close>) and the part of the
    vendored \<open>cliutils/logger\<close> that decides what a logger writes to.
  \<^item> \<open>Server\<close> models \<open>apis/server.go\<close>, \<open>cmd/main.go\<close> and \<open>pkg/kubernetes/client\<close>: which parts start,
    the routes to the handlers above, and the process from its initialisation to its exit status.  \<open>Doc_Translation\<close> models the two checkers under \<open>cmd\<close>.

  \<^bold>\<open>What is shown.\<close>

  \<^item> \<open>Webhook.admission_patch_applies\<close>: the returned JSON patch, applied to the submitted Pod, gives
    the mutated Pod.  Of a Pod the mutations change only what \<open>mutatePod_conservative\<close> lists: they append, add
    annotations where they are absent, extend the values of six variables, and restart and share the process namespace
    for profiling; they keep Pods well formed and never panic (\<open>admissions_well_formed\<close>), and a review is always admitted whatever configuration was
    loaded (\<open>Server.loaded_operator_admits\<close>).
  \<^item> Each injection is complete when it happens, validated, exclusive and idempotent (\<open>DDTrace\<close>,
    \<open>OTel\<close>, \<open>Tracing\<close>, \<open>Logfwd\<close>, \<open>Flameshot\<close>, \<open>Profiler\<close>); the whole chain is not idempotent
    (\<open>Webhook.reinvocation_instruments_sidecars\<close>).  Environment entries become references exactly when they are spelled as
    one (\<open>Env_Builder\<close>), and the handler's status and body follow from what it was sent (\<open>Webhook\<close>).
  \<^item> A Lease changes holder only after a full lease duration without a renewal, a successful campaign
    wrote one version and alone acquired its term, and no two of them share the epoch of one Lease object (\<open>Election_System\<close>); a request is justified by what it read, bounded, and succeeds when
    nothing opposes it (\<open>Election_Traces\<close>).
  \<^item> Rules select exactly the Pods their entries describe, whatever is configured loads to usable
    resources (\<open>Config\<close>), and a rule is logged as disabled exactly when it can match no Pod
    (\<open>Config_Log\<close>); the selector parser is total, means what is documented and, whatever the sort does,
    inverts printing.
  \<^item> The logging cache converges to the store in every interleaving (\<open>Logging_Watcher\<close>), and DataKit is
    then answered exactly by the resources that accept the Pod, with their configurations unchanged
    (\<open>Logging_Resource\<close>).
  \<^item> A deep copy of a custom resource or of a selector shares nothing with the original: no later writes
    through one of them are seen through the other (\<open>CRD_Types\<close>, \<open>Labels_Store\<close>).
  \<^item> An informer factory runs each informer once whatever the calls, and the watcher's informer asks for
    the custom resource and nothing else (\<open>Informer_Factory\<close>); a call on one resource never addresses the
    collection (\<open>CRD_Client\<close>).
  \<^item> The Kubernetes client alone decides whether the Operator starts, failures of optional parts stay confined, and which failures end the process, with which status, and
    the level each package logs at, are those of \<open>process_outcome\<close> (\<open>Server\<close>); tokens are not logged, and the translation
    check accepts exactly the up-to-date translations (\<open>Doc_Translation\<close>).

  \<^bold>\<open>Conventions.\<close>  An error return is \<open>Inl\<close> or a constructor, a panic is \<open>None\<close>, a nil pointer is
  \<open>None\<close>.  A Pod has the fields the program reads or writes; the others are kept in one JSON object, so that
  nothing can change them unnoticed.  A nil and an empty slice are the same list, as they are for every
  comparison the program makes.  Log output is left out, except in \<open>Server\<close>,
  \<open>Config_Log\<close> and \<open>OTel_Log\<close>.  Values have no aliases
  except over \<open>Go_Store\<close>, where copying is what the code is for; there nil and empty slices differ too.

  \<^bold>\<open>Parameters.\<close>  Code which is not in the repository is an argument of the definitions using it: glob
  and regular-expression compilation, building a logger, JSON decoding and marshalling, \<open>resource.ParseQuantity\<close>, SHA-256,
  Kubernetes validation of names, the transport and the decoders of \<open>client-go\<close>, and the answers of the
  API server.  The only
  hypotheses on them are that a logger can be built, that a sort permutes into ascending keys, and that
  the program's own default resource requirements parse; loading a configuration then makes all its
  resources parse (\<open>Config.loaded_resources_parse\<close>), which the
  properties of the webhook assume of a configuration.

  \<^bold>\<open>Bounds.\<close>  The retry loop of an election request has the code's own limit of five attempts and needs
  no other fuel.  The lexer, the parser and the scanners terminate because their input shrinks.  Epochs
  are 32-bit words and wrap in the model as in the code.  Sorting requirements by key is stable in
  \<open>Labels\<close>, as Go's sort is up to twelve elements; longer selectors may print requirements of one key in
  another order, which \<open>Labels_Sorting\<close> covers by leaving the sort unspecified.

  \<^bold>\<open>Not modelled.\<close>  The output of log entries, TLS, signals and the HTTP framework; the inside of \<open>client-go\<close> (its
  reflectors, the HTTP transport, the object tracker behind the fake client); mutexes, whose critical sections
  are single steps; and the delays of the work queue, which only postpone steps that may happen at any time.
\<close>

end
